(* ===== verification/Lnurl_Prelude.thy ===== *)
theory Lnurl_Prelude
  imports
    Main
    "HOL-Library.Word"
    "HOL-Library.Char_ord"
    "HOL-Library.List_Lexorder"
begin

text \<open>
  Shared vocabulary of the development: fallible results, Rust's machine integers, the string
  functions of Rust's standard library, and database tables as lists of rows.

  A Rust string is a list of Unicode scalar values. HOL's \<^typ>\<open>char\<close> has 256 values, which
  are read here as the scalar values U+0000 to U+00FF; on that range the functions below are
  exactly \<open>str::trim\<close>, \<open>str::to_lowercase\<close>, \<open>str::len\<close> (UTF-8 bytes) and their kin.
\<close>

named_theorems table_simps \<open>rewriting of table operations and the keys of their rows\<close>
named_theorems rust_simps \<open>unfolding of the modelled standard-library functions\<close>

section \<open>Results\<close>

text \<open>\<open>Result<T, E>\<close> is \<open>'e + 'a\<close>: \<open>Inl\<close> is \<open>Err\<close>, \<open>Inr\<close> is \<open>Ok\<close>.
  \<open>bind_res\<close> is the \<open>?\<close> operator, \<open>ok_or\<close> is \<open>Option::ok_or\<close>.\<close>

definition bind_res :: "'e + 'a \<Rightarrow> ('a \<Rightarrow> 'e + 'b) \<Rightarrow> 'e + 'b" where
  "bind_res r f = (case r of Inl e \<Rightarrow> Inl e | Inr x \<Rightarrow> f x)"

definition map_err :: "('e \<Rightarrow> 'f) \<Rightarrow> 'e + 'a \<Rightarrow> 'f + 'a" where
  "map_err g r = (case r of Inl e \<Rightarrow> Inl (g e) | Inr x \<Rightarrow> Inr x)"

definition ok_or :: "'e \<Rightarrow> 'a option \<Rightarrow> 'e + 'a" where
  "ok_or e opt = (case opt of None \<Rightarrow> Inl e | Some x \<Rightarrow> Inr x)"

definition is_ok :: "'e + 'a \<Rightarrow> bool" where
  "is_ok r = (case r of Inl _ \<Rightarrow> False | Inr _ \<Rightarrow> True)"

definition opt_or :: "'a option \<Rightarrow> 'a option \<Rightarrow> 'a option" where
  "opt_or a b = (case a of None \<Rightarrow> b | Some x \<Rightarrow> Some x)"

lemma bind_res_simps [simp]:
  "bind_res (Inl e) f = Inl e"
  "bind_res (Inr x) f = f x"
  by (simp_all add: bind_res_def)

lemma bind_res_Inr_iff: "bind_res r f = Inr y \<longleftrightarrow> (\<exists>x. r = Inr x \<and> f x = Inr y)"
  by (cases r) auto

lemma map_err_simps [simp]:
  "map_err g (Inl e) = Inl (g e)"
  "map_err g (Inr x) = Inr x"
  by (simp_all add: map_err_def)

lemma map_err_Inr_iff [simp]: "map_err g r = Inr x \<longleftrightarrow> r = Inr x"
  by (cases r) auto

lemma ok_or_simps [simp]:
  "ok_or e None = Inl e"
  "ok_or e (Some x) = Inr x"
  by (simp_all add: ok_or_def)

lemma ok_or_Inr_iff [simp]: "ok_or e opt = Inr x \<longleftrightarrow> opt = Some x"
  by (cases opt) auto

lemma opt_or_simps [simp]:
  "opt_or None b = b"
  "opt_or (Some x) b = Some x"
  by (simp_all add: opt_or_def)

lemma is_ok_simps [simp]:
  "\<not> is_ok (Inl e)"
  "is_ok (Inr x)"
  by (simp_all add: is_ok_def)

section \<open>Machine integers\<close>

text \<open>
  Unsigned integers are words. Signed integers are \<^typ>\<open>int\<close> kept in range by Rust's
  saturating operations, which is the only signed arithmetic the program does.
\<close>

type_synonym u64 = "64 word"
type_synonym u32 = "32 word"

abbreviation i64_max :: int where "i64_max \<equiv> 9223372036854775807"
abbreviation i64_min :: int where "i64_min \<equiv> - 9223372036854775808"
abbreviation i32_max :: int where "i32_max \<equiv> 2147483647"
abbreviation i32_min :: int where "i32_min \<equiv> - 2147483648"

definition in_i64 :: "int \<Rightarrow> bool" where
  "in_i64 x \<longleftrightarrow> i64_min \<le> x \<and> x \<le> i64_max"

definition sat_i64 :: "int \<Rightarrow> int" where
  "sat_i64 x = (if x < i64_min then i64_min else if i64_max < x then i64_max else x)"

definition sat_i32 :: "int \<Rightarrow> int" where
  "sat_i32 x = (if x < i32_min then i32_min else if i32_max < x then i32_max else x)"

definition i64_saturating_add :: "int \<Rightarrow> int \<Rightarrow> int" where
  "i64_saturating_add a b = sat_i64 (a + b)"

definition i64_saturating_sub :: "int \<Rightarrow> int \<Rightarrow> int" where
  "i64_saturating_sub a b = sat_i64 (a - b)"

definition i32_saturating_add :: "int \<Rightarrow> int \<Rightarrow> int" where
  "i32_saturating_add a b = sat_i32 (a + b)"

definition i64_try_from_u64 :: "u64 \<Rightarrow> int option" where
  "i64_try_from_u64 w = (if uint w \<le> i64_max then Some (uint w) else None)"

definition u64_saturating_add :: "u64 \<Rightarrow> u64 \<Rightarrow> u64" where
  "u64_saturating_add a b = (if uint a + uint b < 2 ^ 64 then a + b else - 1)"

definition u64_abs_diff :: "u64 \<Rightarrow> u64 \<Rightarrow> u64" where
  "u64_abs_diff a b = (if a < b then b - a else a - b)"

definition u64_checked_add :: "u64 \<Rightarrow> u64 \<Rightarrow> u64 option" where
  "u64_checked_add a b = (if uint a + uint b < 2 ^ 64 then Some (a + b) else None)"

definition u64_checked_mul :: "u64 \<Rightarrow> u64 \<Rightarrow> u64 option" where
  "u64_checked_mul a b = (if uint a * uint b < 2 ^ 64 then Some (a * b) else None)"

definition u32_saturating_add :: "u32 \<Rightarrow> u32 \<Rightarrow> u32" where
  "u32_saturating_add a b = (if uint a + uint b < 2 ^ 32 then a + b else - 1)"

lemma in_i64_sat [simp]: "in_i64 (sat_i64 x)"
  by (simp add: in_i64_def sat_i64_def)

lemma sat_i64_id: "in_i64 x \<Longrightarrow> sat_i64 x = x"
  by (simp add: in_i64_def sat_i64_def)

lemma uint_u64_saturating_add: "uint (u64_saturating_add a b) = min (uint a + uint b) (2 ^ 64 - 1)"
proof (cases "uint a + uint b < 2 ^ 64")
  case True
  then have "uint (a + b) = uint a + uint b"
    by (simp add: uint_word_ariths)
  with True show ?thesis
    by (simp add: u64_saturating_add_def)
next
  case False
  have "uint (- 1 :: u64) = 2 ^ 64 - 1"
    by (simp add: unsigned_minus_1_eq_mask mask_eq_exp_minus_1)
  with False show ?thesis
    by (simp add: u64_saturating_add_def)
qed

lemma uint_u64_abs_diff: "uint (u64_abs_diff a b) = \<bar>uint a - uint b\<bar>"
proof -
  have sub: "uint (y - x) = uint y - uint x" if "x \<le> y" for x y :: u64
    using that by (simp add: uint_sub_lem [THEN iffD1] word_le_def)
  show ?thesis
    by (cases "a < b") (auto simp: u64_abs_diff_def sub word_less_def word_le_def not_less)
qed

lemma u64_checked_mul_Some:
  assumes "u64_checked_mul a b = Some c"
  shows "uint c = uint a * uint b"
  using assms by (auto simp: u64_checked_mul_def uint_word_ariths split: if_splits)

lemma u64_checked_add_Some:
  assumes "u64_checked_add a b = Some c"
  shows "uint c = uint a + uint b"
  using assms by (auto simp: u64_checked_add_def uint_word_ariths split: if_splits)

section \<open>Strings\<close>

abbreviation code :: "char \<Rightarrow> nat" where "code c \<equiv> of_char c"

text \<open>\<open>char::is_whitespace\<close> (Unicode White\_Space).\<close>

definition is_whitespace :: "char \<Rightarrow> bool" where
  "is_whitespace c \<longleftrightarrow> (9 \<le> code c \<and> code c \<le> 13) \<or> code c = 32 \<or> code c = 133 \<or> code c = 160"

definition trim_start :: "string \<Rightarrow> string" where
  "trim_start s = dropWhile is_whitespace s"

definition trim_end :: "string \<Rightarrow> string" where
  "trim_end s = rev (dropWhile is_whitespace (rev s))"

definition trim :: "string \<Rightarrow> string" where
  "trim s = trim_start (trim_end s)"

text \<open>\<open>char::to_lowercase\<close>: A to Z, and the Latin-1 capitals except the multiplication sign.\<close>

definition lower_char :: "char \<Rightarrow> char" where
  "lower_char c =
     (if (65 \<le> code c \<and> code c \<le> 90) \<or> (192 \<le> code c \<and> code c \<le> 222 \<and> code c \<noteq> 215)
      then char_of (code c + 32) else c)"

definition to_lowercase :: "string \<Rightarrow> string" where
  "to_lowercase s = map lower_char s"

definition is_ascii_digit :: "char \<Rightarrow> bool" where
  "is_ascii_digit c \<longleftrightarrow> 48 \<le> code c \<and> code c \<le> 57"

definition is_ascii_lowercase :: "char \<Rightarrow> bool" where
  "is_ascii_lowercase c \<longleftrightarrow> 97 \<le> code c \<and> code c \<le> 122"

definition is_ascii_uppercase :: "char \<Rightarrow> bool" where
  "is_ascii_uppercase c \<longleftrightarrow> 65 \<le> code c \<and> code c \<le> 90"

definition is_ascii_alphabetic :: "char \<Rightarrow> bool" where
  "is_ascii_alphabetic c \<longleftrightarrow> is_ascii_lowercase c \<or> is_ascii_uppercase c"

definition ascii_lower_char :: "char \<Rightarrow> char" where
  "ascii_lower_char c = (if is_ascii_uppercase c then char_of (code c + 32) else c)"

definition ascii_upper_char :: "char \<Rightarrow> char" where
  "ascii_upper_char c = (if is_ascii_lowercase c then char_of (code c - 32) else c)"

definition eq_ignore_ascii_case :: "string \<Rightarrow> string \<Rightarrow> bool" where
  "eq_ignore_ascii_case a b \<longleftrightarrow> map ascii_lower_char a = map ascii_lower_char b"

definition starts_with :: "string \<Rightarrow> string \<Rightarrow> bool" where
  "starts_with s p \<longleftrightarrow> take (length p) s = p"

text \<open>\<open>str::as_bytes\<close> is the UTF-8 encoding, \<open>str::len\<close> the number of its bytes.\<close>

type_synonym bytes = "8 word list"

definition utf8_char :: "char \<Rightarrow> bytes" where
  "utf8_char c =
     (if code c < 128 then [of_nat (code c)]
      else [of_nat (192 + code c div 64), of_nat (128 + code c mod 64)])"

definition as_bytes :: "string \<Rightarrow> bytes" where
  "as_bytes s = concat (map utf8_char s)"

definition utf8_len :: "string \<Rightarrow> nat" where
  "utf8_len s = length (as_bytes s)"

text \<open>\<open>to_string\<close> of an unsigned integer, and its lower-case hexadecimal form (\<open>{:x}\<close>).\<close>

fun digits_base :: "nat \<Rightarrow> nat \<Rightarrow> nat list" where
  "digits_base b n = (if n < b \<or> b < 2 then [n] else digits_base b (n div b) @ [n mod b])"

declare digits_base.simps [simp del]

definition digit_char :: "nat \<Rightarrow> char" where
  "digit_char d = (if d < 10 then char_of (48 + d) else char_of (87 + d))"

definition show_nat :: "nat \<Rightarrow> string" where
  "show_nat n = map digit_char (digits_base 10 n)"

definition show_hex :: "nat \<Rightarrow> string" where
  "show_hex n = map digit_char (digits_base 16 n)"

definition show_u64 :: "u64 \<Rightarrow> string" where
  "show_u64 w = show_nat (unat w)"

text \<open>\<open>[a, b, ...].join(sep)\<close>.\<close>

fun join_with :: "string \<Rightarrow> string list \<Rightarrow> string" where
  "join_with sep [] = []"
| "join_with sep [x] = x"
| "join_with sep (x # y # ys) = x @ sep @ join_with sep (y # ys)"


lemma trim_end_Nil_iff: "trim_end s = [] \<longleftrightarrow> (\<forall>c \<in> set s. is_whitespace c)"
  by (simp add: trim_end_def dropWhile_eq_Nil_conv)

lemma dropWhile_idem: "dropWhile P (dropWhile P xs) = dropWhile P xs"
  by (induction xs) auto

lemma trim_end_idem: "trim_end (trim_end s) = trim_end s"
  by (simp add: trim_end_def dropWhile_idem)

lemma trim_end_append_nonspace:
  assumes "\<not> is_whitespace c"
  shows "trim_end (xs @ c # ys) = xs @ c # trim_end ys"
  using assms by (simp add: trim_end_def dropWhile_append)

lemma trim_end_trim_start: "trim_end (trim_start s) = trim_start (trim_end s)"
proof (induction s)
  case Nil
  then show ?case by (simp add: trim_start_def trim_end_def)
next
  case (Cons c s)
  show ?case
  proof (cases "is_whitespace c")
    case True
    then have "trim_start (c # s) = trim_start s"
      by (simp add: trim_start_def)
    moreover have "trim_start (trim_end (c # s)) = trim_start (trim_end s)"
    proof (cases "\<forall>d \<in> set s. is_whitespace d")
      case all: True
      with True have "trim_end (c # s) = []" "trim_end s = []"
        by (auto simp: trim_end_Nil_iff)
      then show ?thesis by simp
    next
      case False
      then have "dropWhile is_whitespace (rev s @ [c]) = dropWhile is_whitespace (rev s) @ [c]"
        by (auto simp: dropWhile_append)
      then have "trim_end (c # s) = c # trim_end s"
        by (simp add: trim_end_def)
      with True show ?thesis by (simp add: trim_start_def)
    qed
    ultimately show ?thesis using Cons.IH by simp
  next
    case False
    then have "trim_end (c # s) = c # trim_end s"
      using trim_end_append_nonspace [of c "[]" s] by simp
    with False show ?thesis by (simp add: trim_start_def)
  qed
qed

lemma trim_idem [simp]: "trim (trim s) = trim s"
  by (simp add: trim_def trim_end_trim_start trim_end_idem)
    (simp add: trim_start_def dropWhile_idem)

lemma trim_no_whitespace: "\<forall>c \<in> set s. \<not> is_whitespace c \<Longrightarrow> trim s = s"
proof -
  assume a: "\<forall>c \<in> set s. \<not> is_whitespace c"
  have keep: "dropWhile is_whitespace t = t" if "\<forall>c \<in> set t. \<not> is_whitespace c" for t
    using that by (cases t) auto
  show ?thesis
    using a by (simp add: trim_def trim_end_def trim_start_def keep)
qed

lemma set_trim: "set (trim s) \<subseteq> set s"
proof -
  have "set (dropWhile P xs) \<subseteq> set xs" for P :: "char \<Rightarrow> bool" and xs
    by (auto dest: set_dropWhileD)
  then show ?thesis
    unfolding trim_def trim_start_def trim_end_def
    by (metis set_rev subset_trans)
qed

lemma code_lower_char:
  "code (lower_char c) =
     (if (65 \<le> code c \<and> code c \<le> 90) \<or> (192 \<le> code c \<and> code c \<le> 222 \<and> code c \<noteq> 215)
      then code c + 32 else code c)"
  by (auto simp: lower_char_def of_char_of)

lemma lower_char_idem [simp]: "lower_char (lower_char c) = lower_char c"
proof -
  have "code (lower_char (lower_char c)) = code (lower_char c)"
    by (simp only: code_lower_char) auto
  then show ?thesis by (simp only: of_char_eq_iff)
qed

lemma to_lowercase_idem [simp]: "to_lowercase (to_lowercase s) = to_lowercase s"
  by (simp add: to_lowercase_def)

lemma length_to_lowercase [simp]: "length (to_lowercase s) = length s"
  by (simp add: to_lowercase_def)

lemma to_lowercase_eq_Nil [simp]: "to_lowercase s = [] \<longleftrightarrow> s = []"
  by (simp add: to_lowercase_def)

lemma is_whitespace_lower_char [simp]: "is_whitespace (lower_char c) = is_whitespace c"
  by (auto simp: is_whitespace_def code_lower_char)

lemma trim_to_lowercase: "trim (to_lowercase s) = to_lowercase (trim s)"
  by (simp add: trim_def trim_start_def trim_end_def to_lowercase_def rev_map dropWhile_map o_def)

lemma trim_lower_idem [simp]:
  "trim (to_lowercase (trim s)) = to_lowercase (trim s)"
  by (simp add: trim_to_lowercase)

section \<open>Numerals as text\<close>

lemma digits_base_value:
  assumes "2 \<le> b"
  shows "foldl (\<lambda>a d. a * b + d) 0 (digits_base b n) = n"
proof (induction b n rule: digits_base.induct)
  case (1 b n)
  show ?case
    by (cases "n < b \<or> b < 2") (use 1 in \<open>auto simp: digits_base.simps [of b n]\<close>)
qed

lemma digits_base_bound:
  assumes "2 \<le> b"
  shows "\<forall>d \<in> set (digits_base b n). d < b"
  using assms
proof (induction b n rule: digits_base.induct)
  case (1 b n)
  show ?case
    by (cases "n < b \<or> b < 2") (use 1 in \<open>auto simp: digits_base.simps [of b n]\<close>)
qed

lemma digits_base_inj: "2 \<le> b \<Longrightarrow> digits_base b m = digits_base b n \<Longrightarrow> m = n"
  using digits_base_value [of b m] digits_base_value [of b n] by metis

lemma code_digit_char: "d < 16 \<Longrightarrow> code (digit_char d) = (if d < 10 then 48 + d else 87 + d)"
proof -
  assume "d < 16"
  moreover have "code (char_of (48 + d)) = (48 + d) mod 256" "code (char_of (87 + d)) = (87 + d) mod 256"
    by (rule of_char_of)+
  ultimately show ?thesis by (simp only: digit_char_def split: if_split) simp
qed

lemma digit_char_inj: "d < 16 \<Longrightarrow> e < 16 \<Longrightarrow> digit_char d = digit_char e \<Longrightarrow> d = e"
proof -
  assume a: "d < 16" "e < 16" "digit_char d = digit_char e"
  have "(if d < 10 then 48 + d else 87 + d) = (if e < 10 then 48 + e else 87 + e)"
    using arg_cong [OF a(3), of code] by (simp only: code_digit_char [OF a(1)] code_digit_char [OF a(2)])
  with a(1,2) show ?thesis by (simp split: if_splits)
qed

lemma map_digit_char_inj:
  assumes "\<forall>d \<in> set xs. d < 16" "\<forall>d \<in> set ys. d < 16" "map digit_char xs = map digit_char ys"
  shows "xs = ys"
  using assms
  by (intro map_inj_on [of digit_char xs ys]) (auto simp: inj_on_def intro: digit_char_inj)

lemma show_nat_inj: "show_nat m = show_nat n \<Longrightarrow> m = n"
proof -
  assume eq: "show_nat m = show_nat n"
  have "\<forall>d \<in> set (digits_base 10 k). d < 16" for k
    using digits_base_bound [of 10 k] by fastforce
  with eq have "digits_base 10 m = digits_base 10 n"
    unfolding show_nat_def by (intro map_digit_char_inj) auto
  then show ?thesis by (rule digits_base_inj [rotated]) simp
qed

lemma show_hex_inj: "show_hex m = show_hex n \<Longrightarrow> m = n"
proof -
  assume eq: "show_hex m = show_hex n"
  have "\<forall>d \<in> set (digits_base 16 k). d < 16" for k
    using digits_base_bound [of 16 k] by simp
  with eq have "digits_base 16 m = digits_base 16 n"
    unfolding show_hex_def by (intro map_digit_char_inj) auto
  then show ?thesis by (rule digits_base_inj [rotated]) simp
qed

lemma show_nat_chars: "c \<in> set (show_nat n) \<Longrightarrow> is_ascii_digit c"
proof -
  assume "c \<in> set (show_nat n)"
  then obtain d where "d \<in> set (digits_base 10 n)" "c = digit_char d"
    by (auto simp: show_nat_def)
  moreover from this have "d < 10" using digits_base_bound [of 10 n] by simp
  ultimately show ?thesis
    using code_digit_char [of d] by (simp add: is_ascii_digit_def)
qed

lemma show_hex_chars: "c \<in> set (show_hex n) \<Longrightarrow> is_ascii_digit c \<or> is_ascii_lowercase c"
proof -
  assume "c \<in> set (show_hex n)"
  then obtain d where "d \<in> set (digits_base 16 n)" "c = digit_char d"
    by (auto simp: show_hex_def)
  moreover from this have "d < 16" using digits_base_bound [of 16 n] by simp
  ultimately show ?thesis
    using code_digit_char [of d] by (simp add: is_ascii_digit_def is_ascii_lowercase_def)
qed

lemma show_u64_inj: "show_u64 v = show_u64 w \<Longrightarrow> v = w"
  by (simp add: show_u64_def word_unat_eq_iff show_nat_inj)

section \<open>Delimited fields\<close>

lemma delimited_eq:
  assumes "c \<notin> set x" "c \<notin> set y" "x @ c # r = y @ c # s"
  shows "x = y \<and> r = s"
proof -
  have cut: "takeWhile (\<lambda>d. d \<noteq> c) (z @ c # t) = z" if "c \<notin> set z" for z t
    using that by (induction z) auto
  have "x = y"
    using arg_cong [OF assms(3), of "takeWhile (\<lambda>d. d \<noteq> c)"] cut assms(1,2) by simp
  with assms(3) show ?thesis by simp
qed

lemma join_with_char_inj:
  assumes "\<forall>x \<in> set xs. c \<notin> set x" "\<forall>y \<in> set ys. c \<notin> set y" "xs \<noteq> []" "ys \<noteq> []"
    and "join_with [c] xs = join_with [c] ys"
  shows "xs = ys"
  using assms
proof (induction "[c]" xs arbitrary: ys rule: join_with.induct)
  case 1
  then show ?case by simp
next
  case (2 x)
  then obtain y ys' where ys: "ys = y # ys'" by (cases ys) auto
  show ?case
  proof (cases ys')
    case Nil
    with 2 ys show ?thesis by simp
  next
    case (Cons z zs)
    with 2 ys show ?thesis by auto
  qed
next
  case (3 x x' xs)
  then obtain y ys' where ys: "ys = y # ys'" by (cases ys) auto
  show ?case
  proof (cases ys')
    case Nil
    with "3.prems"(5) ys have "y = x @ c # join_with [c] (x' # xs)" by simp
    with "3.prems"(2) ys show ?thesis by auto
  next
    case (Cons z zs)
    with "3.prems"(5) ys have "x @ c # join_with [c] (x' # xs) = y @ c # join_with [c] (z # zs)"
      by simp
    then have eq: "x = y \<and> join_with [c] (x' # xs) = join_with [c] (z # zs)"
      by (rule delimited_eq [rotated 2]) (use "3.prems"(1,2) ys in simp_all)
    have "x' # xs = z # zs"
      by (rule "3.hyps") (use "3.prems"(1,2) ys Cons eq in simp_all)
    with eq ys Cons show ?thesis by simp
  qed
qed

section \<open>Tables\<close>

text \<open>
  A table is the list of its rows. A unique index on \<open>f\<close> is the invariant \<open>unique_by f\<close>.
  \<open>update_where\<close>, \<open>delete_where\<close> and \<open>fetch_optional\<close> are the SQL statements of the same name;
  \<open>upsert_on\<close> is \<open>INSERT ... ON CONFLICT (key) DO UPDATE\<close>, with \<open>merge old excluded\<close> the row the
  conflict clause writes; \<open>insert_ignore\<close> is \<open>ON CONFLICT (key) DO NOTHING\<close>.
\<close>

definition unique_by :: "('r \<Rightarrow> 'k) \<Rightarrow> 'r list \<Rightarrow> bool" where
  "unique_by f t \<longleftrightarrow> distinct (map f t)"

definition fetch_optional :: "('r \<Rightarrow> bool) \<Rightarrow> 'r list \<Rightarrow> 'r option" where
  "fetch_optional P t = find P t"

definition exists_where :: "('r \<Rightarrow> bool) \<Rightarrow> 'r list \<Rightarrow> bool" where
  "exists_where P t \<longleftrightarrow> list_ex P t"

definition update_where :: "('r \<Rightarrow> bool) \<Rightarrow> ('r \<Rightarrow> 'r) \<Rightarrow> 'r list \<Rightarrow> 'r list" where
  "update_where P f t = map (\<lambda>r. if P r then f r else r) t"

definition delete_where :: "('r \<Rightarrow> bool) \<Rightarrow> 'r list \<Rightarrow> 'r list" where
  "delete_where P t = filter (\<lambda>r. \<not> P r) t"

definition rows_affected :: "('r \<Rightarrow> bool) \<Rightarrow> 'r list \<Rightarrow> nat" where
  "rows_affected P t = length (filter P t)"

definition upsert_on :: "('r \<Rightarrow> 'k) \<Rightarrow> ('r \<Rightarrow> 'r \<Rightarrow> 'r) \<Rightarrow> 'r \<Rightarrow> 'r list \<Rightarrow> 'r list" where
  "upsert_on key merge row t =
     (if exists_where (\<lambda>r. key r = key row) t
      then update_where (\<lambda>r. key r = key row) (\<lambda>r. merge r row) t
      else t @ [row])"

definition insert_ignore :: "('r \<Rightarrow> 'k) \<Rightarrow> 'r \<Rightarrow> 'r list \<Rightarrow> 'r list" where
  "insert_ignore key row t =
     (if exists_where (\<lambda>r. key r = key row) t then t else t @ [row])"

lemma fetch_optional_SomeD:
  "fetch_optional P t = Some r \<Longrightarrow> r \<in> set t \<and> P r"
  by (auto simp: fetch_optional_def find_Some_iff)

lemma fetch_optional_None_iff:
  "fetch_optional P t = None \<longleftrightarrow> (\<forall>r \<in> set t. \<not> P r)"
  by (auto simp: fetch_optional_def find_None_iff)

lemma fetch_optional_NoneI: "(\<And>r. r \<in> set t \<Longrightarrow> \<not> P r) \<Longrightarrow> fetch_optional P t = None"
  by (simp add: fetch_optional_None_iff)

lemma fetch_optional_NoneD: "fetch_optional P t = None \<Longrightarrow> r \<in> set t \<Longrightarrow> \<not> P r"
  by (simp add: fetch_optional_None_iff)

lemma exists_where_iff [simp]: "exists_where P t \<longleftrightarrow> (\<exists>r \<in> set t. P r)"
  by (simp add: exists_where_def list_ex_iff)

lemma set_update_where [table_simps]:
  "set (update_where P f t) = {r \<in> set t. \<not> P r} \<union> f ` {r \<in> set t. P r}"
  by (auto simp: update_where_def)

lemma set_delete_where [simp]: "set (delete_where P t) = {r \<in> set t. \<not> P r}"
  by (simp add: delete_where_def)

lemma rows_affected_0 [simp]: "rows_affected P t = 0 \<longleftrightarrow> (\<forall>r \<in> set t. \<not> P r)"
  by (simp add: rows_affected_def filter_empty_conv)

lemma exists_where_rows: "exists_where P t \<longleftrightarrow> rows_affected P t \<noteq> 0"
  by simp

lemma unique_by_Nil [simp]: "unique_by f []"
  by (simp add: unique_by_def)

lemma unique_by_append1 [simp]:
  "unique_by f (t @ [r]) \<longleftrightarrow> unique_by f t \<and> (\<forall>x \<in> set t. f x \<noteq> f r)"
  by (simp add: unique_by_def) (metis image_iff)

lemma unique_byD: "unique_by f t \<Longrightarrow> r \<in> set t \<Longrightarrow> s \<in> set t \<Longrightarrow> f r = f s \<Longrightarrow> r = s"
  by (auto simp: unique_by_def distinct_map dest: inj_onD)

lemma unique_by_delete [intro, simp]: "unique_by f t \<Longrightarrow> unique_by f (delete_where P t)"
  by (simp add: unique_by_def delete_where_def distinct_map_filter)

lemma unique_by_update:
  assumes "\<And>r. P r \<Longrightarrow> f (g r) = f r"
  shows "unique_by f (update_where P g t) = unique_by f t"
proof -
  have "map f (update_where P g t) = map f t"
    using assms by (simp add: update_where_def)
  then show ?thesis by (simp add: unique_by_def)
qed

lemma not_in_column: "v \<notin> f ` set t \<longleftrightarrow> (\<forall>r \<in> set t. f r \<noteq> v)"
  by auto

lemma in_column: "exists_where (\<lambda>r. f r = v) t \<longleftrightarrow> v \<in> f ` set t"
  by (auto simp: image_iff eq_commute)

lemma update_where_simps [simp]:
  "update_where P f [] = []"
  "update_where P f (r # t) = (if P r then f r else r) # update_where P f t"
  by (simp_all add: update_where_def)

lemma map_update_where:
  "(\<And>r. r \<in> set t \<Longrightarrow> P r \<Longrightarrow> g (f r) = g r) \<Longrightarrow> map g (update_where P f t) = map g t"
  by (simp add: update_where_def)

lemma image_update_where:
  assumes "\<And>r. r \<in> set t \<Longrightarrow> P r \<Longrightarrow> g (f r) = g r"
  shows "g ` set (update_where P f t) = g ` set t"
  using map_update_where [of t P g f] assms by (metis list.set_map)

lemma unique_by_update_one:
  assumes "unique_by key t" "unique_by f t" "\<And>r. r \<in> set t \<Longrightarrow> f r = v \<Longrightarrow> key r = k"
    "\<And>r. f (g r) = v"
  shows "unique_by f (update_where (\<lambda>r. key r = k) g t)"
  using assms(1-3)
proof (induction t)
  case (Cons r t)
  have img: "f ` set (update_where (\<lambda>r. key r = k) g t) \<subseteq> f ` set t \<union> (if \<exists>s \<in> set t. key s = k then {v} else {})"
    using assms(4) by (auto simp: set_update_where)
  have tail: "unique_by f (update_where (\<lambda>r. key r = k) g t)"
    using Cons by (auto simp: unique_by_def)
  show ?case
  proof (cases "key r = k")
    case True
    then have none: "key s \<noteq> k" if "s \<in> set t" for s
      using that Cons.prems(1) by (auto simp: unique_by_def image_iff)
    moreover have "v \<notin> f ` set t" using none Cons.prems(3) by auto
    ultimately have "\<not> (\<exists>s \<in> set t. key s = k)" "v \<notin> f ` set t" by auto
    with True tail img assms(4) show ?thesis by (auto simp: unique_by_def)
  next
    case False
    then have "f r \<noteq> v" "f r \<notin> f ` set t" using Cons.prems by (auto simp: unique_by_def)
    with img have "f r \<notin> f ` set (update_where (\<lambda>r. key r = k) g t)" by (auto split: if_splits)
    with False tail show ?thesis by (simp add: unique_by_def)
  qed
qed simp

lemma fetch_optional_unique:
  assumes "unique_by f t" "r \<in> set t"
  shows "fetch_optional (\<lambda>x. f x = f r) t = Some r"
proof (cases "fetch_optional (\<lambda>x. f x = f r) t")
  case None
  with assms show ?thesis by (auto dest: fetch_optional_NoneD)
next
  case (Some s)
  then have "s \<in> set t" "f s = f r" by (auto dest: fetch_optional_SomeD)
  with assms Some show ?thesis by (auto dest: unique_byD)
qed

lemma fetch_optional_unique_pred:
  assumes "r \<in> set t" "P r" "\<And>s. s \<in> set t \<Longrightarrow> P s \<Longrightarrow> s = r"
  shows "fetch_optional P t = Some r"
proof (cases "fetch_optional P t")
  case None
  from fetch_optional_NoneD [OF this assms(1)] assms(2) show ?thesis by simp
next
  case (Some s)
  with assms(3) [of s] show ?thesis by (simp add: fetch_optional_SomeD)
qed

lemma fetch_optional_append [simp]:
  "fetch_optional P (t @ u) =
     (case fetch_optional P t of None \<Rightarrow> fetch_optional P u | Some r \<Rightarrow> Some r)"
  by (induction t) (auto simp: fetch_optional_def)

lemma fetch_optional_single [simp]: "fetch_optional P [r] = (if P r then Some r else None)"
  by (simp add: fetch_optional_def)

lemma fetch_optional_update_same:
  assumes "\<And>r. P (g r) = P r"
  shows "fetch_optional P (update_where Q g t) =
    map_option (\<lambda>r. if Q r then g r else r) (fetch_optional P t)"
  using assms by (induction t) (auto simp: fetch_optional_def update_where_def)

lemma fetch_optional_cong:
  assumes "\<And>r. r \<in> set t \<Longrightarrow> P r = Q r"
  shows "fetch_optional P t = fetch_optional Q t"
  using assms by (induction t) (auto simp: fetch_optional_def)

lemma fetch_optional_delete:
  "fetch_optional P (delete_where Q t) = fetch_optional (\<lambda>r. P r \<and> \<not> Q r) t"
  by (induction t) (auto simp: fetch_optional_def delete_where_def)

section \<open>Interface: a table with an upsert\<close>

text \<open>
  What the invoice, zap and comment tables promise their callers: the conflict clause keeps the
  key of the row it updates, so an upsert keeps the unique index, changes only its own key, and
  is found again by that key.
\<close>

locale upsert_table =
  fixes key :: "'r \<Rightarrow> 'k"
    and merge :: "'r \<Rightarrow> 'r \<Rightarrow> 'r"
  assumes key_merge: "key (merge old new) = key old"
begin

lemma unique_upsert: "unique_by key t \<Longrightarrow> unique_by key (upsert_on key merge row t)"
  by (auto simp: upsert_on_def unique_by_update key_merge)

lemma lookup_upsert_other:
  assumes "k \<noteq> key row"
  shows "fetch_optional (\<lambda>r. key r = k) (upsert_on key merge row t) =
    fetch_optional (\<lambda>r. key r = k) t"
proof (cases "exists_where (\<lambda>r. key r = key row) t")
  case True
  have "map_option (\<lambda>r. if key r = key row then merge r row else r)
      (fetch_optional (\<lambda>r. key r = k) t) = fetch_optional (\<lambda>r. key r = k) t"
    using assms by (cases "fetch_optional (\<lambda>r. key r = k) t") (auto dest: fetch_optional_SomeD)
  with True show ?thesis
    by (simp add: upsert_on_def fetch_optional_update_same key_merge)
next
  case False
  with assms show ?thesis
    by (simp add: upsert_on_def split: option.splits)
qed

lemma lookup_upsert_same:
  "fetch_optional (\<lambda>r. key r = key row) (upsert_on key merge row t) =
     Some (case fetch_optional (\<lambda>r. key r = key row) t of None \<Rightarrow> row | Some r \<Rightarrow> merge r row)"
proof (cases "fetch_optional (\<lambda>r. key r = key row) t")
  case None
  then have "\<not> exists_where (\<lambda>r. key r = key row) t"
    by (auto dest: fetch_optional_NoneD)
  with None show ?thesis by (simp add: upsert_on_def)
next
  case (Some r)
  then have "exists_where (\<lambda>r. key r = key row) t" "key r = key row"
    by (auto dest: fetch_optional_SomeD)
  with Some show ?thesis
    by (auto simp: upsert_on_def fetch_optional_update_same key_merge)
qed

lemma keys_upsert: "key ` set (upsert_on key merge row t) = insert (key row) (key ` set t)"
proof (cases "exists_where (\<lambda>r. key r = key row) t")
  case True
  have "key ` set (update_where (\<lambda>r. key r = key row) (\<lambda>r. merge r row) t) = key ` set t"
    by (rule image_update_where) (rule key_merge)
  moreover from True have "key row \<in> key ` set t" by (auto simp: image_iff eq_commute)
  ultimately show ?thesis using True by (simp add: upsert_on_def insert_absorb)
next
  case False
  then show ?thesis by (simp add: upsert_on_def)
qed

lemma unique_upsert_column:
  assumes "unique_by key t" "unique_by f t" "\<And>r. r \<in> set t \<Longrightarrow> f r = f row \<Longrightarrow> key r = key row"
    "\<And>r. f (merge r row) = f row"
  shows "unique_by f (upsert_on key merge row t)"
proof (cases "exists_where (\<lambda>r. key r = key row) t")
  case True
  then show ?thesis
    using unique_by_update_one [OF assms] by (simp add: upsert_on_def)
next
  case False
  with assms(2,3) show ?thesis by (auto simp: upsert_on_def)
qed

lemma column_upsert:
  assumes "\<And>r. r \<in> set t \<Longrightarrow> key r = key row \<Longrightarrow> f (merge r row) = f r"
    "\<And>r. r \<in> set t \<Longrightarrow> key r = key row \<Longrightarrow> f r = f row"
  shows "f ` set (upsert_on key merge row t) = insert (f row) (f ` set t)"
proof (cases "exists_where (\<lambda>r. key r = key row) t")
  case True
  have "f ` set (update_where (\<lambda>r. key r = key row) (\<lambda>r. merge r row) t) = f ` set t"
    by (rule image_update_where) (rule assms(1))
  moreover obtain r where "r \<in> set t" "f r = f row" using True assms(2) by auto
  then have "f row \<in> f ` set t" by (auto simp: image_iff eq_commute)
  ultimately show ?thesis using True by (simp add: upsert_on_def insert_absorb)
next
  case False
  then show ?thesis by (simp add: upsert_on_def)
qed

lemma set_upsert:
  "r \<in> set (upsert_on key merge row t) \<Longrightarrow>
     r \<in> set t \<or> r = row \<or> (\<exists>s \<in> set t. key s = key row \<and> r = merge s row)"
  by (auto simp: upsert_on_def table_simps split: if_splits)

lemma row_upsert:
  assumes "r \<in> set (upsert_on key merge row t)" "key r = key row"
  shows "r = row \<or> (\<exists>s \<in> set t. key s = key row \<and> r = merge s row)"
proof (cases "exists_where (\<lambda>r. key r = key row) t")
  case True
  with assms show ?thesis by (auto simp: upsert_on_def table_simps)
next
  case False
  with assms have "r \<in> set (t @ [row])" by (simp only: upsert_on_def if_False)
  with False assms(2) show ?thesis by auto
qed

lemma kept_upsert:
  "r \<in> set t \<Longrightarrow> key r \<noteq> key row \<Longrightarrow> r \<in> set (upsert_on key merge row t)"
  by (simp add: upsert_on_def table_simps)

end

end
