(* ===== verification/Lnurl_Schema.thy ===== *)
theory Lnurl_Schema
  imports Lnurl_Prelude
begin

text \<open>
  The data model: the enumerations and structs of \<open>src/repository.rs\<close>, \<open>src/zap.rs\<close> and
  \<open>src/webhooks/repository.rs\<close>, the database rows of the migrations, and the database itself as
  the record of its tables. An enumeration stored in a text column under a \<open>CHECK\<close> constraint is
  kept as the enumeration; \<open>as_str\<close> and \<open>from_database_value\<close> below are the two codecs.
\<close>

section \<open>Enumerations\<close>

datatype account_provider = Spark | Blink
datatype account_identifier_kind = Username | Phone
datatype wallet_kind = Btc | Usd
datatype account_mode = Enhanced | Anon
datatype mode_source = Signup | Switch | Migration

text \<open>
  The payload of \<open>General\<close> is the driver's error. Only its cause is kept: a constraint the
  statement broke, a statement that touched one row twice, or a storage fault.
\<close>

datatype db_fault = StorageFault | ForeignKeyViolation | CardinalityViolation | RowNotFound

datatype repository_error =
    IdentifierConflict
  | BlinkAccountExists
  | AccountNotFound
  | InvalidOwnership
  | InvalidProvider
  | InvalidIdentifierKind
  | NameTaken
  | SourceNotOwner
  | InvalidAccountMode
  | StaleModeTimestamp
  | StatementAlreadyUsed
  | General db_fault

fun account_provider_as_str :: "account_provider \<Rightarrow> string" where
  "account_provider_as_str Spark = ''spark''"
| "account_provider_as_str Blink = ''blink''"

definition account_provider_from_database_value :: "string \<Rightarrow> repository_error + account_provider" where
  "account_provider_from_database_value v =
     (if v = ''spark'' then Inr Spark else if v = ''blink'' then Inr Blink else Inl InvalidProvider)"

fun identifier_kind_as_str :: "account_identifier_kind \<Rightarrow> string" where
  "identifier_kind_as_str Username = ''username''"
| "identifier_kind_as_str Phone = ''phone''"

definition identifier_kind_from_database_value :: "string \<Rightarrow> repository_error + account_identifier_kind" where
  "identifier_kind_from_database_value v =
     (if v = ''username'' then Inr Username else if v = ''phone'' then Inr Phone
      else Inl InvalidIdentifierKind)"

fun wallet_kind_as_str :: "wallet_kind \<Rightarrow> string" where
  "wallet_kind_as_str Btc = ''btc''"
| "wallet_kind_as_str Usd = ''usd''"

definition wallet_kind_from_database_value :: "string \<Rightarrow> repository_error + wallet_kind" where
  "wallet_kind_from_database_value v =
     (if v = ''btc'' then Inr Btc else if v = ''usd'' then Inr Usd else Inl InvalidOwnership)"

fun account_mode_as_str :: "account_mode \<Rightarrow> string" where
  "account_mode_as_str Enhanced = ''enhanced''"
| "account_mode_as_str Anon = ''anon''"

definition account_mode_from_database_value :: "string \<Rightarrow> repository_error + account_mode" where
  "account_mode_from_database_value v =
     (if v = ''enhanced'' then Inr Enhanced else if v = ''anon'' then Inr Anon
      else Inl InvalidAccountMode)"

fun mode_source_as_str :: "mode_source \<Rightarrow> string" where
  "mode_source_as_str Signup = ''signup''"
| "mode_source_as_str Switch = ''switch''"
| "mode_source_as_str Migration = ''migration''"

definition mode_source_from_database_value :: "string \<Rightarrow> repository_error + mode_source" where
  "mode_source_from_database_value v =
     (if v = ''signup'' then Inr Signup else if v = ''switch'' then Inr Switch
      else if v = ''migration'' then Inr Migration else Inl InvalidAccountMode)"

section \<open>Rows\<close>

text \<open>All timestamps are Unix seconds or milliseconds in an \<open>i64\<close>.\<close>

record account =
  acc_id :: string
  acc_provider :: account_provider
  acc_created_at :: int
  acc_updated_at :: int

record account_identifier =
  ai_account_id :: string
  ai_domain :: string
  ai_identifier :: string
  ai_kind :: account_identifier_kind
  ai_description :: string
  ai_created_at :: int
  ai_updated_at :: int

record spark_account =
  sp_account_id :: string
  sp_pubkey :: string
  sp_created_at :: int
  sp_updated_at :: int
  sp_mode :: "account_mode option"
  sp_mode_source :: "mode_source option"
  sp_mode_updated_at :: "int option"
  sp_mode_last_timestamp :: "int option"
  sp_country :: "string option"
  sp_country_updated_at :: "int option"

record blink_account =
  bl_account_id :: string
  bl_blink_account_id :: string
  bl_btc_wallet_id :: string
  bl_usd_wallet_id :: string
  bl_default_wallet :: wallet_kind
  bl_created_at :: int
  bl_updated_at :: int

record used_signed_message =
  um_statement_hash :: bytes
  um_route :: string
  um_expires_at :: int
  um_created_at :: int

record invoice =
  inv_account_id :: "string option"
  inv_provider :: "account_provider option"
  inv_wallet_kind :: "wallet_kind option"
  inv_wallet_id :: "string option"
  inv_provider_payment_hash :: "string option"
  inv_payment_hash :: string
  inv_user_pubkey :: string
  inv_invoice :: string
  inv_preimage :: "string option"
  inv_expired_at :: "int option"
  inv_invoice_expiry :: int
  inv_created_at :: int
  inv_updated_at :: int
  inv_domain :: "string option"
  inv_amount_received_sat :: "int option"

record zap =
  z_account_id :: "string option"
  z_payment_hash :: string
  z_zap_request :: string
  z_zap_event :: "string option"
  z_user_pubkey :: string
  z_invoice_expiry :: int
  z_updated_at :: int
  z_is_user_nostr_key :: bool

record sender_comment =
  sc_account_id :: "string option"
  sc_comment :: string
  sc_payment_hash :: string
  sc_user_pubkey :: string
  sc_updated_at :: int

record pending_zap_receipt =
  pz_payment_hash :: string
  pz_created_at :: int
  pz_retry_count :: int
  pz_next_retry_at :: int
  pz_claimed_at :: "int option"

record webhook_config =
  wc_domain :: string
  wc_url :: string
  wc_secret :: string

record webhook_delivery =
  wd_id :: int
  wd_identifier :: string
  wd_domain :: string
  wd_url :: "string option"
  wd_payload :: string
  wd_created_at :: int
  wd_succeeded_at :: "int option"
  wd_retry_count :: int
  wd_next_retry_at :: int
  wd_claimed_at :: "int option"
  wd_last_error_status_code :: "int option"
  wd_last_error_body :: "string option"

text \<open>
  The database. \<open>webhook_next_id\<close> is the generator of the \<open>webhook_deliveries\<close> primary key.
\<close>

record db =
  accounts :: "account list"
  account_identifiers :: "account_identifier list"
  spark_accounts :: "spark_account list"
  blink_accounts :: "blink_account list"
  used_signed_messages :: "used_signed_message list"
  allowed_domains :: "string list"
  settings :: "(string \<times> string) list"
  invoices :: "invoice list"
  zaps :: "zap list"
  sender_comments :: "sender_comment list"
  pending_zap_receipts :: "pending_zap_receipt list"
  domain_webhooks :: "webhook_config list"
  webhook_deliveries :: "webhook_delivery list"
  webhook_next_id :: int

definition empty_db :: db where
  "empty_db = \<lparr>accounts = [], account_identifiers = [], spark_accounts = [], blink_accounts = [],
     used_signed_messages = [], allowed_domains = [], settings = [], invoices = [], zaps = [],
     sender_comments = [], pending_zap_receipts = [], domain_webhooks = [],
     webhook_deliveries = [], webhook_next_id = 1\<rparr>"

section \<open>Requests and results of the repository\<close>

record spark_account_mode =
  sam_account_id :: string
  sam_pubkey :: string
  sam_mode :: "account_mode option"
  sam_mode_source :: "mode_source option"
  sam_mode_updated_at :: "int option"
  sam_mode_last_timestamp :: "int option"
  sam_country :: "string option"
  sam_country_updated_at :: "int option"

record spark_mode_update =
  mu_pubkey :: string
  mu_mode :: account_mode
  mu_client_timestamp :: int
  mu_country :: "string option"

record updated_blink_account =
  ub_account_id :: string
  ub_blink_account_id :: string
  ub_default_wallet :: wallet_kind

record new_account_identifier =
  ni_domain :: string
  ni_identifier :: string
  ni_kind :: account_identifier_kind
  ni_description :: string

record statement_claim =
  cl_statement_hash :: bytes
  cl_route :: string
  cl_expires_at :: int

record new_spark_registration =
  nr_account_id :: "string option"
  nr_pubkey :: string
  nr_identifier :: new_account_identifier
  nr_claim :: "statement_claim option"

record new_blink_account =
  nb_account_id :: "string option"
  nb_blink_account_id :: string
  nb_btc_wallet_id :: string
  nb_usd_wallet_id :: string
  nb_default_wallet :: wallet_kind
  nb_identifiers :: "new_account_identifier list"

record resolved_recipient =
  rr_account_id :: string
  rr_provider :: account_provider
  rr_domain :: string
  rr_identifier :: string
  rr_kind :: account_identifier_kind
  rr_description :: string
  rr_spark_pubkey :: "string option"
  rr_blink_account_id :: "string option"
  rr_btc_wallet_id :: "string option"
  rr_usd_wallet_id :: "string option"
  rr_default_wallet :: "wallet_kind option"

record identifier_transfer =
  tr_domain :: string
  tr_identifier :: string
  tr_source_account_id :: string
  tr_destination_spark_pubkey :: string
  tr_description :: string
  tr_claim :: "statement_claim option"

record blink_to_spark_transfer =
  bt_domain :: string
  bt_identifier :: string
  bt_source_account_id :: string
  bt_destination_spark_pubkey :: string
  bt_description :: string

record spark_username =
  su_domain :: string
  su_pubkey :: string
  su_username :: string
  su_description :: string

record new_webhook_delivery =
  nd_identifier :: string
  nd_domain :: string
  nd_payload :: string

record webhook_payload_data =
  wp_account_id :: "string option"
  wp_payment_hash :: string
  wp_user_pubkey :: string
  wp_invoice :: string
  wp_preimage :: string
  wp_amount_received_sat :: "int option"
  wp_lightning_address :: "string option"
  wp_sender_comment :: "string option"
  wp_domain :: string

record list_metadata_metadata =
  lm_payment_hash :: string
  lm_account_id :: "string option"
  lm_sender_comment :: "string option"
  lm_nostr_zap_request :: "string option"
  lm_nostr_zap_receipt :: "string option"
  lm_updated_at :: int
  lm_preimage :: "string option"

definition validate_registration :: "new_spark_registration \<Rightarrow> repository_error + unit" where
  "validate_registration r =
     (if ni_kind (nr_identifier r) = Phone then Inl InvalidIdentifierKind else Inr ())"

text \<open>
  \<open>generate_account_id\<close>: \<open>nanos\<close> is the clock (\<open>as_nanos\<close>, at most 128 bits), \<open>counter\<close> the
  process-wide atomic counter before its \<open>fetch_add\<close>.
\<close>

definition generate_account_id :: "account_provider \<Rightarrow> nat \<Rightarrow> u64 \<Rightarrow> string" where
  "generate_account_id provider nanos counter =
     ''acct_'' @ account_provider_as_str provider @ ''_'' @ show_hex nanos @ ''_'' @ show_hex (unat counter)"

section \<open>Codecs\<close>

text \<open>Each codec accepts exactly the strings it writes.\<close>

lemma account_provider_codec:
  "account_provider_from_database_value v = Inr p \<longleftrightarrow> v = account_provider_as_str p"
  by (cases p) (auto simp: account_provider_from_database_value_def)

lemma identifier_kind_codec:
  "identifier_kind_from_database_value v = Inr k \<longleftrightarrow> v = identifier_kind_as_str k"
  by (cases k) (auto simp: identifier_kind_from_database_value_def)

lemma wallet_kind_codec:
  "wallet_kind_from_database_value v = Inr w \<longleftrightarrow> v = wallet_kind_as_str w"
  by (cases w) (auto simp: wallet_kind_from_database_value_def)

lemma account_mode_codec:
  "account_mode_from_database_value v = Inr m \<longleftrightarrow> v = account_mode_as_str m"
  by (cases m) (auto simp: account_mode_from_database_value_def)

lemma mode_source_codec:
  "mode_source_from_database_value v = Inr s \<longleftrightarrow> v = mode_source_as_str s"
  by (cases s) (auto simp: mode_source_from_database_value_def)

lemma underscore_not_in_hex: "CHR ''_'' \<notin> set (show_hex n)"
  using show_hex_chars [of "CHR ''_''" n]
  by (auto simp: is_ascii_digit_def is_ascii_lowercase_def)

lemma underscore_not_in_provider: "CHR ''_'' \<notin> set (account_provider_as_str p)"
  by (cases p) auto

lemma generate_account_id_inj:
  assumes "generate_account_id p n c = generate_account_id p' n' c'"
  shows "p = p' \<and> n = n' \<and> c = c'"
proof -
  have "account_provider_as_str p @ CHR ''_'' # (show_hex n @ CHR ''_'' # show_hex (unat c)) =
      account_provider_as_str p' @ CHR ''_'' # (show_hex n' @ CHR ''_'' # show_hex (unat c'))"
    using assms by (simp add: generate_account_id_def)
  then have 1: "account_provider_as_str p = account_provider_as_str p'"
    and 2: "show_hex n @ CHR ''_'' # show_hex (unat c) = show_hex n' @ CHR ''_'' # show_hex (unat c')"
    using delimited_eq [OF underscore_not_in_provider underscore_not_in_provider] by blast+
  from 2 have "show_hex n = show_hex n'" "show_hex (unat c) = show_hex (unat c')"
    using delimited_eq [OF underscore_not_in_hex underscore_not_in_hex] by blast+
  moreover from 1 have "p = p'" by (metis account_provider_codec sum.inject(2))
  ultimately show ?thesis by (simp add: show_hex_inj word_unat_eq_iff)
qed

end
