(* ===== verification/Lnurl_Accounts.thy ===== *)
theory Lnurl_Accounts
  imports Lnurl_Schema "HOL-Library.Product_Lexorder"
begin

text \<open>
  The account half of the repository, \<open>src/sqlite/repository.rs\<close>, with the methods in which
  \<open>src/postgresql/repository.rs\<close> differs. A method that runs in one transaction is a function
  \<open>db \<Rightarrow> repository_error + db\<close>: \<open>Inl\<close> is a rolled-back transaction. \<open>now\<close> is the clock the method
  reads and \<open>fresh\<close> the string \<open>generate_account_id\<close> returns if the method calls it.
\<close>

section \<open>Driver errors\<close>

text \<open>
  \<open>src/error.rs\<close>. A unique violation carries the name of the constraint when the driver reports
  one; every constraint these statements can break is an unnamed primary key or reported
  without a name, except where a definition says so.
\<close>

datatype sqlx_error = UniqueViolation "string option" | OtherFault db_fault

definition from_sqlx_error :: "sqlx_error \<Rightarrow> repository_error" where
  "from_sqlx_error e =
     (case e of
        UniqueViolation c \<Rightarrow>
          (if c = Some ''account_identifiers_domain_identifier_key'' then IdentifierConflict
           else if c = Some ''blink_accounts_blink_account_id_key'' then BlinkAccountExists
           else NameTaken)
      | OtherFault f \<Rightarrow> General f)"

section \<open>Rows written by the statements\<close>

definition ident_key :: "account_identifier \<Rightarrow> string \<times> string" where
  "ident_key ai = (ai_domain ai, ai_identifier ai)"

definition new_spark_row :: "string \<Rightarrow> string \<Rightarrow> int \<Rightarrow> spark_account" where
  "new_spark_row account_id pubkey now =
     \<lparr>sp_account_id = account_id, sp_pubkey = pubkey, sp_created_at = now, sp_updated_at = now,
      sp_mode = None, sp_mode_source = None, sp_mode_updated_at = None,
      sp_mode_last_timestamp = None, sp_country = None, sp_country_updated_at = None\<rparr>"

definition new_account_row :: "string \<Rightarrow> account_provider \<Rightarrow> int \<Rightarrow> account" where
  "new_account_row account_id provider now =
     \<lparr>acc_id = account_id, acc_provider = provider, acc_created_at = now, acc_updated_at = now\<rparr>"

definition new_identifier_row :: "string \<Rightarrow> new_account_identifier \<Rightarrow> int \<Rightarrow> account_identifier" where
  "new_identifier_row account_id i now =
     \<lparr>ai_account_id = account_id, ai_domain = ni_domain i, ai_identifier = ni_identifier i,
      ai_kind = ni_kind i, ai_description = ni_description i, ai_created_at = now,
      ai_updated_at = now\<rparr>"

text \<open>\<open>INSERT INTO accounts\<close>, a new primary key or a unique violation.\<close>

definition insert_account :: "account \<Rightarrow> db \<Rightarrow> repository_error + db" where
  "insert_account a d =
     (if exists_where (\<lambda>r. acc_id r = acc_id a) (accounts d)
      then Inl (from_sqlx_error (UniqueViolation None))
      else Inr (d\<lparr>accounts := accounts d @ [a]\<rparr>))"

definition insert_spark_account :: "spark_account \<Rightarrow> db \<Rightarrow> repository_error + db" where
  "insert_spark_account s d =
     (if exists_where (\<lambda>r. sp_account_id r = sp_account_id s \<or> sp_pubkey r = sp_pubkey s) (spark_accounts d)
      then Inl (from_sqlx_error (UniqueViolation None))
      else Inr (d\<lparr>spark_accounts := spark_accounts d @ [s]\<rparr>))"

definition insert_blink_account :: "blink_account \<Rightarrow> db \<Rightarrow> repository_error + db" where
  "insert_blink_account b d =
     (if exists_where (\<lambda>r. bl_account_id r = bl_account_id b \<or>
           bl_blink_account_id r = bl_blink_account_id b) (blink_accounts d)
      then Inl (from_sqlx_error (UniqueViolation None))
      else Inr (d\<lparr>blink_accounts := blink_accounts d @ [b]\<rparr>))"

definition insert_identifier :: "account_identifier \<Rightarrow> db \<Rightarrow> repository_error + db" where
  "insert_identifier ai d =
     (if exists_where (\<lambda>r. ident_key r = ident_key ai) (account_identifiers d)
      then Inl (from_sqlx_error (UniqueViolation None))
      else Inr (d\<lparr>account_identifiers := account_identifiers d @ [ai]\<rparr>))"

fun insert_identifiers :: "account_identifier list \<Rightarrow> db \<Rightarrow> repository_error + db" where
  "insert_identifiers [] d = Inr d"
| "insert_identifiers (ai # ais) d = bind_res (insert_identifier ai d) (insert_identifiers ais)"

section \<open>Statement claims\<close>

definition insert_statement_claim :: "int \<Rightarrow> statement_claim \<Rightarrow> db \<Rightarrow> bool \<times> db" where
  "insert_statement_claim now claim d =
     (if exists_where (\<lambda>r. um_statement_hash r = cl_statement_hash claim) (used_signed_messages d)
      then (False, d)
      else (True, d\<lparr>used_signed_messages := used_signed_messages d @
        [\<lparr>um_statement_hash = cl_statement_hash claim, um_route = cl_route claim,
          um_expires_at = cl_expires_at claim, um_created_at = now\<rparr>]\<rparr>))"

text \<open>The opening of every claiming transaction.\<close>

definition claim_or_refuse :: "int \<Rightarrow> statement_claim option \<Rightarrow> db \<Rightarrow> repository_error + db" where
  "claim_or_refuse now claim d =
     (case claim of
        None \<Rightarrow> Inr d
      | Some c \<Rightarrow>
          (case insert_statement_claim now c d of
             (False, _) \<Rightarrow> Inl StatementAlreadyUsed
           | (True, d') \<Rightarrow> Inr d'))"

definition delete_expired_signed_messages :: "int \<Rightarrow> db \<Rightarrow> nat \<times> db" where
  "delete_expired_signed_messages now d =
     (rows_affected (\<lambda>r. um_expires_at r < now) (used_signed_messages d),
      d\<lparr>used_signed_messages := delete_where (\<lambda>r. um_expires_at r < now) (used_signed_messages d)\<rparr>)"

section \<open>Reads\<close>

definition spark_by_pubkey :: "string \<Rightarrow> db \<Rightarrow> spark_account option" where
  "spark_by_pubkey pubkey d = fetch_optional (\<lambda>s. sp_pubkey s = pubkey) (spark_accounts d)"

definition identifier_row :: "string \<Rightarrow> string \<Rightarrow> db \<Rightarrow> account_identifier option" where
  "identifier_row domain identifier d =
     fetch_optional (\<lambda>ai. ai_domain ai = domain \<and> ai_identifier ai = identifier) (account_identifiers d)"

definition get_account_by_id :: "string \<Rightarrow> db \<Rightarrow> account option" where
  "get_account_by_id account_id d = fetch_optional (\<lambda>a. acc_id a = account_id) (accounts d)"

definition get_account_by_spark_pubkey :: "string \<Rightarrow> db \<Rightarrow> account option" where
  "get_account_by_spark_pubkey pubkey d =
     (case spark_by_pubkey pubkey d of
        None \<Rightarrow> None
      | Some s \<Rightarrow> get_account_by_id (sp_account_id s) d)"

definition get_spark_username_by_name :: "string \<Rightarrow> string \<Rightarrow> db \<Rightarrow> spark_username option" where
  "get_spark_username_by_name domain name d =
     (case [(s, ai). ai \<leftarrow> account_identifiers d, a \<leftarrow> accounts d, s \<leftarrow> spark_accounts d,
              acc_id a = ai_account_id ai \<and> sp_account_id s = acc_id a \<and>
              ai_domain ai = domain \<and> ai_identifier ai = name \<and>
              ai_kind ai = Username \<and> acc_provider a = Spark] of
        [] \<Rightarrow> None
      | (s, ai) # _ \<Rightarrow>
          Some \<lparr>su_domain = domain, su_pubkey = sp_pubkey s, su_username = ai_identifier ai,
                su_description = ai_description ai\<rparr>)"

text \<open>\<open>ORDER BY ai.updated_at DESC, ai.identifier ASC LIMIT 1\<close>.\<close>

definition get_spark_username_by_pubkey :: "string \<Rightarrow> string \<Rightarrow> db \<Rightarrow> spark_username option" where
  "get_spark_username_by_pubkey domain pubkey d =
     (case sort_key (\<lambda>(s, ai). (- ai_updated_at ai, ai_identifier ai))
             [(s, ai). s \<leftarrow> spark_accounts d, a \<leftarrow> accounts d, ai \<leftarrow> account_identifiers d,
                acc_id a = sp_account_id s \<and> ai_account_id ai = acc_id a \<and>
                ai_domain ai = domain \<and> sp_pubkey s = pubkey \<and>
                ai_kind ai = Username \<and> acc_provider a = Spark] of
        [] \<Rightarrow> None
      | (s, ai) # _ \<Rightarrow>
          Some \<lparr>su_domain = domain, su_pubkey = sp_pubkey s, su_username = ai_identifier ai,
                su_description = ai_description ai\<rparr>)"

text \<open>
  The row of \<open>resolve_recipient_by_identifier\<close> is the identifier, its account, and the two
  optional child rows of the left joins.
\<close>

definition map_resolved_recipient ::
  "account_identifier \<Rightarrow> account \<Rightarrow> spark_account option \<Rightarrow> blink_account option \<Rightarrow>
     repository_error + resolved_recipient" where
  "map_resolved_recipient ai a s b =
     (let spark_pubkey = map_option sp_pubkey s;
          blink_account_id = map_option bl_blink_account_id b;
          btc_wallet_id = map_option bl_btc_wallet_id b;
          usd_wallet_id = map_option bl_usd_wallet_id b;
          default_wallet = map_option bl_default_wallet b;
          bad = (case acc_provider a of
                   Spark \<Rightarrow> spark_pubkey = None \<or> blink_account_id \<noteq> None \<or> btc_wallet_id \<noteq> None \<or>
                     usd_wallet_id \<noteq> None \<or> default_wallet \<noteq> None
                 | Blink \<Rightarrow> spark_pubkey \<noteq> None \<or> blink_account_id = None \<or> btc_wallet_id = None \<or>
                     usd_wallet_id = None \<or> default_wallet = None)
      in if bad then Inl InvalidOwnership
         else Inr \<lparr>rr_account_id = acc_id a, rr_provider = acc_provider a, rr_domain = ai_domain ai,
           rr_identifier = ai_identifier ai, rr_kind = ai_kind ai, rr_description = ai_description ai,
           rr_spark_pubkey = spark_pubkey, rr_blink_account_id = blink_account_id,
           rr_btc_wallet_id = btc_wallet_id, rr_usd_wallet_id = usd_wallet_id,
           rr_default_wallet = default_wallet\<rparr>)"

definition resolve_recipient_by_identifier ::
  "string \<Rightarrow> string \<Rightarrow> db \<Rightarrow> repository_error + resolved_recipient option" where
  "resolve_recipient_by_identifier domain identifier d =
     (case identifier_row domain identifier d of
        None \<Rightarrow> Inr None
      | Some ai \<Rightarrow>
          (case get_account_by_id (ai_account_id ai) d of
             None \<Rightarrow> Inr None
           | Some a \<Rightarrow>
               bind_res
                 (map_resolved_recipient ai a
                    (fetch_optional (\<lambda>s. sp_account_id s = acc_id a) (spark_accounts d))
                    (fetch_optional (\<lambda>b. bl_account_id b = acc_id a) (blink_accounts d)))
                 (\<lambda>r. Inr (Some r))))"

definition map_spark_account_mode :: "spark_account \<Rightarrow> spark_account_mode" where
  "map_spark_account_mode s =
     \<lparr>sam_account_id = sp_account_id s, sam_pubkey = sp_pubkey s, sam_mode = sp_mode s,
      sam_mode_source = sp_mode_source s, sam_mode_updated_at = sp_mode_updated_at s,
      sam_mode_last_timestamp = sp_mode_last_timestamp s, sam_country = sp_country s,
      sam_country_updated_at = sp_country_updated_at s\<rparr>"

definition get_spark_account_mode :: "string \<Rightarrow> db \<Rightarrow> spark_account_mode option" where
  "get_spark_account_mode pubkey d = map_option map_spark_account_mode (spark_by_pubkey pubkey d)"

section \<open>Registration and deletion\<close>

definition drop_other_usernames :: "string \<Rightarrow> string \<Rightarrow> string \<Rightarrow> db \<Rightarrow> db" where
  "drop_other_usernames account_id domain identifier d =
     d\<lparr>account_identifiers := delete_where
         (\<lambda>ai. ai_account_id ai = account_id \<and> ai_domain ai = domain \<and> ai_kind ai = Username \<and>
           ai_identifier ai \<noteq> identifier) (account_identifiers d)\<rparr>"

definition ident_pk :: "account_identifier \<Rightarrow> string \<times> string \<times> string" where
  "ident_pk ai = (ai_account_id ai, ai_domain ai, ai_identifier ai)"

text \<open>The \<open>DO UPDATE SET\<close> clauses of the three upserts of a registration.\<close>

definition merge_account :: "account \<Rightarrow> account \<Rightarrow> account" where
  "merge_account old new = old\<lparr>acc_provider := acc_provider new, acc_updated_at := acc_updated_at new\<rparr>"

definition merge_spark :: "spark_account \<Rightarrow> spark_account \<Rightarrow> spark_account" where
  "merge_spark old new = old\<lparr>sp_pubkey := sp_pubkey new, sp_updated_at := sp_updated_at new\<rparr>"

definition merge_identifier :: "account_identifier \<Rightarrow> account_identifier \<Rightarrow> account_identifier" where
  "merge_identifier old new = old\<lparr>ai_kind := ai_kind new, ai_description := ai_description new,
     ai_updated_at := ai_updated_at new\<rparr>"

definition write_registration :: "int \<Rightarrow> string \<Rightarrow> new_spark_registration \<Rightarrow> db \<Rightarrow> db" where
  "write_registration now account_id reg d =
     (let d1 = drop_other_usernames account_id (ni_domain (nr_identifier reg))
                 (ni_identifier (nr_identifier reg)) d
      in d1\<lparr>accounts := upsert_on acc_id merge_account (new_account_row account_id Spark now)
              (accounts d1),
            spark_accounts := upsert_on sp_account_id merge_spark
              (new_spark_row account_id (nr_pubkey reg) now) (spark_accounts d1),
            account_identifiers := upsert_on ident_pk merge_identifier
              (new_identifier_row account_id (nr_identifier reg) now) (account_identifiers d1)\<rparr>)"

definition registration_account_id :: "string \<Rightarrow> new_spark_registration \<Rightarrow> db \<Rightarrow> string" where
  "registration_account_id fresh reg d =
     (case nr_account_id reg of
        Some account_id \<Rightarrow> account_id
      | None \<Rightarrow>
          (case spark_by_pubkey (nr_pubkey reg) d of
             Some s \<Rightarrow> sp_account_id s
           | None \<Rightarrow> fresh))"

definition upsert_spark_registration ::
  "int \<Rightarrow> string \<Rightarrow> new_spark_registration \<Rightarrow> db \<Rightarrow> repository_error + db" where
  "upsert_spark_registration now fresh reg d =
     bind_res (validate_registration reg) (\<lambda>_.
     bind_res (claim_or_refuse now (nr_claim reg) d) (\<lambda>d1.
       let account_id = registration_account_id fresh reg d1;
           i = nr_identifier reg
       in if (case get_account_by_id account_id d1 of Some a \<Rightarrow> acc_provider a \<noteq> Spark | None \<Rightarrow> False)
          then Inl InvalidProvider
          else if (case identifier_row (ni_domain i) (ni_identifier i) d1 of
                     Some ai \<Rightarrow> ai_account_id ai \<noteq> account_id | None \<Rightarrow> False)
          then Inl IdentifierConflict
          else if (case spark_by_pubkey (nr_pubkey reg) d1 of
                     Some s \<Rightarrow> sp_account_id s \<noteq> account_id | None \<Rightarrow> False)
          then Inl InvalidOwnership
          else Inr (write_registration now account_id reg d1)))"

definition delete_spark_registration ::
  "int \<Rightarrow> string \<Rightarrow> string \<Rightarrow> string \<Rightarrow> statement_claim option \<Rightarrow> db \<Rightarrow> repository_error + db" where
  "delete_spark_registration now domain pubkey identifier claim d =
     bind_res (claim_or_refuse now claim d) (\<lambda>d1.
       case spark_by_pubkey pubkey d1 of
         None \<Rightarrow> Inl SourceNotOwner
       | Some s \<Rightarrow>
           (let P = (\<lambda>ai. ai_account_id ai = sp_account_id s \<and> ai_domain ai = domain \<and>
                       ai_identifier ai = identifier)
            in if rows_affected P (account_identifiers d1) = 0 then Inl SourceNotOwner
               else Inr (d1\<lparr>account_identifiers := delete_where P (account_identifiers d1)\<rparr>)))"

section \<open>Account mode\<close>

text \<open>
  The transaction of \<open>ensure_spark_account\<close>. When the pubkey has appeared since the read before
  it, the transaction is rolled back and the call succeeds.
\<close>

definition ensure_spark_account_tx :: "int \<Rightarrow> string \<Rightarrow> string \<Rightarrow> db \<Rightarrow> repository_error + db" where
  "ensure_spark_account_tx now fresh pubkey d =
     bind_res (insert_account (new_account_row fresh Spark now) d) (\<lambda>d1.
       if exists_where (\<lambda>s. sp_pubkey s = pubkey) (spark_accounts d1) then Inr d
       else insert_spark_account (new_spark_row fresh pubkey now) d1)"

definition ensure_spark_account :: "int \<Rightarrow> string \<Rightarrow> string \<Rightarrow> db \<Rightarrow> repository_error + db" where
  "ensure_spark_account now fresh pubkey d =
     (if exists_where (\<lambda>s. sp_pubkey s = pubkey) (spark_accounts d) then Inr d
      else ensure_spark_account_tx now fresh pubkey d)"

definition classify_refused_mode_write ::
  "spark_account_mode option \<Rightarrow> spark_mode_update \<Rightarrow> repository_error + unit" where
  "classify_refused_mode_write record u =
     (case record of
        Some r \<Rightarrow>
          (if sam_mode r = Some (mu_mode u) \<and> sam_mode_last_timestamp r = Some (mu_client_timestamp u)
           then Inr () else Inl StaleModeTimestamp)
      | None \<Rightarrow> Inl AccountNotFound)"

definition mode_write :: "int \<Rightarrow> spark_mode_update \<Rightarrow> spark_account \<Rightarrow> spark_account" where
  "mode_write now u s =
     (let country = (case mu_mode u of Anon \<Rightarrow> None | Enhanced \<Rightarrow> mu_country u);
          write_country = (mu_mode u = Anon \<or> country \<noteq> None);
          country_updated_at = map_option (\<lambda>_. now) country
      in s\<lparr>sp_mode := Some (mu_mode u),
           sp_mode_source := Some (if sp_mode s = None then Signup else Switch),
           sp_mode_updated_at := Some now,
           sp_mode_last_timestamp := Some (mu_client_timestamp u),
           sp_country := (if write_country then country else sp_country s),
           sp_country_updated_at := (if write_country then country_updated_at else sp_country_updated_at s),
           sp_updated_at := now\<rparr>)"

definition mode_write_applies :: "spark_mode_update \<Rightarrow> spark_account \<Rightarrow> bool" where
  "mode_write_applies u s \<longleftrightarrow> sp_pubkey s = mu_pubkey u \<and>
     (case sp_mode_last_timestamp s of None \<Rightarrow> True | Some t \<Rightarrow> t < mu_client_timestamp u)"

text \<open>
  Not one transaction: the account is ensured first, then the guarded \<open>UPDATE\<close> runs on its own,
  so the database is returned with the result.
\<close>

definition upsert_spark_mode ::
  "int \<Rightarrow> string \<Rightarrow> spark_mode_update \<Rightarrow> db \<Rightarrow> (repository_error + unit) \<times> db" where
  "upsert_spark_mode now fresh u d =
     (case ensure_spark_account now fresh (mu_pubkey u) d of
        Inl e \<Rightarrow> (Inl e, d)
      | Inr d1 \<Rightarrow>
          (if rows_affected (mode_write_applies u) (spark_accounts d1) = 0
           then (classify_refused_mode_write (get_spark_account_mode (mu_pubkey u) d1) u, d1)
           else (Inr (), d1\<lparr>spark_accounts :=
             update_where (mode_write_applies u) (mode_write now u) (spark_accounts d1)\<rparr>)))"

definition refresh_spark_country_evidence :: "int \<Rightarrow> string \<Rightarrow> string \<Rightarrow> db \<Rightarrow> db" where
  "refresh_spark_country_evidence now pubkey country d =
     d\<lparr>spark_accounts := update_where (\<lambda>s. sp_pubkey s = pubkey \<and> sp_mode s = Some Enhanced)
         (\<lambda>s. s\<lparr>sp_country := Some country, sp_country_updated_at := Some now, sp_updated_at := now\<rparr>)
         (spark_accounts d)\<rparr>"

definition set_spark_mode_enhanced_if_unset :: "int \<Rightarrow> string \<Rightarrow> db \<Rightarrow> db" where
  "set_spark_mode_enhanced_if_unset now pubkey d =
     d\<lparr>spark_accounts := update_where (\<lambda>s. sp_pubkey s = pubkey \<and> sp_mode s = None)
         (\<lambda>s. s\<lparr>sp_mode := Some Enhanced, sp_mode_source := Some Migration,
               sp_mode_updated_at := Some now, sp_updated_at := now\<rparr>)
         (spark_accounts d)\<rparr>"

section \<open>Blink accounts\<close>

definition blink_row :: "string \<Rightarrow> new_blink_account \<Rightarrow> int \<Rightarrow> blink_account" where
  "blink_row account_id acct now =
     \<lparr>bl_account_id = account_id, bl_blink_account_id = nb_blink_account_id acct,
      bl_btc_wallet_id = nb_btc_wallet_id acct, bl_usd_wallet_id = nb_usd_wallet_id acct,
      bl_default_wallet = nb_default_wallet acct, bl_created_at = now, bl_updated_at = now\<rparr>"

definition create_blink_account ::
  "int \<Rightarrow> string \<Rightarrow> new_blink_account \<Rightarrow> db \<Rightarrow> repository_error + db" where
  "create_blink_account now fresh acct d =
     (let account_id = (case nb_account_id acct of Some i \<Rightarrow> i | None \<Rightarrow> fresh)
      in case get_account_by_id account_id d of
           Some a \<Rightarrow>
             (if acc_provider a \<noteq> Blink then Inl InvalidProvider
              else case fetch_optional (\<lambda>b. bl_account_id b = account_id) (blink_accounts d) of
                     None \<Rightarrow> Inl InvalidOwnership
                   | Some b \<Rightarrow>
                       (if bl_blink_account_id b \<noteq> nb_blink_account_id acct \<or>
                           bl_btc_wallet_id b \<noteq> nb_btc_wallet_id acct \<or>
                           bl_usd_wallet_id b \<noteq> nb_usd_wallet_id acct \<or>
                           bl_default_wallet b \<noteq> nb_default_wallet acct
                        then Inl InvalidOwnership else Inl BlinkAccountExists))
         | None \<Rightarrow>
             (if exists_where (\<lambda>b. bl_blink_account_id b = nb_blink_account_id acct) (blink_accounts d)
              then Inl BlinkAccountExists
              else if list_ex (\<lambda>i. exists_where
                     (\<lambda>ai. ai_domain ai = ni_domain i \<and> ai_identifier ai = ni_identifier i)
                     (account_identifiers d)) (nb_identifiers acct)
              then Inl IdentifierConflict
              else bind_res (insert_account (new_account_row account_id Blink now) d) (\<lambda>d1.
                   bind_res (insert_blink_account (blink_row account_id acct now) d1) (\<lambda>d2.
                   insert_identifiers (map (\<lambda>i. new_identifier_row account_id i now)
                     (nb_identifiers acct)) d2))))"

text \<open>SQLite filters with \<open>EXISTS\<close>, PostgreSQL joins the two tables.\<close>

definition is_blink_account :: "string \<Rightarrow> db \<Rightarrow> bool" where
  "is_blink_account account_id d \<longleftrightarrow>
     exists_where (\<lambda>a. acc_id a = account_id \<and> acc_provider a = Blink) (accounts d)"

definition update_blink_default_wallet ::
  "int \<Rightarrow> string \<Rightarrow> wallet_kind \<Rightarrow> db \<Rightarrow> repository_error + updated_blink_account \<times> db" where
  "update_blink_default_wallet now blink_account_id default_wallet d =
     (let P = (\<lambda>b. bl_blink_account_id b = blink_account_id \<and> is_blink_account (bl_account_id b) d);
          f = (\<lambda>b. b\<lparr>bl_default_wallet := default_wallet, bl_updated_at := now\<rparr>)
      in case fetch_optional P (blink_accounts d) of
           None \<Rightarrow> Inl AccountNotFound
         | Some b \<Rightarrow>
             Inr (\<lparr>ub_account_id = bl_account_id (f b), ub_blink_account_id = bl_blink_account_id (f b),
                   ub_default_wallet = bl_default_wallet (f b)\<rparr>,
                  d\<lparr>blink_accounts := update_where P f (blink_accounts d)\<rparr>))"

definition update_blink_default_wallet_pg ::
  "int \<Rightarrow> string \<Rightarrow> wallet_kind \<Rightarrow> db \<Rightarrow> repository_error + updated_blink_account \<times> db" where
  "update_blink_default_wallet_pg now blink_account_id default_wallet d =
     (let hit = [b. b \<leftarrow> blink_accounts d, a \<leftarrow> accounts d,
                   bl_account_id b = acc_id a \<and> acc_provider a = Blink \<and>
                   bl_blink_account_id b = blink_account_id];
          f = (\<lambda>b. b\<lparr>bl_default_wallet := default_wallet, bl_updated_at := now\<rparr>)
      in case hit of
           [] \<Rightarrow> Inl AccountNotFound
         | b # _ \<Rightarrow>
             Inr (\<lparr>ub_account_id = bl_account_id b, ub_blink_account_id = bl_blink_account_id b,
                   ub_default_wallet = default_wallet\<rparr>,
                  d\<lparr>blink_accounts := map (\<lambda>b. if b \<in> set hit then f b else b) (blink_accounts d)\<rparr>))"

section \<open>Transfers\<close>

text \<open>The destination account of a transfer, created when the pubkey is new.\<close>

definition destination_account :: "int \<Rightarrow> string \<Rightarrow> string \<Rightarrow> db \<Rightarrow> repository_error + string \<times> db" where
  "destination_account now fresh pubkey d =
     (case spark_by_pubkey pubkey d of
        Some s \<Rightarrow>
          (case get_account_by_id (sp_account_id s) d of
             Some a \<Rightarrow>
               (if acc_provider a \<noteq> Spark then Inl InvalidProvider else Inr (sp_account_id s, d))
           | None \<Rightarrow>
               bind_res (insert_account (new_account_row fresh Spark now) d) (\<lambda>d1.
               bind_res (insert_spark_account (new_spark_row fresh pubkey now) d1) (\<lambda>d2.
               Inr (fresh, d2))))
      | None \<Rightarrow>
          bind_res (insert_account (new_account_row fresh Spark now) d) (\<lambda>d1.
          bind_res (insert_spark_account (new_spark_row fresh pubkey now) d1) (\<lambda>d2.
          Inr (fresh, d2))))"

definition move_identifier ::
  "int \<Rightarrow> string \<Rightarrow> string \<Rightarrow> string \<Rightarrow> string \<Rightarrow> string \<Rightarrow> db \<Rightarrow> repository_error + db" where
  "move_identifier now domain identifier source destination description d =
     (let P = (\<lambda>ai. ai_domain ai = domain \<and> ai_identifier ai = identifier \<and> ai_account_id ai = source)
      in if rows_affected P (account_identifiers d) \<noteq> 1 then Inl SourceNotOwner
         else Inr (drop_other_usernames destination domain identifier
           (d\<lparr>account_identifiers := update_where P
               (\<lambda>ai. ai\<lparr>ai_account_id := destination, ai_description := description,
                       ai_updated_at := now\<rparr>) (account_identifiers d)\<rparr>)))"

definition spark_child :: "string \<Rightarrow> db \<Rightarrow> bool" where
  "spark_child account_id d \<longleftrightarrow>
     exists_where (\<lambda>a. acc_id a = account_id \<and> acc_provider a = Spark \<and>
       exists_where (\<lambda>s. sp_account_id s = acc_id a) (spark_accounts d)) (accounts d)"

definition blink_child :: "string \<Rightarrow> db \<Rightarrow> bool" where
  "blink_child account_id d \<longleftrightarrow>
     exists_where (\<lambda>a. acc_id a = account_id \<and> acc_provider a = Blink \<and>
       exists_where (\<lambda>b. bl_account_id b = acc_id a) (blink_accounts d)) (accounts d)"

definition owned_by :: "string \<Rightarrow> string \<Rightarrow> string \<Rightarrow> db \<Rightarrow> bool" where
  "owned_by domain identifier account_id d \<longleftrightarrow>
     map_option ai_account_id (identifier_row domain identifier d) = Some account_id"

definition transfer_identifier ::
  "int \<Rightarrow> string \<Rightarrow> identifier_transfer \<Rightarrow> db \<Rightarrow> repository_error + db" where
  "transfer_identifier now fresh t d =
     bind_res (claim_or_refuse now (tr_claim t) d) (\<lambda>d1.
       if \<not> owned_by (tr_domain t) (tr_identifier t) (tr_source_account_id t) d1
       then Inl SourceNotOwner
       else if \<not> spark_child (tr_source_account_id t) d1 then Inl InvalidOwnership
       else bind_res (destination_account now fresh (tr_destination_spark_pubkey t) d1)
         (\<lambda>(destination, d2).
           move_identifier now (tr_domain t) (tr_identifier t) (tr_source_account_id t) destination
             (tr_description t) d2))"

text \<open>PostgreSQL checks the destination's child row before the update.\<close>

definition transfer_identifier_pg ::
  "int \<Rightarrow> string \<Rightarrow> identifier_transfer \<Rightarrow> db \<Rightarrow> repository_error + db" where
  "transfer_identifier_pg now fresh t d =
     bind_res (claim_or_refuse now (tr_claim t) d) (\<lambda>d1.
       if \<not> owned_by (tr_domain t) (tr_identifier t) (tr_source_account_id t) d1
       then Inl SourceNotOwner
       else if \<not> spark_child (tr_source_account_id t) d1 then Inl InvalidOwnership
       else bind_res (destination_account now fresh (tr_destination_spark_pubkey t) d1)
         (\<lambda>(destination, d2).
           if \<not> spark_child destination d2 then Inl InvalidProvider
           else move_identifier now (tr_domain t) (tr_identifier t) (tr_source_account_id t)
             destination (tr_description t) d2))"

definition transfer_blink_identifier_to_spark ::
  "int \<Rightarrow> string \<Rightarrow> blink_to_spark_transfer \<Rightarrow> db \<Rightarrow> repository_error + db" where
  "transfer_blink_identifier_to_spark now fresh t d =
     (if \<not> owned_by (bt_domain t) (bt_identifier t) (bt_source_account_id t) d
      then Inl SourceNotOwner
      else if \<not> blink_child (bt_source_account_id t) d then Inl InvalidOwnership
      else bind_res (destination_account now fresh (bt_destination_spark_pubkey t) d)
        (\<lambda>(destination, d2).
          move_identifier now (bt_domain t) (bt_identifier t) (bt_source_account_id t) destination
            (bt_description t) d2))"

definition transfer_blink_identifier_to_spark_pg ::
  "int \<Rightarrow> string \<Rightarrow> blink_to_spark_transfer \<Rightarrow> db \<Rightarrow> repository_error + db" where
  "transfer_blink_identifier_to_spark_pg now fresh t d =
     (if \<not> owned_by (bt_domain t) (bt_identifier t) (bt_source_account_id t) d
      then Inl SourceNotOwner
      else if \<not> blink_child (bt_source_account_id t) d then Inl InvalidOwnership
      else bind_res (destination_account now fresh (bt_destination_spark_pubkey t) d)
        (\<lambda>(destination, d2).
          if \<not> spark_child destination d2 then Inl InvalidProvider
          else move_identifier now (bt_domain t) (bt_identifier t) (bt_source_account_id t)
            destination (bt_description t) d2))"

section \<open>Domains and settings\<close>

definition list_domains :: "db \<Rightarrow> string list" where
  "list_domains d = allowed_domains d"

definition add_domain :: "string \<Rightarrow> db \<Rightarrow> db" where
  "add_domain domain d = d\<lparr>allowed_domains := insert_ignore (\<lambda>x. x) domain (allowed_domains d)\<rparr>"

definition get_or_create_setting :: "string \<Rightarrow> string \<Rightarrow> db \<Rightarrow> (repository_error + string) \<times> db" where
  "get_or_create_setting key default_value d =
     (let d1 = d\<lparr>settings := insert_ignore fst (key, default_value) (settings d)\<rparr>
      in (case fetch_optional (\<lambda>kv. fst kv = key) (settings d1) of
            None \<Rightarrow> Inl (General RowNotFound)
          | Some kv \<Rightarrow> Inr (snd kv), d1))"

text \<open>One statement in PostgreSQL: a conflicting row is rewritten with its own value.\<close>

definition get_or_create_setting_pg :: "string \<Rightarrow> string \<Rightarrow> db \<Rightarrow> (repository_error + string) \<times> db" where
  "get_or_create_setting_pg key default_value d =
     (let d1 = d\<lparr>settings := upsert_on fst (\<lambda>old new. old) (key, default_value) (settings d)\<rparr>
      in (case fetch_optional (\<lambda>kv. fst kv = key) (settings d1) of
            None \<Rightarrow> Inl (General RowNotFound)
          | Some kv \<Rightarrow> Inr (snd kv), d1))"

end
