(* ===== verification/Lnurl_Accounts_Inv.thy ===== *)
theory Lnurl_Accounts_Inv
  imports Lnurl_Accounts
begin

text \<open>
  The invariant of the account tables and its preservation by every repository method of
  \<open>Lnurl_Accounts\<close>, for SQLite and PostgreSQL. The invariant is a conjunction of predicates on
  single tables, so that a method that leaves a table alone keeps its conjunct by rewriting.
\<close>

section \<open>The invariant\<close>

definition account_ids :: "account_provider \<Rightarrow> account list \<Rightarrow> string set" where
  "account_ids p t = acc_id ` {a \<in> set t. acc_provider a = p}"

text \<open>The unique indexes of the schema.\<close>

definition keys_inv :: "db \<Rightarrow> bool" where
  "keys_inv d \<longleftrightarrow>
     unique_by acc_id (accounts d) \<and> unique_by ident_key (account_identifiers d) \<and>
     unique_by sp_account_id (spark_accounts d) \<and> unique_by sp_pubkey (spark_accounts d) \<and>
     unique_by bl_account_id (blink_accounts d) \<and> unique_by bl_blink_account_id (blink_accounts d) \<and>
     unique_by um_statement_hash (used_signed_messages d)"

text \<open>Every account has exactly the child row of its provider, and every identifier an account.\<close>

definition spark_children :: "account list \<Rightarrow> spark_account list \<Rightarrow> bool" where
  "spark_children accs t \<longleftrightarrow> sp_account_id ` set t = account_ids Spark accs"

definition blink_children :: "account list \<Rightarrow> blink_account list \<Rightarrow> bool" where
  "blink_children accs t \<longleftrightarrow> bl_account_id ` set t = account_ids Blink accs"

definition identifiers_owned :: "account list \<Rightarrow> account_identifier list \<Rightarrow> bool" where
  "identifiers_owned accs t \<longleftrightarrow> ai_account_id ` set t \<subseteq> acc_id ` set accs"

text \<open>A Spark account holds at most one username per domain.\<close>

definition single_username :: "account list \<Rightarrow> account_identifier list \<Rightarrow> bool" where
  "single_username accs t \<longleftrightarrow>
     (\<forall>ai \<in> set t. \<forall>aj \<in> set t.
        ai_account_id ai \<in> account_ids Spark accs \<and> ai_account_id aj = ai_account_id ai \<and>
        ai_domain aj = ai_domain ai \<and> ai_kind ai = Username \<and> ai_kind aj = Username \<longrightarrow>
        ai_identifier ai = ai_identifier aj)"

text \<open>Country evidence is stored for enhanced accounts only; an untyped account has no mode history.\<close>

definition mode_row_inv :: "spark_account \<Rightarrow> bool" where
  "mode_row_inv s \<longleftrightarrow>
     (sp_country s \<noteq> None \<longrightarrow> sp_mode s = Some Enhanced) \<and>
     (sp_country s = None \<longleftrightarrow> sp_country_updated_at s = None) \<and>
     (sp_mode s = None \<longleftrightarrow> sp_mode_source s = None) \<and>
     (sp_mode s = None \<longleftrightarrow> sp_mode_updated_at s = None) \<and>
     (sp_mode s = None \<longrightarrow> sp_mode_last_timestamp s = None)"

definition modes_inv :: "spark_account list \<Rightarrow> bool" where
  "modes_inv t \<longleftrightarrow> (\<forall>s \<in> set t. mode_row_inv s)"

definition accounts_inv :: "db \<Rightarrow> bool" where
  "accounts_inv d \<longleftrightarrow> keys_inv d \<and> spark_children (accounts d) (spark_accounts d) \<and>
     blink_children (accounts d) (blink_accounts d) \<and>
     identifiers_owned (accounts d) (account_identifiers d) \<and>
     single_username (accounts d) (account_identifiers d) \<and> modes_inv (spark_accounts d)"

lemmas accounts_inv_defs = accounts_inv_def keys_inv_def

lemmas table_inv_defs =
  spark_children_def blink_children_def identifiers_owned_def single_username_def modes_inv_def
  account_ids_def

lemma accounts_inv_empty: "accounts_inv empty_db"
  by (simp add: accounts_inv_defs table_inv_defs empty_db_def)

text \<open>Only the account tables and the claims matter.\<close>

lemma accounts_inv_cong:
  assumes "accounts d' = accounts d" "account_identifiers d' = account_identifiers d"
    "spark_accounts d' = spark_accounts d" "blink_accounts d' = blink_accounts d"
    "used_signed_messages d' = used_signed_messages d"
  shows "accounts_inv d' = accounts_inv d"
  using assms by (simp add: accounts_inv_defs)

lemma account_ids_disjoint:
  assumes "unique_by acc_id t"
  shows "account_ids Spark t \<inter> account_ids Blink t = {}"
proof -
  have False if "a \<in> set t" "b \<in> set t" "acc_provider a = Spark" "acc_provider b = Blink"
    "acc_id a = acc_id b" for a b
    using unique_byD [OF assms that(1,2,5)] that(3,4) by simp
  then show ?thesis by (auto simp: account_ids_def)
qed

lemma acc_ids_eq: "acc_id ` set t = account_ids Spark t \<union> account_ids Blink t"
proof -
  have "acc_id a \<in> account_ids Spark t \<union> account_ids Blink t" if "a \<in> set t" for a
    using that by (cases "acc_provider a") (auto simp: account_ids_def)
  then show ?thesis by (auto simp: account_ids_def)
qed

lemma account_ids_append [simp]:
  "account_ids p (t @ [a]) = account_ids p t \<union> (if acc_provider a = p then {acc_id a} else {})"
  by (auto simp: account_ids_def)

section \<open>Lookups under the invariant\<close>

lemma get_account_by_id_Some:
  "get_account_by_id i d = Some a \<Longrightarrow> a \<in> set (accounts d) \<and> acc_id a = i"
  by (auto simp: get_account_by_id_def dest: fetch_optional_SomeD)

lemma get_account_by_id_None:
  "get_account_by_id i d = None \<longleftrightarrow> i \<notin> acc_id ` set (accounts d)"
  by (auto simp: get_account_by_id_def fetch_optional_None_iff)

lemma get_account_by_id_provider:
  assumes "accounts_inv d" "get_account_by_id i d = Some a"
  shows "acc_provider a = p \<longleftrightarrow> i \<in> account_ids p (accounts d)"
proof
  assume "acc_provider a = p"
  with get_account_by_id_Some [OF assms(2)] show "i \<in> account_ids p (accounts d)"
    by (auto simp: account_ids_def)
next
  assume "i \<in> account_ids p (accounts d)"
  then obtain b where "b \<in> set (accounts d)" "acc_provider b = p" "acc_id b = i"
    by (auto simp: account_ids_def)
  with get_account_by_id_Some [OF assms(2)] assms(1) show "acc_provider a = p"
    by (metis accounts_inv_def keys_inv_def unique_byD)
qed

lemma spark_by_pubkey_Some:
  "spark_by_pubkey k d = Some s \<Longrightarrow> s \<in> set (spark_accounts d) \<and> sp_pubkey s = k"
  by (auto simp: spark_by_pubkey_def dest: fetch_optional_SomeD)

lemma spark_by_pubkey_None:
  "spark_by_pubkey k d = None \<longleftrightarrow> k \<notin> sp_pubkey ` set (spark_accounts d)"
  by (auto simp: spark_by_pubkey_def fetch_optional_None_iff)

lemma spark_by_pubkeyI:
  assumes "accounts_inv d" "s \<in> set (spark_accounts d)"
  shows "spark_by_pubkey (sp_pubkey s) d = Some s"
  using assms fetch_optional_unique [of sp_pubkey "spark_accounts d" s]
  by (simp add: spark_by_pubkey_def accounts_inv_def keys_inv_def)

lemma identifier_row_Some:
  "identifier_row dn i d = Some ai \<Longrightarrow>
     ai \<in> set (account_identifiers d) \<and> ai_domain ai = dn \<and> ai_identifier ai = i"
  by (auto simp: identifier_row_def dest: fetch_optional_SomeD)

lemma identifier_row_None:
  "identifier_row dn i d = None \<longleftrightarrow> (dn, i) \<notin> ident_key ` set (account_identifiers d)"
  by (auto simp: identifier_row_def fetch_optional_None_iff ident_key_def)

lemma identifier_rowI:
  assumes "accounts_inv d" "ai \<in> set (account_identifiers d)"
  shows "identifier_row (ai_domain ai) (ai_identifier ai) d = Some ai"
proof -
  have "identifier_row (ai_domain ai) (ai_identifier ai) d =
      fetch_optional (\<lambda>x. ident_key x = ident_key ai) (account_identifiers d)"
    by (simp add: identifier_row_def ident_key_def)
  with fetch_optional_unique [of ident_key "account_identifiers d" ai] assms show ?thesis
    by (simp add: accounts_inv_defs)
qed

lemma get_account_by_idI:
  assumes "accounts_inv d" "a \<in> set (accounts d)"
  shows "get_account_by_id (acc_id a) d = Some a"
  using assms fetch_optional_unique [of acc_id "accounts d" a]
  by (simp add: get_account_by_id_def accounts_inv_defs)

section \<open>Claims\<close>

lemma claim_or_refuse_None [simp]: "claim_or_refuse now None d = Inr d"
  by (simp add: claim_or_refuse_def)

definition claim_rows :: "int \<Rightarrow> statement_claim option \<Rightarrow> used_signed_message list" where
  "claim_rows now cl = (case cl of None \<Rightarrow> [] | Some c \<Rightarrow>
     [\<lparr>um_statement_hash = cl_statement_hash c, um_route = cl_route c,
       um_expires_at = cl_expires_at c, um_created_at = now\<rparr>])"

definition claimed :: "statement_claim \<Rightarrow> db \<Rightarrow> bool" where
  "claimed c d \<longleftrightarrow> exists_where (\<lambda>r. um_statement_hash r = cl_statement_hash c) (used_signed_messages d)"

lemma claim_or_refuse_iff:
  "claim_or_refuse now cl d =
     (if \<exists>c. cl = Some c \<and> claimed c d then Inl StatementAlreadyUsed
      else Inr (d\<lparr>used_signed_messages := used_signed_messages d @ claim_rows now cl\<rparr>))"
  by (cases cl) (simp_all add: claim_or_refuse_def insert_statement_claim_def claim_rows_def claimed_def)

lemma claim_or_refuse_ok:
  assumes "claim_or_refuse now cl d = Inr d'"
  shows "d' = d\<lparr>used_signed_messages := used_signed_messages d @ claim_rows now cl\<rparr>"
    and "cl = Some c \<Longrightarrow> \<not> claimed c d"
  using assms by (auto simp only: claim_or_refuse_iff sum.distinct sum.inject split: if_splits)

lemma claim_or_refuse_frame:
  assumes "claim_or_refuse now cl d = Inr d'"
  shows "accounts d' = accounts d" "account_identifiers d' = account_identifiers d"
    "spark_accounts d' = spark_accounts d" "blink_accounts d' = blink_accounts d"
    "invoices d' = invoices d"
  by (simp_all add: claim_or_refuse_ok(1) [OF assms])

lemma claim_or_refuse_inv:
  assumes "claim_or_refuse now cl d = Inr d'" "accounts_inv d"
  shows "accounts_inv d'"
proof -
  have "unique_by um_statement_hash (used_signed_messages d @ claim_rows now cl)"
    using assms(2) claim_or_refuse_ok(2) [OF assms(1)]
    by (cases cl) (auto simp: claim_rows_def claimed_def accounts_inv_defs)
  with assms(2) show ?thesis by (simp add: claim_or_refuse_ok(1) [OF assms(1)] accounts_inv_defs)
qed

lemma delete_expired_inv: "accounts_inv d \<Longrightarrow> accounts_inv (snd (delete_expired_signed_messages n d))"
  by (simp add: accounts_inv_defs delete_expired_signed_messages_def)

section \<open>Changing the identifiers only\<close>

lemma accounts_inv_identifiers:
  assumes "accounts_inv d"
    and "unique_by ident_key ais" "identifiers_owned (accounts d) ais" "single_username (accounts d) ais"
  shows "accounts_inv (d\<lparr>account_identifiers := ais\<rparr>)"
  using assms by (simp add: accounts_inv_defs)

lemma single_username_mono:
  "set u \<subseteq> set t \<Longrightarrow> single_username accs t \<Longrightarrow> single_username accs u"
  unfolding single_username_def by blast

lemma identifiers_owned_mono:
  "set u \<subseteq> set t \<Longrightarrow> identifiers_owned accs t \<Longrightarrow> identifiers_owned accs u"
  unfolding identifiers_owned_def by blast

lemma accounts_inv_delete_identifiers:
  assumes "accounts_inv d"
  shows "accounts_inv (d\<lparr>account_identifiers := delete_where P (account_identifiers d)\<rparr>)"
proof -
  have sub: "set (delete_where P (account_identifiers d)) \<subseteq> set (account_identifiers d)" by auto
  show ?thesis
    using assms single_username_mono [OF sub] identifiers_owned_mono [OF sub]
    by (simp add: accounts_inv_defs)
qed

lemma single_usernameD:
  assumes "single_username accs t" "ai \<in> set t" "aj \<in> set t"
    "ai_account_id ai \<in> account_ids Spark accs" "ai_account_id aj = ai_account_id ai"
    "ai_domain aj = ai_domain ai" "ai_kind ai = Username" "ai_kind aj = Username"
  shows "ai_identifier ai = ai_identifier aj"
  using assms unfolding single_username_def by blast

section \<open>Adding an account\<close>

lemma mode_row_inv_new [simp]: "mode_row_inv (new_spark_row i k now)"
  by (simp add: mode_row_inv_def new_spark_row_def)

lemma new_rows_simps [simp]:
  "acc_id (new_account_row i p now) = i"
  "acc_provider (new_account_row i p now) = p"
  "sp_account_id (new_spark_row i k now) = i"
  "sp_pubkey (new_spark_row i k now) = k"
  "bl_account_id (blink_row i b now) = i"
  "bl_blink_account_id (blink_row i b now) = nb_blink_account_id b"
  "ai_account_id (new_identifier_row i n now) = i"
  "ai_domain (new_identifier_row i n now) = ni_domain n"
  "ai_identifier (new_identifier_row i n now) = ni_identifier n"
  "ai_kind (new_identifier_row i n now) = ni_kind n"
  "ai_description (new_identifier_row i n now) = ni_description n"
  by (simp_all add: new_account_row_def new_spark_row_def blink_row_def new_identifier_row_def)

lemma single_username_new_account:
  assumes "identifiers_owned accs t" "i \<notin> acc_id ` set accs" "acc_id a = i"
    "single_username accs t"
  shows "single_username (accs @ [a]) t"
proof -
  have "ai_account_id ai \<noteq> acc_id a" if "ai \<in> set t" for ai
    using assms(1-3) that by (metis identifiers_owned_def image_eqI subsetD)
  then have "ai_account_id ai \<in> account_ids Spark (accs @ [a]) \<longleftrightarrow> ai_account_id ai \<in> account_ids Spark accs"
    if "ai \<in> set t" for ai
    using that by simp
  with assms(4) show ?thesis unfolding single_username_def by blast
qed

lemma identifiers_owned_append:
  "identifiers_owned accs t \<Longrightarrow> identifiers_owned (accs @ us) t"
  by (auto simp: identifiers_owned_def)

lemma not_child_of_missing:
  assumes "i \<notin> acc_id ` set accs"
  shows "spark_children accs t \<Longrightarrow> i \<notin> sp_account_id ` set t"
    and "blink_children accs u \<Longrightarrow> i \<notin> bl_account_id ` set u"
  using assms by (simp_all add: spark_children_def blink_children_def acc_ids_eq)

lemma spark_children_append:
  "spark_children accs t \<Longrightarrow> spark_children (accs @ [new_account_row i Spark now]) (t @ [new_spark_row i k now])"
  by (simp add: spark_children_def new_account_row_def new_spark_row_def)

lemma children_append_other:
  "blink_children accs u \<Longrightarrow> blink_children (accs @ [new_account_row i Spark now]) u"
  "spark_children accs t \<Longrightarrow> spark_children (accs @ [new_account_row i Blink now]) t"
  by (simp_all add: spark_children_def blink_children_def new_account_row_def)

lemma accounts_inv_add_spark:
  assumes inv: "accounts_inv d" and i: "i \<notin> acc_id ` set (accounts d)"
    and k: "k \<notin> sp_pubkey ` set (spark_accounts d)"
  shows "accounts_inv (d\<lparr>accounts := accounts d @ [new_account_row i Spark now],
    spark_accounts := spark_accounts d @ [new_spark_row i k now]\<rparr>)"
proof -
  have child: "\<forall>s \<in> set (spark_accounts d). sp_account_id s \<noteq> i"
    using inv not_child_of_missing(1) [OF i, of "spark_accounts d"]
    by (auto simp: accounts_inv_def)
  have "modes_inv (spark_accounts d @ [new_spark_row i k now])"
    using inv by (auto simp: accounts_inv_def modes_inv_def)
  moreover have "single_username (accounts d @ [new_account_row i Spark now]) (account_identifiers d)"
    using inv i by (intro single_username_new_account) (simp_all add: accounts_inv_def)
  moreover have "\<forall>a \<in> set (accounts d). acc_id a \<noteq> i" "\<forall>s \<in> set (spark_accounts d). sp_pubkey s \<noteq> k"
    using i k by auto
  ultimately show ?thesis
    using inv child
    by (simp add: accounts_inv_defs spark_children_append children_append_other identifiers_owned_append)
qed

lemma insert_account_ok:
  "insert_account a d = Inr d' \<longleftrightarrow>
     acc_id a \<notin> acc_id ` set (accounts d) \<and> d' = d\<lparr>accounts := accounts d @ [a]\<rparr>"
  by (simp add: insert_account_def image_iff) metis

lemma insert_spark_account_ok:
  "insert_spark_account s d = Inr d' \<longleftrightarrow>
     sp_account_id s \<notin> sp_account_id ` set (spark_accounts d) \<and>
     sp_pubkey s \<notin> sp_pubkey ` set (spark_accounts d) \<and>
     d' = d\<lparr>spark_accounts := spark_accounts d @ [s]\<rparr>"
  by (simp add: insert_spark_account_def image_iff) metis

lemma ensure_spark_account_ok:
  assumes "ensure_spark_account now fresh k d = Inr d'"
  shows "k \<in> sp_pubkey ` set (spark_accounts d) \<and> d' = d \<or>
    k \<notin> sp_pubkey ` set (spark_accounts d) \<and> fresh \<notin> acc_id ` set (accounts d) \<and>
    d' = d\<lparr>accounts := accounts d @ [new_account_row fresh Spark now],
           spark_accounts := spark_accounts d @ [new_spark_row fresh k now]\<rparr>"
  using assms
  by (auto simp: ensure_spark_account_def ensure_spark_account_tx_def bind_res_Inr_iff
      insert_account_ok insert_spark_account_ok split: if_splits)

lemma ensure_spark_account_inv:
  "accounts_inv d \<Longrightarrow> ensure_spark_account now fresh k d = Inr d' \<Longrightarrow> accounts_inv d'"
  using accounts_inv_add_spark by (auto dest!: ensure_spark_account_ok)

lemma ensure_spark_account_tx_inv:
  assumes "accounts_inv d" "ensure_spark_account_tx now fresh k d = Inr d'"
  shows "accounts_inv d'"
proof (cases "k \<in> sp_pubkey ` set (spark_accounts d)")
  case True
  with assms show ?thesis
    by (auto simp: ensure_spark_account_tx_def bind_res_Inr_iff insert_account_ok split: if_splits)
next
  case False
  then have "ensure_spark_account now fresh k d = Inr d'"
    using assms(2) by (auto simp: ensure_spark_account_def)
  with assms(1) show ?thesis by (rule ensure_spark_account_inv)
qed

section \<open>Updating Spark rows in place\<close>

lemma accounts_inv_spark_update:
  assumes "accounts_inv d"
    and "\<And>s. sp_account_id (f s) = sp_account_id s" "\<And>s. sp_pubkey (f s) = sp_pubkey s"
    and "\<And>s. P s \<Longrightarrow> mode_row_inv s \<Longrightarrow> mode_row_inv (f s)"
  shows "accounts_inv (d\<lparr>spark_accounts := update_where P f (spark_accounts d)\<rparr>)"
proof -
  have "map sp_account_id (update_where P f t) = map sp_account_id t" for t
    using assms(2) by (simp add: update_where_def)
  then have "sp_account_id ` set (update_where P f t) = sp_account_id ` set t" for t
    by (metis list.set_map)
  moreover have "modes_inv (update_where P f (spark_accounts d))"
    using assms(1,4) by (auto simp: table_simps accounts_inv_def modes_inv_def)
  ultimately show ?thesis
    using assms(1-3) by (simp add: accounts_inv_defs spark_children_def unique_by_update)
qed

lemma mode_write_inv: "mode_row_inv s \<Longrightarrow> mode_row_inv (mode_write now u s)"
  by (cases "mu_mode u"; cases "mu_country u") (auto simp: mode_row_inv_def mode_write_def Let_def)

lemma mode_write_keys [simp]:
  "sp_account_id (mode_write now u s) = sp_account_id s"
  "sp_pubkey (mode_write now u s) = sp_pubkey s"
  by (simp_all add: mode_write_def Let_def)

lemma upsert_spark_mode_inv:
  assumes "accounts_inv d" "upsert_spark_mode now fresh u d = (r, d')"
  shows "accounts_inv d'"
proof (cases "ensure_spark_account now fresh (mu_pubkey u) d")
  case (Inl e)
  with assms show ?thesis by (simp add: upsert_spark_mode_def)
next
  case (Inr d1)
  with assms(1) have "accounts_inv d1" by (rule ensure_spark_account_inv)
  then have "accounts_inv (d1\<lparr>spark_accounts :=
      update_where (mode_write_applies u) (mode_write now u) (spark_accounts d1)\<rparr>)"
    by (rule accounts_inv_spark_update) (auto intro: mode_write_inv)
  with Inr assms(2) \<open>accounts_inv d1\<close> show ?thesis
    by (auto simp: upsert_spark_mode_def split: if_splits)
qed

lemma refresh_spark_country_evidence_inv:
  "accounts_inv d \<Longrightarrow> accounts_inv (refresh_spark_country_evidence now k c d)"
  unfolding refresh_spark_country_evidence_def
  by (rule accounts_inv_spark_update) (auto simp: mode_row_inv_def)

lemma set_spark_mode_enhanced_if_unset_inv:
  "accounts_inv d \<Longrightarrow> accounts_inv (set_spark_mode_enhanced_if_unset now k d)"
  unfolding set_spark_mode_enhanced_if_unset_def
  by (rule accounts_inv_spark_update) (auto simp: mode_row_inv_def)

section \<open>Registration\<close>

interpretation account_table: upsert_table acc_id merge_account
  by unfold_locales (simp add: merge_account_def)

interpretation spark_table: upsert_table sp_account_id merge_spark
  by unfold_locales (simp add: merge_spark_def)

interpretation identifier_table: upsert_table ident_pk merge_identifier
  by unfold_locales (simp add: merge_identifier_def ident_pk_def)

lemma account_ids_upsert:
  assumes "\<And>a. a \<in> set t \<Longrightarrow> acc_id a = i \<Longrightarrow> acc_provider a = Spark"
  shows "account_ids p (upsert_on acc_id merge_account (new_account_row i Spark now) t) =
    account_ids p t \<union> (if p = Spark then {i} else {})"
proof -
  let ?c = "\<lambda>a. (acc_id a, acc_provider a)"
  have ids: "account_ids p u = {j. (j, p) \<in> ?c ` set u}" for u
    unfolding account_ids_def by (rule set_eqI) (simp add: image_iff; metis)
  have "?c ` set (upsert_on acc_id merge_account (new_account_row i Spark now) t) =
      insert (i, Spark) (?c ` set t)"
    using account_table.column_upsert [of t "new_account_row i Spark now" ?c] assms
    by (simp add: merge_account_def)
  then show ?thesis unfolding ids by (cases p) auto
qed

lemma unique_pubkey_upsert:
  assumes "unique_by sp_pubkey t" "unique_by sp_account_id t"
    "\<And>s. s \<in> set t \<Longrightarrow> sp_pubkey s = k \<Longrightarrow> sp_account_id s = i"
  shows "unique_by sp_pubkey (upsert_on sp_account_id merge_spark (new_spark_row i k now) t)"
  using spark_table.unique_upsert_column [OF assms(2,1), of "new_spark_row i k now"] assms(3)
  by (simp add: merge_spark_def)

lemma modes_inv_upsert:
  assumes "modes_inv t"
  shows "modes_inv (upsert_on sp_account_id merge_spark (new_spark_row i k now) t)"
proof -
  have "mode_row_inv (merge_spark s (new_spark_row i k now)) = mode_row_inv s" for s
    unfolding mode_row_inv_def by (simp add: merge_spark_def)
  with assms show ?thesis
    unfolding modes_inv_def by (metis mode_row_inv_new spark_table.set_upsert)
qed

text \<open>The identifier rows after a registration.\<close>

definition registered_identifiers ::
  "int \<Rightarrow> string \<Rightarrow> new_account_identifier \<Rightarrow> account_identifier list \<Rightarrow> account_identifier list" where
  "registered_identifiers now i n t =
     upsert_on ident_pk merge_identifier (new_identifier_row i n now)
       (delete_where (\<lambda>ai. ai_account_id ai = i \<and> ai_domain ai = ni_domain n \<and> ai_kind ai = Username \<and>
          ai_identifier ai \<noteq> ni_identifier n) t)"

lemma write_registration_eq:
  "write_registration now i reg d =
     d\<lparr>accounts := upsert_on acc_id merge_account (new_account_row i Spark now) (accounts d),
       spark_accounts := upsert_on sp_account_id merge_spark (new_spark_row i (nr_pubkey reg) now)
         (spark_accounts d),
       account_identifiers := registered_identifiers now i (nr_identifier reg) (account_identifiers d)\<rparr>"
  by (simp add: write_registration_def drop_other_usernames_def registered_identifiers_def Let_def)

lemma unique_ident_key_upsert:
  assumes "unique_by ident_key t"
    "\<And>ai. ai \<in> set t \<Longrightarrow> ident_key ai = ident_key row \<Longrightarrow> ai_account_id ai = ai_account_id row"
  shows "unique_by ident_key (upsert_on ident_pk merge_identifier row t)"
proof (cases "exists_where (\<lambda>r. ident_pk r = ident_pk row) t")
  case True
  then show ?thesis
    using assms(1) by (simp add: upsert_on_def unique_by_update merge_identifier_def ident_key_def)
next
  case False
  then have "\<forall>ai \<in> set t. ident_key ai \<noteq> ident_key row"
    using assms(2) by (auto simp: ident_pk_def ident_key_def)
  with False assms(1) show ?thesis by (simp add: upsert_on_def)
qed

lemma registered_identifiers_keys:
  assumes "unique_by ident_key t"
    "\<And>ai. ai \<in> set t \<Longrightarrow> ai_domain ai = ni_domain n \<Longrightarrow> ai_identifier ai = ni_identifier n \<Longrightarrow>
       ai_account_id ai = i"
  shows "unique_by ident_key (registered_identifiers now i n t)"
  unfolding registered_identifiers_def
  by (rule unique_ident_key_upsert) (use assms in \<open>auto simp: ident_key_def\<close>)

text \<open>A row of the new table is an old row of another slot, or is the registered one.\<close>

lemma registered_identifiers_cases:
  assumes "r \<in> set (registered_identifiers now i n t)"
  obtains (new) "ai_account_id r = i" "ai_domain r = ni_domain n" "ai_identifier r = ni_identifier n"
      "ai_kind r = ni_kind n" "ai_description r = ni_description n"
  | (old) "r \<in> set t" "\<not> (ai_account_id r = i \<and> ai_domain r = ni_domain n \<and> ai_kind r = Username)"
  | (same) "r \<in> set t" "ai_account_id r = i" "ai_domain r = ni_domain n" "ai_identifier r = ni_identifier n"
proof -
  let ?row = "new_identifier_row i n now"
  from identifier_table.set_upsert [OF assms [unfolded registered_identifiers_def]]
  consider "r \<in> set t" "\<not> (ai_account_id r = i \<and> ai_domain r = ni_domain n \<and> ai_kind r = Username \<and>
        ai_identifier r \<noteq> ni_identifier n)"
    | "r = ?row" | s where "ident_pk s = ident_pk ?row" "r = merge_identifier s ?row"
    by auto
  then show thesis
  proof cases
    case 1
    then show ?thesis using old same by blast
  next
    case 2
    then show ?thesis using new by simp
  next
    case 3
    then show ?thesis using new by (simp add: merge_identifier_def ident_pk_def)
  qed
qed

lemma registered_identifiers_username:
  assumes "r \<in> set (registered_identifiers now i n t)" "ai_account_id r = i"
    "ai_domain r = ni_domain n" "ai_kind r = Username"
  shows "ai_identifier r = ni_identifier n"
  using assms(1) by (cases rule: registered_identifiers_cases) (use assms in auto)

lemma registered_identifiers_single:
  assumes "single_username accs t" "identifiers_owned accs t"
    and i: "i \<notin> acc_id ` set accs \<or> i \<in> account_ids Spark accs"
    and ids: "account_ids Spark accs' = account_ids Spark accs \<union> {i}"
  shows "single_username accs' (registered_identifiers now i n t)"
proof -
  let ?t = "registered_identifiers now i n t"
  have "ai_identifier ai = ai_identifier aj"
    if a: "ai \<in> set ?t" "aj \<in> set ?t" "ai_account_id ai \<in> account_ids Spark accs'"
      "ai_account_id aj = ai_account_id ai" "ai_domain aj = ai_domain ai"
      "ai_kind ai = Username" "ai_kind aj = Username" for ai aj
  proof (cases "ai_account_id ai = i \<and> ai_domain ai = ni_domain n")
    case True
    with a registered_identifiers_username [of _ now i n t] show ?thesis by metis
  next
    case False
    from a(1) have ai: "ai \<in> set t"
      by (cases rule: registered_identifiers_cases) (use False in auto)
    from a(2) have aj: "aj \<in> set t"
      by (cases rule: registered_identifiers_cases) (use False a(4,5) in auto)
    have "ai_account_id ai \<in> acc_id ` set accs"
      using ai assms(2) by (auto simp: identifiers_owned_def)
    with a(3) ids i have "ai_account_id ai \<in> account_ids Spark accs" by blast
    with ai aj a(4-7) assms(1) show ?thesis by (blast intro: single_usernameD)
  qed
  then show ?thesis unfolding single_username_def by blast
qed

lemma registered_identifiers_owned:
  assumes "identifiers_owned accs t" "acc_id ` set accs' = acc_id ` set accs \<union> {i}"
  shows "identifiers_owned accs' (registered_identifiers now i n t)"
proof -
  have "ai_account_id r \<in> acc_id ` set accs'" if "r \<in> set (registered_identifiers now i n t)" for r
    using that by (cases rule: registered_identifiers_cases)
      (use assms in \<open>auto simp: identifiers_owned_def\<close>)
  then show ?thesis by (auto simp: identifiers_owned_def)
qed

lemma write_registration_inv:
  assumes inv: "accounts_inv d"
    and acc: "\<And>a. a \<in> set (accounts d) \<Longrightarrow> acc_id a = i \<Longrightarrow> acc_provider a = Spark"
    and ident: "\<And>ai. ai \<in> set (account_identifiers d) \<Longrightarrow> ai_domain ai = ni_domain (nr_identifier reg) \<Longrightarrow>
      ai_identifier ai = ni_identifier (nr_identifier reg) \<Longrightarrow> ai_account_id ai = i"
    and key: "\<And>s. s \<in> set (spark_accounts d) \<Longrightarrow> sp_pubkey s = nr_pubkey reg \<Longrightarrow> sp_account_id s = i"
  shows "accounts_inv (write_registration now i reg d)"
proof -
  let ?accs = "upsert_on acc_id merge_account (new_account_row i Spark now) (accounts d)"
  note ids = account_ids_upsert [of "accounts d" i _ now, OF acc]
  have "spark_children ?accs (upsert_on sp_account_id merge_spark (new_spark_row i (nr_pubkey reg) now)
      (spark_accounts d))"
    using inv by (simp add: accounts_inv_def spark_children_def ids spark_table.keys_upsert)
  moreover have "blink_children ?accs (blink_accounts d)"
    using inv by (simp add: accounts_inv_def blink_children_def ids)
  moreover have "identifiers_owned ?accs
      (registered_identifiers now i (nr_identifier reg) (account_identifiers d))"
    using inv by (intro registered_identifiers_owned [of "accounts d"])
      (simp_all add: accounts_inv_def account_table.keys_upsert)
  moreover have "i \<notin> acc_id ` set (accounts d) \<or> i \<in> account_ids Spark (accounts d)"
    using acc unfolding account_ids_def by blast
  then have "single_username ?accs
      (registered_identifiers now i (nr_identifier reg) (account_identifiers d))"
    using inv by (intro registered_identifiers_single [of "accounts d"])
      (simp_all add: accounts_inv_def ids)
  ultimately show ?thesis
    using inv registered_identifiers_keys [of "account_identifiers d", OF _ ident]
      unique_pubkey_upsert [of "spark_accounts d", OF _ _ key]
    by (simp add: write_registration_eq accounts_inv_defs account_table.unique_upsert
        spark_table.unique_upsert modes_inv_upsert)
qed

text \<open>A successful registration is the claim followed by the write, under the three guards.\<close>

lemma upsert_spark_registration_ok:
  assumes "upsert_spark_registration now fresh reg d = Inr d'"
  obtains d1 i where "claim_or_refuse now (nr_claim reg) d = Inr d1"
    "i = registration_account_id fresh reg d1" "ni_kind (nr_identifier reg) = Username"
    "d' = write_registration now i reg d1"
    "\<And>a. get_account_by_id i d1 = Some a \<Longrightarrow> acc_provider a = Spark"
    "\<And>ai. identifier_row (ni_domain (nr_identifier reg)) (ni_identifier (nr_identifier reg)) d1 =
       Some ai \<Longrightarrow> ai_account_id ai = i"
    "\<And>s. spark_by_pubkey (nr_pubkey reg) d1 = Some s \<Longrightarrow> sp_account_id s = i"
proof -
  obtain d1 where kind: "validate_registration reg = Inr ()"
    and d1: "claim_or_refuse now (nr_claim reg) d = Inr d1"
    using assms by (auto simp: upsert_spark_registration_def bind_res_Inr_iff)
  have "ni_kind (nr_identifier reg) = Username"
    using kind by (cases "ni_kind (nr_identifier reg)") (simp_all add: validate_registration_def)
  then show thesis
    using assms that [OF d1 refl]
    by (simp add: upsert_spark_registration_def d1 kind Let_def split: if_splits option.splits)
qed

lemma upsert_spark_registration_inv:
  assumes "accounts_inv d" "upsert_spark_registration now fresh reg d = Inr d'"
  shows "accounts_inv d'"
  using assms(2)
proof (rule upsert_spark_registration_ok)
  fix d1 i
  assume d1: "claim_or_refuse now (nr_claim reg) d = Inr d1"
    and d': "d' = write_registration now i reg d1"
    and acc: "\<And>a. get_account_by_id i d1 = Some a \<Longrightarrow> acc_provider a = Spark"
    and ident: "\<And>ai. identifier_row (ni_domain (nr_identifier reg)) (ni_identifier (nr_identifier reg)) d1 =
       Some ai \<Longrightarrow> ai_account_id ai = i"
    and key: "\<And>s. spark_by_pubkey (nr_pubkey reg) d1 = Some s \<Longrightarrow> sp_account_id s = i"
  have inv: "accounts_inv d1" using claim_or_refuse_inv [OF d1 assms(1)] .
  show ?thesis
    unfolding d'
  proof (rule write_registration_inv [OF inv])
    show "acc_provider a = Spark" if "a \<in> set (accounts d1)" "acc_id a = i" for a
      using get_account_by_idI [OF inv that(1)] acc that(2) by simp
    show "ai_account_id ai = i" if "ai \<in> set (account_identifiers d1)"
      "ai_domain ai = ni_domain (nr_identifier reg)" "ai_identifier ai = ni_identifier (nr_identifier reg)" for ai
      using identifier_rowI [OF inv that(1)] ident that(2,3) by simp
    show "sp_account_id s = i" if "s \<in> set (spark_accounts d1)" "sp_pubkey s = nr_pubkey reg" for s
      using spark_by_pubkeyI [OF inv that(1)] key that(2) by simp
  qed
qed

section \<open>Deletion\<close>

lemma delete_spark_registration_ok:
  assumes "delete_spark_registration now domain pubkey identifier cl d = Inr d'"
  obtains d1 s where "claim_or_refuse now cl d = Inr d1" "spark_by_pubkey pubkey d1 = Some s"
    "exists_where (\<lambda>ai. ai_account_id ai = sp_account_id s \<and> ai_domain ai = domain \<and>
       ai_identifier ai = identifier) (account_identifiers d1)"
    "d' = d1\<lparr>account_identifiers := delete_where (\<lambda>ai. ai_account_id ai = sp_account_id s \<and>
       ai_domain ai = domain \<and> ai_identifier ai = identifier) (account_identifiers d1)\<rparr>"
proof -
  obtain d1 where d1: "claim_or_refuse now cl d = Inr d1"
    using assms by (auto simp: delete_spark_registration_def bind_res_Inr_iff)
  obtain s where s: "spark_by_pubkey pubkey d1 = Some s"
    using assms by (cases "spark_by_pubkey pubkey d1") (simp_all add: delete_spark_registration_def d1)
  show thesis
    by (rule that [OF d1 s])
      (use assms in \<open>auto simp: delete_spark_registration_def d1 s split: if_splits\<close>)
qed

lemma delete_spark_registration_inv:
  assumes "accounts_inv d" "delete_spark_registration now domain pubkey identifier cl d = Inr d'"
  shows "accounts_inv d'"
  using assms(2)
  by (rule delete_spark_registration_ok)
    (use assms(1) claim_or_refuse_inv accounts_inv_delete_identifiers in blast)

section \<open>Blink accounts\<close>

lemma insert_blink_account_ok:
  "insert_blink_account b d = Inr d' \<longleftrightarrow>
     bl_account_id b \<notin> bl_account_id ` set (blink_accounts d) \<and>
     bl_blink_account_id b \<notin> bl_blink_account_id ` set (blink_accounts d) \<and>
     d' = d\<lparr>blink_accounts := blink_accounts d @ [b]\<rparr>"
  by (simp add: insert_blink_account_def image_iff) metis

lemma insert_identifier_ok:
  "insert_identifier ai d = Inr d' \<longleftrightarrow>
     ident_key ai \<notin> ident_key ` set (account_identifiers d) \<and>
     d' = d\<lparr>account_identifiers := account_identifiers d @ [ai]\<rparr>"
  by (simp add: insert_identifier_def image_iff) metis

text \<open>Identifiers of a Blink account are not limited to one username.\<close>

lemma insert_identifiers_ok:
  "insert_identifiers ais d = Inr d' \<Longrightarrow>
     d' = d\<lparr>account_identifiers := account_identifiers d @ ais\<rparr> \<and>
     (unique_by ident_key (account_identifiers d) \<longrightarrow> unique_by ident_key (account_identifiers d @ ais))"
proof (induction ais arbitrary: d)
  case (Cons ai ais)
  then obtain d1 where d1: "insert_identifier ai d = Inr d1" "insert_identifiers ais d1 = Inr d'"
    by (auto simp: bind_res_Inr_iff)
  from d1(1) have "ident_key ai \<notin> ident_key ` set (account_identifiers d)"
    "d1 = d\<lparr>account_identifiers := account_identifiers d @ [ai]\<rparr>"
    by (auto simp only: insert_identifier_ok)
  moreover from this have "unique_by ident_key (account_identifiers d) \<Longrightarrow>
      unique_by ident_key (account_identifiers d @ [ai])"
    by (auto simp: image_iff)
  ultimately show ?case using Cons.IH [OF d1(2)] by simp
qed simp

lemma create_blink_account_ok:
  assumes "create_blink_account now fresh acct d = Inr d'"
  obtains i where "i = (case nb_account_id acct of Some i \<Rightarrow> i | None \<Rightarrow> fresh)"
    "i \<notin> acc_id ` set (accounts d)"
    "nb_blink_account_id acct \<notin> bl_blink_account_id ` set (blink_accounts d)"
    "i \<notin> bl_account_id ` set (blink_accounts d)"
    "d' = d\<lparr>accounts := accounts d @ [new_account_row i Blink now],
            blink_accounts := blink_accounts d @ [blink_row i acct now],
            account_identifiers := account_identifiers d @
              map (\<lambda>n. new_identifier_row i n now) (nb_identifiers acct)\<rparr>"
    "unique_by ident_key (account_identifiers d) \<Longrightarrow>
     unique_by ident_key (account_identifiers d @ map (\<lambda>n. new_identifier_row i n now) (nb_identifiers acct))"
proof -
  define i where "i = (case nb_account_id acct of Some i \<Rightarrow> i | None \<Rightarrow> fresh)"
  have none: "get_account_by_id i d = None"
    using assms by (auto simp: create_blink_account_def Let_def i_def [symmetric]
        split: option.splits if_splits)
  obtain d1 d2 where 1: "insert_account (new_account_row i Blink now) d = Inr d1"
    and 2: "insert_blink_account (blink_row i acct now) d1 = Inr d2"
    and 3: "insert_identifiers (map (\<lambda>n. new_identifier_row i n now) (nb_identifiers acct)) d2 = Inr d'"
    using assms by (auto simp: create_blink_account_def Let_def i_def [symmetric] none
        bind_res_Inr_iff split: if_splits)
  note d1 = 1 [unfolded insert_account_ok]
  note d2 = 2 [unfolded insert_blink_account_ok]
  show thesis
    by (rule that [of i]) (use d1 d2 insert_identifiers_ok [OF 3] in \<open>simp_all add: i_def\<close>)
qed

lemma single_username_new_blink:
  assumes own: "identifiers_owned accs t" and i: "i \<notin> acc_id ` set accs" and s: "single_username accs t"
    and rows: "\<And>r. r \<in> set u \<Longrightarrow> ai_account_id r = i"
  shows "single_username (accs @ [new_account_row i Blink now]) (t @ u)"
proof -
  have ids: "account_ids Spark (accs @ [new_account_row i Blink now]) = account_ids Spark accs"
    by simp
  have "i \<notin> account_ids Spark accs" using i by (simp add: acc_ids_eq)
  then have old: "r \<in> set t" if "r \<in> set (t @ u)" "ai_account_id r \<in> account_ids Spark accs" for r
    using rows that by auto
  show ?thesis
    unfolding single_username_def ids
  proof (intro ballI impI, elim conjE)
    fix ai aj
    assume a: "ai \<in> set (t @ u)" "aj \<in> set (t @ u)" "ai_account_id ai \<in> account_ids Spark accs"
      "ai_account_id aj = ai_account_id ai" "ai_domain aj = ai_domain ai"
      "ai_kind ai = Username" "ai_kind aj = Username"
    show "ai_identifier ai = ai_identifier aj"
      by (rule single_usernameD [OF s old old]) (use a in simp_all)
  qed
qed

lemma create_blink_account_inv:
  assumes inv: "accounts_inv d" and "create_blink_account now fresh acct d = Inr d'"
  shows "accounts_inv d'"
  using assms(2)
proof (rule create_blink_account_ok)
  fix i
  let ?rows = "map (\<lambda>n. new_identifier_row i n now) (nb_identifiers acct)"
  let ?accs = "accounts d @ [new_account_row i Blink now]"
  assume i: "i \<notin> acc_id ` set (accounts d)"
    and b: "nb_blink_account_id acct \<notin> bl_blink_account_id ` set (blink_accounts d)"
      "i \<notin> bl_account_id ` set (blink_accounts d)"
    and d': "d' = d\<lparr>accounts := ?accs, blink_accounts := blink_accounts d @ [blink_row i acct now],
      account_identifiers := account_identifiers d @ ?rows\<rparr>"
    and u: "unique_by ident_key (account_identifiers d) \<Longrightarrow>
      unique_by ident_key (account_identifiers d @ ?rows)"
  have "identifiers_owned ?accs (account_identifiers d @ ?rows)"
    using inv by (auto simp: accounts_inv_def identifiers_owned_def)
  moreover have "single_username ?accs (account_identifiers d @ ?rows)"
    using inv i by (intro single_username_new_blink) (auto simp: accounts_inv_def)
  moreover have "blink_children ?accs (blink_accounts d @ [blink_row i acct now])"
    using inv by (simp add: accounts_inv_def blink_children_def)
  moreover have "\<forall>a \<in> set (accounts d). acc_id a \<noteq> i"
    "\<forall>a \<in> set (blink_accounts d). bl_account_id a \<noteq> i"
    "\<forall>a \<in> set (blink_accounts d). bl_blink_account_id a \<noteq> nb_blink_account_id acct"
    using i b by (simp_all add: not_in_column)
  ultimately show ?thesis
    using inv u by (simp add: d' accounts_inv_defs children_append_other)
qed

lemma accounts_inv_blink_update:
  assumes "accounts_inv d"
    and "map bl_account_id bs = map bl_account_id (blink_accounts d)"
    and "map bl_blink_account_id bs = map bl_blink_account_id (blink_accounts d)"
  shows "accounts_inv (d\<lparr>blink_accounts := bs\<rparr>)"
proof -
  have "bl_account_id ` set bs = bl_account_id ` set (blink_accounts d)"
    using assms(2) by (metis list.set_map)
  with assms show ?thesis by (simp add: accounts_inv_defs blink_children_def unique_by_def)
qed

lemma update_blink_default_wallet_inv:
  assumes "accounts_inv d" "update_blink_default_wallet now b w d = Inr (u, d')"
  shows "accounts_inv d'"
  using assms(2) accounts_inv_blink_update [OF assms(1)]
  by (auto simp: update_blink_default_wallet_def Let_def map_update_where split: option.splits)

lemma update_blink_default_wallet_pg_inv:
  assumes "accounts_inv d" "update_blink_default_wallet_pg now b w d = Inr (u, d')"
  shows "accounts_inv d'"
proof -
  obtain Q where "d' = d\<lparr>blink_accounts := map (\<lambda>b. if Q b
      then b\<lparr>bl_default_wallet := w, bl_updated_at := now\<rparr> else b) (blink_accounts d)\<rparr>"
    using assms(2) unfolding update_blink_default_wallet_pg_def Let_def
    by (auto split: list.splits)
  with accounts_inv_blink_update [OF assms(1)] show ?thesis by simp
qed

section \<open>Transfers\<close>

lemma destination_account_cases:
  assumes inv: "accounts_inv d" and r: "destination_account now fresh k d = Inr (i, d')"
  obtains (found) s where "spark_by_pubkey k d = Some s" "i = sp_account_id s" "d' = d"
      "i \<in> account_ids Spark (accounts d)"
    | (new) "spark_by_pubkey k d = None" "i = fresh" "fresh \<notin> acc_id ` set (accounts d)"
      "d' = d\<lparr>accounts := accounts d @ [new_account_row fresh Spark now],
              spark_accounts := spark_accounts d @ [new_spark_row fresh k now]\<rparr>"
proof (cases "spark_by_pubkey k d")
  case None
  with r obtain d1 where d1: "insert_account (new_account_row fresh Spark now) d = Inr d1"
    and d2: "insert_spark_account (new_spark_row fresh k now) d1 = Inr d'" and i: "i = fresh"
    by (auto simp: destination_account_def bind_res_Inr_iff)
  show ?thesis
    by (rule new [OF None i])
      (use d1 [unfolded insert_account_ok] d2 [unfolded insert_spark_account_ok] in simp_all)
next
  case (Some s)
  have id: "sp_account_id s \<in> account_ids Spark (accounts d)"
    using inv spark_by_pubkey_Some [OF Some] by (auto simp: accounts_inv_def spark_children_def)
  then obtain a where a: "get_account_by_id (sp_account_id s) d = Some a"
    by (cases "get_account_by_id (sp_account_id s) d")
      (auto simp: get_account_by_id_None acc_ids_eq)
  show ?thesis
    by (rule found [OF Some]) (use r id in \<open>simp_all add: destination_account_def Some a split: if_splits\<close>)
qed

lemma destination_account_ok:
  assumes inv: "accounts_inv d" and r: "destination_account now fresh k d = Inr (i, d')"
  shows "accounts_inv d' \<and> i \<in> account_ids Spark (accounts d') \<and>
    map_option sp_account_id (spark_by_pubkey k d') = Some i \<and>
    account_identifiers d' = account_identifiers d \<and> used_signed_messages d' = used_signed_messages d \<and>
    blink_accounts d' = blink_accounts d"
  using inv r
proof (cases rule: destination_account_cases)
  case found
  with inv show ?thesis by simp
next
  case new
  from new(1) have "k \<notin> sp_pubkey ` set (spark_accounts d)" by (simp add: spark_by_pubkey_None)
  with accounts_inv_add_spark [OF inv new(3), of k now] new show ?thesis
    by (simp add: spark_by_pubkey_def)
qed

text \<open>The identifiers after a move.\<close>

definition moved_identifiers ::
  "int \<Rightarrow> string \<Rightarrow> string \<Rightarrow> string \<Rightarrow> string \<Rightarrow> string \<Rightarrow> account_identifier list \<Rightarrow> account_identifier list" where
  "moved_identifiers now domain identifier source i description t =
     delete_where (\<lambda>ai. ai_account_id ai = i \<and> ai_domain ai = domain \<and> ai_kind ai = Username \<and>
       ai_identifier ai \<noteq> identifier)
     (update_where (\<lambda>ai. ai_domain ai = domain \<and> ai_identifier ai = identifier \<and> ai_account_id ai = source)
       (\<lambda>ai. ai\<lparr>ai_account_id := i, ai_description := description, ai_updated_at := now\<rparr>) t)"

lemma move_identifier_ok:
  "move_identifier now domain identifier source i description d = Inr d' \<Longrightarrow>
     d' = d\<lparr>account_identifiers :=
       moved_identifiers now domain identifier source i description (account_identifiers d)\<rparr>"
  by (auto simp: move_identifier_def Let_def drop_other_usernames_def moved_identifiers_def split: if_splits)

lemma moved_identifiers_keys:
  assumes "unique_by ident_key t"
  shows "unique_by ident_key (moved_identifiers now domain identifier source i description t)"
proof -
  have "unique_by ident_key (update_where (\<lambda>ai. ai_domain ai = domain \<and> ai_identifier ai = identifier \<and>
      ai_account_id ai = source)
      (\<lambda>ai. ai\<lparr>ai_account_id := i, ai_description := description, ai_updated_at := now\<rparr>) t)"
    using assms by (simp add: unique_by_update ident_key_def)
  then show ?thesis unfolding moved_identifiers_def by (rule unique_by_delete)
qed

lemma moved_identifiers_cases:
  assumes "r \<in> set (moved_identifiers now domain identifier source i description t)"
  obtains (moved) r0 where "r0 \<in> set t" "r = r0\<lparr>ai_account_id := i, ai_description := description,
      ai_updated_at := now\<rparr>" "ai_domain r0 = domain" "ai_identifier r0 = identifier" "ai_account_id r0 = source"
  | (old) "r \<in> set t" "ai_account_id r = i \<Longrightarrow> ai_domain r = domain \<Longrightarrow> ai_kind r = Username \<Longrightarrow>
      ai_identifier r = identifier"
  using assms unfolding moved_identifiers_def by (auto simp: table_simps)

lemma moved_identifiers_username:
  assumes "r \<in> set (moved_identifiers now domain identifier source i description t)"
    "ai_account_id r = i" "ai_domain r = domain" "ai_kind r = Username"
  shows "ai_identifier r = identifier"
  using assms(1) by (cases rule: moved_identifiers_cases) (use assms in auto)

lemma moved_identifiers_single:
  assumes "single_username accs t"
  shows "single_username accs (moved_identifiers now domain identifier source i description t)"
    (is "single_username accs ?t")
proof -
  have "ai_identifier ai = ai_identifier aj"
    if a: "ai \<in> set ?t" "aj \<in> set ?t" "ai_account_id ai \<in> account_ids Spark accs"
      "ai_account_id aj = ai_account_id ai" "ai_domain aj = ai_domain ai"
      "ai_kind ai = Username" "ai_kind aj = Username" for ai aj
  proof (cases "ai_account_id ai = i \<and> ai_domain ai = domain")
    case True
    with a moved_identifiers_username [OF a(1)] moved_identifiers_username [OF a(2)] show ?thesis by simp
  next
    case False
    from a(1) have "ai \<in> set t" by (cases rule: moved_identifiers_cases) (use False in auto)
    moreover from a(2) have "aj \<in> set t"
      by (cases rule: moved_identifiers_cases) (use False a(4,5) in auto)
    ultimately show ?thesis using a(3-7) assms by (blast intro: single_usernameD)
  qed
  then show ?thesis unfolding single_username_def by blast
qed

lemma moved_identifiers_owned:
  assumes "identifiers_owned accs t" "i \<in> acc_id ` set accs"
  shows "identifiers_owned accs (moved_identifiers now domain identifier source i description t)"
proof -
  have "ai_account_id r \<in> acc_id ` set accs"
    if "r \<in> set (moved_identifiers now domain identifier source i description t)" for r
    using that by (cases rule: moved_identifiers_cases)
      (use assms in \<open>auto simp: identifiers_owned_def\<close>)
  then show ?thesis by (auto simp: identifiers_owned_def)
qed

lemma move_identifier_inv:
  assumes "accounts_inv d" "i \<in> account_ids Spark (accounts d)"
    "move_identifier now domain identifier source i description d = Inr d'"
  shows "accounts_inv d'"
  unfolding move_identifier_ok [OF assms(3)]
  using assms(1,2)
  by (intro accounts_inv_identifiers moved_identifiers_keys moved_identifiers_single
      moved_identifiers_owned) (simp_all add: accounts_inv_defs acc_ids_eq)

lemma spark_child_iff: "accounts_inv d \<Longrightarrow> spark_child i d \<longleftrightarrow> i \<in> account_ids Spark (accounts d)"
proof -
  assume "accounts_inv d"
  then have "sp_account_id ` set (spark_accounts d) = account_ids Spark (accounts d)"
    by (simp add: accounts_inv_def spark_children_def)
  moreover have "spark_child i d \<longleftrightarrow> i \<in> account_ids Spark (accounts d) \<and>
      i \<in> sp_account_id ` set (spark_accounts d)"
    unfolding spark_child_def account_ids_def by (simp only: in_column) auto
  ultimately show ?thesis by simp
qed

lemma blink_child_iff: "accounts_inv d \<Longrightarrow> blink_child i d \<longleftrightarrow> i \<in> account_ids Blink (accounts d)"
proof -
  assume "accounts_inv d"
  then have "bl_account_id ` set (blink_accounts d) = account_ids Blink (accounts d)"
    by (simp add: accounts_inv_def blink_children_def)
  moreover have "blink_child i d \<longleftrightarrow> i \<in> account_ids Blink (accounts d) \<and>
      i \<in> bl_account_id ` set (blink_accounts d)"
    unfolding blink_child_def account_ids_def by (simp only: in_column) auto
  ultimately show ?thesis by simp
qed

text \<open>The two transfers share their tail, which is the same statement on both backends.\<close>

definition transfer_tail ::
  "int \<Rightarrow> string \<Rightarrow> string \<Rightarrow> string \<Rightarrow> string \<Rightarrow> string \<Rightarrow> string \<Rightarrow> db \<Rightarrow> repository_error + db" where
  "transfer_tail now fresh domain identifier source k description d =
     bind_res (destination_account now fresh k d) (\<lambda>(i, d2).
       move_identifier now domain identifier source i description d2)"

lemma transfer_tail_inv:
  assumes "accounts_inv d" "transfer_tail now fresh domain identifier source k description d = Inr d'"
  shows "accounts_inv d'"
proof -
  obtain i d2 where d2: "destination_account now fresh k d = Inr (i, d2)"
    and d': "move_identifier now domain identifier source i description d2 = Inr d'"
    using assms(2) by (auto simp: transfer_tail_def bind_res_Inr_iff)
  from destination_account_ok [OF assms(1) d2] show ?thesis
    using move_identifier_inv [OF _ _ d'] by blast
qed

lemma transfer_tail_pg:
  assumes "accounts_inv d"
  shows "bind_res (destination_account now fresh k d) (\<lambda>(i, d2).
      if \<not> spark_child i d2 then Inl InvalidProvider
      else move_identifier now domain identifier source i description d2) =
    transfer_tail now fresh domain identifier source k description d"
proof (cases "destination_account now fresh k d")
  case (Inr p)
  obtain i d2 where p: "p = (i, d2)" by (cases p)
  with Inr destination_account_ok [OF assms, of now fresh k i d2] have "spark_child i d2"
    by (simp add: spark_child_iff)
  with Inr p show ?thesis by (simp add: transfer_tail_def)
qed (simp add: transfer_tail_def)

lemma transfer_identifier_eq:
  "transfer_identifier now fresh t d =
     bind_res (claim_or_refuse now (tr_claim t) d) (\<lambda>d1.
       if \<not> owned_by (tr_domain t) (tr_identifier t) (tr_source_account_id t) d1 then Inl SourceNotOwner
       else if \<not> spark_child (tr_source_account_id t) d1 then Inl InvalidOwnership
       else transfer_tail now fresh (tr_domain t) (tr_identifier t) (tr_source_account_id t)
         (tr_destination_spark_pubkey t) (tr_description t) d1)"
  unfolding transfer_identifier_def transfer_tail_def ..

lemma transfer_blink_eq:
  "transfer_blink_identifier_to_spark now fresh t d =
     (if \<not> owned_by (bt_domain t) (bt_identifier t) (bt_source_account_id t) d then Inl SourceNotOwner
      else if \<not> blink_child (bt_source_account_id t) d then Inl InvalidOwnership
      else transfer_tail now fresh (bt_domain t) (bt_identifier t) (bt_source_account_id t)
        (bt_destination_spark_pubkey t) (bt_description t) d)"
  unfolding transfer_blink_identifier_to_spark_def transfer_tail_def ..

lemma transfer_identifier_backends:
  assumes "accounts_inv d"
  shows "transfer_identifier_pg now fresh t d = transfer_identifier now fresh t d"
proof (cases "claim_or_refuse now (tr_claim t) d")
  case (Inr d1)
  with transfer_tail_pg [OF claim_or_refuse_inv [OF Inr assms]] show ?thesis
    by (simp add: transfer_identifier_eq transfer_identifier_pg_def)
qed (simp add: transfer_identifier_eq transfer_identifier_pg_def)

lemma transfer_blink_backends:
  assumes "accounts_inv d"
  shows "transfer_blink_identifier_to_spark_pg now fresh t d =
    transfer_blink_identifier_to_spark now fresh t d"
  using transfer_tail_pg [OF assms]
  by (simp add: transfer_blink_eq transfer_blink_identifier_to_spark_pg_def)

lemma transfer_identifier_ok:
  assumes "transfer_identifier now fresh t d = Inr d'"
  obtains d1 where "claim_or_refuse now (tr_claim t) d = Inr d1"
    "owned_by (tr_domain t) (tr_identifier t) (tr_source_account_id t) d1"
    "spark_child (tr_source_account_id t) d1"
    "transfer_tail now fresh (tr_domain t) (tr_identifier t) (tr_source_account_id t)
       (tr_destination_spark_pubkey t) (tr_description t) d1 = Inr d'"
proof -
  obtain d1 where d1: "claim_or_refuse now (tr_claim t) d = Inr d1"
    using assms by (cases "claim_or_refuse now (tr_claim t) d") (simp_all add: transfer_identifier_eq)
  show thesis
    by (rule that [OF d1]) (use assms in \<open>simp_all add: transfer_identifier_eq d1 split: if_splits\<close>)
qed

lemma transfer_blink_ok:
  assumes "transfer_blink_identifier_to_spark now fresh t d = Inr d'"
  shows "owned_by (bt_domain t) (bt_identifier t) (bt_source_account_id t) d"
    "blink_child (bt_source_account_id t) d"
    "transfer_tail now fresh (bt_domain t) (bt_identifier t) (bt_source_account_id t)
       (bt_destination_spark_pubkey t) (bt_description t) d = Inr d'"
  using assms by (simp_all add: transfer_blink_eq split: if_splits)

lemma transfer_identifier_inv:
  assumes "accounts_inv d" "transfer_identifier now fresh t d = Inr d'"
  shows "accounts_inv d'"
  using assms(2)
  by (rule transfer_identifier_ok) (rule transfer_tail_inv, rule claim_or_refuse_inv [OF _ assms(1)])

lemma transfer_blink_inv:
  assumes "accounts_inv d" "transfer_blink_identifier_to_spark now fresh t d = Inr d'"
  shows "accounts_inv d'"
  using assms(1) transfer_blink_ok(3) [OF assms(2)] by (rule transfer_tail_inv)

end
