(* ===== verification/Lnurl_Accounts_Props.thy ===== *)
theory Lnurl_Accounts_Props
  imports Lnurl_Accounts_Inv
begin

text \<open>
  What the account repository promises: every identifier resolves to the account that owns it,
  each write changes what it is asked to and nothing else, a statement is spent at most once, and
  the two backends agree. The operations are gathered in one transition system, and the invariant
  holds in all its reachable states.
\<close>

section \<open>Resolution\<close>

definition spark_recipient :: "account_identifier \<Rightarrow> spark_account \<Rightarrow> resolved_recipient" where
  "spark_recipient ai s =
     \<lparr>rr_account_id = ai_account_id ai, rr_provider = Spark, rr_domain = ai_domain ai,
      rr_identifier = ai_identifier ai, rr_kind = ai_kind ai, rr_description = ai_description ai,
      rr_spark_pubkey = Some (sp_pubkey s), rr_blink_account_id = None, rr_btc_wallet_id = None,
      rr_usd_wallet_id = None, rr_default_wallet = None\<rparr>"

definition blink_recipient :: "account_identifier \<Rightarrow> blink_account \<Rightarrow> resolved_recipient" where
  "blink_recipient ai b =
     \<lparr>rr_account_id = ai_account_id ai, rr_provider = Blink, rr_domain = ai_domain ai,
      rr_identifier = ai_identifier ai, rr_kind = ai_kind ai, rr_description = ai_description ai,
      rr_spark_pubkey = None, rr_blink_account_id = Some (bl_blink_account_id b),
      rr_btc_wallet_id = Some (bl_btc_wallet_id b), rr_usd_wallet_id = Some (bl_usd_wallet_id b),
      rr_default_wallet = Some (bl_default_wallet b)\<rparr>"

definition spark_row :: "string \<Rightarrow> db \<Rightarrow> spark_account option" where
  "spark_row i d = fetch_optional (\<lambda>s. sp_account_id s = i) (spark_accounts d)"

definition blink_child_row :: "string \<Rightarrow> db \<Rightarrow> blink_account option" where
  "blink_child_row i d = fetch_optional (\<lambda>b. bl_account_id b = i) (blink_accounts d)"

text \<open>The abstract view of the tables: who an identifier pays.\<close>

definition lookup_recipient :: "string \<Rightarrow> string \<Rightarrow> db \<Rightarrow> resolved_recipient option" where
  "lookup_recipient dn i d =
     (case identifier_row dn i d of
        None \<Rightarrow> None
      | Some ai \<Rightarrow>
          (case (spark_row (ai_account_id ai) d, blink_child_row (ai_account_id ai) d) of
             (Some s, _) \<Rightarrow> Some (spark_recipient ai s)
           | (None, Some b) \<Rightarrow> Some (blink_recipient ai b)
           | (None, None) \<Rightarrow> None))"

lemma child_rows_provider:
  assumes "accounts_inv d" "get_account_by_id i d = Some a"
  shows "spark_row i d = None \<longleftrightarrow> acc_provider a = Blink"
    "blink_child_row i d = None \<longleftrightarrow> acc_provider a = Spark"
proof -
  have s: "spark_row i d = None \<longleftrightarrow> i \<notin> account_ids Spark (accounts d)"
    using assms(1) unfolding spark_row_def
    by (simp add: fetch_optional_None_iff not_in_column [symmetric] accounts_inv_def spark_children_def)
  have b: "blink_child_row i d = None \<longleftrightarrow> i \<notin> account_ids Blink (accounts d)"
    using assms(1) unfolding blink_child_row_def
    by (simp add: fetch_optional_None_iff not_in_column [symmetric] accounts_inv_def blink_children_def)
  show "spark_row i d = None \<longleftrightarrow> acc_provider a = Blink"
    using get_account_by_id_provider [OF assms, of Spark] s by (cases "acc_provider a") auto
  show "blink_child_row i d = None \<longleftrightarrow> acc_provider a = Spark"
    using get_account_by_id_provider [OF assms, of Blink] b by (cases "acc_provider a") auto
qed

lemma resolve_eq_lookup:
  assumes inv: "accounts_inv d"
  shows "resolve_recipient_by_identifier dn i d = Inr (lookup_recipient dn i d) \<and>
    (lookup_recipient dn i d = None \<longleftrightarrow> identifier_row dn i d = None)"
proof (cases "identifier_row dn i d")
  case None
  then show ?thesis by (simp add: resolve_recipient_by_identifier_def lookup_recipient_def)
next
  case (Some ai)
  then have "ai_account_id ai \<in> acc_id ` set (accounts d)"
    using inv identifier_row_Some [OF Some] by (auto simp: accounts_inv_def identifiers_owned_def)
  then obtain a where a: "get_account_by_id (ai_account_id ai) d = Some a"
    using get_account_by_id_None by (metis not_None_eq)
  have id: "acc_id a = ai_account_id ai" using get_account_by_id_Some [OF a] by simp
  note rows = child_rows_provider [OF inv a]
  show ?thesis
  proof (cases "acc_provider a")
    case Spark
    with rows obtain s where "spark_row (ai_account_id ai) d = Some s"
      "blink_child_row (ai_account_id ai) d = None" by auto
    with Some a id Spark show ?thesis
      by (simp add: resolve_recipient_by_identifier_def lookup_recipient_def map_resolved_recipient_def
          spark_row_def blink_child_row_def spark_recipient_def Let_def)
  next
    case Blink
    with rows obtain b where "spark_row (ai_account_id ai) d = None"
      "blink_child_row (ai_account_id ai) d = Some b" by auto
    with Some a id Blink show ?thesis
      by (simp add: resolve_recipient_by_identifier_def lookup_recipient_def map_resolved_recipient_def
          spark_row_def blink_child_row_def blink_recipient_def Let_def)
  qed
qed

lemma resolve_inv:
  "accounts_inv d \<Longrightarrow> resolve_recipient_by_identifier dn i d = Inr (lookup_recipient dn i d)"
  using resolve_eq_lookup by blast

text \<open>Lookups depend only on the identifier row and the child rows of its account.\<close>

lemma lookup_recipient_cong:
  assumes "identifier_row dn i d' = identifier_row dn i d"
    "\<And>ai. identifier_row dn i d = Some ai \<Longrightarrow> spark_row (ai_account_id ai) d' = spark_row (ai_account_id ai) d"
    "\<And>ai. identifier_row dn i d = Some ai \<Longrightarrow>
       blink_child_row (ai_account_id ai) d' = blink_child_row (ai_account_id ai) d"
  shows "lookup_recipient dn i d' = lookup_recipient dn i d"
  using assms by (cases "identifier_row dn i d") (simp_all add: lookup_recipient_def)

lemma spark_rowI:
  assumes "accounts_inv d" "s \<in> set (spark_accounts d)"
  shows "spark_row (sp_account_id s) d = Some s"
  using fetch_optional_unique [of sp_account_id "spark_accounts d" s] assms
  by (simp add: spark_row_def accounts_inv_defs)

lemma lookup_recipient_spark:
  assumes "accounts_inv d" "ai \<in> set (account_identifiers d)" "s \<in> set (spark_accounts d)"
    "sp_account_id s = ai_account_id ai"
  shows "lookup_recipient (ai_domain ai) (ai_identifier ai) d = Some (spark_recipient ai s)"
  using identifier_rowI [OF assms(1,2)] spark_rowI [OF assms(1,3)] assms(4)
  by (simp add: lookup_recipient_def)

section \<open>Registration\<close>

lemma registered_identifiers_row:
  assumes "r \<in> set (registered_identifiers now i n t)"
    "ai_account_id r = i" "ai_domain r = ni_domain n" "ai_identifier r = ni_identifier n"
  shows "ai_kind r = ni_kind n \<and> ai_description r = ni_description n"
proof -
  have "ident_pk r = ident_pk (new_identifier_row i n now)" using assms(2-4) by (simp add: ident_pk_def)
  from identifier_table.row_upsert [OF assms(1) [unfolded registered_identifiers_def] this]
  show ?thesis
  proof (elim disjE bexE conjE)
    fix s assume "r = merge_identifier s (new_identifier_row i n now)"
    then show ?thesis by (simp add: merge_identifier_def)
  qed simp
qed

lemma registered_identifiers_new:
  "\<exists>r \<in> set (registered_identifiers now i n t).
     ai_account_id r = i \<and> ai_domain r = ni_domain n \<and> ai_identifier r = ni_identifier n"
proof -
  have "ident_pk (new_identifier_row i n now) \<in> ident_pk ` set (registered_identifiers now i n t)"
    unfolding registered_identifiers_def by (simp add: identifier_table.keys_upsert)
  then obtain r where "r \<in> set (registered_identifiers now i n t)"
    "ident_pk r = ident_pk (new_identifier_row i n now)" by auto
  then show ?thesis by (intro bexI [of _ r]) (simp_all add: ident_pk_def)
qed

lemma spark_row_upsert:
  "spark_row i (write_registration now i reg d) =
     Some (case spark_row i d of None \<Rightarrow> new_spark_row i (nr_pubkey reg) now
           | Some s \<Rightarrow> merge_spark s (new_spark_row i (nr_pubkey reg) now))"
  using spark_table.lookup_upsert_same [of "new_spark_row i (nr_pubkey reg) now" "spark_accounts d"]
  by (simp add: spark_row_def write_registration_eq)

lemma spark_row_upsert_other:
  "j \<noteq> i \<Longrightarrow> spark_row j (write_registration now i reg d) = spark_row j d"
  using spark_table.lookup_upsert_other [of j "new_spark_row i (nr_pubkey reg) now" "spark_accounts d"]
  by (simp add: spark_row_def write_registration_eq)

lemma write_registration_lookup:
  assumes inv: "accounts_inv (write_registration now i reg d)"
  shows "\<exists>r. lookup_recipient (ni_domain (nr_identifier reg)) (ni_identifier (nr_identifier reg))
      (write_registration now i reg d) = Some r \<and> rr_account_id r = i \<and> rr_provider r = Spark \<and>
    rr_spark_pubkey r = Some (nr_pubkey reg) \<and> rr_kind r = ni_kind (nr_identifier reg) \<and>
    rr_description r = ni_description (nr_identifier reg)"
proof -
  let ?n = "nr_identifier reg" and ?d = "write_registration now i reg d"
  have ids: "account_identifiers ?d = registered_identifiers now i ?n (account_identifiers d)"
    by (simp add: write_registration_eq)
  obtain ai where ai: "ai \<in> set (account_identifiers ?d)" "ai_account_id ai = i"
    "ai_domain ai = ni_domain ?n" "ai_identifier ai = ni_identifier ?n"
    using registered_identifiers_new [of now i ?n "account_identifiers d"] unfolding ids by blast
  have attrs: "ai_kind ai = ni_kind ?n \<and> ai_description ai = ni_description ?n"
    using registered_identifiers_row [OF ai(1) [unfolded ids] ai(2-4)] .
  obtain s where s: "spark_row i ?d = Some s" "sp_pubkey s = nr_pubkey reg"
    using spark_row_upsert [of i now reg d] by (auto simp: merge_spark_def split: option.splits)
  have "lookup_recipient (ni_domain ?n) (ni_identifier ?n) ?d = Some (spark_recipient ai s)"
    using identifier_rowI [OF inv ai(1)] ai(2-4) s(1) by (simp add: lookup_recipient_def)
  then show ?thesis using attrs ai(2) s(2) by (simp add: spark_recipient_def)
qed

text \<open>Every other name keeps its recipient, unless it was the account's old username on the domain.\<close>

lemma identifier_row_registered_other:
  assumes inv: "accounts_inv d" and inv': "accounts_inv (write_registration now i reg d)"
    and other: "(dn, j) \<noteq> (ni_domain (nr_identifier reg), ni_identifier (nr_identifier reg))"
    and keep: "\<And>ai. identifier_row dn j d = Some ai \<Longrightarrow>
      \<not> (ai_account_id ai = i \<and> dn = ni_domain (nr_identifier reg) \<and> ai_kind ai = Username)"
  shows "identifier_row dn j (write_registration now i reg d) = identifier_row dn j d"
proof -
  let ?n = "nr_identifier reg" and ?d = "write_registration now i reg d"
  let ?del = "\<lambda>ai. ai_account_id ai = i \<and> ai_domain ai = ni_domain ?n \<and> ai_kind ai = Username \<and>
     ai_identifier ai \<noteq> ni_identifier ?n"
  have ids: "account_identifiers ?d = registered_identifiers now i ?n (account_identifiers d)"
    by (simp add: write_registration_eq)
  have old: "r \<in> set (account_identifiers d)"
    if "r \<in> set (account_identifiers ?d)" "ai_domain r = dn" "ai_identifier r = j" for r
    using that(1) [unfolded ids]
    by (cases rule: registered_identifiers_cases) (use that(2,3) other in auto)
  show ?thesis
  proof (cases "identifier_row dn j d")
    case None
    have "identifier_row dn j ?d = None"
    proof (cases "identifier_row dn j ?d")
      case (Some r)
      from identifier_row_Some [OF this] old have "r \<in> set (account_identifiers d)"
        "ai_domain r = dn" "ai_identifier r = j" by auto
      with identifier_rowI [OF inv] None show ?thesis by fastforce
    qed simp
    with None show ?thesis by simp
  next
    case (Some ai)
    note ai = identifier_row_Some [OF Some]
    have "\<not> ?del ai" using keep [OF Some] ai by auto
    then have "ai \<in> set (delete_where ?del (account_identifiers d))" using ai by simp
    moreover have "ident_pk ai \<noteq> ident_pk (new_identifier_row i ?n now)"
      using ai other by (auto simp: ident_pk_def)
    ultimately have "ai \<in> set (account_identifiers ?d)"
      unfolding ids registered_identifiers_def by (rule identifier_table.kept_upsert)
    with identifier_rowI [OF inv' this] ai Some show ?thesis by simp
  qed
qed

lemma spark_recipient_pubkey: "sp_pubkey s = sp_pubkey s' \<Longrightarrow> spark_recipient ai s = spark_recipient ai s'"
  by (simp add: spark_recipient_def)

lemma write_registration_frame:
  assumes inv: "accounts_inv d" and inv': "accounts_inv (write_registration now i reg d)"
    and acct: "i \<notin> acc_id ` set (accounts d) \<or> map_option sp_pubkey (spark_row i d) = Some (nr_pubkey reg)"
    and other: "(dn, j) \<noteq> (ni_domain (nr_identifier reg), ni_identifier (nr_identifier reg))"
    and keep: "\<And>ai. identifier_row dn j d = Some ai \<Longrightarrow>
      \<not> (ai_account_id ai = i \<and> dn = ni_domain (nr_identifier reg) \<and> ai_kind ai = Username)"
  shows "lookup_recipient dn j (write_registration now i reg d) = lookup_recipient dn j d"
proof -
  let ?d = "write_registration now i reg d"
  have row: "identifier_row dn j ?d = identifier_row dn j d"
    by (rule identifier_row_registered_other [OF inv inv' other]) (use keep in blast)
  have bl: "blink_child_row l ?d = blink_child_row l d" for l
    by (simp add: blink_child_row_def write_registration_eq)
  show ?thesis
  proof (cases "identifier_row dn j d")
    case None
    with row show ?thesis by (simp add: lookup_recipient_def)
  next
    case (Some ai)
    show ?thesis
    proof (cases "ai_account_id ai = i")
      case True
      then have "i \<in> acc_id ` set (accounts d)"
        using inv identifier_row_Some [OF Some] by (auto simp: accounts_inv_def identifiers_owned_def)
      with acct obtain s where s: "spark_row i d = Some s" "sp_pubkey s = nr_pubkey reg" by auto
      then have "spark_row i ?d = Some (merge_spark s (new_spark_row i (nr_pubkey reg) now))"
        by (simp add: spark_row_upsert)
      with s row Some True show ?thesis
        by (simp add: lookup_recipient_def merge_spark_def spark_recipient_def)
    next
      case False
      with row Some bl show ?thesis by (simp add: lookup_recipient_def spark_row_upsert_other)
    qed
  qed
qed

section \<open>Deletion\<close>

lemma identifier_row_deleted:
  assumes "accounts_inv d" "ai \<in> set (account_identifiers d)"
  shows "identifier_row dn j (d\<lparr>account_identifiers := delete_where
      (\<lambda>r. ai_account_id r = ai_account_id ai \<and> ai_domain r = ai_domain ai \<and> ai_identifier r = ai_identifier ai)
      (account_identifiers d)\<rparr>) =
    (if (dn, j) = ident_key ai then None else identifier_row dn j d)"
proof (cases "(dn, j) = ident_key ai")
  case True
  have "r = ai" if "r \<in> set (account_identifiers d)" "ident_key r = ident_key ai" for r
    using assms that by (auto simp: accounts_inv_defs dest: unique_byD)
  with True show ?thesis
    by (auto simp: identifier_row_def fetch_optional_None_iff ident_key_def)
next
  case False
  then show ?thesis
    unfolding identifier_row_def
    by (auto simp: fetch_optional_delete ident_key_def intro!: fetch_optional_cong)
qed

lemma lookup_recipient_identifiers:
  "identifier_row dn j (d\<lparr>account_identifiers := t\<rparr>) = identifier_row dn j d \<Longrightarrow>
     lookup_recipient dn j (d\<lparr>account_identifiers := t\<rparr>) = lookup_recipient dn j d"
  by (rule lookup_recipient_cong) (simp_all add: spark_row_def blink_child_row_def)

lemma lookup_recipient_claims [simp]:
  "lookup_recipient dn j (d\<lparr>used_signed_messages := ms\<rparr>) = lookup_recipient dn j d"
  by (rule lookup_recipient_cong) (simp_all add: identifier_row_def spark_row_def blink_child_row_def)

lemma claim_or_refuse_lookup:
  assumes "claim_or_refuse now cl d = Inr d1"
  shows "lookup_recipient dn j d1 = lookup_recipient dn j d"
    "identifier_row dn j d1 = identifier_row dn j d" "spark_by_pubkey k d1 = spark_by_pubkey k d"
    "get_account_by_id i d1 = get_account_by_id i d"
  by (simp_all add: claim_or_refuse_ok(1) [OF assms] identifier_row_def spark_by_pubkey_def
      get_account_by_id_def)

lemma registration_resolves:
  assumes "accounts_inv d" "upsert_spark_registration now fresh reg d = Inr d'"
  shows "\<exists>r. resolve_recipient_by_identifier (ni_domain (nr_identifier reg))
      (ni_identifier (nr_identifier reg)) d' = Inr (Some r) \<and> rr_provider r = Spark \<and>
    rr_spark_pubkey r = Some (nr_pubkey reg) \<and> rr_kind r = Username \<and>
    rr_description r = ni_description (nr_identifier reg)"
proof -
  have inv': "accounts_inv d'" using upsert_spark_registration_inv [OF assms] .
  obtain d1 i where d': "d' = write_registration now i reg d1" "ni_kind (nr_identifier reg) = Username"
    by (rule upsert_spark_registration_ok [OF assms(2)])
  from write_registration_lookup [OF inv' [unfolded d'(1)]] d'(2) resolve_inv [OF inv'] show ?thesis
    unfolding d'(1) by auto
qed

section \<open>Transfers\<close>

lemma transfer_tail_lookup:
  assumes inv: "accounts_inv d"
    and r: "transfer_tail now fresh dn i source k desc d = Inr d'"
    and own: "identifier_row dn i d = Some ai" "ai_account_id ai = source"
  shows "\<exists>r. lookup_recipient dn i d' = Some r \<and> rr_provider r = Spark \<and>
    rr_spark_pubkey r = Some k \<and> rr_description r = desc \<and> rr_kind r = ai_kind ai"
proof -
  obtain j d2 where d2: "destination_account now fresh k d = Inr (j, d2)"
    and mv: "move_identifier now dn i source j desc d2 = Inr d'"
    using r by (auto simp: transfer_tail_def bind_res_Inr_iff)
  note dest = destination_account_ok [OF inv d2]
  have d': "d' = d2\<lparr>account_identifiers := moved_identifiers now dn i source j desc (account_identifiers d)\<rparr>"
    using move_identifier_ok [OF mv] dest by simp
  have inv': "accounts_inv d'" using transfer_tail_inv [OF inv r] .
  obtain s where s: "spark_by_pubkey k d2 = Some s" "sp_account_id s = j"
    using dest by (cases "spark_by_pubkey k d2") auto
  note srow = spark_by_pubkey_Some [OF s(1)]
  define ai' where "ai' = ai\<lparr>ai_account_id := j, ai_description := desc, ai_updated_at := now\<rparr>"
  note ai = identifier_row_Some [OF own(1)]
  have "ai' \<in> set (account_identifiers d')"
    using ai own(2) unfolding d' moved_identifiers_def ai'_def by (simp add: table_simps)
  moreover have "s \<in> set (spark_accounts d')" using srow by (simp add: d')
  ultimately have "lookup_recipient (ai_domain ai') (ai_identifier ai') d' = Some (spark_recipient ai' s)"
    using s(2) by (intro lookup_recipient_spark [OF inv']) (simp_all add: ai'_def)
  then show ?thesis using ai srow by (simp add: ai'_def spark_recipient_def)
qed

lemma spark_row_of_child:
  assumes "accounts_inv d" "spark_child i d"
  obtains s where "spark_row i d = Some s"
proof -
  have "i \<in> sp_account_id ` set (spark_accounts d)"
    using assms spark_child_iff by (auto simp: accounts_inv_def spark_children_def)
  then have "spark_row i d \<noteq> None" by (auto simp: spark_row_def fetch_optional_None_iff)
  then show thesis using that by blast
qed

lemma blink_row_of_child:
  assumes "accounts_inv d" "blink_child i d"
  obtains b where "blink_child_row i d = Some b" "spark_row i d = None"
proof -
  have i: "i \<in> account_ids Blink (accounts d)" using assms blink_child_iff by blast
  then obtain a where a: "get_account_by_id i d = Some a"
    by (cases "get_account_by_id i d") (auto simp: get_account_by_id_None acc_ids_eq)
  have "acc_provider a = Blink" using get_account_by_id_provider [OF assms(1) a, of Blink] i by simp
  with child_rows_provider [OF assms(1) a] that show thesis by auto
qed

text \<open>Under the unique index on the Blink account id both spellings of the wallet update agree.\<close>

lemma update_wallet_backends:
  assumes inv: "accounts_inv d"
  shows "update_blink_default_wallet_pg now i w d = update_blink_default_wallet now i w d"
proof -
  let ?P = "\<lambda>b. bl_blink_account_id b = i \<and> is_blink_account (bl_account_id b) d"
  let ?f = "\<lambda>b. b\<lparr>bl_default_wallet := w, bl_updated_at := now\<rparr>"
  define hit where "hit = [b. b \<leftarrow> blink_accounts d, a \<leftarrow> accounts d,
    bl_account_id b = acc_id a \<and> acc_provider a = Blink \<and> bl_blink_account_id b = i]"
  have hit: "b \<in> set hit \<longleftrightarrow> b \<in> set (blink_accounts d) \<and> ?P b" for b
    unfolding hit_def is_blink_account_def by (auto simp: eq_commute)
  have upd: "map (\<lambda>b. if b \<in> set hit then ?f b else b) (blink_accounts d) =
      update_where ?P ?f (blink_accounts d)"
    unfolding update_where_def by (rule map_cong [OF refl]) (simp add: hit)
  show ?thesis
  proof (cases hit)
    case Nil
    then have "fetch_optional ?P (blink_accounts d) = None"
      using hit by (intro fetch_optional_NoneI) auto
    with Nil show ?thesis
      by (simp add: update_blink_default_wallet_def update_blink_default_wallet_pg_def hit_def [symmetric])
  next
    case (Cons b bs)
    with hit have b: "b \<in> set (blink_accounts d)" "?P b" by auto
    have "fetch_optional ?P (blink_accounts d) = Some b"
      by (rule fetch_optional_unique_pred)
        (use b inv in \<open>auto simp: accounts_inv_defs dest: unique_byD\<close>)
    with Cons upd show ?thesis
      by (simp add: update_blink_default_wallet_def update_blink_default_wallet_pg_def Let_def
          hit_def [symmetric])
  qed
qed

section \<open>Interface: an operation that spends a signed statement\<close>

text \<open>
  Registration, deletion and transfer promise the same of the statement that authorises them: a
  spent statement is refused, and success records it. What follows for all three is proved once.
\<close>

locale claiming_operation =
  fixes op :: "int \<Rightarrow> 'a \<Rightarrow> db \<Rightarrow> repository_error + db"
    and claim_of :: "'a \<Rightarrow> statement_claim option"
  assumes refuses: "claim_of x = Some c \<Longrightarrow> claimed c d \<Longrightarrow> \<not> is_ok (op now x d)"
    and spends: "op now x d = Inr d' \<Longrightarrow>
      used_signed_messages d' = used_signed_messages d @ claim_rows now (claim_of x)"
begin

lemma success_claims: "op now x d = Inr d' \<Longrightarrow> claim_of x = Some c \<Longrightarrow> claimed c d'"
  by (simp add: spends claimed_def claim_rows_def)

lemma success_was_fresh: "op now x d = Inr d' \<Longrightarrow> claim_of x = Some c \<Longrightarrow> \<not> claimed c d"
  using refuses [of x c d now] by auto

lemma claims_grow: "op now x d = Inr d' \<Longrightarrow> claimed c d \<Longrightarrow> claimed c d'"
  by (auto simp: spends claimed_def)

lemma not_twice:
  assumes "op now x d = Inr d'" "claim_of x = Some c" "claim_of y = Some c"
  shows "\<not> is_ok (op now' y d')"
  using assms success_claims refuses by blast

lemma spent_row:
  assumes "op now x d = Inr d'" "claim_of x = Some c"
  shows "\<exists>r \<in> set (used_signed_messages d'). um_statement_hash r = cl_statement_hash c \<and>
    um_expires_at r = cl_expires_at c"
  using assms by (simp add: spends claim_rows_def)

end

lemma bind_claim_refused:
  "cl = Some c \<Longrightarrow> claimed c d \<Longrightarrow> \<not> is_ok (bind_res (claim_or_refuse now cl d) f)"
  by (simp add: claim_or_refuse_iff)

lemma claim_or_refuse_used:
  "claim_or_refuse now cl d = Inr d1 \<Longrightarrow>
     used_signed_messages d1 = used_signed_messages d @ claim_rows now cl"
  by (drule claim_or_refuse_ok(1)) simp

interpretation registering: claiming_operation
  "\<lambda>now (fresh, reg). upsert_spark_registration now fresh reg" "\<lambda>(fresh, reg). nr_claim reg"
proof
  fix x :: "string \<times> new_spark_registration" and c d now
  assume "(case x of (fresh, reg) \<Rightarrow> nr_claim reg) = Some c" "claimed c d"
  then show "\<not> is_ok ((case x of (fresh, reg) \<Rightarrow> upsert_spark_registration now fresh reg) d)"
    by (cases x; cases "validate_registration (snd x)")
      (simp_all add: upsert_spark_registration_def bind_claim_refused)
next
  fix x :: "string \<times> new_spark_registration" and d d' now
  assume "(case x of (fresh, reg) \<Rightarrow> upsert_spark_registration now fresh reg) d = Inr d'"
  then have ok: "upsert_spark_registration now (fst x) (snd x) d = Inr d'" by (simp add: case_prod_beta)
  have "used_signed_messages d' = used_signed_messages d @ claim_rows now (nr_claim (snd x))"
    by (rule upsert_spark_registration_ok [OF ok])
      (drule claim_or_refuse_used, simp add: write_registration_eq)
  then show "used_signed_messages d' = used_signed_messages d @
      claim_rows now (case x of (fresh, reg) \<Rightarrow> nr_claim reg)"
    by (simp add: case_prod_beta)
qed

interpretation deleting: claiming_operation
  "\<lambda>now (domain, pubkey, identifier, cl). delete_spark_registration now domain pubkey identifier cl"
  "\<lambda>(domain, pubkey, identifier, cl). cl"
proof
  fix x :: "string \<times> string \<times> string \<times> statement_claim option" and c d now
  assume "(case x of (domain, pubkey, identifier, cl) \<Rightarrow> cl) = Some c" "claimed c d"
  then show "\<not> is_ok ((case x of (domain, pubkey, identifier, cl) \<Rightarrow>
      delete_spark_registration now domain pubkey identifier cl) d)"
    by (cases x) (simp add: delete_spark_registration_def bind_claim_refused)
next
  fix x :: "string \<times> string \<times> string \<times> statement_claim option" and d d' now
  assume a: "(case x of (domain, pubkey, identifier, cl) \<Rightarrow>
      delete_spark_registration now domain pubkey identifier cl) d = Inr d'"
  obtain dn k i cl where x: "x = (dn, k, i, cl)" by (cases x)
  from a have ok: "delete_spark_registration now dn k i cl d = Inr d'" by (simp add: x)
  have "used_signed_messages d' = used_signed_messages d @ claim_rows now cl"
    by (rule delete_spark_registration_ok [OF ok]) (drule claim_or_refuse_used, simp)
  then show "used_signed_messages d' = used_signed_messages d @
      claim_rows now (case x of (domain, pubkey, identifier, cl) \<Rightarrow> cl)"
    by (simp add: x)
qed

lemma destination_account_claims:
  "destination_account now fresh k d = Inr (i, d') \<Longrightarrow> used_signed_messages d' = used_signed_messages d"
  by (auto simp: destination_account_def bind_res_Inr_iff insert_account_def insert_spark_account_def
      split: option.splits if_splits)

lemma transfer_tail_claims:
  "transfer_tail now fresh dn i source k desc d = Inr d' \<Longrightarrow>
     used_signed_messages d' = used_signed_messages d"
  by (auto simp: transfer_tail_def bind_res_Inr_iff dest!: move_identifier_ok destination_account_claims)

interpretation transferring: claiming_operation
  "\<lambda>now (fresh, t). transfer_identifier now fresh t" "\<lambda>(fresh, t). tr_claim t"
proof
  fix x :: "string \<times> identifier_transfer" and c d now
  assume "(case x of (fresh, t) \<Rightarrow> tr_claim t) = Some c" "claimed c d"
  then show "\<not> is_ok ((case x of (fresh, t) \<Rightarrow> transfer_identifier now fresh t) d)"
    by (cases x) (simp add: transfer_identifier_def bind_claim_refused)
next
  fix x :: "string \<times> identifier_transfer" and d d' now
  assume "(case x of (fresh, t) \<Rightarrow> transfer_identifier now fresh t) d = Inr d'"
  then have ok: "transfer_identifier now (fst x) (snd x) d = Inr d'" by (simp add: case_prod_beta)
  have "used_signed_messages d' = used_signed_messages d @ claim_rows now (tr_claim (snd x))"
    by (rule transfer_identifier_ok [OF ok]) (drule claim_or_refuse_used, drule transfer_tail_claims, simp)
  then show "used_signed_messages d' = used_signed_messages d @
      claim_rows now (case x of (fresh, t) \<Rightarrow> tr_claim t)"
    by (simp add: case_prod_beta)
qed

section \<open>The transition system of the account tables\<close>

datatype backend = Sqlite | Postgres

text \<open>
  One constructor per repository method that writes the account tables; a \<open>string\<close> before the
  arguments is the id the method would generate. \<open>PruneClaims\<close> is the pruner's delete.
\<close>

datatype account_op =
    Register string new_spark_registration
  | Unregister string string string "statement_claim option"
  | Transfer string identifier_transfer
  | TransferBlink string blink_to_spark_transfer
  | CreateBlink string new_blink_account
  | SetDefaultWallet string wallet_kind
  | SetMode string spark_mode_update
  | RefreshCountry string string
  | MigrateMode string
  | PruneClaims

definition commit :: "db \<Rightarrow> repository_error + db \<Rightarrow> (repository_error + unit) \<times> db" where
  "commit d r = (case r of Inl e \<Rightarrow> (Inl e, d) | Inr d' \<Rightarrow> (Inr (), d'))"

fun run_op :: "backend \<Rightarrow> int \<Rightarrow> account_op \<Rightarrow> db \<Rightarrow> (repository_error + unit) \<times> db" where
  "run_op b now (Register fresh reg) d = commit d (upsert_spark_registration now fresh reg d)"
| "run_op b now (Unregister dn k i cl) d = commit d (delete_spark_registration now dn k i cl d)"
| "run_op b now (Transfer fresh t) d =
     commit d (case b of Sqlite \<Rightarrow> transfer_identifier now fresh t d
                       | Postgres \<Rightarrow> transfer_identifier_pg now fresh t d)"
| "run_op b now (TransferBlink fresh t) d =
     commit d (case b of Sqlite \<Rightarrow> transfer_blink_identifier_to_spark now fresh t d
                       | Postgres \<Rightarrow> transfer_blink_identifier_to_spark_pg now fresh t d)"
| "run_op b now (CreateBlink fresh acct) d = commit d (create_blink_account now fresh acct d)"
| "run_op b now (SetDefaultWallet i w) d =
     commit d (map_sum id snd (case b of Sqlite \<Rightarrow> update_blink_default_wallet now i w d
                                       | Postgres \<Rightarrow> update_blink_default_wallet_pg now i w d))"
| "run_op b now (SetMode fresh u) d = upsert_spark_mode now fresh u d"
| "run_op b now (RefreshCountry k c) d = (Inr (), refresh_spark_country_evidence now k c d)"
| "run_op b now (MigrateMode k) d = (Inr (), set_spark_mode_enhanced_if_unset now k d)"
| "run_op b now PruneClaims d = (Inr (), snd (delete_expired_signed_messages now d))"

lemma commit_cases:
  "Q d \<Longrightarrow> (\<And>d'. r = Inr d' \<Longrightarrow> Q d') \<Longrightarrow> Q (snd (commit d r))"
  by (cases r) (simp_all add: commit_def)

lemma commit_ok [simp]: "fst (commit d r) = Inr u \<longleftrightarrow> (\<exists>d'. r = Inr d')"
  by (cases r) (simp_all add: commit_def)

lemma map_sum_snd_Inr: "map_sum id snd r = Inr y \<Longrightarrow> \<exists>x. r = Inr (x, y)"
  by (cases r) auto

lemma run_op_inv:
  assumes inv: "accounts_inv d"
  shows "accounts_inv (snd (run_op b now op d))"
proof (cases op)
  case (Register fresh reg)
  with inv show ?thesis by (auto intro: commit_cases dest: upsert_spark_registration_inv [OF inv])
next
  case (Unregister dn k i cl)
  with inv show ?thesis by (auto intro: commit_cases dest: delete_spark_registration_inv [OF inv])
next
  case (Transfer fresh t)
  with inv show ?thesis
    by (cases b) (auto simp: transfer_identifier_backends intro: commit_cases
        dest: transfer_identifier_inv [OF inv])
next
  case (TransferBlink fresh t)
  with inv show ?thesis
    by (cases b) (auto simp: transfer_blink_backends intro: commit_cases dest: transfer_blink_inv [OF inv])
next
  case (CreateBlink fresh acct)
  with inv show ?thesis by (auto intro: commit_cases dest: create_blink_account_inv [OF inv])
next
  case (SetDefaultWallet i w)
  with inv show ?thesis
    by (cases b) (auto intro: commit_cases dest!: map_sum_snd_Inr
        dest: update_blink_default_wallet_inv [OF inv] update_blink_default_wallet_pg_inv [OF inv])
next
  case (SetMode fresh u)
  with upsert_spark_mode_inv [OF inv] show ?thesis by (cases "upsert_spark_mode now fresh u d") auto
qed (simp_all add: inv refresh_spark_country_evidence_inv set_spark_mode_enhanced_if_unset_inv
    delete_expired_inv)

inductive account_run :: "backend \<Rightarrow> db \<Rightarrow> (int \<times> account_op) list \<Rightarrow> db \<Rightarrow> bool" for b where
  run_nil: "account_run b d [] d"
| run_step: "account_run b d xs d1 \<Longrightarrow> account_run b d (xs @ [(now, op)]) (snd (run_op b now op d1))"

inductive_cases account_run_snocE: "account_run b d (xs @ [x]) d'"

lemma account_run_inv: "account_run b d xs d' \<Longrightarrow> accounts_inv d \<Longrightarrow> accounts_inv d'"
  by (induction rule: account_run.induct) (simp_all add: run_op_inv)

text \<open>The statement an operation spends, and the life of its row.\<close>

fun op_claim :: "account_op \<Rightarrow> statement_claim option" where
  "op_claim (Register fresh reg) = nr_claim reg"
| "op_claim (Unregister dn k i cl) = cl"
| "op_claim (Transfer fresh t) = tr_claim t"
| "op_claim _ = None"

lemma upsert_spark_mode_claims:
  "used_signed_messages (snd (upsert_spark_mode now fresh u d)) = used_signed_messages d"
proof (cases "ensure_spark_account now fresh (mu_pubkey u) d")
  case (Inr d1)
  from ensure_spark_account_ok [OF Inr] have "used_signed_messages d1 = used_signed_messages d" by auto
  with Inr show ?thesis by (simp add: upsert_spark_mode_def)
qed (simp add: upsert_spark_mode_def)

lemma create_blink_claims:
  "create_blink_account now fresh acct d = Inr d' \<Longrightarrow> used_signed_messages d' = used_signed_messages d"
  by (erule create_blink_account_ok) simp

lemma update_wallet_claims:
  "update_blink_default_wallet now i w d = Inr (u, d') \<Longrightarrow> used_signed_messages d' = used_signed_messages d"
  "update_blink_default_wallet_pg now i w d = Inr (u, d') \<Longrightarrow> used_signed_messages d' = used_signed_messages d"
  unfolding update_blink_default_wallet_def update_blink_default_wallet_pg_def Let_def
  by (auto split: option.splits list.splits)

lemma blink_transfer_claims:
  "transfer_blink_identifier_to_spark now fresh t d = Inr d' \<Longrightarrow> used_signed_messages d' = used_signed_messages d"
  by (drule transfer_blink_ok(3)) (rule transfer_tail_claims)

text \<open>What every operation does to the claims table.\<close>

lemma run_op_claims:
  assumes inv: "accounts_inv d"
  shows "used_signed_messages (snd (run_op b now op d)) =
    (if op = PruneClaims then delete_where (\<lambda>r. um_expires_at r < now) (used_signed_messages d)
     else if is_ok (fst (run_op b now op d)) then used_signed_messages d @ claim_rows now (op_claim op)
     else used_signed_messages d)"
proof -
  have none: "claim_rows now None = []" by (simp add: claim_rows_def)
  have tx: "used_signed_messages (snd (commit d r)) =
      (if is_ok (fst (commit d r)) then used_signed_messages d @ ms else used_signed_messages d)"
    if "\<And>d'. r = Inr d' \<Longrightarrow> used_signed_messages d' = used_signed_messages d @ ms" for r ms
    using that by (cases r) (simp_all add: commit_def)
  show ?thesis
  proof (cases op)
    case (Register fresh reg)
    then show ?thesis using registering.spends [of now "(fresh, reg)" d] by (simp add: tx)
  next
    case (Unregister dn k i cl)
    then show ?thesis using deleting.spends [of now "(dn, k, i, cl)" d] by (simp add: tx)
  next
    case (Transfer fresh t)
    then show ?thesis
      using transferring.spends [of now "(fresh, t)" d]
      by (cases b) (simp_all add: tx transfer_identifier_backends [OF inv])
  next
    case (TransferBlink fresh t)
    then show ?thesis
      using blink_transfer_claims [of now fresh t d]
      by (cases b) (simp_all add: tx none transfer_blink_backends [OF inv])
  next
    case (CreateBlink fresh acct)
    then show ?thesis using create_blink_claims [of now fresh acct d] by (simp add: tx none)
  next
    case (SetDefaultWallet i w)
    have "used_signed_messages d' = used_signed_messages d @ []"
      if "map_sum id snd (case b of Sqlite \<Rightarrow> update_blink_default_wallet now i w d
        | Postgres \<Rightarrow> update_blink_default_wallet_pg now i w d) = Inr d'" for d'
      using map_sum_snd_Inr [OF that] update_wallet_claims by (cases b) auto
    from tx [OF this] SetDefaultWallet show ?thesis by (simp add: none)
  qed (simp_all add: none upsert_spark_mode_claims refresh_spark_country_evidence_def
      set_spark_mode_enhanced_if_unset_def delete_expired_signed_messages_def)
qed

lemma run_op_refuses:
  assumes inv: "accounts_inv d" and c: "op_claim op = Some c" "claimed c d"
  shows "\<not> is_ok (fst (run_op b now op d))"
proof -
  have no: "\<not> is_ok (fst (commit d r))" if "\<not> is_ok r" for r
    using that by (cases r) (simp_all add: commit_def)
  show ?thesis
  proof (cases op)
    case (Register fresh reg)
    with c registering.refuses [of "(fresh, reg)" c d now] show ?thesis by (simp add: no)
  next
    case (Unregister dn k i cl)
    with c deleting.refuses [of "(dn, k, i, cl)" c d now] show ?thesis by (simp add: no)
  next
    case (Transfer fresh t)
    with c transferring.refuses [of "(fresh, t)" c d now] show ?thesis
      by (cases b) (simp_all add: no transfer_identifier_backends [OF inv])
  qed (use c in simp_all)
qed

text \<open>A spent statement survives a run whose pruner never runs past its expiry.\<close>

lemma claim_survives_run:
  assumes "account_run b d xs d'" "accounts_inv d" "r \<in> set (used_signed_messages d)"
    "\<forall>(t, op) \<in> set xs. op = PruneClaims \<longrightarrow> t \<le> um_expires_at r"
  shows "r \<in> set (used_signed_messages d')"
  using assms
proof (induction rule: account_run.induct)
  case (run_step d xs d1 now op)
  then have "r \<in> set (used_signed_messages d1)" by simp
  moreover have "accounts_inv d1" using account_run_inv [OF run_step.hyps] run_step.prems(1) by blast
  ultimately show ?case using run_step.prems(3) by (auto simp: run_op_claims)
qed simp

lemma claimedI:
  "r \<in> set (used_signed_messages d) \<Longrightarrow> um_statement_hash r = cl_statement_hash c \<Longrightarrow> claimed c d"
  unfolding claimed_def exists_where_iff by blast

section \<open>Blink accounts\<close>

lemma insert_identifiers_all:
  "unique_by ident_key (account_identifiers d @ ais) \<Longrightarrow>
     insert_identifiers ais d = Inr (d\<lparr>account_identifiers := account_identifiers d @ ais\<rparr>)"
proof (induction ais arbitrary: d)
  case (Cons ai ais)
  have "insert_identifier ai d = Inr (d\<lparr>account_identifiers := account_identifiers d @ [ai]\<rparr>)"
    using Cons.prems by (auto simp: insert_identifier_ok unique_by_def)
  with Cons show ?case by simp
qed simp

definition blink_identifier_rows :: "int \<Rightarrow> string \<Rightarrow> new_blink_account \<Rightarrow> account_identifier list" where
  "blink_identifier_rows now i acct = map (\<lambda>n. new_identifier_row i n now) (nb_identifiers acct)"

lemma blink_identifier_rows_keys:
  "unique_by ident_key (t @ blink_identifier_rows now i acct) \<longleftrightarrow>
     distinct (map ident_key t @ map (\<lambda>n. (ni_domain n, ni_identifier n)) (nb_identifiers acct))"
  by (simp add: unique_by_def blink_identifier_rows_def ident_key_def o_def)

lemma create_blink_account_iff:
  assumes inv: "accounts_inv d" and i: "i = (case nb_account_id acct of Some i \<Rightarrow> i | None \<Rightarrow> fresh)"
  shows "is_ok (create_blink_account now fresh acct d) \<longleftrightarrow>
      i \<notin> acc_id ` set (accounts d) \<and>
      nb_blink_account_id acct \<notin> bl_blink_account_id ` set (blink_accounts d) \<and>
      distinct (map ident_key (account_identifiers d) @
        map (\<lambda>n. (ni_domain n, ni_identifier n)) (nb_identifiers acct))" (is "?ok \<longleftrightarrow> ?free")
proof
  assume ?ok
  then obtain d' where ok: "create_blink_account now fresh acct d = Inr d'"
    by (cases "create_blink_account now fresh acct d") auto
  show ?free
    by (rule create_blink_account_ok [OF ok])
      (use inv i in \<open>simp only: accounts_inv_defs blink_identifier_rows_def [symmetric] blink_identifier_rows_keys
        simp_thms\<close>)
next
  assume free: ?free
  let ?rows = "blink_identifier_rows now i acct"
  let ?d2 = "d\<lparr>accounts := accounts d @ [new_account_row i Blink now],
    blink_accounts := blink_accounts d @ [blink_row i acct now]\<rparr>"
  have none: "get_account_by_id i d = None" using free by (simp add: get_account_by_id_None)
  have child: "i \<notin> bl_account_id ` set (blink_accounts d)"
    using inv free not_child_of_missing(2) by (auto simp: accounts_inv_def)
  have 1: "insert_account (new_account_row i Blink now) d =
      Inr (d\<lparr>accounts := accounts d @ [new_account_row i Blink now]\<rparr>)"
    using free by (simp add: insert_account_ok)
  have 2: "insert_blink_account (blink_row i acct now) (d\<lparr>accounts := accounts d @ [new_account_row i Blink now]\<rparr>) =
      Inr ?d2"
    using free child by (simp add: insert_blink_account_ok)
  have 3: "is_ok (insert_identifiers ?rows ?d2)"
    using insert_identifiers_all [of ?d2 ?rows] free by (simp add: blink_identifier_rows_keys)
  have 4: "\<not> list_ex (\<lambda>n. exists_where (\<lambda>ai. ai_domain ai = ni_domain n \<and> ai_identifier ai = ni_identifier n)
      (account_identifiers d)) (nb_identifiers acct)"
    using free by (auto simp: list_ex_iff ident_key_def)
  have 5: "\<not> exists_where (\<lambda>b. bl_blink_account_id b = nb_blink_account_id acct) (blink_accounts d)"
    using free by (simp only: in_column simp_thms)
  show ?ok
    unfolding create_blink_account_def Let_def i [symmetric]
    by (simp only: none option.case 4 5 if_False 1 2 bind_res_simps 3 [unfolded blink_identifier_rows_def] simp_thms)
qed

lemma create_blink_lookup:
  assumes inv: "accounts_inv d" and i: "i = (case nb_account_id acct of Some i \<Rightarrow> i | None \<Rightarrow> fresh)"
    and ok: "create_blink_account now fresh acct d = Inr d'" and n: "n \<in> set (nb_identifiers acct)"
  shows "\<exists>r. resolve_recipient_by_identifier (ni_domain n) (ni_identifier n) d' = Inr (Some r) \<and>
        rr_account_id r = i \<and> rr_provider r = Blink \<and> rr_kind r = ni_kind n \<and>
        rr_description r = ni_description n \<and> rr_blink_account_id r = Some (nb_blink_account_id acct) \<and>
        rr_btc_wallet_id r = Some (nb_btc_wallet_id acct) \<and>
        rr_usd_wallet_id r = Some (nb_usd_wallet_id acct) \<and>
        rr_default_wallet r = Some (nb_default_wallet acct)"
  using ok
proof (rule create_blink_account_ok)
  fix j
  assume j: "j = (case nb_account_id acct of Some i \<Rightarrow> i | None \<Rightarrow> fresh)"
    and new: "j \<notin> acc_id ` set (accounts d)" and child: "j \<notin> bl_account_id ` set (blink_accounts d)"
    and d': "d' = d\<lparr>accounts := accounts d @ [new_account_row j Blink now],
            blink_accounts := blink_accounts d @ [blink_row j acct now],
            account_identifiers := account_identifiers d @
              map (\<lambda>n. new_identifier_row j n now) (nb_identifiers acct)\<rparr>"
  have inv': "accounts_inv d'" using create_blink_account_inv [OF inv ok] .
  have ij: "j = i" using i j by simp
  let ?ai = "new_identifier_row i n now"
  have "?ai \<in> set (account_identifiers d')" using n by (simp add: d' ij)
  from identifier_rowI [OF inv' this] have row: "identifier_row (ni_domain n) (ni_identifier n) d' = Some ?ai"
    by simp
  have sp: "spark_row i d' = None"
    using inv new not_child_of_missing(1) [of i "accounts d" "spark_accounts d"]
    by (auto simp: spark_row_def d' ij fetch_optional_None_iff accounts_inv_def)
  have "fetch_optional (\<lambda>b. bl_account_id b = i) (blink_accounts d) = None"
    using child by (auto simp: fetch_optional_None_iff ij)
  then have bl: "blink_child_row i d' = Some (blink_row i acct now)" by (simp add: blink_child_row_def d' ij)
  have "lookup_recipient (ni_domain n) (ni_identifier n) d' = Some (blink_recipient ?ai (blink_row i acct now))"
    by (simp add: lookup_recipient_def row sp bl)
  with resolve_inv [OF inv'] show ?thesis by (simp add: blink_recipient_def blink_row_def)
qed

section \<open>Account mode\<close>

lemma ensure_spark_account_present:
  assumes "accounts_inv d" "ensure_spark_account now fresh k d = Inr d1"
  obtains s where "s \<in> set (spark_accounts d1)" "sp_pubkey s = k"
    "spark_by_pubkey k d \<noteq> None \<Longrightarrow> d1 = d"
  using ensure_spark_account_ok [OF assms(2)]
proof
  assume "k \<in> sp_pubkey ` set (spark_accounts d) \<and> d1 = d"
  then show thesis using that by auto
next
  assume a: "k \<notin> sp_pubkey ` set (spark_accounts d) \<and> fresh \<notin> acc_id ` set (accounts d) \<and>
    d1 = d\<lparr>accounts := accounts d @ [new_account_row fresh Spark now],
           spark_accounts := spark_accounts d @ [new_spark_row fresh k now]\<rparr>"
  then have "spark_by_pubkey k d = None" by (simp add: spark_by_pubkey_None)
  with a show thesis by (intro that [of "new_spark_row fresh k now"]) simp_all
qed

lemma upsert_spark_mode_refused:
  assumes inv: "accounts_inv d" and s: "spark_by_pubkey k d = Some s"
    and v: "mu_pubkey v = k" "sp_mode_last_timestamp s = Some t" "mu_client_timestamp v \<le> t"
  shows "upsert_spark_mode now fresh v d =
    (if sp_mode s = Some (mu_mode v) \<and> t = mu_client_timestamp v then Inr () else Inl StaleModeTimestamp, d)"
proof -
  note row = spark_by_pubkey_Some [OF s]
  have en: "ensure_spark_account now fresh k d = Inr d"
    using row by (auto simp: ensure_spark_account_def)
  have "r = s" if "r \<in> set (spark_accounts d)" "sp_pubkey r = k" for r
    using that row inv by (auto simp: accounts_inv_defs dest: unique_byD)
  then have "rows_affected (mode_write_applies v) (spark_accounts d) = 0"
    using v by (auto simp: mode_write_applies_def)
  then show ?thesis
    using v(1,2) by (simp add: upsert_spark_mode_def en classify_refused_mode_write_def
        get_spark_account_mode_def s map_spark_account_mode_def del: rows_affected_0)
qed

lemma upsert_spark_mode_row:
  assumes inv: "accounts_inv d" and ok: "upsert_spark_mode now fresh u d = (Inr (), d')"
  obtains s where "spark_by_pubkey (mu_pubkey u) d' = Some s" "sp_mode s = Some (mu_mode u)"
    "sp_mode_last_timestamp s = Some (mu_client_timestamp u)" "mu_mode u = Anon \<Longrightarrow> sp_country s = None"
proof -
  obtain d1 where d1: "ensure_spark_account now fresh (mu_pubkey u) d = Inr d1"
    using ok by (cases "ensure_spark_account now fresh (mu_pubkey u) d") (simp_all add: upsert_spark_mode_def)
  have inv1: "accounts_inv d1" using ensure_spark_account_inv [OF inv d1] .
  have inv': "accounts_inv d'" using upsert_spark_mode_inv [OF inv ok] .
  obtain s0 where s0: "s0 \<in> set (spark_accounts d1)" "sp_pubkey s0 = mu_pubkey u"
    using ensure_spark_account_present [OF inv d1] .
  show thesis
  proof (cases "rows_affected (mode_write_applies u) (spark_accounts d1) = 0")
    case True
    have k: "spark_by_pubkey (mu_pubkey u) d1 = Some s0" using spark_by_pubkeyI [OF inv1 s0(1)] s0(2) by simp
    with ok d1 True have "d' = d1" "sp_mode s0 = Some (mu_mode u)"
      "sp_mode_last_timestamp s0 = Some (mu_client_timestamp u)"
      by (simp_all add: upsert_spark_mode_def classify_refused_mode_write_def get_spark_account_mode_def
          map_spark_account_mode_def del: rows_affected_0 split: if_splits)
    moreover have "mode_row_inv s0" using inv1 s0 by (simp add: accounts_inv_def modes_inv_def)
    ultimately show ?thesis using that k by (auto simp: mode_row_inv_def)
  next
    case False
    then obtain s where s: "s \<in> set (spark_accounts d1)" "mode_write_applies u s" by auto
    have d': "d' = d1\<lparr>spark_accounts := update_where (mode_write_applies u) (mode_write now u) (spark_accounts d1)\<rparr>"
      using ok d1 False by (simp add: upsert_spark_mode_def del: rows_affected_0)
    have "mode_write now u s \<in> set (spark_accounts d')" using s by (simp add: d' table_simps)
    from spark_by_pubkeyI [OF inv' this] s(2)
    have "spark_by_pubkey (mu_pubkey u) d' = Some (mode_write now u s)"
      by (simp add: mode_write_applies_def)
    then show ?thesis
      by (rule that) (cases "mu_mode u"; simp add: mode_write_def Let_def)+
  qed
qed

text \<open>A row after an operation: same account, no older mode timestamp.\<close>

definition ts_le :: "int option \<Rightarrow> int option \<Rightarrow> bool" where
  "ts_le a b = (case a of None \<Rightarrow> True | Some t \<Rightarrow> (case b of None \<Rightarrow> False | Some t' \<Rightarrow> t \<le> t'))"

lemma ts_le_refl [simp]: "ts_le a a"
  by (simp add: ts_le_def split: option.splits)

lemma ts_le_trans: "ts_le a b \<Longrightarrow> ts_le b c \<Longrightarrow> ts_le a c"
  by (auto simp: ts_le_def split: option.splits)

definition newer_rows :: "spark_account list \<Rightarrow> spark_account list \<Rightarrow> bool" where
  "newer_rows t u \<longleftrightarrow> (\<forall>i s. fetch_optional (\<lambda>s. sp_account_id s = i) t = Some s \<longrightarrow>
     (case fetch_optional (\<lambda>s. sp_account_id s = i) u of None \<Rightarrow> False
      | Some s' \<Rightarrow> ts_le (sp_mode_last_timestamp s) (sp_mode_last_timestamp s')))"

lemma newer_rows_refl [simp]: "newer_rows t t"
  by (simp add: newer_rows_def)

lemma newer_rows_append [simp]: "newer_rows t (t @ u)"
  by (simp add: newer_rows_def)

lemma newer_rows_update:
  assumes "\<And>s. sp_account_id (f s) = sp_account_id s"
    "\<And>s. P s \<Longrightarrow> ts_le (sp_mode_last_timestamp s) (sp_mode_last_timestamp (f s))"
  shows "newer_rows t (update_where P f t)"
  using assms by (simp add: newer_rows_def fetch_optional_update_same)

lemma newer_rows_upsert: "newer_rows t (upsert_on sp_account_id merge_spark row t)"
proof (cases "exists_where (\<lambda>s. sp_account_id s = sp_account_id row) t")
  case True
  have "newer_rows t (update_where (\<lambda>s. sp_account_id s = sp_account_id row) (\<lambda>s. merge_spark s row) t)"
    by (rule newer_rows_update) (simp_all add: merge_spark_def)
  with True show ?thesis by (simp only: upsert_on_def if_True)
next
  case False
  then show ?thesis by (simp only: upsert_on_def if_False newer_rows_append)
qed

lemma newer_rowsE:
  assumes "newer_rows t u" "fetch_optional (\<lambda>s. sp_account_id s = i) t = Some s"
  obtains s' where "fetch_optional (\<lambda>s. sp_account_id s = i) u = Some s'"
    "ts_le (sp_mode_last_timestamp s) (sp_mode_last_timestamp s')"
proof -
  have "case fetch_optional (\<lambda>s. sp_account_id s = i) u of None \<Rightarrow> False
      | Some s' \<Rightarrow> ts_le (sp_mode_last_timestamp s) (sp_mode_last_timestamp s')"
    using assms unfolding newer_rows_def by blast
  then show thesis
    by (cases "fetch_optional (\<lambda>s. sp_account_id s = i) u") (simp_all add: that)
qed

lemma newer_rows_trans:
  assumes "newer_rows t u" "newer_rows u v"
  shows "newer_rows t v"
  unfolding newer_rows_def
proof (intro allI impI)
  fix i s assume "fetch_optional (\<lambda>s. sp_account_id s = i) t = Some s"
  from newer_rowsE [OF assms(1) this] obtain s1 where
    1: "fetch_optional (\<lambda>s. sp_account_id s = i) u = Some s1"
      "ts_le (sp_mode_last_timestamp s) (sp_mode_last_timestamp s1)" .
  from newer_rowsE [OF assms(2) 1(1)] obtain s2 where
    "fetch_optional (\<lambda>s. sp_account_id s = i) v = Some s2"
    "ts_le (sp_mode_last_timestamp s1) (sp_mode_last_timestamp s2)" .
  with 1(2) show "case fetch_optional (\<lambda>s. sp_account_id s = i) v of None \<Rightarrow> False
      | Some s' \<Rightarrow> ts_le (sp_mode_last_timestamp s) (sp_mode_last_timestamp s')"
    by (simp add: ts_le_trans)
qed

lemma mode_write_newer:
  "mode_write_applies u s \<Longrightarrow> ts_le (sp_mode_last_timestamp s) (sp_mode_last_timestamp (mode_write now u s))"
  by (auto simp: mode_write_applies_def mode_write_def Let_def ts_le_def split: option.splits)

lemma upsert_spark_mode_newer:
  "newer_rows (spark_accounts d) (spark_accounts (snd (upsert_spark_mode now fresh u d)))"
proof (cases "ensure_spark_account now fresh (mu_pubkey u) d")
  case (Inr d1)
  have 1: "newer_rows (spark_accounts d) (spark_accounts d1)" using ensure_spark_account_ok [OF Inr] by auto
  have "newer_rows (spark_accounts d1)
      (update_where (mode_write_applies u) (mode_write now u) (spark_accounts d1))"
    by (rule newer_rows_update) (simp_all add: mode_write_newer)
  with 1 Inr newer_rows_trans show ?thesis by (auto simp: upsert_spark_mode_def)
qed (simp add: upsert_spark_mode_def)

lemma transfer_tail_newer:
  assumes "accounts_inv d" "transfer_tail now fresh dn i source k desc d = Inr d'"
  shows "newer_rows (spark_accounts d) (spark_accounts d')"
proof -
  obtain j d2 where d2: "destination_account now fresh k d = Inr (j, d2)"
    and mv: "move_identifier now dn i source j desc d2 = Inr d'"
    using assms(2) by (auto simp: transfer_tail_def bind_res_Inr_iff)
  have "newer_rows (spark_accounts d) (spark_accounts d2)"
    using assms(1) d2 by (cases rule: destination_account_cases) simp_all
  then show ?thesis by (simp add: move_identifier_ok [OF mv])
qed

lemma update_wallet_spark:
  "update_blink_default_wallet now i w d = Inr (u, d') \<Longrightarrow> spark_accounts d' = spark_accounts d"
  unfolding update_blink_default_wallet_def Let_def by (auto split: option.splits)

lemma run_op_newer:
  assumes inv: "accounts_inv d"
  shows "newer_rows (spark_accounts d) (spark_accounts (snd (run_op b now op d)))"
proof (cases op)
  case (Register fresh reg)
  have "newer_rows (spark_accounts d) (spark_accounts d')"
    if "upsert_spark_registration now fresh reg d = Inr d'" for d'
    by (rule upsert_spark_registration_ok [OF that])
      (drule claim_or_refuse_frame(3), simp add: write_registration_eq newer_rows_upsert)
  then show ?thesis unfolding Register run_op.simps
    by (rule commit_cases [where Q = "\<lambda>x. newer_rows (spark_accounts d) (spark_accounts x)", rotated]) simp_all
next
  case (Unregister dn k i cl)
  have "newer_rows (spark_accounts d) (spark_accounts d')"
    if "delete_spark_registration now dn k i cl d = Inr d'" for d'
    by (rule delete_spark_registration_ok [OF that]) (drule claim_or_refuse_frame(3), simp)
  then show ?thesis unfolding Unregister run_op.simps
    by (rule commit_cases [where Q = "\<lambda>x. newer_rows (spark_accounts d) (spark_accounts x)", rotated]) simp_all
next
  case (Transfer fresh t)
  have "newer_rows (spark_accounts d) (spark_accounts d')"
    if "transfer_identifier now fresh t d = Inr d'" for d'
  proof (rule transfer_identifier_ok [OF that])
    fix d1 assume d1: "claim_or_refuse now (tr_claim t) d = Inr d1"
      and tail: "transfer_tail now fresh (tr_domain t) (tr_identifier t) (tr_source_account_id t)
        (tr_destination_spark_pubkey t) (tr_description t) d1 = Inr d'"
    show ?thesis
      using transfer_tail_newer [OF claim_or_refuse_inv [OF d1 inv] tail]
      by (simp add: claim_or_refuse_frame(3) [OF d1])
  qed
  then show ?thesis unfolding Transfer run_op.simps
    by (cases b; intro commit_cases [where Q = "\<lambda>x. newer_rows (spark_accounts d) (spark_accounts x)"])
      (simp_all add: transfer_identifier_backends [OF inv])
next
  case (TransferBlink fresh t)
  have "newer_rows (spark_accounts d) (spark_accounts d')"
    if "transfer_blink_identifier_to_spark now fresh t d = Inr d'" for d'
    using transfer_tail_newer [OF inv transfer_blink_ok(3) [OF that]] .
  then show ?thesis unfolding TransferBlink run_op.simps
    by (cases b; intro commit_cases [where Q = "\<lambda>x. newer_rows (spark_accounts d) (spark_accounts x)"])
      (simp_all add: transfer_blink_backends [OF inv])
next
  case (CreateBlink fresh acct)
  have "newer_rows (spark_accounts d) (spark_accounts d')"
    if "create_blink_account now fresh acct d = Inr d'" for d'
    by (rule create_blink_account_ok [OF that]) simp
  then show ?thesis unfolding CreateBlink run_op.simps
    by (rule commit_cases [where Q = "\<lambda>x. newer_rows (spark_accounts d) (spark_accounts x)", rotated]) simp_all
next
  case (SetDefaultWallet i w)
  have "newer_rows (spark_accounts d) (spark_accounts d')"
    if "map_sum id snd (update_blink_default_wallet now i w d) = Inr d'" for d'
    using map_sum_snd_Inr [OF that] update_wallet_spark by auto
  then show ?thesis unfolding SetDefaultWallet run_op.simps
    by (cases b; intro commit_cases [where Q = "\<lambda>x. newer_rows (spark_accounts d) (spark_accounts x)"])
      (simp_all add: update_wallet_backends [OF inv])
next
  case (SetMode fresh u)
  then show ?thesis by (simp add: upsert_spark_mode_newer)
next
  case (RefreshCountry k c)
  then show ?thesis
    unfolding RefreshCountry run_op.simps refresh_spark_country_evidence_def by (simp add: newer_rows_update)
next
  case (MigrateMode k)
  then show ?thesis
    unfolding MigrateMode run_op.simps set_spark_mode_enhanced_if_unset_def by (simp add: newer_rows_update)
next
  case PruneClaims
  then show ?thesis by (simp add: delete_expired_signed_messages_def)
qed

lemma account_run_newer:
  "account_run b d xs d' \<Longrightarrow> accounts_inv d \<Longrightarrow> newer_rows (spark_accounts d) (spark_accounts d')"
proof (induction rule: account_run.induct)
  case (run_step d xs d1 now op)
  then have "newer_rows (spark_accounts d) (spark_accounts d1)" "accounts_inv d1"
    using account_run_inv by auto
  with run_op_newer newer_rows_trans show ?case by blast
qed simp

lemma mode_timestamp_run:
  assumes "account_run b d xs d'" "accounts_inv d" "spark_row i d = Some s"
    "sp_mode_last_timestamp s = Some t"
  shows "\<exists>s' t'. spark_row i d' = Some s' \<and> sp_mode_last_timestamp s' = Some t' \<and> t \<le> t'"
proof -
  obtain s' where s': "spark_row i d' = Some s'"
    and le: "ts_le (sp_mode_last_timestamp s) (sp_mode_last_timestamp s')"
    using newer_rowsE [OF account_run_newer [OF assms(1,2)] assms(3) [unfolded spark_row_def]]
    unfolding spark_row_def by blast
  obtain t' where "sp_mode_last_timestamp s' = Some t'" "t \<le> t'"
    using le assms(4) by (auto simp: ts_le_def split: option.splits)
  with s' show ?thesis by blast
qed

end
