(* ===== verification/Lnurl_Accounts_Thms.thy ===== *)
theory Lnurl_Accounts_Thms
  imports Lnurl_Accounts_Props
begin

text \<open>
  The properties of the account repository, each with a concrete instance. The instances use the
  states of a short history: Alice registers, a Blink account is opened, Alice is transferred.
\<close>

section \<open>A short history\<close>

definition stmt :: "nat \<Rightarrow> statement_claim" where
  "stmt n = \<lparr>cl_statement_hash = [of_nat n], cl_route = ''register'', cl_expires_at = 700\<rparr>"

definition alice_reg :: new_spark_registration where
  "alice_reg = \<lparr>nr_account_id = None, nr_pubkey = ''02aa'',
     nr_identifier = \<lparr>ni_domain = ''x.org'', ni_identifier = ''alice'', ni_kind = Username,
       ni_description = ''pay alice''\<rparr>, nr_claim = Some (stmt 1)\<rparr>"

definition bob_acct :: new_blink_account where
  "bob_acct = \<lparr>nb_account_id = None, nb_blink_account_id = ''b1'', nb_btc_wallet_id = ''w1'',
     nb_usd_wallet_id = ''w2'', nb_default_wallet = Usd,
     nb_identifiers = [\<lparr>ni_domain = ''x.org'', ni_identifier = ''bob'', ni_kind = Username,
       ni_description = ''pay bob''\<rparr>]\<rparr>"

definition alice_transfer :: identifier_transfer where
  "alice_transfer = \<lparr>tr_domain = ''x.org'', tr_identifier = ''alice'', tr_source_account_id = ''a1'',
     tr_destination_spark_pubkey = ''02cc'', tr_description = ''pay carol'', tr_claim = Some (stmt 2)\<rparr>"

definition bob_transfer :: blink_to_spark_transfer where
  "bob_transfer = \<lparr>bt_domain = ''x.org'', bt_identifier = ''bob'', bt_source_account_id = ''a2'',
     bt_destination_spark_pubkey = ''02dd'', bt_description = ''pay dave''\<rparr>"

definition the_ok :: "'e + db \<Rightarrow> db" where
  "the_ok r = (case r of Inl _ \<Rightarrow> empty_db | Inr d \<Rightarrow> d)"

definition alice_db :: db where
  "alice_db = the_ok (upsert_spark_registration 100 ''a1'' alice_reg empty_db)"

definition bob_db :: db where
  "bob_db = the_ok (create_blink_account 101 ''a2'' bob_acct alice_db)"

lemmas history_defs = alice_reg_def bob_acct_def alice_transfer_def bob_transfer_def stmt_def the_ok_def

lemma alice_registered: "upsert_spark_registration 100 ''a1'' alice_reg empty_db = Inr alice_db"
  unfolding alice_db_def by code_simp

lemma bob_created: "create_blink_account 101 ''a2'' bob_acct alice_db = Inr bob_db"
  unfolding bob_db_def alice_db_def by code_simp

lemma alice_inv: "accounts_inv alice_db"
  using upsert_spark_registration_inv [OF accounts_inv_empty alice_registered] .

lemma bob_inv: "accounts_inv bob_db"
  using create_blink_account_inv [OF alice_inv bob_created] .

section \<open>Invariant and resolution\<close>

text \<open>
  C3: from the empty database, any sequence of the account operations, on either backend and with
  any clock, ends in a state where the unique indexes hold, every account has exactly the child
  row of its provider, every identifier an account, a Spark account at most one username per
  domain, and country evidence only an enhanced account.
\<close>

theorem reachable_accounts_inv: "account_run b empty_db xs d \<Longrightarrow> accounts_inv d"
  using account_run_inv accounts_inv_empty by blast

theorem reachable_accounts_inv_witness:
  "account_run Sqlite empty_db ([] @ [(100, Register ''a1'' alice_reg)])
     (snd (run_op Sqlite 100 (Register ''a1'' alice_reg) empty_db)) \<and>
   accounts_inv (snd (run_op Sqlite 100 (Register ''a1'' alice_reg) empty_db))"
proof -
  have r: "account_run Sqlite empty_db ([] @ [(100, Register ''a1'' alice_reg)])
     (snd (run_op Sqlite 100 (Register ''a1'' alice_reg) empty_db))"
    by (intro run_step run_nil)
  with reachable_accounts_inv [OF r] show ?thesis by blast
qed

text \<open>
  C4: in a state with the invariant, resolving an identifier never fails: it finds nothing exactly
  when the name is not registered, and otherwise returns the identifier's row with the payment
  fields of the one provider that owns it, so \<open>InvalidOwnership\<close> is unreachable.
\<close>

theorem resolve_total:
  assumes "accounts_inv d"
  shows "resolve_recipient_by_identifier dn i d = Inr None \<and> identifier_row dn i d = None \<or>
    (\<exists>ai r. identifier_row dn i d = Some ai \<and> resolve_recipient_by_identifier dn i d = Inr (Some r) \<and>
      rr_account_id r = ai_account_id ai \<and> rr_domain r = dn \<and> rr_identifier r = i \<and>
      (rr_provider r = Spark \<longleftrightarrow> rr_spark_pubkey r \<noteq> None) \<and>
      (rr_provider r = Blink \<longleftrightarrow> rr_blink_account_id r \<noteq> None) \<and>
      (rr_provider r = Blink \<longleftrightarrow> rr_default_wallet r \<noteq> None))"
proof (cases "identifier_row dn i d")
  case None
  with resolve_eq_lookup [OF assms] show ?thesis by (simp add: lookup_recipient_def)
next
  case (Some ai)
  with resolve_eq_lookup [OF assms, of dn i] obtain r where r: "lookup_recipient dn i d = Some r" by auto
  have "rr_account_id r = ai_account_id ai \<and> rr_domain r = dn \<and> rr_identifier r = i \<and>
      (rr_provider r = Spark \<longleftrightarrow> rr_spark_pubkey r \<noteq> None) \<and>
      (rr_provider r = Blink \<longleftrightarrow> rr_blink_account_id r \<noteq> None) \<and>
      (rr_provider r = Blink \<longleftrightarrow> rr_default_wallet r \<noteq> None)"
    using r identifier_row_Some [OF Some]
    by (auto simp: lookup_recipient_def Some spark_recipient_def blink_recipient_def split: option.splits)
  moreover have "resolve_recipient_by_identifier dn i d = Inr (Some r)"
    using r resolve_inv [OF assms] by simp
  ultimately show ?thesis using Some by blast
qed

theorem resolve_total_witness:
  "identifier_row ''x.org'' ''bob'' bob_db \<noteq> None \<and>
   resolve_recipient_by_identifier ''x.org'' ''bob'' bob_db \<noteq> Inr None"
proof -
  have row: "identifier_row ''x.org'' ''bob'' bob_db \<noteq> None"
    unfolding bob_db_def alice_db_def by code_simp
  with resolve_total [OF bob_inv, of "''x.org''" "''bob''"] show ?thesis by auto
qed

section \<open>Registration and deletion\<close>

text \<open>
  After a successful registration the name resolves to a Spark recipient with the registered
  public key, kind and description.
\<close>

theorem register_resolves:
  assumes "accounts_inv d" "upsert_spark_registration now fresh reg d = Inr d'"
  shows "\<exists>r. resolve_recipient_by_identifier (ni_domain (nr_identifier reg))
      (ni_identifier (nr_identifier reg)) d' = Inr (Some r) \<and> rr_provider r = Spark \<and>
    rr_spark_pubkey r = Some (nr_pubkey reg) \<and> rr_kind r = Username \<and>
    rr_description r = ni_description (nr_identifier reg)"
  using registration_resolves [OF assms] .

theorem register_resolves_witness:
  "\<exists>r. resolve_recipient_by_identifier ''x.org'' ''alice'' alice_db = Inr (Some r) \<and>
     rr_spark_pubkey r = Some ''02aa''"
  using register_resolves [OF accounts_inv_empty alice_registered] by (auto simp: alice_reg_def)

text \<open>
  A registration changes no other recipient. When the caller names no account and the
  generated id is new, every other name on every domain resolves as before, except the usernames
  the same account held on the registered domain.
\<close>

theorem register_frame:
  assumes inv: "accounts_inv d" and ok: "upsert_spark_registration now fresh reg d = Inr d'"
    and "nr_account_id reg = None" "fresh \<notin> acc_id ` set (accounts d)"
    and other: "(dn, j) \<noteq> (ni_domain (nr_identifier reg), ni_identifier (nr_identifier reg))"
    and keep: "\<And>r. resolve_recipient_by_identifier dn j d = Inr (Some r) \<Longrightarrow>
      \<not> (rr_spark_pubkey r = Some (nr_pubkey reg) \<and> rr_domain r = ni_domain (nr_identifier reg) \<and>
         rr_kind r = Username)"
  shows "resolve_recipient_by_identifier dn j d' = resolve_recipient_by_identifier dn j d"
  using ok
proof (rule upsert_spark_registration_ok)
  fix d1 i
  assume d1: "claim_or_refuse now (nr_claim reg) d = Inr d1" and i: "i = registration_account_id fresh reg d1"
    and d': "d' = write_registration now i reg d1"
  have inv1: "accounts_inv d1" and inv': "accounts_inv d'"
    using claim_or_refuse_inv [OF d1 inv] upsert_spark_registration_inv [OF inv ok] .
  note same = claim_or_refuse_lookup [OF d1] claim_or_refuse_frame [OF d1]
  have acct: "i \<notin> acc_id ` set (accounts d1) \<or> map_option sp_pubkey (spark_row i d1) = Some (nr_pubkey reg)"
  proof (cases "spark_by_pubkey (nr_pubkey reg) d1")
    case None
    then show ?thesis using assms(3,4) by (simp add: i registration_account_id_def same)
  next
    case (Some s)
    with spark_rowI [OF inv1, of s] spark_by_pubkey_Some [OF Some] show ?thesis
      using assms(3) by (simp add: i registration_account_id_def)
  qed
  have "lookup_recipient dn j d' = lookup_recipient dn j d1"
    unfolding d'
  proof (rule write_registration_frame [OF inv1 inv' [unfolded d'] acct other], rule notI)
    fix ai
    assume ai: "identifier_row dn j d1 = Some ai"
      and bad: "ai_account_id ai = i \<and> dn = ni_domain (nr_identifier reg) \<and> ai_kind ai = Username"
    have "i \<in> acc_id ` set (accounts d1)"
      using bad identifier_row_Some [OF ai] inv1 by (auto simp: accounts_inv_def identifiers_owned_def)
    with acct obtain s where s: "spark_row i d1 = Some s" "sp_pubkey s = nr_pubkey reg" by auto
    with ai bad have "lookup_recipient dn j d1 = Some (spark_recipient ai s)"
      by (simp add: lookup_recipient_def)
    with keep [of "spark_recipient ai s"] s bad identifier_row_Some [OF ai] resolve_inv [OF inv] same
    show False by (simp add: spark_recipient_def)
  qed
  then show ?thesis by (simp add: resolve_inv inv inv' same)
qed

definition carol_reg :: new_spark_registration where
  "carol_reg = alice_reg\<lparr>nr_pubkey := ''02cc'', nr_claim := None,
     nr_identifier := (nr_identifier alice_reg)\<lparr>ni_identifier := ''carol''\<rparr>\<rparr>"

theorem register_frame_witness:
  "resolve_recipient_by_identifier ''x.org'' ''bob''
     (the_ok (upsert_spark_registration 102 ''a3'' carol_reg bob_db)) =
   resolve_recipient_by_identifier ''x.org'' ''bob'' bob_db"
proof (rule register_frame [OF bob_inv, of 102 "''a3''" carol_reg])
  show "upsert_spark_registration 102 ''a3'' carol_reg bob_db =
      Inr (the_ok (upsert_spark_registration 102 ''a3'' carol_reg bob_db))"
    unfolding bob_db_def alice_db_def by code_simp
  show "nr_account_id carol_reg = None" by code_simp
  have "map acc_id (accounts bob_db) = [''a1'', ''a2'']"
    unfolding bob_db_def alice_db_def by code_simp
  then have "acc_id ` set (accounts bob_db) = {''a1'', ''a2''}" by (metis list.set_map list.simps(15) empty_set)
  then show "''a3'' \<notin> acc_id ` set (accounts bob_db)" by simp
  show "(''x.org'', ''bob'') \<noteq> (ni_domain (nr_identifier carol_reg), ni_identifier (nr_identifier carol_reg))"
    by code_simp
  have "map_sum id (map_option rr_spark_pubkey) (resolve_recipient_by_identifier ''x.org'' ''bob'' bob_db) =
      Inr (Some None)"
    unfolding bob_db_def alice_db_def by code_simp
  then show "\<not> (rr_spark_pubkey r = Some (nr_pubkey carol_reg) \<and>
      rr_domain r = ni_domain (nr_identifier carol_reg) \<and> rr_kind r = Username)"
    if "resolve_recipient_by_identifier ''x.org'' ''bob'' bob_db = Inr (Some r)" for r
    using that by simp
qed

text \<open>
  C5: a successful deletion frees exactly the named identifier of the caller's own account: it
  resolved to the caller's public key before, resolves to nothing after, and every other name
  resolves as before.
\<close>

theorem unregister_exact:
  assumes inv: "accounts_inv d" and ok: "delete_spark_registration now dn k i cl d = Inr d'"
  shows "(\<exists>r. resolve_recipient_by_identifier dn i d = Inr (Some r) \<and> rr_spark_pubkey r = Some k) \<and>
    resolve_recipient_by_identifier dn i d' = Inr None \<and>
    ((dm, j) \<noteq> (dn, i) \<longrightarrow> resolve_recipient_by_identifier dm j d' = resolve_recipient_by_identifier dm j d)"
  using ok
proof (rule delete_spark_registration_ok)
  fix d1 :: db and s :: spark_account
  let ?P = "\<lambda>ai. ai_account_id ai = sp_account_id s \<and> ai_domain ai = dn \<and> ai_identifier ai = i"
  assume d1: "claim_or_refuse now cl d = Inr d1" and s: "spark_by_pubkey k d1 = Some s"
    and ex: "exists_where ?P (account_identifiers d1)"
    and d': "d' = d1\<lparr>account_identifiers := delete_where ?P (account_identifiers d1)\<rparr>"
  have inv1: "accounts_inv d1" and inv': "accounts_inv d'"
    using claim_or_refuse_inv [OF d1 inv] delete_spark_registration_inv [OF inv ok] .
  note same = claim_or_refuse_lookup [OF d1]
  from ex obtain ai where ai: "ai \<in> set (account_identifiers d1)" "ai_account_id ai = sp_account_id s"
    "ai_domain ai = dn" "ai_identifier ai = i" by auto
  have rows: "identifier_row dm j d' = (if (dm, j) = (dn, i) then None else identifier_row dm j d1)" for dm j
    using identifier_row_deleted [OF inv1 ai(1), of dm j] ai by (simp add: d' ident_key_def)
  have "lookup_recipient dn i d1 = Some (spark_recipient ai s)"
    using lookup_recipient_spark [OF inv1 ai(1)] spark_by_pubkey_Some [OF s] ai by auto
  moreover have "lookup_recipient dn i d' = None" using rows [of dn i] by (simp add: lookup_recipient_def)
  moreover have "lookup_recipient dm j d' = lookup_recipient dm j d1" if "(dm, j) \<noteq> (dn, i)"
    using rows [of dm j] that unfolding d' by (intro lookup_recipient_identifiers) auto
  ultimately show ?thesis
    using spark_by_pubkey_Some [OF s] by (auto simp: resolve_inv inv inv' same spark_recipient_def)
qed

theorem unregister_exact_witness:
  "resolve_recipient_by_identifier ''x.org'' ''alice''
     (the_ok (delete_spark_registration 103 ''x.org'' ''02aa'' ''alice'' (Some (stmt 9)) bob_db)) = Inr None"
proof -
  have "delete_spark_registration 103 ''x.org'' ''02aa'' ''alice'' (Some (stmt 9)) bob_db =
      Inr (the_ok (delete_spark_registration 103 ''x.org'' ''02aa'' ''alice'' (Some (stmt 9)) bob_db))"
    unfolding bob_db_def alice_db_def by code_simp
  from unregister_exact [OF bob_inv this] show ?thesis by blast
qed

section \<open>Transfers\<close>

text \<open>
  C6: a successful Spark-to-Spark transfer moves the name from the Spark account that owned it to
  the destination key: before, it belonged to the source account; after, it resolves to the
  destination public key with the new description and the same kind.
\<close>

theorem transfer_moves:
  assumes inv: "accounts_inv d" and ok: "transfer_identifier now fresh t d = Inr d'"
  shows "\<exists>r r'. resolve_recipient_by_identifier (tr_domain t) (tr_identifier t) d = Inr (Some r) \<and>
    rr_account_id r = tr_source_account_id t \<and> rr_provider r = Spark \<and>
    resolve_recipient_by_identifier (tr_domain t) (tr_identifier t) d' = Inr (Some r') \<and>
    rr_provider r' = Spark \<and> rr_spark_pubkey r' = Some (tr_destination_spark_pubkey t) \<and>
    rr_description r' = tr_description t \<and> rr_kind r' = rr_kind r"
  using ok
proof (rule transfer_identifier_ok)
  fix d1
  assume d1: "claim_or_refuse now (tr_claim t) d = Inr d1"
    and own: "owned_by (tr_domain t) (tr_identifier t) (tr_source_account_id t) d1"
    and child: "spark_child (tr_source_account_id t) d1"
    and tail: "transfer_tail now fresh (tr_domain t) (tr_identifier t) (tr_source_account_id t)
      (tr_destination_spark_pubkey t) (tr_description t) d1 = Inr d'"
  have inv1: "accounts_inv d1" and inv': "accounts_inv d'"
    using claim_or_refuse_inv [OF d1 inv] transfer_identifier_inv [OF inv ok] .
  obtain ai where ai: "identifier_row (tr_domain t) (tr_identifier t) d1 = Some ai"
    "ai_account_id ai = tr_source_account_id t" using own by (auto simp: owned_by_def)
  obtain s where s: "spark_row (tr_source_account_id t) d1 = Some s"
    using spark_row_of_child [OF inv1 child] .
  from transfer_tail_lookup [OF inv1 tail ai] obtain r' where
    "lookup_recipient (tr_domain t) (tr_identifier t) d' = Some r'" "rr_provider r' = Spark"
    "rr_spark_pubkey r' = Some (tr_destination_spark_pubkey t)" "rr_description r' = tr_description t"
    "rr_kind r' = ai_kind ai" by blast
  moreover have "lookup_recipient (tr_domain t) (tr_identifier t) d1 = Some (spark_recipient ai s)"
    using ai s by (simp add: lookup_recipient_def)
  ultimately show ?thesis
    using ai(2) by (simp add: resolve_inv inv inv' claim_or_refuse_lookup(1) [OF d1, symmetric] spark_recipient_def)
qed

theorem transfer_moves_witness:
  "\<exists>r'. resolve_recipient_by_identifier ''x.org'' ''alice''
       (the_ok (transfer_identifier 104 ''a4'' alice_transfer bob_db)) = Inr (Some r') \<and>
     rr_spark_pubkey r' = Some ''02cc''"
proof -
  have "transfer_identifier 104 ''a4'' alice_transfer bob_db =
      Inr (the_ok (transfer_identifier 104 ''a4'' alice_transfer bob_db))"
    unfolding bob_db_def alice_db_def by code_simp
  from transfer_moves [OF bob_inv this] show ?thesis by (auto simp: alice_transfer_def)
qed

text \<open>
  The operator's Blink-to-Spark transfer moves a name only from the Blink account that owns it,
  and the name then resolves to the destination public key.
\<close>

theorem transfer_blink_moves:
  assumes inv: "accounts_inv d" and ok: "transfer_blink_identifier_to_spark now fresh t d = Inr d'"
  shows "\<exists>r r'. resolve_recipient_by_identifier (bt_domain t) (bt_identifier t) d = Inr (Some r) \<and>
    rr_account_id r = bt_source_account_id t \<and> rr_provider r = Blink \<and>
    resolve_recipient_by_identifier (bt_domain t) (bt_identifier t) d' = Inr (Some r') \<and>
    rr_provider r' = Spark \<and> rr_spark_pubkey r' = Some (bt_destination_spark_pubkey t) \<and>
    rr_description r' = bt_description t \<and> rr_kind r' = rr_kind r"
proof -
  have inv': "accounts_inv d'" using transfer_blink_inv [OF inv ok] .
  note ok' = transfer_blink_ok [OF ok]
  obtain ai where ai: "identifier_row (bt_domain t) (bt_identifier t) d = Some ai"
    "ai_account_id ai = bt_source_account_id t" using ok'(1) by (auto simp: owned_by_def)
  obtain b where b: "blink_child_row (bt_source_account_id t) d = Some b"
    "spark_row (bt_source_account_id t) d = None"
    using blink_row_of_child [OF inv ok'(2)] .
  from transfer_tail_lookup [OF inv ok'(3) ai] obtain r' where
    "lookup_recipient (bt_domain t) (bt_identifier t) d' = Some r'" "rr_provider r' = Spark"
    "rr_spark_pubkey r' = Some (bt_destination_spark_pubkey t)" "rr_description r' = bt_description t"
    "rr_kind r' = ai_kind ai" by blast
  moreover have "lookup_recipient (bt_domain t) (bt_identifier t) d = Some (blink_recipient ai b)"
    using ai b by (simp add: lookup_recipient_def)
  ultimately show ?thesis
    using ai(2) by (simp add: resolve_inv inv inv' blink_recipient_def)
qed

theorem transfer_blink_moves_witness:
  "\<exists>r'. resolve_recipient_by_identifier ''x.org'' ''bob''
       (the_ok (transfer_blink_identifier_to_spark 105 ''a5'' bob_transfer bob_db)) = Inr (Some r') \<and>
     rr_spark_pubkey r' = Some ''02dd''"
proof -
  have "transfer_blink_identifier_to_spark 105 ''a5'' bob_transfer bob_db =
      Inr (the_ok (transfer_blink_identifier_to_spark 105 ''a5'' bob_transfer bob_db))"
    unfolding bob_db_def alice_db_def by code_simp
  from transfer_blink_moves [OF bob_inv this] show ?thesis by (auto simp: bob_transfer_def)
qed



section \<open>Statements\<close>

text \<open>
  C8: no statement acts twice. Once an operation carrying a statement has succeeded, no operation of
  any kind carrying the same statement hash succeeds after any further run of operations, as long
  as the pruner has not run at a time past the statement's expiry.
\<close>

theorem statement_acts_once:
  assumes "accounts_inv d" "is_ok (fst (run_op b now op d))" "op_claim op = Some c"
    and "account_run b (snd (run_op b now op d)) xs d'"
    and "\<forall>(t, op) \<in> set xs. op = PruneClaims \<longrightarrow> t \<le> cl_expires_at c"
    and "op_claim op' = Some c'" "cl_statement_hash c' = cl_statement_hash c"
  shows "\<not> is_ok (fst (run_op b now' op' d'))"
proof -
  let ?d1 = "snd (run_op b now op d)"
  let ?r = "\<lparr>um_statement_hash = cl_statement_hash c, um_route = cl_route c,
     um_expires_at = cl_expires_at c, um_created_at = now\<rparr>"
  have inv1: "accounts_inv ?d1" using run_op_inv [OF assms(1)] .
  have inv': "accounts_inv d'" using account_run_inv [OF assms(4) inv1] .
  have "op \<noteq> PruneClaims" using assms(3) by auto
  then have "?r \<in> set (used_signed_messages ?d1)"
    using run_op_claims [OF assms(1), of b now op] assms(2,3) by (simp add: claim_rows_def)
  then have "?r \<in> set (used_signed_messages d')"
    by (rule claim_survives_run [OF assms(4) inv1]) (use assms(5) in simp)
  then have "claimed c' d'" by (rule claimedI) (simp add: assms(7))
  then show ?thesis by (rule run_op_refuses [OF inv' assms(6)])
qed

theorem statement_acts_once_witness:
  "\<not> is_ok (fst (run_op Sqlite 400 (Unregister ''x.org'' ''02aa'' ''alice'' (Some (stmt 1)))
     (snd (run_op Sqlite 300 PruneClaims (snd (run_op Sqlite 100 (Register ''a1'' alice_reg) empty_db))))))"
proof (rule statement_acts_once [where c = "stmt 1" and c' = "stmt 1" and xs = "[] @ [(300, PruneClaims)]",
      OF accounts_inv_empty])
  show "is_ok (fst (run_op Sqlite 100 (Register ''a1'' alice_reg) empty_db))" by code_simp
  show "op_claim (Register ''a1'' alice_reg) = Some (stmt 1)" by (simp add: alice_reg_def)
  show "account_run Sqlite (snd (run_op Sqlite 100 (Register ''a1'' alice_reg) empty_db))
      ([] @ [(300, PruneClaims)])
      (snd (run_op Sqlite 300 PruneClaims (snd (run_op Sqlite 100 (Register ''a1'' alice_reg) empty_db))))"
    by (intro run_step run_nil)
  show "\<forall>(t, op) \<in> set ([] @ [(300, PruneClaims)]). op = PruneClaims \<longrightarrow> t \<le> cl_expires_at (stmt 1)"
    by (simp add: stmt_def)
qed simp_all

section \<open>Blink accounts\<close>

text \<open>
  Opening a Blink account is all or nothing. It succeeds exactly when the account id and the
  Blink id are unused and no requested name is taken or requested twice; then every requested name
  resolves to the account with its wallets and default wallet.
\<close>

theorem create_blink_exact:
  assumes inv: "accounts_inv d"
    and i: "i = (case nb_account_id acct of Some i \<Rightarrow> i | None \<Rightarrow> fresh)"
  shows "(is_ok (create_blink_account now fresh acct d) \<longleftrightarrow>
      i \<notin> acc_id ` set (accounts d) \<and>
      nb_blink_account_id acct \<notin> bl_blink_account_id ` set (blink_accounts d) \<and>
      distinct (map ident_key (account_identifiers d) @
        map (\<lambda>n. (ni_domain n, ni_identifier n)) (nb_identifiers acct))) \<and>
    (create_blink_account now fresh acct d = Inr d' \<and> n \<in> set (nb_identifiers acct) \<longrightarrow>
      (\<exists>r. resolve_recipient_by_identifier (ni_domain n) (ni_identifier n) d' = Inr (Some r) \<and>
        rr_account_id r = i \<and> rr_provider r = Blink \<and> rr_kind r = ni_kind n \<and>
        rr_description r = ni_description n \<and> rr_blink_account_id r = Some (nb_blink_account_id acct) \<and>
        rr_btc_wallet_id r = Some (nb_btc_wallet_id acct) \<and>
        rr_usd_wallet_id r = Some (nb_usd_wallet_id acct) \<and>
        rr_default_wallet r = Some (nb_default_wallet acct)))"
  using create_blink_account_iff [OF inv i] create_blink_lookup [OF inv i] by blast

theorem create_blink_exact_witness:
  "\<exists>r. resolve_recipient_by_identifier ''x.org'' ''bob'' bob_db = Inr (Some r) \<and>
     rr_default_wallet r = Some Usd"
proof -
  have "hd (nb_identifiers bob_acct) \<in> set (nb_identifiers bob_acct)" by (simp add: bob_acct_def)
  with create_blink_exact [OF alice_inv refl, where acct = bob_acct and fresh = "''a2''" and now = 101
      and d' = bob_db and n = "hd (nb_identifiers bob_acct)"]
    bob_created show ?thesis by (auto simp: bob_acct_def)
qed

section \<open>Account mode\<close>

text \<open>
  A mode write that succeeds is what is read back, an anonymous account keeps no country, the
  exact retry of the same request succeeds and changes nothing, and any other request not newer
  than it is refused as stale and changes nothing.
\<close>

theorem mode_write_ordered:
  assumes "accounts_inv d" "upsert_spark_mode now fresh u d = (Inr (), d')"
  shows "(\<exists>m. get_spark_account_mode (mu_pubkey u) d' = Some m \<and> sam_mode m = Some (mu_mode u) \<and>
      sam_mode_last_timestamp m = Some (mu_client_timestamp u) \<and>
      (mu_mode u = Anon \<longrightarrow> sam_country m = None)) \<and>
    upsert_spark_mode now' fresh' u d' = (Inr (), d') \<and>
    (mu_pubkey v = mu_pubkey u \<and> mu_client_timestamp v \<le> mu_client_timestamp u \<and>
     (mu_mode v, mu_client_timestamp v) \<noteq> (mu_mode u, mu_client_timestamp u) \<longrightarrow>
     upsert_spark_mode now' fresh' v d' = (Inl StaleModeTimestamp, d'))"
proof -
  obtain s where s: "spark_by_pubkey (mu_pubkey u) d' = Some s" "sp_mode s = Some (mu_mode u)"
    "sp_mode_last_timestamp s = Some (mu_client_timestamp u)" "mu_mode u = Anon \<longrightarrow> sp_country s = None"
    by (rule upsert_spark_mode_row [OF assms]) blast
  note inv' = upsert_spark_mode_inv [OF assms]
  have "upsert_spark_mode now' fresh' u d' = (Inr (), d')"
    using upsert_spark_mode_refused [OF inv' s(1), of u] s by simp
  moreover have "upsert_spark_mode now' fresh' v d' = (Inl StaleModeTimestamp, d')"
    if "mu_pubkey v = mu_pubkey u" "mu_client_timestamp v \<le> mu_client_timestamp u"
      "(mu_mode v, mu_client_timestamp v) \<noteq> (mu_mode u, mu_client_timestamp u)"
    using upsert_spark_mode_refused [OF inv' s(1), of v] s that by auto
  ultimately show ?thesis
    using s by (simp add: get_spark_account_mode_def map_spark_account_mode_def)
qed

definition anon_update :: spark_mode_update where
  "anon_update = \<lparr>mu_pubkey = ''02aa'', mu_mode = Anon, mu_client_timestamp = 50, mu_country = Some ''SV''\<rparr>"

theorem mode_write_ordered_witness:
  "upsert_spark_mode 300 ''a8'' (anon_update\<lparr>mu_client_timestamp := 49\<rparr>)
     (snd (upsert_spark_mode 200 ''a7'' anon_update alice_db)) =
   (Inl StaleModeTimestamp, snd (upsert_spark_mode 200 ''a7'' anon_update alice_db))"
proof -
  have "upsert_spark_mode 200 ''a7'' anon_update alice_db =
      (Inr (), snd (upsert_spark_mode 200 ''a7'' anon_update alice_db))"
    unfolding alice_db_def by code_simp
  from mode_write_ordered [OF alice_inv this] show ?thesis by (simp add: anon_update_def)
qed

text \<open>
  Over any run of the account operations a Spark account is never lost and the client
  timestamp of its last mode write never goes back.
\<close>

theorem mode_timestamp_monotone:
  assumes "account_run b d xs d'" "accounts_inv d" "spark_row i d = Some s"
    "sp_mode_last_timestamp s = Some t"
  shows "\<exists>s' t'. spark_row i d' = Some s' \<and> sp_mode_last_timestamp s' = Some t' \<and> t \<le> t'"
  using mode_timestamp_run [OF assms] .

theorem mode_timestamp_monotone_witness:
  "\<exists>s' t'. spark_row ''a1'' (snd (run_op Sqlite 300 (SetMode ''a8'' (anon_update\<lparr>mu_client_timestamp := 60\<rparr>))
     (snd (upsert_spark_mode 200 ''a7'' anon_update alice_db)))) = Some s' \<and>
     sp_mode_last_timestamp s' = Some t' \<and> 50 \<le> t'"
proof -
  let ?d = "snd (upsert_spark_mode 200 ''a7'' anon_update alice_db)"
  have ok: "upsert_spark_mode 200 ''a7'' anon_update alice_db = (Inr (), ?d)"
    unfolding alice_db_def by code_simp
  have row: "map_option sp_mode_last_timestamp (spark_row ''a1'' ?d) = Some (Some 50)"
    unfolding alice_db_def by code_simp
  then obtain s where s: "spark_row ''a1'' ?d = Some s" "sp_mode_last_timestamp s = Some 50" by auto
  show ?thesis
    by (rule mode_timestamp_monotone [OF run_step [OF run_nil] upsert_spark_mode_inv [OF alice_inv ok] s])
qed

end
