(* ===== verification/Lnurl_Invoices.thy ===== *)
theory Lnurl_Invoices
  imports Lnurl_Schema "HOL-Library.Product_Lexorder"
begin

text \<open>
  The payment half of the repository: invoices, zaps, sender comments, the metadata and webhook
  views over them. SQLite, with the PostgreSQL batch settlement, whose single statement behaves
  differently on a batch that names a payment hash twice. Rows of a query without \<open>ORDER BY\<close>
  come in table order, and rows that tie in an \<open>ORDER BY\<close> keep it; no property below depends on
  either choice.
\<close>

section \<open>Writes\<close>

text \<open>The foreign key of \<open>account_id\<close>, checked on the values a statement writes.\<close>

definition account_ref_ok :: "db \<Rightarrow> string option \<Rightarrow> bool" where
  "account_ref_ok d a = (case a of None \<Rightarrow> True | Some i \<Rightarrow> exists_where (\<lambda>r. acc_id r = i) (accounts d))"

definition merge_zap :: "zap \<Rightarrow> zap \<Rightarrow> zap" where
  "merge_zap old new = new\<lparr>z_payment_hash := z_payment_hash old,
     z_account_id := opt_or (z_account_id new) (z_account_id old)\<rparr>"

definition upsert_zap :: "zap \<Rightarrow> db \<Rightarrow> repository_error + db" where
  "upsert_zap z d =
     (if account_ref_ok d (z_account_id z)
      then Inr (d\<lparr>zaps := upsert_on z_payment_hash merge_zap z (zaps d)\<rparr>)
      else Inl (General ForeignKeyViolation))"

definition get_zap_by_payment_hash :: "string \<Rightarrow> db \<Rightarrow> zap option" where
  "get_zap_by_payment_hash h d = fetch_optional (\<lambda>z. z_payment_hash z = h) (zaps d)"

definition merge_comment :: "sender_comment \<Rightarrow> sender_comment \<Rightarrow> sender_comment" where
  "merge_comment old new = new\<lparr>sc_payment_hash := sc_payment_hash old,
     sc_account_id := opt_or (sc_account_id new) (sc_account_id old)\<rparr>"

definition insert_lnurl_sender_comment :: "sender_comment \<Rightarrow> db \<Rightarrow> repository_error + db" where
  "insert_lnurl_sender_comment c d =
     (if account_ref_ok d (sc_account_id c)
      then Inr (d\<lparr>sender_comments := upsert_on sc_payment_hash merge_comment c (sender_comments d)\<rparr>)
      else Inl (General ForeignKeyViolation))"

text \<open>\<open>CASE WHEN excluded.preimage IS NOT NULL THEN NULL ELSE COALESCE(...) END\<close>.\<close>

definition merged_expired_at :: "invoice \<Rightarrow> invoice \<Rightarrow> int option" where
  "merged_expired_at old new =
     (if inv_preimage new \<noteq> None then None else opt_or (inv_expired_at new) (inv_expired_at old))"

definition merge_invoice :: "invoice \<Rightarrow> invoice \<Rightarrow> invoice" where
  "merge_invoice old new =
     old\<lparr>inv_user_pubkey := inv_user_pubkey new, inv_invoice := inv_invoice new,
         inv_preimage := inv_preimage new, inv_expired_at := merged_expired_at old new,
         inv_invoice_expiry := inv_invoice_expiry new, inv_updated_at := inv_updated_at new,
         inv_domain := inv_domain new, inv_amount_received_sat := inv_amount_received_sat new,
         inv_account_id := opt_or (inv_account_id new) (inv_account_id old),
         inv_provider := opt_or (inv_provider new) (inv_provider old),
         inv_wallet_kind := opt_or (inv_wallet_kind new) (inv_wallet_kind old),
         inv_wallet_id := opt_or (inv_wallet_id new) (inv_wallet_id old),
         inv_provider_payment_hash := opt_or (inv_provider_payment_hash new) (inv_provider_payment_hash old)\<rparr>"

definition upsert_invoice :: "invoice \<Rightarrow> db \<Rightarrow> repository_error + db" where
  "upsert_invoice i d =
     (if account_ref_ok d (inv_account_id i)
      then Inr (d\<lparr>invoices := upsert_on inv_payment_hash merge_invoice i (invoices d)\<rparr>)
      else Inl (General ForeignKeyViolation))"

text \<open>
  One row of the batch settlement. The statement does not write \<open>domain\<close> and
  \<open>amount_received_sat\<close>, and updates an existing row only for the same user and while it has no
  preimage; \<open>RETURNING\<close> then yields the row's payment hash.
\<close>

definition merge_paid :: "invoice \<Rightarrow> invoice \<Rightarrow> invoice" where
  "merge_paid old new =
     old\<lparr>inv_preimage := inv_preimage new, inv_expired_at := merged_expired_at old new,
         inv_updated_at := inv_updated_at new,
         inv_account_id := opt_or (inv_account_id new) (inv_account_id old),
         inv_provider := opt_or (inv_provider new) (inv_provider old),
         inv_wallet_kind := opt_or (inv_wallet_kind new) (inv_wallet_kind old),
         inv_wallet_id := opt_or (inv_wallet_id new) (inv_wallet_id old),
         inv_provider_payment_hash := opt_or (inv_provider_payment_hash new) (inv_provider_payment_hash old)\<rparr>"

definition paid_row :: "invoice \<Rightarrow> invoice" where
  "paid_row i = i\<lparr>inv_domain := None, inv_amount_received_sat := None\<rparr>"

definition paid_applies :: "invoice \<Rightarrow> invoice \<Rightarrow> bool" where
  "paid_applies new old \<longleftrightarrow> inv_payment_hash old = inv_payment_hash new \<and>
     inv_user_pubkey old = inv_user_pubkey new \<and> inv_preimage old = None"

definition settle_row :: "invoice \<Rightarrow> db \<Rightarrow> repository_error + string option \<times> db" where
  "settle_row i d =
     (if exists_where (\<lambda>r. inv_payment_hash r = inv_payment_hash i) (invoices d)
      then if exists_where (paid_applies i) (invoices d)
           then if account_ref_ok d (inv_account_id i)
                then Inr (Some (inv_payment_hash i),
                  d\<lparr>invoices := update_where (paid_applies i) (\<lambda>r. merge_paid r i) (invoices d)\<rparr>)
                else Inl (General ForeignKeyViolation)
           else Inr (None, d)
      else if account_ref_ok d (inv_account_id i)
           then Inr (Some (inv_payment_hash i), d\<lparr>invoices := invoices d @ [paid_row i]\<rparr>)
           else Inl (General ForeignKeyViolation))"

fun settle_rows :: "invoice list \<Rightarrow> db \<Rightarrow> repository_error + string list \<times> db" where
  "settle_rows [] d = Inr ([], d)"
| "settle_rows (i # is) d =
     bind_res (settle_row i d) (\<lambda>(h, d1).
     bind_res (settle_rows is d1) (\<lambda>(hs, d2).
       Inr ((case h of None \<Rightarrow> hs | Some x \<Rightarrow> x # hs), d2)))"

definition upsert_invoices_paid :: "invoice list \<Rightarrow> db \<Rightarrow> repository_error + string list \<times> db" where
  "upsert_invoices_paid is d = (if is = [] then Inr ([], d) else settle_rows is d)"

text \<open>
  PostgreSQL settles the batch in one \<open>INSERT ... SELECT FROM UNNEST ... ON CONFLICT DO UPDATE\<close>.
  Such a statement may not affect a row twice: when a row of the batch conflicts with one that
  the same statement inserted or updated, and the \<open>WHERE\<close> clause does not matter for that check,
  the whole statement fails with a cardinality violation. \<open>touched\<close> are the payment hashes the
  statement has written so far.
\<close>

fun settle_rows_pg ::
  "string list \<Rightarrow> invoice list \<Rightarrow> db \<Rightarrow> repository_error + string list \<times> db" where
  "settle_rows_pg touched [] d = Inr ([], d)"
| "settle_rows_pg touched (i # is) d =
     (if inv_payment_hash i \<in> set touched then Inl (General CardinalityViolation)
      else bind_res (settle_row i d) (\<lambda>(h, d1).
           bind_res (settle_rows_pg (case h of None \<Rightarrow> touched | Some x \<Rightarrow> x # touched) is d1) (\<lambda>(hs, d2).
             Inr ((case h of None \<Rightarrow> hs | Some x \<Rightarrow> x # hs), d2))))"

definition upsert_invoices_paid_pg :: "invoice list \<Rightarrow> db \<Rightarrow> repository_error + string list \<times> db" where
  "upsert_invoices_paid_pg is d = (if is = [] then Inr ([], d) else settle_rows_pg [] is d)"

definition mark_invoice_expired :: "string \<Rightarrow> int \<Rightarrow> db \<Rightarrow> db" where
  "mark_invoice_expired h expired_at d =
     d\<lparr>invoices := update_where (\<lambda>r. inv_payment_hash r = h \<and> inv_preimage r = None)
         (\<lambda>r. r\<lparr>inv_expired_at := Some expired_at, inv_updated_at := expired_at\<rparr>) (invoices d)\<rparr>"

section \<open>Reads\<close>

definition get_invoice_by_payment_hash :: "string \<Rightarrow> db \<Rightarrow> invoice option" where
  "get_invoice_by_payment_hash h d = fetch_optional (\<lambda>r. inv_payment_hash r = h) (invoices d)"

definition get_zap_and_invoice_by_payment_hash :: "string \<Rightarrow> db \<Rightarrow> zap option \<times> invoice option" where
  "get_zap_and_invoice_by_payment_hash h d =
     (fetch_optional (\<lambda>z. z_payment_hash z = h) (zaps d),
      fetch_optional (\<lambda>r. inv_payment_hash r = h) (invoices d))"

text \<open>\<open>UNION\<close> removes duplicates.\<close>

definition filter_known_payment_hashes :: "string list \<Rightarrow> db \<Rightarrow> string list" where
  "filter_known_payment_hashes hs d =
     (if hs = [] then []
      else remdups (filter (\<lambda>h. h \<in> set hs)
             (map inv_payment_hash (invoices d) @ map z_payment_hash (zaps d) @
              map sc_payment_hash (sender_comments d))))"

definition metadata_row :: "db \<Rightarrow> string \<Rightarrow> list_metadata_metadata" where
  "metadata_row d h =
     (let i = fetch_optional (\<lambda>r. inv_payment_hash r = h) (invoices d);
          z = fetch_optional (\<lambda>r. z_payment_hash r = h) (zaps d);
          sc = fetch_optional (\<lambda>r. sc_payment_hash r = h) (sender_comments d);
          ts = (\<lambda>x. case x of None \<Rightarrow> 0 | Some t \<Rightarrow> t)
      in \<lparr>lm_payment_hash = h,
          lm_account_id = opt_or (Option.bind i inv_account_id) (opt_or (Option.bind z z_account_id) (Option.bind sc sc_account_id)),
          lm_sender_comment = map_option sc_comment sc,
          lm_nostr_zap_request = map_option z_zap_request z,
          lm_nostr_zap_receipt = (Option.bind z z_zap_event),
          lm_updated_at = max (ts (map_option z_updated_at z))
            (max (ts (map_option sc_updated_at sc)) (ts (map_option inv_updated_at i))),
          lm_preimage = (Option.bind i inv_preimage)\<rparr>)"

definition get_metadata_by_pubkey ::
  "string \<Rightarrow> u32 \<Rightarrow> u32 \<Rightarrow> int option \<Rightarrow> db \<Rightarrow> list_metadata_metadata list" where
  "get_metadata_by_pubkey pubkey offset limit updated_after d =
     (let after = (case updated_after of None \<Rightarrow> 0 | Some t \<Rightarrow> t);
          hs = remdups
            ([inv_payment_hash r. r \<leftarrow> invoices d, inv_user_pubkey r = pubkey \<and> after < inv_updated_at r] @
             [z_payment_hash r. r \<leftarrow> zaps d, z_user_pubkey r = pubkey \<and> after < z_updated_at r] @
             [sc_payment_hash r. r \<leftarrow> sender_comments d, sc_user_pubkey r = pubkey \<and> after < sc_updated_at r])
      in take (unat limit) (drop (unat offset) (sort_key lm_updated_at (map (metadata_row d) hs))))"

text \<open>The address shown in a webhook: the account's first username on the domain, else its first phone.\<close>

definition address_identifier :: "string option \<Rightarrow> string \<Rightarrow> db \<Rightarrow> account_identifier option" where
  "address_identifier acct domain d =
     (case sort_key (\<lambda>ai. (case ai_kind ai of Username \<Rightarrow> 0 | Phone \<Rightarrow> (1::nat), ai_identifier ai))
             (filter (\<lambda>ai. acct = Some (ai_account_id ai) \<and> ai_domain ai = domain) (account_identifiers d)) of
        [] \<Rightarrow> None
      | ai # _ \<Rightarrow> Some ai)"

definition payload_row :: "db \<Rightarrow> invoice \<Rightarrow> webhook_payload_data option" where
  "payload_row d i =
     (case (inv_domain i, inv_preimage i) of
        (Some domain, Some preimage) \<Rightarrow>
          Some \<lparr>wp_account_id = inv_account_id i, wp_payment_hash = inv_payment_hash i,
            wp_user_pubkey = inv_user_pubkey i, wp_invoice = inv_invoice i, wp_preimage = preimage,
            wp_amount_received_sat = inv_amount_received_sat i,
            wp_lightning_address =
              map_option (\<lambda>ai. ai_identifier ai @ ''@'' @ ai_domain ai)
                (address_identifier (inv_account_id i) domain d),
            wp_sender_comment = map_option sc_comment
              (fetch_optional (\<lambda>c. sc_payment_hash c = inv_payment_hash i) (sender_comments d)),
            wp_domain = domain\<rparr>
      | _ \<Rightarrow> None)"

definition get_webhook_payloads :: "string list \<Rightarrow> db \<Rightarrow> webhook_payload_data list" where
  "get_webhook_payloads hs d =
     (if hs = [] then []
      else List.map_filter (payload_row d)
             (filter (\<lambda>i. inv_payment_hash i \<in> set hs) (invoices d)))"

section \<open>The invariant\<close>

text \<open>
  Primary keys, references to existing accounts, and no row that is both paid and expired.
\<close>

definition invoice_row_inv :: "invoice \<Rightarrow> bool" where
  "invoice_row_inv i \<longleftrightarrow> inv_preimage i = None \<or> inv_expired_at i = None"

definition payments_inv :: "db \<Rightarrow> bool" where
  "payments_inv d \<longleftrightarrow> unique_by inv_payment_hash (invoices d) \<and> unique_by z_payment_hash (zaps d) \<and>
     unique_by sc_payment_hash (sender_comments d) \<and> (\<forall>i \<in> set (invoices d). invoice_row_inv i)"

interpretation zap_table: upsert_table z_payment_hash merge_zap
  by unfold_locales (simp add: merge_zap_def)

interpretation comment_table: upsert_table sc_payment_hash merge_comment
  by unfold_locales (simp add: merge_comment_def)

interpretation invoice_table: upsert_table inv_payment_hash merge_invoice
  by unfold_locales (simp add: merge_invoice_def)

interpretation paid_table: upsert_table inv_payment_hash merge_paid
  by unfold_locales (simp add: merge_paid_def)

lemma payments_inv_empty: "payments_inv empty_db"
  by (simp add: payments_inv_def empty_db_def)

lemma upsert_zap_inv: "payments_inv d \<Longrightarrow> upsert_zap z d = Inr d' \<Longrightarrow> payments_inv d'"
  by (auto simp: upsert_zap_def payments_inv_def zap_table.unique_upsert split: if_splits)

lemma insert_comment_inv: "payments_inv d \<Longrightarrow> insert_lnurl_sender_comment c d = Inr d' \<Longrightarrow> payments_inv d'"
  by (auto simp: insert_lnurl_sender_comment_def payments_inv_def comment_table.unique_upsert split: if_splits)

lemma invoice_row_inv_merge [simp]:
  "invoice_row_inv (merge_invoice old new)" "invoice_row_inv (merge_paid old new)"
  by (simp_all add: invoice_row_inv_def merge_invoice_def merge_paid_def merged_expired_at_def)

lemma upsert_invoice_inv:
  assumes "payments_inv d" "upsert_invoice i d = Inr d'" "invoice_row_inv i"
  shows "payments_inv d'"
proof -
  have "d' = d\<lparr>invoices := upsert_on inv_payment_hash merge_invoice i (invoices d)\<rparr>"
    using assms(2) by (simp add: upsert_invoice_def split: if_splits)
  moreover have "\<forall>r \<in> set (upsert_on inv_payment_hash merge_invoice i (invoices d)). invoice_row_inv r"
    using assms(1,3) by (metis invoice_row_inv_merge(1) invoice_table.set_upsert payments_inv_def)
  ultimately show ?thesis
    using assms(1) by (simp add: payments_inv_def invoice_table.unique_upsert)
qed

lemma mark_invoice_expired_inv: "payments_inv d \<Longrightarrow> payments_inv (mark_invoice_expired h t d)"
  by (auto simp: mark_invoice_expired_def payments_inv_def unique_by_update table_simps invoice_row_inv_def)

section \<open>Batch settlement\<close>

lemma settle_row_cases:
  assumes "settle_row i d = Inr (h, d')"
  obtains (new) "h = Some (inv_payment_hash i)" "d' = d\<lparr>invoices := invoices d @ [paid_row i]\<rparr>"
      "\<not> exists_where (\<lambda>r. inv_payment_hash r = inv_payment_hash i) (invoices d)"
  | (update) "h = Some (inv_payment_hash i)" "exists_where (paid_applies i) (invoices d)"
      "d' = d\<lparr>invoices := update_where (paid_applies i) (\<lambda>r. merge_paid r i) (invoices d)\<rparr>"
  | (skip) "h = None" "d' = d" "\<not> exists_where (paid_applies i) (invoices d)"
      "exists_where (\<lambda>r. inv_payment_hash r = inv_payment_hash i) (invoices d)"
  using assms unfolding settle_row_def
  by (auto simp del: exists_where_iff split: if_splits)

lemma invoice_row_inv_paid [simp]: "invoice_row_inv (paid_row i) = invoice_row_inv i"
  by (simp add: invoice_row_inv_def paid_row_def)

lemma paid_row_fields [simp]:
  "inv_payment_hash (paid_row i) = inv_payment_hash i" "inv_preimage (paid_row i) = inv_preimage i"
  "inv_user_pubkey (paid_row i) = inv_user_pubkey i"
  by (simp_all add: paid_row_def)

lemma merge_paid_fields [simp]:
  "inv_payment_hash (merge_paid r i) = inv_payment_hash r" "inv_preimage (merge_paid r i) = inv_preimage i"
  "inv_user_pubkey (merge_paid r i) = inv_user_pubkey r"
  by (simp_all add: merge_paid_def)

lemma settle_row_inv:
  assumes "payments_inv d" "settle_row i d = Inr (h, d')" "invoice_row_inv i"
  shows "payments_inv d'"
  using assms(2)
proof (cases rule: settle_row_cases)
  case new
  with assms show ?thesis by (auto simp: payments_inv_def)
next
  case update
  have "invoice_row_inv r" if "r \<in> set (update_where (paid_applies i) (\<lambda>r. merge_paid r i) (invoices d))" for r
    using that assms(1) by (auto simp: table_simps payments_inv_def)
  with update assms(1) show ?thesis by (simp add: payments_inv_def unique_by_update)
next
  case skip
  with assms(1) show ?thesis by simp
qed

lemma settle_rows_inv:
  "payments_inv d \<Longrightarrow> settle_rows is d = Inr (hs, d') \<Longrightarrow> \<forall>i \<in> set is. invoice_row_inv i \<Longrightarrow> payments_inv d'"
proof (induction "is" arbitrary: d hs)
  case (Cons i "is")
  from Cons.prems(2) obtain h d1 hs1 where "settle_row i d = Inr (h, d1)" "settle_rows is d1 = Inr (hs1, d')"
    by (auto simp: bind_res_Inr_iff)
  with Cons show ?case using settle_row_inv by (metis list.set_intros(1,2))
qed simp

text \<open>Paid rows are never written by a settlement or an expiry.\<close>

definition paid_kept :: "db \<Rightarrow> db \<Rightarrow> bool" where
  "paid_kept d d' \<longleftrightarrow> (\<forall>r \<in> set (invoices d). inv_preimage r \<noteq> None \<longrightarrow> r \<in> set (invoices d'))"

lemma paid_kept_refl [simp]: "paid_kept d d"
  by (simp add: paid_kept_def)

lemma paid_kept_trans: "paid_kept d d1 \<Longrightarrow> paid_kept d1 d2 \<Longrightarrow> paid_kept d d2"
  unfolding paid_kept_def by blast

lemma settle_row_keeps: "settle_row i d = Inr (h, d') \<Longrightarrow> paid_kept d d'"
  by (erule settle_row_cases) (auto simp: paid_kept_def table_simps paid_applies_def)

lemma settle_rows_keeps: "settle_rows is d = Inr (hs, d') \<Longrightarrow> paid_kept d d'"
proof (induction "is" arbitrary: d hs)
  case (Cons i "is")
  from Cons.prems obtain h d1 hs1 where "settle_row i d = Inr (h, d1)" "settle_rows is d1 = Inr (hs1, d')"
    by (auto simp: bind_res_Inr_iff)
  with Cons.IH settle_row_keeps paid_kept_trans show ?case by blast
qed simp

lemma mark_invoice_expired_keeps: "paid_kept d (mark_invoice_expired h t d)"
  by (auto simp: paid_kept_def mark_invoice_expired_def table_simps)

text \<open>
  On a batch without repeated payment hashes PostgreSQL's one statement and SQLite's loop agree.
\<close>

lemma settle_row_hash: "settle_row i d = Inr (Some h, d') \<Longrightarrow> h = inv_payment_hash i"
  by (erule settle_row_cases) auto

lemma settle_rows_pg_eq:
  assumes "distinct (map inv_payment_hash is)" "set (map inv_payment_hash is) \<inter> set touched = {}"
  shows "settle_rows_pg touched is d = settle_rows is d"
  using assms
proof (induction "is" arbitrary: touched d)
  case (Cons i "is")
  have "settle_rows_pg (case h of None \<Rightarrow> touched | Some x \<Rightarrow> x # touched) is d1 = settle_rows is d1"
    if "settle_row i d = Inr (h, d1)" for h d1
    by (rule Cons.IH) (use Cons.prems settle_row_hash that in \<open>auto split: option.splits\<close>)
  with Cons.prems show ?case by (cases "settle_row i d") auto
qed simp

text \<open>An invoice is settled once its row exists and no longer admits its settlement.\<close>

definition settled :: "invoice \<Rightarrow> db \<Rightarrow> bool" where
  "settled i d \<longleftrightarrow> exists_where (\<lambda>r. inv_payment_hash r = inv_payment_hash i) (invoices d) \<and>
     \<not> exists_where (paid_applies i) (invoices d)"

lemma settle_row_settled: "settled i d \<Longrightarrow> settle_row i d = Inr (None, d)"
  by (simp add: settled_def settle_row_def)

lemma settle_row_settles:
  assumes "settle_row i d = Inr (h, d')" "inv_preimage i \<noteq> None"
  shows "settled i d'"
  using assms(1)
proof (cases rule: settle_row_cases)
  case new
  have "\<not> paid_applies i (paid_row i)" using assms(2) by (simp add: paid_applies_def)
  with new show ?thesis by (auto simp: settled_def paid_applies_def)
next
  case update
  have "\<not> paid_applies i (merge_paid r i)" for r using assms(2) by (simp add: paid_applies_def)
  moreover obtain r where "r \<in> set (invoices d)" "paid_applies i r" using update(2) by auto
  then have "merge_paid r i \<in> set (invoices d')" "inv_payment_hash (merge_paid r i) = inv_payment_hash i"
    by (simp_all add: update(3) table_simps paid_applies_def)
  then have "exists_where (\<lambda>r. inv_payment_hash r = inv_payment_hash i) (invoices d')"
    unfolding exists_where_iff by blast
  moreover have "\<not> exists_where (paid_applies i) (invoices d')"
    using calculation(1) by (auto simp: update(3) table_simps)
  ultimately show ?thesis by (simp add: settled_def)
next
  case skip
  then show ?thesis by (simp add: settled_def)
qed

lemma settle_row_keeps_settled:
  assumes "settle_row j d = Inr (h, d')" "inv_preimage j \<noteq> None" "settled i d"
  shows "settled i d'"
  using assms(1)
proof (cases rule: settle_row_cases)
  case new
  with assms(2,3) show ?thesis by (auto simp: settled_def paid_applies_def)
next
  case update
  have "exists_where (\<lambda>r. inv_payment_hash r = inv_payment_hash i) (invoices d')"
    using assms(3) unfolding settled_def update(3) in_column
    by (simp add: image_update_where)
  moreover have "\<not> exists_where (paid_applies i) (invoices d')"
    using assms(2,3) unfolding settled_def update(3) by (auto simp: table_simps paid_applies_def)
  ultimately show ?thesis by (simp add: settled_def)
next
  case skip
  with assms(3) show ?thesis by simp
qed

lemma settle_rows_keeps_settled:
  "settle_rows is d = Inr (hs, d') \<Longrightarrow> \<forall>i \<in> set is. inv_preimage i \<noteq> None \<Longrightarrow> settled j d \<Longrightarrow> settled j d'"
proof (induction "is" arbitrary: d hs)
  case (Cons i "is")
  from Cons.prems(1) obtain h d1 hs1 where "settle_row i d = Inr (h, d1)" "settle_rows is d1 = Inr (hs1, d')"
    by (auto simp: bind_res_Inr_iff)
  with Cons.IH Cons.prems(2,3) settle_row_keeps_settled show ?case by (metis list.set_intros(1,2))
qed simp

lemma settle_rows_settles:
  "settle_rows is d = Inr (hs, d') \<Longrightarrow> \<forall>i \<in> set is. inv_preimage i \<noteq> None \<Longrightarrow> j \<in> set is \<Longrightarrow> settled j d'"
proof (induction "is" arbitrary: d hs)
  case (Cons i "is")
  from Cons.prems(1) obtain h d1 hs1 where 1: "settle_row i d = Inr (h, d1)"
    and 2: "settle_rows is d1 = Inr (hs1, d')"
    by (auto simp: bind_res_Inr_iff)
  show ?case
  proof (cases "j = i")
    case True
    with settle_row_settles [OF 1] settle_rows_keeps_settled [OF 2] Cons.prems(2) show ?thesis by simp
  next
    case False
    with Cons.IH [OF 2] Cons.prems(2,3) show ?thesis by simp
  qed
qed simp

lemma settle_rows_noop: "\<forall>i \<in> set is. settled i d \<Longrightarrow> settle_rows is d = Inr ([], d)"
  by (induction "is") (simp_all add: settle_row_settled)

text \<open>The returned hashes are those of rows that are paid now and were not before.\<close>

lemma settle_row_returned:
  assumes "settle_row i d = Inr (Some h, d')" "inv_preimage i \<noteq> None"
  shows "\<exists>r \<in> set (invoices d'). inv_payment_hash r = h \<and> inv_preimage r = inv_preimage i \<and>
    inv_user_pubkey r = inv_user_pubkey i"
  using assms(1)
proof (cases rule: settle_row_cases)
  case new
  then show ?thesis by simp
next
  case update
  then obtain r where r: "r \<in> set (invoices d)" "paid_applies i r" by auto
  then have "merge_paid r i \<in> set (invoices d')" by (simp add: update(3) table_simps)
  with r(2) update(1) show ?thesis
    by (intro bexI [of _ "merge_paid r i"]) (simp_all add: paid_applies_def)
qed simp

lemma settle_rows_returned:
  "settle_rows is d = Inr (hs, d') \<Longrightarrow> \<forall>i \<in> set is. inv_preimage i \<noteq> None \<Longrightarrow> h \<in> set hs \<Longrightarrow>
     \<exists>i \<in> set is. \<exists>r \<in> set (invoices d'). inv_payment_hash i = h \<and> inv_payment_hash r = h \<and>
       inv_preimage r = inv_preimage i \<and> inv_user_pubkey r = inv_user_pubkey i"
proof (induction "is" arbitrary: d hs)
  case (Cons i "is")
  from Cons.prems(1) obtain h1 d1 hs1 where 1: "settle_row i d = Inr (h1, d1)"
    and 2: "settle_rows is d1 = Inr (hs1, d')" and hs: "hs = (case h1 of None \<Rightarrow> hs1 | Some x \<Rightarrow> x # hs1)"
    by (auto simp: bind_res_Inr_iff)
  show ?case
  proof (cases "h \<in> set hs1")
    case True
    with Cons.IH [OF 2] Cons.prems(2) show ?thesis by (metis list.set_intros(2))
  next
    case False
    with Cons.prems(3) hs have h1: "h1 = Some h" by (auto split: option.splits)
    with 1 Cons.prems(2) obtain r where r: "r \<in> set (invoices d1)" "inv_payment_hash r = h"
      "inv_preimage r = inv_preimage i" "inv_user_pubkey r = inv_user_pubkey i"
      using settle_row_returned [of i d h d1] by auto
    have "inv_preimage r \<noteq> None" using r(3) Cons.prems(2) by simp
    then have "r \<in> set (invoices d')" using settle_rows_keeps [OF 2] r(1) by (simp add: paid_kept_def)
    moreover have "inv_payment_hash i = h" using settle_row_hash 1 h1 by metis
    ultimately show ?thesis using r by auto
  qed
qed simp

end
