(* ===== verification/Lnurl_Queues.thy ===== *)
theory Lnurl_Queues
  imports Lnurl_Schema
begin

text \<open>
  The two work queues of the repository: pending zap receipts and webhook deliveries. A worker
  claims items by writing \<open>claimed_at\<close>; a claim older than five minutes is stale and the item can
  be claimed again. \<open>now\<close> is the clock in milliseconds. Items that tie in an \<open>ORDER BY\<close> are taken
  in table order.
\<close>

section \<open>Readiness\<close>

definition stale_threshold :: "int \<Rightarrow> int" where
  "stale_threshold now = i64_saturating_sub now 300000"

text \<open>\<open>next_retry_at <= now AND COALESCE(claimed_at, 0) < stale_threshold\<close>.\<close>

definition ready :: "int \<Rightarrow> int \<Rightarrow> int option \<Rightarrow> bool" where
  "ready now next_retry_at claimed_at \<longleftrightarrow>
     next_retry_at \<le> now \<and> (case claimed_at of None \<Rightarrow> 0 | Some t \<Rightarrow> t) < stale_threshold now"

section \<open>Interface: a queue whose items are claimed\<close>

text \<open>
  \<open>items\<close> are the rows of the queue, \<open>can\<close> says which a worker may claim at a time, and \<open>grab\<close>
  claims some of them: what it returns was claimable, and it writes its time into exactly the
  rows it returns. For such a queue an item is handed out at most once in five minutes.
\<close>

locale claim_queue =
  fixes items :: "'s \<Rightarrow> 'r list"
    and key :: "'r \<Rightarrow> 'k"
    and can :: "int \<Rightarrow> 'r \<Rightarrow> bool"
    and claim :: "int \<Rightarrow> 'r \<Rightarrow> 'r"
    and grab :: "int \<Rightarrow> 's \<Rightarrow> 'r list \<times> 's"
  assumes grab_can: "unique_by key (items s) \<Longrightarrow> r \<in> set (fst (grab now s)) \<Longrightarrow>
      \<exists>r0 \<in> set (items s). can now r0 \<and> r = claim now r0"
    and grab_writes: "unique_by key (items s) \<Longrightarrow> items (snd (grab now s)) =
      update_where (\<lambda>r. key r \<in> key ` set (fst (grab now s))) (claim now) (items s)"
    and key_claim: "key (claim now r) = key r"
    and claim_blocks: "0 \<le> now' \<Longrightarrow> now' \<le> now + 300000 \<Longrightarrow> \<not> can now' (claim now r)"
begin

lemma grab_keeps_keys: "unique_by key (items s) \<Longrightarrow> unique_by key (items (snd (grab now s)))"
  by (simp add: grab_writes unique_by_update key_claim)

lemma grabbed_blocked:
  assumes u: "unique_by key (items s)" and k: "k \<in> key ` set (fst (grab now s))"
    and r: "r \<in> set (items (snd (grab now s)))" "key r = k" and t: "0 \<le> now'" "now' \<le> now + 300000"
  shows "\<not> can now' r"
proof -
  have "r \<in> set (update_where (\<lambda>r. key r \<in> key ` set (fst (grab now s))) (claim now) (items s))"
    using r(1) by (simp add: grab_writes [OF u])
  then obtain r0 where "r = claim now r0"
    using r(2) k by (auto simp: table_simps)
  with claim_blocks t show ?thesis by blast
qed

lemma not_grabbed_twice:
  assumes u: "unique_by key (items s)" and k: "k \<in> key ` set (fst (grab now s))"
    and t: "0 \<le> now'" "now' \<le> now + 300000"
  shows "k \<notin> key ` set (fst (grab now' (snd (grab now s))))"
proof
  let ?s1 = "snd (grab now s)"
  assume "k \<in> key ` set (fst (grab now' ?s1))"
  then obtain r where r: "r \<in> set (fst (grab now' ?s1))" "key r = k" by auto
  obtain r0 where r0: "r0 \<in> set (items ?s1)" "can now' r0" "r = claim now' r0"
    using grab_can [OF grab_keeps_keys [OF u] r(1)] by blast
  then have "key r0 = k" using r(2) key_claim by simp
  with grabbed_blocked [OF u k r0(1) _ t] r0(2) show False by simp
qed

lemma others_untouched:
  assumes "unique_by key (items s)" "r \<in> set (items s)" "key r \<notin> key ` set (fst (grab now s))"
  shows "r \<in> set (items (snd (grab now s)))"
  using assms by (simp add: grab_writes table_simps)

end

section \<open>Pending zap receipts\<close>

definition insert_pending_zap_receipt :: "pending_zap_receipt \<Rightarrow> db \<Rightarrow> db" where
  "insert_pending_zap_receipt p d =
     d\<lparr>pending_zap_receipts := insert_ignore pz_payment_hash (p\<lparr>pz_claimed_at := None\<rparr>) (pending_zap_receipts d)\<rparr>"

definition insert_pending_zap_receipt_batch :: "pending_zap_receipt list \<Rightarrow> db \<Rightarrow> db" where
  "insert_pending_zap_receipt_batch ps d = (if ps = [] then d else fold insert_pending_zap_receipt ps d)"

text \<open>
  PostgreSQL inserts the batch in one statement, in which a later duplicate conflicts with the row
  inserted before it and is dropped.
\<close>

definition insert_pending_zap_receipt_batch_pg :: "pending_zap_receipt list \<Rightarrow> db \<Rightarrow> db" where
  "insert_pending_zap_receipt_batch_pg ps d =
     (if ps = [] then d
      else d\<lparr>pending_zap_receipts :=
        fold (\<lambda>p t. insert_ignore pz_payment_hash (p\<lparr>pz_claimed_at := None\<rparr>) t) ps (pending_zap_receipts d)\<rparr>)"

definition zap_ready :: "int \<Rightarrow> pending_zap_receipt \<Rightarrow> bool" where
  "zap_ready now p \<longleftrightarrow> ready now (pz_next_retry_at p) (pz_claimed_at p)"

definition claim_zap :: "int \<Rightarrow> pending_zap_receipt \<Rightarrow> pending_zap_receipt" where
  "claim_zap now p = p\<lparr>pz_claimed_at := Some now\<rparr>"

definition take_pending_zap_receipts :: "u32 \<Rightarrow> int \<Rightarrow> db \<Rightarrow> pending_zap_receipt list \<times> db" where
  "take_pending_zap_receipts limit now d =
     (let hs = map pz_payment_hash
            (take (unat limit) (sort_key pz_next_retry_at (filter (zap_ready now) (pending_zap_receipts d))));
          t = update_where (\<lambda>p. pz_payment_hash p \<in> set hs) (claim_zap now) (pending_zap_receipts d)
      in (filter (\<lambda>p. pz_payment_hash p \<in> set hs) t, d\<lparr>pending_zap_receipts := t\<rparr>))"

definition update_pending_zap_receipt_retry :: "string \<Rightarrow> int \<Rightarrow> int \<Rightarrow> db \<Rightarrow> db" where
  "update_pending_zap_receipt_retry h retry_count next_retry_at d =
     d\<lparr>pending_zap_receipts := update_where (\<lambda>p. pz_payment_hash p = h)
         (\<lambda>p. p\<lparr>pz_retry_count := retry_count, pz_next_retry_at := next_retry_at, pz_claimed_at := None\<rparr>)
         (pending_zap_receipts d)\<rparr>"

definition delete_pending_zap_receipt :: "string \<Rightarrow> db \<Rightarrow> db" where
  "delete_pending_zap_receipt h d =
     d\<lparr>pending_zap_receipts := delete_where (\<lambda>p. pz_payment_hash p = h) (pending_zap_receipts d)\<rparr>"

section \<open>Webhook deliveries\<close>

text \<open>
  The id of a new row: SQLite's integer primary key is one more than the largest in the table,
  PostgreSQL's comes from a sequence.
\<close>

definition sqlite_next_id :: "webhook_delivery list \<Rightarrow> int" where
  "sqlite_next_id t = (if t = [] then 1 else Max (set (map wd_id t)) + 1)"

definition new_delivery_row :: "int \<Rightarrow> int \<Rightarrow> new_webhook_delivery \<Rightarrow> webhook_delivery" where
  "new_delivery_row i now w =
     \<lparr>wd_id = i, wd_identifier = nd_identifier w, wd_domain = nd_domain w, wd_url = None,
      wd_payload = nd_payload w, wd_created_at = now, wd_succeeded_at = None, wd_retry_count = 0,
      wd_next_retry_at = now, wd_claimed_at = None, wd_last_error_status_code = None,
      wd_last_error_body = None\<rparr>"

definition same_delivery :: "new_webhook_delivery \<Rightarrow> webhook_delivery \<Rightarrow> bool" where
  "same_delivery w r \<longleftrightarrow> wd_identifier r = nd_identifier w \<and> wd_domain r = nd_domain w"

definition insert_webhook_delivery :: "int \<Rightarrow> new_webhook_delivery \<Rightarrow> db \<Rightarrow> db" where
  "insert_webhook_delivery now w d =
     (if exists_where (same_delivery w) (webhook_deliveries d) then d
      else d\<lparr>webhook_deliveries := webhook_deliveries d @
        [new_delivery_row (sqlite_next_id (webhook_deliveries d)) now w]\<rparr>)"

definition insert_webhook_deliveries :: "int \<Rightarrow> new_webhook_delivery list \<Rightarrow> db \<Rightarrow> db" where
  "insert_webhook_deliveries now ws d = (if ws = [] then d else fold (insert_webhook_delivery now) ws d)"

text \<open>
  One statement: \<open>NOT EXISTS\<close> sees the table as it was before the statement, and the unique index
  on pending deliveries (\<open>ON CONFLICT DO NOTHING\<close>) drops a repeated candidate, whose sequence
  number is spent all the same.
\<close>

fun insert_candidates_pg :: "int \<Rightarrow> new_webhook_delivery list \<Rightarrow> db \<Rightarrow> db" where
  "insert_candidates_pg now [] d = d"
| "insert_candidates_pg now (w # ws) d =
     insert_candidates_pg now ws
       (if exists_where (\<lambda>r. same_delivery w r \<and> wd_succeeded_at r = None) (webhook_deliveries d)
        then d\<lparr>webhook_next_id := webhook_next_id d + 1\<rparr>
        else d\<lparr>webhook_deliveries := webhook_deliveries d @ [new_delivery_row (webhook_next_id d) now w],
               webhook_next_id := webhook_next_id d + 1\<rparr>)"

definition insert_webhook_deliveries_pg :: "int \<Rightarrow> new_webhook_delivery list \<Rightarrow> db \<Rightarrow> db" where
  "insert_webhook_deliveries_pg now ws d =
     (if ws = [] then d
      else insert_candidates_pg now
             (filter (\<lambda>w. \<not> exists_where (same_delivery w) (webhook_deliveries d)) ws) d)"

definition delivery_ready :: "int \<Rightarrow> webhook_delivery \<Rightarrow> bool" where
  "delivery_ready now r \<longleftrightarrow> wd_succeeded_at r = None \<and> ready now (wd_next_retry_at r) (wd_claimed_at r)"

definition claim_delivery :: "int \<Rightarrow> webhook_delivery \<Rightarrow> webhook_delivery" where
  "claim_delivery now r = r\<lparr>wd_claimed_at := Some now\<rparr>"

text \<open>\<open>ROW_NUMBER() OVER (PARTITION BY domain ORDER BY next_retry_at)\<close>: the first of a domain.\<close>

definition first_of_domain :: "int \<Rightarrow> string \<Rightarrow> webhook_delivery list \<Rightarrow> int option" where
  "first_of_domain now dn t =
     (case sort_key wd_next_retry_at (filter (\<lambda>r. wd_domain r = dn \<and> delivery_ready now r) t) of
        [] \<Rightarrow> None
      | r # _ \<Rightarrow> Some (wd_id r))"

definition take_ids :: "int list \<Rightarrow> int \<Rightarrow> db \<Rightarrow> webhook_delivery list \<times> db" where
  "take_ids ids now d =
     (let t = update_where (\<lambda>r. wd_id r \<in> set ids) (claim_delivery now) (webhook_deliveries d)
      in (filter (\<lambda>r. wd_id r \<in> set ids) t, d\<lparr>webhook_deliveries := t\<rparr>))"

definition take_pending_webhook_deliveries :: "int \<Rightarrow> db \<Rightarrow> webhook_delivery list \<times> db" where
  "take_pending_webhook_deliveries now d =
     take_ids [wd_id r. r \<leftarrow> webhook_deliveries d, delivery_ready now r \<and>
        first_of_domain now (wd_domain r) (webhook_deliveries d) = Some (wd_id r)] now d"

text \<open>PostgreSQL: the distinct domains with ready rows, and for each its first ready row.\<close>

definition take_pending_webhook_deliveries_pg :: "int \<Rightarrow> db \<Rightarrow> webhook_delivery list \<times> db" where
  "take_pending_webhook_deliveries_pg now d =
     take_ids (List.map_filter (\<lambda>dn. first_of_domain now dn (webhook_deliveries d))
       (remdups (map wd_domain (filter (delivery_ready now) (webhook_deliveries d))))) now d"

definition update_webhook_delivery_success :: "int \<Rightarrow> int \<Rightarrow> string \<Rightarrow> db \<Rightarrow> db" where
  "update_webhook_delivery_success i succeeded_at url d =
     d\<lparr>webhook_deliveries := update_where (\<lambda>r. wd_id r = i)
         (\<lambda>r. r\<lparr>wd_succeeded_at := Some succeeded_at, wd_url := Some url\<rparr>) (webhook_deliveries d)\<rparr>"

definition update_webhook_delivery_failure ::
  "int \<Rightarrow> int \<Rightarrow> int \<Rightarrow> int option \<Rightarrow> string option \<Rightarrow> string \<Rightarrow> db \<Rightarrow> db" where
  "update_webhook_delivery_failure i retry_count next_retry_at status_code body url d =
     d\<lparr>webhook_deliveries := update_where (\<lambda>r. wd_id r = i)
         (\<lambda>r. r\<lparr>wd_retry_count := retry_count, wd_next_retry_at := next_retry_at, wd_claimed_at := None,
               wd_last_error_status_code := status_code, wd_last_error_body := body, wd_url := Some url\<rparr>)
         (webhook_deliveries d)\<rparr>"

definition unclaim_webhook_deliveries :: "int list \<Rightarrow> db \<Rightarrow> db" where
  "unclaim_webhook_deliveries ids d =
     (if ids = [] then d
      else d\<lparr>webhook_deliveries := update_where (\<lambda>r. wd_id r \<in> set ids)
             (\<lambda>r. r\<lparr>wd_claimed_at := None\<rparr>) (webhook_deliveries d)\<rparr>)"

definition delete_webhook_deliveries_older_than :: "int \<Rightarrow> db \<Rightarrow> nat \<times> db" where
  "delete_webhook_deliveries_older_than before d =
     (rows_affected (\<lambda>r. wd_created_at r < before) (webhook_deliveries d),
      d\<lparr>webhook_deliveries := delete_where (\<lambda>r. wd_created_at r < before) (webhook_deliveries d)\<rparr>)"

definition delete_webhook_delivery :: "int \<Rightarrow> db \<Rightarrow> db" where
  "delete_webhook_delivery i d =
     d\<lparr>webhook_deliveries := delete_where (\<lambda>r. wd_id r = i) (webhook_deliveries d)\<rparr>"

definition park_webhook_delivery :: "int \<Rightarrow> db \<Rightarrow> db" where
  "park_webhook_delivery i d =
     d\<lparr>webhook_deliveries := update_where (\<lambda>r. wd_id r = i)
         (\<lambda>r. r\<lparr>wd_next_retry_at := i64_max, wd_claimed_at := None\<rparr>) (webhook_deliveries d)\<rparr>"

definition list_webhook_configs :: "db \<Rightarrow> webhook_config list" where
  "list_webhook_configs d = domain_webhooks d"

section \<open>Claims\<close>

text \<open>\<open>claimed_at\<close> is a clock reading; a reading below the threshold is at least five minutes old.\<close>

lemma ready_claimed:
  assumes "0 \<le> now'" "now' \<le> now + 300000"
  shows "\<not> ready now' t (Some now)"
proof -
  have "stale_threshold now' \<le> now"
    using assms by (simp add: stale_threshold_def i64_saturating_sub_def sat_i64_def)
  then show ?thesis by (simp add: ready_def)
qed

lemma key_image_update:
  assumes "\<And>r. key (f r) = key r"
  shows "key ` set (filter (\<lambda>r. key r \<in> K) (update_where (\<lambda>r. key r \<in> K) f t)) = K \<inter> key ` set t"
proof -
  have "key ` set (filter (\<lambda>r. key r \<in> K) u) = K \<inter> key ` set u" for u by auto
  moreover have "key ` set (update_where (\<lambda>r. key r \<in> K) f t) = key ` set t"
    by (rule image_update_where) (rule assms)
  ultimately show ?thesis by simp
qed

lemma update_where_cong:
  "(\<And>r. r \<in> set t \<Longrightarrow> P r = Q r) \<Longrightarrow> update_where P f t = update_where Q f t"
  by (simp add: update_where_def)

text \<open>Claiming a set of keys, each of a claimable row, in a table with unique keys.\<close>

lemma claim_keys_grab:
  assumes u: "unique_by key t" and key: "\<And>r. key (f r) = key r"
    and K: "\<And>k. k \<in> K \<Longrightarrow> \<exists>r \<in> set t. key r = k \<and> can r"
    and r: "r \<in> set (filter (\<lambda>r. key r \<in> K) (update_where (\<lambda>r. key r \<in> K) f t))"
  shows "\<exists>r0 \<in> set t. can r0 \<and> r = f r0"
proof -
  obtain r0 where r0: "r0 \<in> set t" "key r0 \<in> K" "r = f r0"
    using r key by (auto simp: table_simps)
  obtain r1 where "r1 \<in> set t" "key r1 = key r0" "can r1" using K [OF r0(2)] by blast
  with unique_byD [OF u] r0 show ?thesis by metis
qed

lemma claim_keys_writes:
  assumes key: "\<And>r. key (f r) = key r"
  shows "update_where (\<lambda>r. key r \<in> K) f t =
    update_where (\<lambda>r. key r \<in> key ` set (filter (\<lambda>r. key r \<in> K) (update_where (\<lambda>r. key r \<in> K) f t))) f t"
  unfolding key_image_update [of key f, OF key] by (rule update_where_cong) auto

lemma claim_zap_key [simp]: "pz_payment_hash (claim_zap now p) = pz_payment_hash p"
  by (simp add: claim_zap_def)

lemma claim_delivery_key [simp]: "wd_id (claim_delivery now r) = wd_id r" "wd_domain (claim_delivery now r) = wd_domain r"
  by (simp_all add: claim_delivery_def)

lemma set_take_sort: "r \<in> set (take n (sort_key f xs)) \<Longrightarrow> r \<in> set xs"
  using set_take_subset [of n "sort_key f xs"] by auto

definition zap_keys :: "u32 \<Rightarrow> int \<Rightarrow> db \<Rightarrow> string set" where
  "zap_keys limit now d = pz_payment_hash ` set (take (unat limit) (sort_key pz_next_retry_at
     (filter (zap_ready now) (pending_zap_receipts d))))"

lemma take_pending_zap_receipts_eq:
  "take_pending_zap_receipts limit now d =
     (filter (\<lambda>p. pz_payment_hash p \<in> zap_keys limit now d)
        (update_where (\<lambda>p. pz_payment_hash p \<in> zap_keys limit now d) (claim_zap now) (pending_zap_receipts d)),
      d\<lparr>pending_zap_receipts :=
        update_where (\<lambda>p. pz_payment_hash p \<in> zap_keys limit now d) (claim_zap now) (pending_zap_receipts d)\<rparr>)"
  by (simp add: take_pending_zap_receipts_def zap_keys_def Let_def)

lemma zap_keys_ready:
  assumes "k \<in> zap_keys limit now d"
  shows "\<exists>r \<in> set (pending_zap_receipts d). pz_payment_hash r = k \<and> zap_ready now r"
proof -
  obtain r where "k = pz_payment_hash r" and
    "r \<in> set (take (unat limit) (sort_key pz_next_retry_at (filter (zap_ready now) (pending_zap_receipts d))))"
    using assms unfolding zap_keys_def by blast
  with set_take_sort [OF this(2)] show ?thesis by auto
qed

interpretation zap_queue: claim_queue pending_zap_receipts pz_payment_hash zap_ready claim_zap
  "take_pending_zap_receipts limit" for limit
proof
  fix s :: db and r now
  assume u: "unique_by pz_payment_hash (pending_zap_receipts s)"
    and r: "r \<in> set (fst (take_pending_zap_receipts limit now s))"
  show "\<exists>r0 \<in> set (pending_zap_receipts s). zap_ready now r0 \<and> r = claim_zap now r0"
    by (rule claim_keys_grab [OF u claim_zap_key zap_keys_ready r [unfolded take_pending_zap_receipts_eq fst_conv]])
next
  fix s :: db and now
  show "pending_zap_receipts (snd (take_pending_zap_receipts limit now s)) =
    update_where (\<lambda>r. pz_payment_hash r \<in> pz_payment_hash ` set (fst (take_pending_zap_receipts limit now s)))
      (claim_zap now) (pending_zap_receipts s)"
  proof -
    have sel: "pending_zap_receipts (s\<lparr>pending_zap_receipts := t\<rparr>) = t" for t by simp
    show ?thesis
      unfolding take_pending_zap_receipts_eq fst_conv snd_conv sel
      by (rule claim_keys_writes [of pz_payment_hash "claim_zap now", OF claim_zap_key])
  qed
next
  fix now' now :: int and r
  assume "0 \<le> now'" "now' \<le> now + 300000"
  then show "\<not> zap_ready now' (claim_zap now r)"
    by (simp add: zap_ready_def claim_zap_def ready_claimed)
qed (rule claim_zap_key)

lemma length_le_card_keys:
  assumes "distinct (map key xs)" "key ` set xs \<subseteq> K" "finite K"
  shows "length xs \<le> card K"
  using assms by (metis card_mono distinct_card length_map list.set_map)

lemma take_zap_length:
  assumes "unique_by pz_payment_hash (pending_zap_receipts d)"
  shows "length (fst (take_pending_zap_receipts limit now d)) \<le> unat limit"
proof -
  let ?ps = "fst (take_pending_zap_receipts limit now d)"
  let ?xs = "take (unat limit) (sort_key pz_next_retry_at (filter (zap_ready now) (pending_zap_receipts d)))"
  have "unique_by pz_payment_hash (update_where (\<lambda>p. pz_payment_hash p \<in> zap_keys limit now d)
      (claim_zap now) (pending_zap_receipts d))"
    using assms by (simp add: unique_by_update)
  then have "distinct (map pz_payment_hash ?ps)"
    unfolding take_pending_zap_receipts_eq fst_conv unique_by_def by (rule distinct_map_filter)
  moreover have "pz_payment_hash ` set ?ps \<subseteq> zap_keys limit now d"
    unfolding take_pending_zap_receipts_eq fst_conv by auto
  moreover have fin: "finite (zap_keys limit now d)" unfolding zap_keys_def by simp
  ultimately have "length ?ps \<le> card (zap_keys limit now d)" by (rule length_le_card_keys)
  also have "\<dots> \<le> length ?xs"
    unfolding zap_keys_def by (metis card_image_le card_length finite_set le_trans)
  also have "\<dots> \<le> unat limit" by simp
  finally show ?thesis .
qed

text \<open>The first ready row of a domain, and the ids SQLite takes.\<close>

lemma first_of_domain_Some:
  assumes "first_of_domain now dn t = Some i"
  obtains r where "r \<in> set t" "wd_id r = i" "wd_domain r = dn" "delivery_ready now r"
proof -
  let ?f = "filter (\<lambda>r. wd_domain r = dn \<and> delivery_ready now r) t"
  obtain r rs where r: "sort_key wd_next_retry_at ?f = r # rs" "i = wd_id r"
    using assms by (auto simp: first_of_domain_def split: list.splits)
  then have "r \<in> set ?f" using set_sort [of wd_next_retry_at ?f] by (metis list.set_intros(1))
  with r that show thesis by auto
qed

lemma first_of_domain_None:
  "first_of_domain now dn t = None \<longleftrightarrow> (\<forall>r \<in> set t. wd_domain r = dn \<longrightarrow> \<not> delivery_ready now r)"
proof -
  let ?f = "filter (\<lambda>r. wd_domain r = dn \<and> delivery_ready now r) t"
  have "first_of_domain now dn t = None \<longleftrightarrow> sort_key wd_next_retry_at ?f = []"
    by (simp add: first_of_domain_def split: list.splits)
  also have "\<dots> \<longleftrightarrow> ?f = []" by (simp only: length_0_conv [symmetric] length_sort)
  also have "\<dots> \<longleftrightarrow> (\<forall>r \<in> set t. \<not> (wd_domain r = dn \<and> delivery_ready now r))"
    by (rule filter_empty_conv)
  finally show ?thesis by blast
qed

definition delivery_keys :: "int \<Rightarrow> db \<Rightarrow> int set" where
  "delivery_keys now d = {i. \<exists>dn. first_of_domain now dn (webhook_deliveries d) = Some i}"

lemma set_comprehension: "set [f r. r \<leftarrow> t, P r] = f ` {r \<in> set t. P r}"
  by auto

lemma set_map_filter_eq: "set (List.map_filter f xs) = {y. \<exists>x \<in> set xs. f x = Some y}"
  by (force simp: List.map_filter_def)

lemma sqlite_ids:
  "set [wd_id r. r \<leftarrow> webhook_deliveries d, delivery_ready now r \<and>
      first_of_domain now (wd_domain r) (webhook_deliveries d) = Some (wd_id r)] = delivery_keys now d"
  unfolding set_comprehension
proof (intro set_eqI iffI)
  fix i
  assume "i \<in> delivery_keys now d"
  then obtain dn where f: "first_of_domain now dn (webhook_deliveries d) = Some i"
    unfolding delivery_keys_def by blast
  then obtain r where "r \<in> set (webhook_deliveries d)" "wd_id r = i" "wd_domain r = dn" "delivery_ready now r"
    by (rule first_of_domain_Some)
  with f show "i \<in> wd_id ` {r \<in> set (webhook_deliveries d). delivery_ready now r \<and>
      first_of_domain now (wd_domain r) (webhook_deliveries d) = Some (wd_id r)}" by blast
next
  fix i
  assume "i \<in> wd_id ` {r \<in> set (webhook_deliveries d). delivery_ready now r \<and>
      first_of_domain now (wd_domain r) (webhook_deliveries d) = Some (wd_id r)}"
  then show "i \<in> delivery_keys now d" unfolding delivery_keys_def by blast
qed

lemma pg_ids:
  "set (List.map_filter (\<lambda>dn. first_of_domain now dn (webhook_deliveries d))
      (remdups (map wd_domain (filter (delivery_ready now) (webhook_deliveries d))))) = delivery_keys now d"
  unfolding set_map_filter_eq set_remdups set_map set_filter
proof (intro set_eqI iffI)
  fix i
  assume "i \<in> delivery_keys now d"
  then obtain dn where f: "first_of_domain now dn (webhook_deliveries d) = Some i"
    unfolding delivery_keys_def by blast
  then obtain r where "r \<in> set (webhook_deliveries d)" "wd_domain r = dn" "delivery_ready now r"
    by (rule first_of_domain_Some)
  with f show "i \<in> {y. \<exists>dn \<in> wd_domain ` {r \<in> set (webhook_deliveries d). delivery_ready now r}.
      first_of_domain now dn (webhook_deliveries d) = Some y}" by blast
qed (unfold delivery_keys_def, blast)

lemma take_pending_webhook_deliveries_eq:
  "take_pending_webhook_deliveries now d =
     (filter (\<lambda>r. wd_id r \<in> delivery_keys now d)
        (update_where (\<lambda>r. wd_id r \<in> delivery_keys now d) (claim_delivery now) (webhook_deliveries d)),
      d\<lparr>webhook_deliveries :=
        update_where (\<lambda>r. wd_id r \<in> delivery_keys now d) (claim_delivery now) (webhook_deliveries d)\<rparr>)"
  unfolding take_pending_webhook_deliveries_def take_ids_def Let_def sqlite_ids ..

lemma take_deliveries_backends:
  "take_pending_webhook_deliveries_pg now d = take_pending_webhook_deliveries now d"
  unfolding take_pending_webhook_deliveries_eq
  unfolding take_pending_webhook_deliveries_pg_def take_ids_def Let_def pg_ids ..

lemma delivery_keys_ready:
  "k \<in> delivery_keys now d \<Longrightarrow> \<exists>r \<in> set (webhook_deliveries d). wd_id r = k \<and> delivery_ready now r"
  unfolding delivery_keys_def using first_of_domain_Some by blast

interpretation webhook_queue: claim_queue webhook_deliveries wd_id delivery_ready claim_delivery
  take_pending_webhook_deliveries
proof
  fix s :: db and r now
  assume u: "unique_by wd_id (webhook_deliveries s)"
    and r: "r \<in> set (fst (take_pending_webhook_deliveries now s))"
  show "\<exists>r0 \<in> set (webhook_deliveries s). delivery_ready now r0 \<and> r = claim_delivery now r0"
    by (rule claim_keys_grab [OF u claim_delivery_key(1) delivery_keys_ready
          r [unfolded take_pending_webhook_deliveries_eq fst_conv]])
next
  fix s :: db and now
  show "webhook_deliveries (snd (take_pending_webhook_deliveries now s)) =
    update_where (\<lambda>r. wd_id r \<in> wd_id ` set (fst (take_pending_webhook_deliveries now s)))
      (claim_delivery now) (webhook_deliveries s)"
  proof -
    have sel: "webhook_deliveries (s\<lparr>webhook_deliveries := t\<rparr>) = t" for t by simp
    show ?thesis
      unfolding take_pending_webhook_deliveries_eq fst_conv snd_conv sel
      by (rule claim_keys_writes [of wd_id "claim_delivery now", OF claim_delivery_key(1)])
  qed
next
  fix now' now :: int and r
  assume "0 \<le> now'" "now' \<le> now + 300000"
  then show "\<not> delivery_ready now' (claim_delivery now r)"
    by (simp add: delivery_ready_def claim_delivery_def ready_claimed)
qed (rule claim_delivery_key(1))

text \<open>At most one delivery per domain.\<close>

lemma take_one_per_domain:
  assumes u: "unique_by wd_id (webhook_deliveries d)"
  shows "distinct (map wd_domain (fst (take_pending_webhook_deliveries now d)))"
proof -
  let ?t = "webhook_deliveries d"
  let ?u = "filter (\<lambda>r. wd_id r \<in> delivery_keys now d) (update_where (\<lambda>r. wd_id r \<in> delivery_keys now d)
    (claim_delivery now) ?t)"
  have ids: "distinct (map wd_id ?u)"
  proof -
    have "unique_by wd_id (update_where (\<lambda>r. wd_id r \<in> delivery_keys now d) (claim_delivery now) ?t)"
      using u by (simp add: unique_by_update)
    then show ?thesis unfolding unique_by_def by (rule distinct_map_filter)
  qed
  have same: "wd_id r = wd_id s" if "r \<in> set ?u" "s \<in> set ?u" "wd_domain r = wd_domain s" for r s
  proof -
    have key: "first_of_domain now (wd_domain x) ?t = Some (wd_id x)" if x: "x \<in> set ?u" for x
    proof -
      obtain x0 where x0: "x0 \<in> set ?t" "wd_id x0 \<in> delivery_keys now d" "x = claim_delivery now x0"
        using x by (auto simp: table_simps)
      obtain dn where dn: "first_of_domain now dn ?t = Some (wd_id x0)"
        using x0(2) by (auto simp: delivery_keys_def)
      obtain y where "y \<in> set ?t" "wd_id y = wd_id x0" "wd_domain y = dn"
        using first_of_domain_Some [OF dn] .
      then have "wd_domain x0 = dn" using unique_byD [OF u] x0(1) by metis
      with dn x0(3) show ?thesis by simp
    qed
    show ?thesis using key [OF that(1)] key [OF that(2)] that(3) by simp
  qed
  have "inj_on wd_domain (set ?u)"
    using same ids by (intro inj_onI) (metis distinct_map inj_onD)
  moreover have "distinct ?u" using ids by (simp add: distinct_map)
  ultimately show ?thesis by (simp add: take_pending_webhook_deliveries_eq distinct_map)
qed

lemma parked_row:
  assumes "r \<in> set (webhook_deliveries (park_webhook_delivery i d))" "wd_id r = i"
  shows "wd_next_retry_at r = i64_max"
proof -
  let ?f = "\<lambda>r. r\<lparr>wd_next_retry_at := i64_max, wd_claimed_at := None\<rparr>"
  have "r \<in> set (update_where (\<lambda>r. wd_id r = i) ?f (webhook_deliveries d))"
    using assms(1) by (simp add: park_webhook_delivery_def)
  then consider "wd_id r \<noteq> i" | r0 where "r = ?f r0" unfolding set_update_where by blast
  then show ?thesis using assms(2) by cases simp_all
qed

text \<open>A parked delivery is never ready again while the clock is below the largest \<open>i64\<close>.\<close>

lemma parked_not_ready: "now < i64_max \<Longrightarrow> wd_next_retry_at r = i64_max \<Longrightarrow> \<not> delivery_ready now r"
  by (simp add: delivery_ready_def ready_def)

section \<open>The invariant\<close>

text \<open>
  Receipts are keyed by payment hash. Delivery ids are unique, and an identifier has one delivery
  per domain, ever: a stronger fact than the partial index, which only covers pending ones.
\<close>

definition delivery_key :: "webhook_delivery \<Rightarrow> string \<times> string" where
  "delivery_key r = (wd_identifier r, wd_domain r)"

definition queues_inv :: "db \<Rightarrow> bool" where
  "queues_inv d \<longleftrightarrow> unique_by pz_payment_hash (pending_zap_receipts d) \<and>
     unique_by wd_id (webhook_deliveries d) \<and> unique_by delivery_key (webhook_deliveries d)"

text \<open>PostgreSQL: the sequence is ahead of every id.\<close>

definition sequence_inv :: "db \<Rightarrow> bool" where
  "sequence_inv d \<longleftrightarrow> (\<forall>r \<in> set (webhook_deliveries d). wd_id r < webhook_next_id d)"

lemma queues_inv_empty: "queues_inv empty_db" "sequence_inv empty_db"
  by (simp_all add: queues_inv_def sequence_inv_def empty_db_def)

lemma insert_ignore_unique: "unique_by key t \<Longrightarrow> unique_by key (insert_ignore key row t)"
  by (auto simp: insert_ignore_def)

lemma insert_pending_zap_receipt_inv: "queues_inv d \<Longrightarrow> queues_inv (insert_pending_zap_receipt p d)"
  by (simp add: queues_inv_def insert_pending_zap_receipt_def insert_ignore_unique)

lemma insert_batch_inv: "queues_inv d \<Longrightarrow> queues_inv (insert_pending_zap_receipt_batch ps d)"
proof -
  have "queues_inv (fold insert_pending_zap_receipt ps d)" if "queues_inv d"
    using that by (induction ps arbitrary: d) (simp_all add: insert_pending_zap_receipt_inv)
  then show "queues_inv d \<Longrightarrow> queues_inv (insert_pending_zap_receipt_batch ps d)"
    by (simp add: insert_pending_zap_receipt_batch_def)
qed

lemma insert_batch_backends:
  "insert_pending_zap_receipt_batch_pg ps d = insert_pending_zap_receipt_batch ps d"
proof -
  have "fold insert_pending_zap_receipt ps d = d\<lparr>pending_zap_receipts :=
      fold (\<lambda>p t. insert_ignore pz_payment_hash (p\<lparr>pz_claimed_at := None\<rparr>) t) ps (pending_zap_receipts d)\<rparr>"
    by (induction ps arbitrary: d) (simp_all add: insert_pending_zap_receipt_def)
  then show ?thesis
    by (simp add: insert_pending_zap_receipt_batch_def insert_pending_zap_receipt_batch_pg_def)
qed

lemma new_delivery_row_simps [simp]:
  "wd_id (new_delivery_row i now w) = i" "wd_identifier (new_delivery_row i now w) = nd_identifier w"
  "wd_domain (new_delivery_row i now w) = nd_domain w"
  "wd_succeeded_at (new_delivery_row i now w) = None"
  by (simp_all add: new_delivery_row_def)

lemma same_delivery_iff: "same_delivery w r \<longleftrightarrow> delivery_key r = (nd_identifier w, nd_domain w)"
  by (simp add: same_delivery_def delivery_key_def)

lemma sqlite_next_id_fresh: "r \<in> set t \<Longrightarrow> wd_id r < sqlite_next_id t"
proof -
  assume "r \<in> set t"
  then have "wd_id r \<le> Max (set (map wd_id t))" by (intro Max_ge) simp_all
  with \<open>r \<in> set t\<close> show ?thesis by (auto simp: sqlite_next_id_def)
qed

lemma insert_webhook_delivery_inv: "queues_inv d \<Longrightarrow> queues_inv (insert_webhook_delivery now w d)"
proof (cases "exists_where (same_delivery w) (webhook_deliveries d)")
  case False
  assume inv: "queues_inv d"
  have "\<forall>r \<in> set (webhook_deliveries d). wd_id r \<noteq> sqlite_next_id (webhook_deliveries d)"
    using sqlite_next_id_fresh by fastforce
  moreover have "\<forall>r \<in> set (webhook_deliveries d). delivery_key r \<noteq> (nd_identifier w, nd_domain w)"
    using False by (simp add: same_delivery_iff)
  ultimately show ?thesis
    using inv False by (simp add: queues_inv_def insert_webhook_delivery_def delivery_key_def)
qed (simp add: insert_webhook_delivery_def)

lemma insert_webhook_deliveries_inv: "queues_inv d \<Longrightarrow> queues_inv (insert_webhook_deliveries now ws d)"
proof -
  have "queues_inv (fold (insert_webhook_delivery now) ws d)" if "queues_inv d"
    using that by (induction ws arbitrary: d) (simp_all add: insert_webhook_delivery_inv)
  then show "queues_inv d \<Longrightarrow> queues_inv (insert_webhook_deliveries now ws d)"
    by (simp add: insert_webhook_deliveries_def)
qed

text \<open>What both backends insert, up to the ids: the first candidate of each key not in the table.\<close>

definition content :: "webhook_delivery \<Rightarrow> webhook_delivery" where
  "content r = r\<lparr>wd_id := 0\<rparr>"

definition add_missing :: "int \<Rightarrow> new_webhook_delivery \<Rightarrow> webhook_delivery list \<Rightarrow> webhook_delivery list" where
  "add_missing now w t = (if exists_where (same_delivery w) t then t else t @ [new_delivery_row 0 now w])"

lemma content_simps [simp]:
  "same_delivery w (content r) = same_delivery w r" "content (new_delivery_row i now w) = new_delivery_row 0 now w"
  "wd_succeeded_at (content r) = wd_succeeded_at r"
  by (simp_all add: content_def same_delivery_def new_delivery_row_def)

lemma exists_content: "exists_where (same_delivery w) (map content t) = exists_where (same_delivery w) t"
  by simp

lemma sqlite_contents:
  "map content (webhook_deliveries (fold (insert_webhook_delivery now) ws d)) =
     fold (add_missing now) ws (map content (webhook_deliveries d))"
  by (induction ws arbitrary: d) (simp_all add: insert_webhook_delivery_def add_missing_def del: exists_where_iff
      add: exists_content)

lemma pg_contents:
  assumes "\<forall>w \<in> set ws. \<forall>r \<in> set (webhook_deliveries d). same_delivery w r \<longrightarrow> wd_succeeded_at r = None"
  shows "map content (webhook_deliveries (insert_candidates_pg now ws d)) =
     fold (add_missing now) ws (map content (webhook_deliveries d))"
  using assms
proof (induction ws arbitrary: d)
  case (Cons w ws)
  have "exists_where (\<lambda>r. same_delivery w r \<and> wd_succeeded_at r = None) (webhook_deliveries d) =
      exists_where (same_delivery w) (webhook_deliveries d)"
    using Cons.prems by auto
  with Cons show ?case
    by (simp add: add_missing_def exists_content del: exists_where_iff)
qed simp

lemma add_missing_skip:
  assumes "\<forall>w \<in> set ws. P w \<longrightarrow> exists_where (same_delivery w) t"
  shows "fold (add_missing now) ws t = fold (add_missing now) (filter (\<lambda>w. \<not> P w) ws) t"
  using assms
proof (induction ws arbitrary: t)
  case (Cons w ws)
  have mono: "exists_where (same_delivery v) (add_missing now w t)" if "exists_where (same_delivery v) t" for v
    using that by (auto simp: add_missing_def)
  show ?case
  proof (cases "P w")
    case True
    with Cons.prems have "add_missing now w t = t" by (simp add: add_missing_def)
    with True Cons show ?thesis by simp
  next
    case False
    have "fold (add_missing now) ws (add_missing now w t) =
        fold (add_missing now) (filter (\<lambda>w. \<not> P w) ws) (add_missing now w t)"
      by (rule Cons.IH) (use Cons.prems mono in auto)
    with False show ?thesis by simp
  qed
qed simp

lemma insert_deliveries_backends:
  "map content (webhook_deliveries (insert_webhook_deliveries_pg now ws d)) =
     map content (webhook_deliveries (insert_webhook_deliveries now ws d))"
proof -
  let ?t = "webhook_deliveries d"
  let ?new = "filter (\<lambda>w. \<not> exists_where (same_delivery w) ?t) ws"
  have "map content (webhook_deliveries (insert_candidates_pg now ?new d)) =
      fold (add_missing now) ?new (map content ?t)"
    by (rule pg_contents) auto
  also have "\<dots> = fold (add_missing now) ws (map content ?t)"
    by (rule add_missing_skip [symmetric]) (simp add: exists_content del: exists_where_iff)
  also have "\<dots> = map content (webhook_deliveries (fold (insert_webhook_delivery now) ws d))"
    by (rule sqlite_contents [symmetric])
  finally show ?thesis
    by (simp add: insert_webhook_deliveries_pg_def insert_webhook_deliveries_def)
qed

text \<open>Enqueueing the same deliveries again does nothing.\<close>

lemma insert_webhook_delivery_known:
  "exists_where (same_delivery w) (webhook_deliveries d) \<Longrightarrow> insert_webhook_delivery now w d = d"
  by (simp add: insert_webhook_delivery_def)

lemma insert_webhook_delivery_grows:
  "exists_where (same_delivery v) (webhook_deliveries d) \<Longrightarrow>
     exists_where (same_delivery v) (webhook_deliveries (insert_webhook_delivery now w d))"
  "exists_where (same_delivery w) (webhook_deliveries (insert_webhook_delivery now w d))"
  by (auto simp: insert_webhook_delivery_def same_delivery_def)

lemma fold_insert_grows:
  "exists_where (same_delivery v) (webhook_deliveries d) \<Longrightarrow>
     exists_where (same_delivery v) (webhook_deliveries (fold (insert_webhook_delivery now) ws d))"
  by (induction ws arbitrary: d) (simp_all add: insert_webhook_delivery_grows del: exists_where_iff)

lemma fold_insert_known:
  "w \<in> set ws \<Longrightarrow> exists_where (same_delivery w) (webhook_deliveries (fold (insert_webhook_delivery now) ws d))"
proof (induction ws arbitrary: d)
  case (Cons v ws)
  then show ?case
    using fold_insert_grows [OF insert_webhook_delivery_grows(2)] by (cases "w = v") simp_all
qed simp

lemma insert_webhook_deliveries_idem:
  "insert_webhook_deliveries now' ws (insert_webhook_deliveries now ws d) = insert_webhook_deliveries now ws d"
proof -
  have noop: "fold (insert_webhook_delivery now') us d = d"
    if "\<forall>w \<in> set us. exists_where (same_delivery w) (webhook_deliveries d)" for us d
    using that by (induction us) (simp_all add: insert_webhook_delivery_known del: exists_where_iff)
  show ?thesis
    using noop [of ws "fold (insert_webhook_delivery now) ws d"] fold_insert_known
    by (simp add: insert_webhook_deliveries_def del: exists_where_iff)
qed

end
