(* ===== verification/Lnurl_Payments_Thms.thy ===== *)
theory Lnurl_Payments_Thms
  imports Lnurl_Invoices Lnurl_Queues
begin

text \<open>The properties of the payment tables and the two work queues, with concrete instances.\<close>

section \<open>Settlement\<close>

definition open_invoice :: invoice where
  "open_invoice = \<lparr>inv_account_id = None, inv_provider = Some Spark, inv_wallet_kind = None,
     inv_wallet_id = None, inv_provider_payment_hash = None, inv_payment_hash = ''ph1'',
     inv_user_pubkey = ''02aa'', inv_invoice = ''lnbc1'', inv_preimage = None, inv_expired_at = Some 5,
     inv_invoice_expiry = 90, inv_created_at = 1, inv_updated_at = 1, inv_domain = Some ''x.org'',
     inv_amount_received_sat = None\<rparr>"

definition paid_invoice :: invoice where
  "paid_invoice = open_invoice\<lparr>inv_preimage := Some ''pre1'', inv_expired_at := None, inv_updated_at := 7\<rparr>"

definition open_db :: db where
  "open_db = empty_db\<lparr>invoices := [open_invoice]\<rparr>"

definition settled_db :: db where
  "settled_db = (case upsert_invoices_paid [paid_invoice] open_db of Inl _ \<Rightarrow> open_db | Inr (_, d) \<Rightarrow> d)"

lemma settled_db_ok: "upsert_invoices_paid [paid_invoice] open_db = Inr ([''ph1''], settled_db)"
  unfolding settled_db_def by code_simp



text \<open>
  On a batch that names no payment hash twice, PostgreSQL's single statement and SQLite's loop
  return the same result and write the same rows.
\<close>

theorem settle_batch_backends:
  assumes "distinct (map inv_payment_hash is)"
  shows "upsert_invoices_paid_pg is d = upsert_invoices_paid is d"
  using settle_rows_pg_eq [OF assms, of "[]" d]
  by (simp add: upsert_invoices_paid_pg_def upsert_invoices_paid_def)

theorem settle_batch_backends_witness:
  "upsert_invoices_paid_pg [paid_invoice] open_db = Inr ([''ph1''], settled_db)"
  using settle_batch_backends [of "[paid_invoice]" open_db] settled_db_ok by simp

text \<open>
  C13: on a batch that repeats an unsettled payment hash the backends differ: SQLite settles it
  once, PostgreSQL rejects the whole batch because one statement would write a row twice.
\<close>

theorem settle_batch_repeated:
  assumes "inv_preimage i \<noteq> None" "account_ref_ok d (inv_account_id i)" "\<not> settled i d"
  shows "upsert_invoices_paid_pg [i, i] d = Inl (General CardinalityViolation) \<and>
    (\<exists>d'. upsert_invoices_paid [i, i] d = Inr ([inv_payment_hash i], d'))"
proof -
  obtain d1 where d1: "settle_row i d = Inr (Some (inv_payment_hash i), d1)"
  proof (cases "exists_where (\<lambda>r. inv_payment_hash r = inv_payment_hash i) (invoices d)")
    case True
    with assms(2,3) that show thesis by (simp add: settle_row_def settled_def del: exists_where_iff)
  next
    case False
    with assms(2) that show thesis by (simp add: settle_row_def del: exists_where_iff)
  qed
  have "settle_row i d1 = Inr (None, d1)"
    using settle_row_settled settle_row_settles [OF d1 assms(1)] by blast
  with d1 show ?thesis by (simp add: upsert_invoices_paid_pg_def upsert_invoices_paid_def)
qed

theorem settle_batch_repeated_witness:
  "upsert_invoices_paid_pg [paid_invoice, paid_invoice] open_db = Inl (General CardinalityViolation)"
proof -
  have "\<not> settled paid_invoice open_db" by code_simp
  with settle_batch_repeated [of paid_invoice open_db] show ?thesis
    by (simp add: paid_invoice_def open_invoice_def account_ref_ok_def)
qed

section \<open>Work queues\<close>

definition receipt :: pending_zap_receipt where
  "receipt = \<lparr>pz_payment_hash = ''ph1'', pz_created_at = 1, pz_retry_count = 0, pz_next_retry_at = 1,
     pz_claimed_at = None\<rparr>"

definition queue_db :: db where
  "queue_db = insert_webhook_deliveries 1
     [\<lparr>nd_identifier = ''ph1'', nd_domain = ''x.org'', nd_payload = ''{}''\<rparr>,
      \<lparr>nd_identifier = ''ph2'', nd_domain = ''x.org'', nd_payload = ''{}''\<rparr>]
     (insert_pending_zap_receipt receipt empty_db)"

lemma queue_db_inv: "queues_inv queue_db"
  unfolding queue_db_def
  by (intro insert_webhook_deliveries_inv insert_pending_zap_receipt_inv queues_inv_empty)



text \<open>
  A poll of the webhook queue returns at most one delivery per domain, each due, not yet
  delivered and not under a live claim; what it returns is not returned again within five minutes,
  and PostgreSQL's query returns the same deliveries and leaves the same table as SQLite's.
\<close>

theorem webhooks_leased:
  assumes inv: "queues_inv d" and t: "0 \<le> now'" "now' \<le> now + 300000"
  shows "distinct (map wd_domain (fst (take_pending_webhook_deliveries now d))) \<and>
    (\<forall>r \<in> set (fst (take_pending_webhook_deliveries now d)). \<exists>r0 \<in> set (webhook_deliveries d).
      r = r0\<lparr>wd_claimed_at := Some now\<rparr> \<and> wd_succeeded_at r0 = None \<and> wd_next_retry_at r0 \<le> now) \<and>
    wd_id ` set (fst (take_pending_webhook_deliveries now d)) \<inter>
      wd_id ` set (fst (take_pending_webhook_deliveries now' (snd (take_pending_webhook_deliveries now d)))) = {} \<and>
    take_pending_webhook_deliveries_pg now d = take_pending_webhook_deliveries now d"
proof -
  have u: "unique_by wd_id (webhook_deliveries d)" using inv by (simp add: queues_inv_def)
  have "\<exists>r0 \<in> set (webhook_deliveries d). r = r0\<lparr>wd_claimed_at := Some now\<rparr> \<and>
      wd_succeeded_at r0 = None \<and> wd_next_retry_at r0 \<le> now"
    if r: "r \<in> set (fst (take_pending_webhook_deliveries now d))" for r
  proof -
    obtain r0 where "r0 \<in> set (webhook_deliveries d)" "delivery_ready now r0" "r = claim_delivery now r0"
      using webhook_queue.grab_can [OF u r] by blast
    then show ?thesis
      by (intro bexI [of _ r0]) (simp_all add: delivery_ready_def ready_def claim_delivery_def)
  qed
  moreover have "wd_id ` set (fst (take_pending_webhook_deliveries now d)) \<inter>
      wd_id ` set (fst (take_pending_webhook_deliveries now' (snd (take_pending_webhook_deliveries now d)))) = {}"
    using webhook_queue.not_grabbed_twice [OF u _ t] by blast
  ultimately show ?thesis
    using take_one_per_domain [OF u] take_deliveries_backends by blast
qed

theorem webhooks_leased_witness:
  "distinct (map wd_domain (fst (take_pending_webhook_deliveries 400001 queue_db)))"
  using webhooks_leased [OF queue_db_inv, of 400001 400001] by simp

text \<open>
  Enqueueing webhook deliveries is idempotent, and the two backends enqueue the same
  deliveries, up to the generated ids.
\<close>

theorem enqueue_deliveries:
  "insert_webhook_deliveries now' ws (insert_webhook_deliveries now ws d) = insert_webhook_deliveries now ws d \<and>
   map (\<lambda>r. r\<lparr>wd_id := 0\<rparr>) (webhook_deliveries (insert_webhook_deliveries_pg now ws d)) =
   map (\<lambda>r. r\<lparr>wd_id := 0\<rparr>) (webhook_deliveries (insert_webhook_deliveries now ws d))"
  using insert_webhook_deliveries_idem insert_deliveries_backends [unfolded content_def] by blast

text \<open>
  A parked delivery is never taken again as long as the clock has not reached the largest
  64-bit integer.
\<close>

theorem parked_never_taken:
  assumes "queues_inv d" "now < i64_max"
  shows "i \<notin> wd_id ` set (fst (take_pending_webhook_deliveries now (park_webhook_delivery i d)))"
proof
  let ?d = "park_webhook_delivery i d"
  have u: "unique_by wd_id (webhook_deliveries ?d)"
    using assms(1) by (simp add: queues_inv_def park_webhook_delivery_def unique_by_update)
  assume "i \<in> wd_id ` set (fst (take_pending_webhook_deliveries now ?d))"
  then obtain r where r: "r \<in> set (fst (take_pending_webhook_deliveries now ?d))" "wd_id r = i" by blast
  obtain r0 where r0: "r0 \<in> set (webhook_deliveries ?d)" "delivery_ready now r0" "r = claim_delivery now r0"
    using webhook_queue.grab_can [OF u r(1)] by blast
  have "wd_id r0 = i" using r(2) r0(3) by simp
  then have "wd_next_retry_at r0 = i64_max" by (rule parked_row [OF r0(1)])
  with parked_not_ready [OF assms(2), of r0] r0(2) show False by simp
qed

theorem parked_never_taken_witness:
  "1 \<notin> wd_id ` set (fst (take_pending_webhook_deliveries 400001 (park_webhook_delivery 1 queue_db)))"
  using parked_never_taken [OF queue_db_inv] by simp

end
