(* ===== verification/Lnurl_Limits.thy ===== *)
theory Lnurl_Limits
  imports Lnurl_Prelude
begin

text \<open>
  The in-process budgets of \<open>rate_limit.rs\<close> (the per-IP limiter and the global lookup budget) and
  the country resolver of \<open>country.rs\<close>. An \<open>Instant\<close> and a \<open>Duration\<close> are natural numbers of
  nanoseconds, so \<open>duration_since\<close>, which saturates at zero, is subtraction on \<^typ>\<open>nat\<close>. The clock
  reading of a call is an argument. The mutex makes each call one atomic step.
\<close>

section \<open>Data\<close>

datatype ip_addr = IpV4 "32 word" | IpV6 "128 word"

record window =
  w_started_at :: nat
  w_count :: u32

record rate_limiter =
  rl_max_requests :: u32
  rl_window :: nat
  rl_max_tracked_ips :: nat
  rl_allow_untrusted :: bool
  rl_counters :: "(ip_addr \<times> window) list"
  rl_saturated :: bool

record global_budget =
  gb_max :: u32
  gb_window :: nat
  gb_state :: window

section \<open>Operations\<close>

text \<open>The network part of an IPv6 address is its upper 64 bits.\<close>

fun bucket :: "ip_addr \<Rightarrow> ip_addr" where
  "bucket (IpV4 a) = IpV4 a"
| "bucket (IpV6 a) = IpV6 (push_bit 64 (drop_bit 64 a))"

definition limiter_new :: "u32 \<Rightarrow> nat \<Rightarrow> nat \<Rightarrow> bool \<Rightarrow> rate_limiter" where
  "limiter_new max_requests window max_tracked_ips allow_untrusted =
     \<lparr>rl_max_requests = max_requests, rl_window = window, rl_max_tracked_ips = max_tracked_ips,
      rl_allow_untrusted = allow_untrusted, rl_counters = [], rl_saturated = False\<rparr>"

text \<open>The reset and the increment that the two budgets do in the same way.\<close>

definition fresh_window :: "nat \<Rightarrow> window" where
  "fresh_window now = \<lparr>w_started_at = now, w_count = 0\<rparr>"

definition window_hit :: "nat \<Rightarrow> nat \<Rightarrow> window \<Rightarrow> window" where
  "window_hit span now w =
     (let w = (if span \<le> now - w_started_at w then fresh_window now else w) in
      w\<lparr>w_count := u32_saturating_add (w_count w) 1\<rparr>)"

definition set_counter :: "ip_addr \<Rightarrow> window \<Rightarrow> (ip_addr \<times> window) list \<Rightarrow> (ip_addr \<times> window) list" where
  "set_counter ip w c = map (\<lambda>(k, v). if k = ip then (k, w) else (k, v)) c"

definition limiter_check :: "nat \<Rightarrow> ip_addr option \<Rightarrow> rate_limiter \<Rightarrow> bool \<times> rate_limiter" where
  "limiter_check now ip l =
     (case ip of None \<Rightarrow> (rl_allow_untrusted l, l)
      | Some ip \<Rightarrow>
        (let ip = bucket ip;
             counters = rl_counters l;
             is_new = (map_of counters ip = None);
             full = (is_new \<and> rl_max_tracked_ips l \<le> length counters);
             counters = (if full then filter (\<lambda>(_, w). now - w_started_at w < rl_window l) counters
                         else counters)
         in if full \<and> rl_max_tracked_ips l \<le> length counters
            then (False, l\<lparr>rl_counters := counters, rl_saturated := True\<rparr>)
            else
              (let saturated = (if is_new then False else rl_saturated l);
                   counters = (if is_new then counters @ [(ip, fresh_window now)] else counters);
                   w = window_hit (rl_window l) now (the (map_of counters ip));
                   counters = set_counter ip w counters
               in (w_count w \<le> rl_max_requests l,
                   l\<lparr>rl_counters := counters, rl_saturated := saturated\<rparr>))))"

definition budget_new :: "u32 \<Rightarrow> nat \<Rightarrow> nat \<Rightarrow> global_budget" where
  "budget_new mx span now = \<lparr>gb_max = mx, gb_window = span, gb_state = fresh_window now\<rparr>"

definition budget_spend :: "nat \<Rightarrow> global_budget \<Rightarrow> bool \<times> global_budget" where
  "budget_spend now b =
     (let w = window_hit (gb_window b) now (gb_state b) in
      (w_count w \<le> gb_max b, b\<lparr>gb_state := w\<rparr>))"

section \<open>Fixed windows\<close>

lemma unat_u32_max: "unat (- 1 :: u32) = 2 ^ 32 - 1"
  by (simp add: unsigned_minus_1_eq_mask mask_eq_exp_minus_1)

lemma unat_u32_saturating_add: "unat (u32_saturating_add a 1) = min (Suc (unat a)) (2 ^ 32 - 1)"
proof -
  have u: "uint a + 1 < 2 ^ 32 \<longleftrightarrow> unat a + 1 < 2 ^ 32"
  proof -
    have "uint a + 1 = int (unat a + 1)" "(2 ^ 32 :: int) = int (2 ^ 32)" by simp_all
    then show ?thesis by (simp only: of_nat_less_iff)
  qed
  show ?thesis
  proof (cases "unat a + 1 < 2 ^ 32")
    case True
    then have "unat (a + 1) = unat a + 1"
      using unat_add_lem [of a 1] by simp
    moreover have "uint a + 1 < 2 ^ 32" using True u by blast
    ultimately show ?thesis using True by (simp add: u32_saturating_add_def)
  next
    case False
    then have "\<not> uint a + 1 < 2 ^ 32" using u by blast
    then have "u32_saturating_add a 1 = - 1" by (simp add: u32_saturating_add_def)
    with False unat_u32_max show ?thesis by simp
  qed
qed

text \<open>
  What both budgets promise of the window of one client: a call of that client counts in its
  window, starting a new one only when the old one has run out, and accepts within the maximum;
  any other call leaves the window alone or drops it after it has run out. From this follows, for
  both, how many calls are accepted in any stretch of time shorter than the window.
\<close>

fun budget_run :: "(nat \<Rightarrow> 'q \<Rightarrow> 's \<Rightarrow> bool \<times> 's) \<Rightarrow> (nat \<times> 'q) list \<Rightarrow> 's \<Rightarrow> bool list \<times> 's" where
  "budget_run step [] s = ([], s)"
| "budget_run step ((now, q) # qs) s =
     (let (ok, s) = step now q s; (oks, s) = budget_run step qs s in (ok # oks, s))"

definition accepted :: "('q \<Rightarrow> bool) \<Rightarrow> (nat \<times> 'q) list \<Rightarrow> bool list \<Rightarrow> nat" where
  "accepted mine qs oks = length (filter (\<lambda>((now, q), ok). mine q \<and> ok) (zip qs oks))"

lemma accepted_simps [simp]:
  "accepted mine [] oks = 0"
  "accepted mine ((now, q) # qs) (ok # oks) = (if mine q \<and> ok then Suc else id) (accepted mine qs oks)"
  by (simp_all add: accepted_def)

locale fixed_window =
  fixes step :: "nat \<Rightarrow> 'q \<Rightarrow> 's \<Rightarrow> bool \<times> 's"
    and valid :: "'s \<Rightarrow> bool"
    and mine :: "'q \<Rightarrow> bool"
    and cell :: "'s \<Rightarrow> window option"
    and span :: nat
    and mx :: u32
  assumes valid_step: "valid s \<Longrightarrow> valid (snd (step now q s))"
    and own: "valid s \<Longrightarrow> mine q \<Longrightarrow>
      \<not> fst (step now q s) \<and> cell (snd (step now q s)) = cell s \<or>
      (\<exists>w. (cell s = Some w \<or> cell s = None \<and> w = fresh_window now) \<and>
        cell (snd (step now q s)) = Some (window_hit span now w) \<and>
        fst (step now q s) = (w_count (window_hit span now w) \<le> mx))"
    and other: "valid s \<Longrightarrow> \<not> mine q \<Longrightarrow>
      cell (snd (step now q s)) = cell s \<or>
      (\<exists>w. cell s = Some w \<and> span \<le> now - w_started_at w \<and> cell (snd (step now q s)) = None)"
begin

definition left :: "nat \<Rightarrow> window option \<Rightarrow> nat" where
  "left t c = (case c of None \<Rightarrow> unat mx
     | Some w \<Rightarrow> (unat mx - unat (w_count w)) + (if t \<le> w_started_at w then 0 else unat mx))"

lemma left_le: "left t c \<le> 2 * unat mx"
  by (auto simp: left_def split: option.splits)

lemma unat_hit_count:
  "unat (w_count (window_hit span now w)) =
     min (Suc (if span \<le> now - w_started_at w then 0 else unat (w_count w))) (2 ^ 32 - 1)"
  by (simp add: window_hit_def Let_def fresh_window_def unat_u32_saturating_add)

lemma hit_started:
  "w_started_at (window_hit span now w) = (if span \<le> now - w_started_at w then now else w_started_at w)"
  by (simp add: window_hit_def Let_def fresh_window_def)

lemma unat_mx:
  assumes bounded: "mx \<noteq> - 1"
  shows "unat mx < 2 ^ 32 - 1"
proof -
  have "unat mx \<noteq> unat (- 1 :: u32)" using bounded word_unat_eq_iff by blast
  moreover have "unat mx < 2 ^ 32" using unsigned_less [where ?'a = nat and w = mx] by simp
  ultimately show ?thesis unfolding unat_u32_max by linarith
qed

lemma left_hit:
  assumes bounded: "mx \<noteq> - 1" and t: "t \<le> now" "now < t + span" and c: "c = Some w \<or> c = None \<and> w = fresh_window now"
  shows "(if w_count (window_hit span now w) \<le> mx then 1 else 0) + left t (Some (window_hit span now w)) \<le> left t c"
proof -
  have new: "0 < span" "t \<le> w_started_at w \<Longrightarrow> \<not> span \<le> now - w_started_at w" using t by linarith+
  show ?thesis
    using c t unat_mx [OF bounded] new
    by (auto simp: left_def word_le_nat_alt unat_hit_count hit_started fresh_window_def split: if_splits)
qed

lemma left_step:
  assumes bounded: "mx \<noteq> - 1" and st: "valid s" "t \<le> now" "now < t + span"
  shows "(if mine q \<and> fst (step now q s) then 1 else 0) + left t (cell (snd (step now q s))) \<le> left t (cell s)"
proof (cases "mine q")
  case True
  from own [OF st(1) True, of now] left_hit [OF bounded st(2,3)] show ?thesis
    using True by fastforce
next
  case False
  have "left t None \<le> left t (Some w)" if "span \<le> now - w_started_at w" for w
    using that st(2,3) by (auto simp: left_def)
  with other [OF st(1) False, of now] False show ?thesis by fastforce
qed

lemma run_bound:
  assumes bounded: "mx \<noteq> - 1" and "valid s" "\<forall>(now, q) \<in> set qs. t \<le> now \<and> now < t + span"
  shows "accepted mine qs (fst (budget_run step qs s)) \<le> left t (cell s)"
  using assms(2-)
proof (induction qs arbitrary: s)
  case Nil
  then show ?case by simp
next
  case (Cons a qs)
  obtain now q where a: "a = (now, q)" by (cases a)
  obtain ok s' where st: "step now q s = (ok, s')" by (cases "step now q s")
  have "accepted mine qs (fst (budget_run step qs s')) \<le> left t (cell s')"
    using Cons.IH [of s'] Cons.prems valid_step [OF Cons.prems(1), of now q] st by simp
  with left_step [OF bounded Cons.prems(1), of t now q] Cons.prems(2) a st show ?case
    by (auto simp: split_beta Let_def split: if_splits)
qed

lemma run_at_most_twice:
  assumes bounded: "mx \<noteq> - 1" and "valid s" "\<forall>(now, q) \<in> set qs. t \<le> now \<and> now < t + span"
  shows "accepted mine qs (fst (budget_run step qs s)) \<le> 2 * unat mx"
  using run_bound [OF assms] left_le le_trans by blast

end

section \<open>The two budgets\<close>

lemma map_of_replace:
  "map_of (set_counter a w c) k = (if k = a \<and> map_of c k \<noteq> None then Some w else map_of c k)"
  by (induction c) (auto simp: set_counter_def)

lemma map_of_retain:
  "distinct (map fst c) \<Longrightarrow> map_of (filter (\<lambda>(_, v). P v) c) k =
     (case map_of c k of None \<Rightarrow> None | Some v \<Rightarrow> if P v then Some v else None)"
  by (induction c) (auto split: option.splits simp: map_of_eq_None_iff)

lemma keys_replace:
  "map fst (set_counter a w c) = map fst c" "length (set_counter a w c) = length c"
  by (induction c) (auto simp: set_counter_def)

lemma distinct_retain: "distinct (map fst c) \<Longrightarrow> distinct (map fst (filter P c))"
  by (induction c) auto

definition limiter_inv :: "nat \<Rightarrow> u32 \<Rightarrow> rate_limiter \<Rightarrow> bool" where
  "limiter_inv span mx l \<longleftrightarrow> rl_window l = span \<and> rl_max_requests l = mx \<and>
     distinct (map fst (rl_counters l)) \<and> length (rl_counters l) \<le> rl_max_tracked_ips l"

definition ip_window :: "ip_addr \<Rightarrow> rate_limiter \<Rightarrow> window option" where
  "ip_window b l = map_of (rl_counters l) b"

definition from_bucket :: "ip_addr \<Rightarrow> ip_addr option \<Rightarrow> bool" where
  "from_bucket b q \<longleftrightarrow> map_option bucket q = Some b"

definition live_counters :: "nat \<Rightarrow> rate_limiter \<Rightarrow> (ip_addr \<times> window) list" where
  "live_counters now l = filter (\<lambda>(_, w). now - w_started_at w < rl_window l) (rl_counters l)"

text \<open>The three ways a call with an address can go.\<close>

lemma check_tracked:
  assumes "ip_window (bucket ip) l = Some w"
  shows "limiter_check now (Some ip) l =
    (w_count (window_hit (rl_window l) now w) \<le> rl_max_requests l,
     l\<lparr>rl_counters := set_counter (bucket ip) (window_hit (rl_window l) now w) (rl_counters l)\<rparr>)"
  using assms by (simp add: limiter_check_def ip_window_def Let_def)

lemma check_refused:
  assumes "ip_window (bucket ip) l = None" "rl_max_tracked_ips l \<le> length (live_counters now l)"
  shows "limiter_check now (Some ip) l =
    (False, l\<lparr>rl_counters := live_counters now l, rl_saturated := True\<rparr>)"
proof -
  have "length (live_counters now l) \<le> length (rl_counters l)" by (simp add: live_counters_def)
  with assms have "rl_max_tracked_ips l \<le> length (rl_counters l)" by linarith
  with assms show ?thesis
    by (simp add: limiter_check_def ip_window_def live_counters_def [symmetric])
qed

definition kept_counters :: "nat \<Rightarrow> rate_limiter \<Rightarrow> (ip_addr \<times> window) list" where
  "kept_counters now l =
     (if rl_max_tracked_ips l \<le> length (rl_counters l) then live_counters now l else rl_counters l)"

lemma check_new:
  assumes "ip_window (bucket ip) l = None" "\<not> rl_max_tracked_ips l \<le> length (live_counters now l)"
  shows "limiter_check now (Some ip) l =
    (w_count (window_hit (rl_window l) now (fresh_window now)) \<le> rl_max_requests l,
     l\<lparr>rl_counters := set_counter (bucket ip) (window_hit (rl_window l) now (fresh_window now))
         (kept_counters now l @ [(bucket ip, fresh_window now)]),
       rl_saturated := False\<rparr>)"
proof -
  have "map_of (live_counters now l) (bucket ip) = None"
    using assms(1) by (auto simp: ip_window_def live_counters_def map_of_eq_None_iff)
  with assms show ?thesis
    by (simp add: limiter_check_def ip_window_def kept_counters_def live_counters_def [symmetric]
        map_add_def Let_def)
qed

lemma kept_window:
  assumes "limiter_inv span mx l"
  shows "map_of (kept_counters now l) b = ip_window b l \<or>
    (\<exists>w. ip_window b l = Some w \<and> span \<le> now - w_started_at w \<and> map_of (kept_counters now l) b = None)"
  using assms map_of_retain [of "rl_counters l" "\<lambda>w. now - w_started_at w < rl_window l" b]
  by (auto simp: kept_counters_def live_counters_def ip_window_def limiter_inv_def split: option.splits)

lemma limiter_inv_check:
  assumes inv: "limiter_inv span mx l"
  shows "limiter_inv span mx (snd (limiter_check now q l))"
proof (cases q)
  case None
  with inv show ?thesis by (simp add: limiter_check_def)
next
  case (Some ip)
  have kept: "distinct (map fst (kept_counters now l))" "length (kept_counters now l) \<le> length (rl_counters l)"
    "set (map fst (kept_counters now l)) \<subseteq> set (map fst (rl_counters l))"
    using inv distinct_retain by (auto simp: kept_counters_def live_counters_def limiter_inv_def)
  show ?thesis
  proof (cases "ip_window (bucket ip) l")
    case (Some w)
    from check_tracked [OF this] inv \<open>q = Some ip\<close> show ?thesis
      by (simp add: limiter_inv_def keys_replace)
  next
    case new: None
    then have "bucket ip \<notin> set (map fst (rl_counters l))" by (simp add: ip_window_def map_of_eq_None_iff)
    with kept have d: "distinct (map fst (kept_counters now l @ [(bucket ip, fresh_window now)]))" by auto
    show ?thesis
    proof (cases "rl_max_tracked_ips l \<le> length (live_counters now l)")
      case True
      have "length (live_counters now l) \<le> length (rl_counters l)" by (simp add: live_counters_def)
      moreover have "distinct (map fst (live_counters now l))"
        using inv distinct_retain by (auto simp: live_counters_def limiter_inv_def)
      ultimately show ?thesis
        using check_refused [OF new True] inv Some by (simp add: limiter_inv_def)
    next
      case False
      then have "length (kept_counters now l) < rl_max_tracked_ips l" by (simp add: kept_counters_def)
      with check_new [OF new False] inv Some d show ?thesis
        by (simp add: limiter_inv_def keys_replace del: map_append)
    qed
  qed
qed

lemma live_window:
  assumes "limiter_inv span mx l"
  shows "map_of (live_counters now l) b = (case ip_window b l of None \<Rightarrow> None
      | Some w \<Rightarrow> if now - w_started_at w < span then Some w else None)"
  using map_of_retain [of "rl_counters l"] assms
  by (simp add: live_counters_def ip_window_def limiter_inv_def)

text \<open>A call with an address counts in a tracked window, is refused with a full table, or opens a window.\<close>

lemma check_cases:
  obtains (untrusted) "q = None"
  | (tracked) ip w where "q = Some ip" "ip_window (bucket ip) l = Some w"
  | (full) ip where "q = Some ip" "ip_window (bucket ip) l = None"
      "rl_max_tracked_ips l \<le> length (live_counters now l)"
  | (opened) ip where "q = Some ip" "ip_window (bucket ip) l = None"
      "\<not> rl_max_tracked_ips l \<le> length (live_counters now l)"
  by (cases q; cases "ip_window (bucket (the q)) l") auto

lemma check_own_window:
  assumes inv: "limiter_inv span mx l" and m: "from_bucket b q"
  shows "\<not> fst (limiter_check now q l) \<and> ip_window b (snd (limiter_check now q l)) = ip_window b l \<or>
    (\<exists>w. (ip_window b l = Some w \<or> ip_window b l = None \<and> w = fresh_window now) \<and>
      ip_window b (snd (limiter_check now q l)) = Some (window_hit span now w) \<and>
      fst (limiter_check now q l) = (w_count (window_hit span now w) \<le> mx))"
proof -
  note defs = from_bucket_def ip_window_def map_of_replace limiter_inv_def
  show ?thesis
  proof (cases rule: check_cases [where q = q and l = l and now = now])
    case untrusted
    with m show ?thesis by (simp add: from_bucket_def)
  next
    case (tracked ip w)
    with check_tracked [OF tracked(2), of now] m inv show ?thesis by (auto simp: defs)
  next
    case (full ip)
    with check_refused [OF full(2,3)] m live_window [OF inv, of now b] show ?thesis
      by (simp add: from_bucket_def ip_window_def)
  next
    case (opened ip)
    with check_new [OF opened(2,3)] m inv kept_window [OF inv, of now b] show ?thesis by (auto simp: defs)
  qed
qed

lemma check_other_window:
  assumes inv: "limiter_inv span mx l" and m: "\<not> from_bucket b q"
  shows "ip_window b (snd (limiter_check now q l)) = ip_window b l \<or>
    (\<exists>w. ip_window b l = Some w \<and> span \<le> now - w_started_at w \<and>
      ip_window b (snd (limiter_check now q l)) = None)"
proof (cases rule: check_cases [where q = q and l = l and now = now])
  case untrusted
  then show ?thesis by (simp add: limiter_check_def)
next
  case (tracked ip w)
  with check_tracked [OF tracked(2), of now] m show ?thesis
    by (auto simp: from_bucket_def ip_window_def map_of_replace)
next
  case (full ip)
  with check_refused [OF full(2,3)] live_window [OF inv, of now b] show ?thesis
    by (auto simp: ip_window_def split: option.splits if_splits)
next
  case (opened ip)
  then have "bucket ip \<noteq> b" using m by (simp add: from_bucket_def)
  then have "ip_window b (snd (limiter_check now q l)) = map_of (kept_counters now l) b"
    using check_new [OF opened(2,3)] opened(1)
    by (auto simp: ip_window_def map_of_replace map_add_def split: option.splits)
  with kept_window [OF inv, of now b] show ?thesis by simp
qed

interpretation limiter_window: fixed_window limiter_check "limiter_inv span mx" "from_bucket b" "ip_window b" span mx
  for span mx b
proof
  fix s now q
  assume v: "limiter_inv span mx s"
  show "limiter_inv span mx (snd (limiter_check now q s))" using limiter_inv_check [OF v] .
  show "from_bucket b q \<Longrightarrow>
      \<not> fst (limiter_check now q s) \<and> ip_window b (snd (limiter_check now q s)) = ip_window b s \<or>
      (\<exists>w. (ip_window b s = Some w \<or> ip_window b s = None \<and> w = fresh_window now) \<and>
        ip_window b (snd (limiter_check now q s)) = Some (window_hit span now w) \<and>
        fst (limiter_check now q s) = (w_count (window_hit span now w) \<le> mx))"
    by (rule check_own_window [OF v])
  show "\<not> from_bucket b q \<Longrightarrow> ip_window b (snd (limiter_check now q s)) = ip_window b s \<or>
      (\<exists>w. ip_window b s = Some w \<and> span \<le> now - w_started_at w \<and>
        ip_window b (snd (limiter_check now q s)) = None)"
    by (rule check_other_window [OF v])
qed

interpretation budget_window: fixed_window "\<lambda>now (_ :: unit). budget_spend now"
    "\<lambda>g. gb_window g = span \<and> gb_max g = mx" "\<lambda>_. True" "\<lambda>g. Some (gb_state g)" span mx
  for span mx
  by unfold_locales (auto simp: budget_spend_def Let_def)

lemma limiter_inv_run:
  "limiter_inv span mx l \<Longrightarrow> limiter_inv span mx (snd (budget_run limiter_check qs l))"
  by (induction qs arbitrary: l) (auto simp: split_beta Let_def limiter_inv_check)

lemma limiter_inv_new: "limiter_inv span mx (limiter_new mx span n a)"
  by (simp add: limiter_inv_def limiter_new_def)

lemma max_tracked_check: "rl_max_tracked_ips (snd (limiter_check now q l)) = rl_max_tracked_ips l"
  by (simp add: limiter_check_def Let_def split: option.splits)

lemma max_tracked_run: "rl_max_tracked_ips (snd (budget_run limiter_check qs l)) = rl_max_tracked_ips l"
  by (induction qs arbitrary: l) (auto simp: split_beta Let_def max_tracked_check)

lemma hit_accepts:
  assumes "mx \<noteq> - 1"
  shows "w_count (window_hit span now w) \<le> mx \<longleftrightarrow>
    (if now - w_started_at w < span then w_count w < mx else mx \<noteq> 0)"
proof -
  have m: "unat mx < 2 ^ 32 - 1" by (rule budget_window.unat_mx [OF assms])
  have z: "mx = 0 \<longleftrightarrow> unat mx = 0" by (simp add: unat_eq_0)
  show ?thesis
    unfolding z word_le_nat_alt word_less_nat_alt budget_window.unat_hit_count using m by auto
qed

section \<open>Properties of the budgets\<close>

text \<open>
  C15: starting from a new limiter, whatever the calls, the table tracks at most the configured
  number of addresses, each once; and in any stretch of time shorter than the window one bucket
  (an IPv4 address or an IPv6 /64) has at most twice the budget of calls accepted, unless the
  budget is the largest 32-bit number, which the saturating counter cannot exceed.
\<close>

theorem limiter_bounds:
  fixes mx :: u32
  assumes "mx \<noteq> - 1" "\<forall>(now, q) \<in> set qs. t \<le> now \<and> now < t + span"
  shows "let l = snd (budget_run limiter_check before (limiter_new mx span tracked untrusted)) in
    length (rl_counters l) \<le> tracked \<and> distinct (map fst (rl_counters l)) \<and>
    accepted (from_bucket b) qs (fst (budget_run limiter_check qs l)) \<le> 2 * unat mx"
proof -
  let ?l = "snd (budget_run limiter_check before (limiter_new mx span tracked untrusted))"
  have inv: "limiter_inv span mx ?l" by (rule limiter_inv_run [OF limiter_inv_new])
  have "rl_max_tracked_ips ?l = tracked" by (simp add: max_tracked_run limiter_new_def)
  with inv limiter_window.run_at_most_twice [OF assms(1) inv assms(2)] show ?thesis
    by (simp add: Let_def limiter_inv_def)
qed

theorem limiter_bounds_witness:
  "accepted (from_bucket (IpV4 7)) [(10, Some (IpV4 7)), (11, Some (IpV4 7)), (12, Some (IpV4 7))]
     (fst (budget_run limiter_check [(10, Some (IpV4 7)), (11, Some (IpV4 7)), (12, Some (IpV4 7))]
       (snd (budget_run limiter_check [(1, Some (IpV4 7))] (limiter_new 1 5 100 False))))) \<le> 2"
  using limiter_bounds [of 1 "[(10, Some (IpV4 7)), (11, Some (IpV4 7)), (12, Some (IpV4 7))]" 8 5
      "[(1, Some (IpV4 7))]" 100 False "IpV4 7"]
  by (simp add: Let_def)

text \<open>
  A limited call is refused only for its own doing or for want of room: with an address it is
  refused exactly when the live window of its bucket has used the budget, or when its bucket is
  untracked and the table is full of live windows (or the budget is zero); without an address
  exactly when untrusted callers are not allowed. The live window of any other bucket is unchanged.
\<close>

theorem limiter_refuses_exactly:
  assumes inv: "limiter_inv span mx l" and mx: "mx \<noteq> - 1"
  shows "fst (limiter_check now None l) = rl_allow_untrusted l \<and>
    (\<not> fst (limiter_check now (Some ip) l) \<longleftrightarrow>
       (case ip_window (bucket ip) l of
          None \<Rightarrow> rl_max_tracked_ips l \<le> length (live_counters now l) \<or> mx = 0
        | Some w \<Rightarrow> if now - w_started_at w < span then mx \<le> w_count w else mx = 0)) \<and>
    (\<forall>b w. b \<noteq> bucket ip \<and> ip_window b l = Some w \<and> now - w_started_at w < span \<longrightarrow>
       ip_window b (snd (limiter_check now (Some ip) l)) = Some w)"
proof (intro conjI allI impI)
  show "fst (limiter_check now None l) = rl_allow_untrusted l" by (simp add: limiter_check_def)
  show "\<not> fst (limiter_check now (Some ip) l) \<longleftrightarrow>
       (case ip_window (bucket ip) l of
          None \<Rightarrow> rl_max_tracked_ips l \<le> length (live_counters now l) \<or> mx = 0
        | Some w \<Rightarrow> if now - w_started_at w < span then mx \<le> w_count w else mx = 0)"
  proof (cases rule: check_cases [where q = "Some ip" and l = l and now = now])
    case (tracked ip w)
    with check_tracked [OF tracked(2), of now] inv hit_accepts [OF mx] show ?thesis
      by (auto simp: limiter_inv_def)
  next
    case (full ip)
    with check_refused [OF full(2,3)] show ?thesis by simp
  next
    case (opened ip)
    with check_new [OF opened(2,3)] inv hit_accepts [OF mx] show ?thesis
      by (auto simp: limiter_inv_def fresh_window_def word_gt_0 not_less)
  qed simp
  fix b w
  assume "b \<noteq> bucket ip \<and> ip_window b l = Some w \<and> now - w_started_at w < span"
  with check_other_window [OF inv, of b "Some ip" now]
  show "ip_window b (snd (limiter_check now (Some ip) l)) = Some w"
    by (auto simp: from_bucket_def)
qed

theorem limiter_refuses_exactly_witness:
  "\<not> fst (limiter_check 11 (Some (IpV4 7)) (snd (limiter_check 10 (Some (IpV4 7)) (limiter_new 1 5 100 False))))"
proof -
  let ?l = "snd (limiter_check 10 (Some (IpV4 7)) (limiter_new 1 5 100 False))"
  have "limiter_inv 5 1 ?l" by (rule limiter_inv_check [OF limiter_inv_new])
  from limiter_refuses_exactly [OF this, of 11 "IpV4 7"]
  show ?thesis by (auto simp: limiter_check_def limiter_new_def ip_window_def window_hit_def
      fresh_window_def set_counter_def u32_saturating_add_def Let_def)
qed

text \<open>
  In any stretch of time shorter than its window the global budget lets at most twice its
  maximum of calls through, and it never refuses while its window has budget left.
\<close>

theorem budget_bounds:
  fixes mx :: u32
  assumes "mx \<noteq> - 1" "\<forall>(now, q) \<in> set qs. t \<le> now \<and> now < t + span" "gb_window g = span" "gb_max g = mx"
  shows "accepted (\<lambda>_. True) qs (fst (budget_run (\<lambda>now (_ :: unit). budget_spend now) qs g)) \<le> 2 * unat mx \<and>
    (w_count (gb_state g) < mx \<longrightarrow> fst (budget_spend now g))"
  using budget_window.run_at_most_twice [OF assms(1) _ assms(2), of g] assms(3,4) hit_accepts [OF assms(1)]
  by (auto simp: budget_spend_def Let_def intro: le_less_trans)

theorem budget_bounds_witness:
  "accepted (\<lambda>_. True) [(1, ()), (2, ()), (3, ())]
    (fst (budget_run (\<lambda>now (_ :: unit). budget_spend now) [(1, ()), (2, ()), (3, ())] (budget_new 1 5 0))) \<le> 2"
  using budget_bounds [of 1 "[(1, ()), (2, ()), (3, ())]" 0 5 "budget_new 1 5 0" 0]
  by (simp add: budget_new_def)

end
