(* ===== verification/Lnurl_Http.thy ===== *)
theory Lnurl_Http
  imports Lnurl_Limits
begin

text \<open>
  What the HTTP side of the program shares: JSON values, error responses, request headers, and the
  country resolver of \<open>country.rs\<close>. A header value is what \<open>HeaderValue::to_str\<close> makes of it. The
  text form of an IP address (\<open>str::parse::<IpAddr>\<close>) and the reply of the vendor are arguments.
\<close>

section \<open>JSON and responses\<close>

datatype json =
    JNull
  | JBool bool
  | JNumber int
  | JString string
  | JArray "json list"
  | JObject "(string \<times> json) list"

text \<open>\<open>Value::as_object\<close>, \<open>Value::get\<close> on an object key, \<open>Value::as_str\<close>.\<close>

fun as_object :: "json \<Rightarrow> (string \<times> json) list option" where
  "as_object (JObject kvs) = Some kvs"
| "as_object _ = None"

definition json_get :: "string \<Rightarrow> json \<Rightarrow> json option" where
  "json_get k v = (case as_object v of None \<Rightarrow> None | Some kvs \<Rightarrow> map_of kvs k)"

fun as_str :: "json \<Rightarrow> string option" where
  "as_str (JString s) = Some s"
| "as_str _ = None"

text \<open>\<open>(StatusCode, Json<Value>)\<close>.\<close>

type_synonym api_error = "nat \<times> json"

abbreviation BAD_REQUEST :: nat where "BAD_REQUEST \<equiv> 400"
abbreviation UNAUTHORIZED :: nat where "UNAUTHORIZED \<equiv> 401"
abbreviation FORBIDDEN :: nat where "FORBIDDEN \<equiv> 403"
abbreviation NOT_FOUND :: nat where "NOT_FOUND \<equiv> 404"
abbreviation CONFLICT :: nat where "CONFLICT \<equiv> 409"
abbreviation TOO_MANY_REQUESTS :: nat where "TOO_MANY_REQUESTS \<equiv> 429"
abbreviation INTERNAL_SERVER_ERROR :: nat where "INTERNAL_SERVER_ERROR \<equiv> 500"
abbreviation SERVICE_UNAVAILABLE :: nat where "SERVICE_UNAVAILABLE \<equiv> 503"

definition is_success :: "nat \<Rightarrow> bool" where
  "is_success status \<longleftrightarrow> 200 \<le> status \<and> status < 300"

section \<open>Requests\<close>

datatype header_value = Text string | Opaque

fun to_str :: "header_value \<Rightarrow> string option" where
  "to_str (Text s) = Some s"
| "to_str Opaque = None"

type_synonym header_map = "string \<rightharpoonup> header_value"

text \<open>\<open>str::parse::<u64>\<close>: an optional plus sign and at least one digit, within range.\<close>

definition digits_value :: "string \<Rightarrow> nat" where
  "digits_value s = foldl (\<lambda>n c. 10 * n + (code c - 48)) 0 s"

definition parse_u64 :: "string \<Rightarrow> u64 option" where
  "parse_u64 s =
     (let ds = (if starts_with s ''+'' then tl s else s) in
      if ds \<noteq> [] \<and> list_all is_ascii_digit ds \<and> digits_value ds < 2 ^ 64
      then Some (of_nat (digits_value ds)) else None)"

definition client_ip :: "(string \<Rightarrow> ip_addr option) \<Rightarrow> header_map \<Rightarrow> ip_addr option" where
  "client_ip parse_ip headers =
     Option.bind (headers ''x-real-ip'') (\<lambda>v.
     Option.bind (to_str v) (\<lambda>s. parse_ip (trim s)))"

section \<open>Country resolution\<close>

record country_resolver =
  cr_base_url :: "string option"
  cr_api_key :: "string option"

definition resolver_disabled :: country_resolver where
  "resolver_disabled = \<lparr>cr_base_url = None, cr_api_key = None\<rparr>"

definition resolver_is_enabled :: "country_resolver \<Rightarrow> bool" where
  "resolver_is_enabled r \<longleftrightarrow> cr_base_url r \<noteq> None"

definition trim_end_slashes :: "string \<Rightarrow> string" where
  "trim_end_slashes s = rev (dropWhile (\<lambda>c. c = CHR ''/'') (rev s))"

definition resolver_new :: "string \<Rightarrow> string option \<Rightarrow> country_resolver" where
  "resolver_new base_url api_key = \<lparr>cr_base_url = Some (trim_end_slashes base_url), cr_api_key = api_key\<rparr>"

text \<open>What sending the request gives: an error, or a status and the body if it was JSON.\<close>

datatype http_reply = SendFailed | Replied nat "json option"

definition normalize_iso_code :: "string \<Rightarrow> string option" where
  "normalize_iso_code v =
     (let v = trim v in
      if utf8_len v = 2 \<and> list_all is_ascii_alphabetic v then Some (map ascii_upper_char v) else None)"

definition entry_for_ip :: "(string \<Rightarrow> ip_addr option) \<Rightarrow> json \<Rightarrow> ip_addr \<Rightarrow> json option" where
  "entry_for_ip parse_ip body ip =
     (case as_object body of None \<Rightarrow> None
      | Some kvs \<Rightarrow> map_option snd (find (\<lambda>(k, _). parse_ip k = Some ip) kvs))"

definition rejected_in_body :: "json \<Rightarrow> bool" where
  "rejected_in_body body \<longleftrightarrow>
     (case Option.bind (json_get ''status'' body) as_str of None \<Rightarrow> False
      | Some status \<Rightarrow> \<not> eq_ignore_ascii_case status ''ok'' \<and> \<not> eq_ignore_ascii_case status ''warning'')"

definition country_resolve ::
  "(string \<Rightarrow> ip_addr option) \<Rightarrow> (string \<Rightarrow> string option \<Rightarrow> ip_addr \<Rightarrow> http_reply) \<Rightarrow>
   country_resolver \<Rightarrow> ip_addr option \<Rightarrow> string option" where
  "country_resolve parse_ip send r ip =
     Option.bind (cr_base_url r) (\<lambda>base_url.
     Option.bind ip (\<lambda>ip.
     (case send base_url (cr_api_key r) ip of
        SendFailed \<Rightarrow> None
      | Replied status body \<Rightarrow>
          if \<not> is_success status then None
          else Option.bind body (\<lambda>body.
            if rejected_in_body body then None
            else Option.bind (entry_for_ip parse_ip body ip) (\<lambda>entry.
              Option.bind (json_get ''isocode'' entry) (\<lambda>v.
              Option.bind (as_str v) normalize_iso_code))))))"

lemma code_ascii_upper: "is_ascii_alphabetic c \<Longrightarrow> is_ascii_uppercase (ascii_upper_char c)"
  by (auto simp: is_ascii_alphabetic_def ascii_upper_char_def is_ascii_uppercase_def is_ascii_lowercase_def)

lemma utf8_char_ascii: "code c < 128 \<Longrightarrow> length (utf8_char c) = 1"
  by (simp add: utf8_char_def)

lemma utf8_len_ascii: "list_all (\<lambda>c. code c < 128) s \<Longrightarrow> utf8_len s = length s"
  by (induction s) (auto simp: utf8_len_def as_bytes_def utf8_char_ascii)

lemma ascii_alphabetic_code: "is_ascii_alphabetic c \<Longrightarrow> code c < 128"
  by (auto simp: is_ascii_alphabetic_def is_ascii_uppercase_def is_ascii_lowercase_def)

lemma normalize_iso_code_shape:
  assumes "normalize_iso_code v = Some c"
  shows "length c = 2 \<and> list_all is_ascii_uppercase c"
proof -
  have a: "list_all is_ascii_alphabetic (trim v)" "utf8_len (trim v) = 2" "c = map ascii_upper_char (trim v)"
    using assms by (auto simp: normalize_iso_code_def Let_def split: if_splits)
  then have "length (trim v) = 2"
    using utf8_len_ascii [of "trim v"] ascii_alphabetic_code by (simp add: list_all_iff)
  with a show ?thesis using code_ascii_upper by (auto simp: list_all_iff)
qed

lemma country_resolve_Some:
  assumes c: "country_resolve parse_ip send r ip = Some c"
  obtains url a status body entry v s where
    "cr_base_url r = Some url" "ip = Some a" "send url (cr_api_key r) a = Replied status (Some body)"
    "is_success status" "\<not> rejected_in_body body" "entry_for_ip parse_ip body a = Some entry"
    "json_get ''isocode'' entry = Some v" "as_str v = Some s" "normalize_iso_code s = Some c"
proof -
  obtain url a where ua: "cr_base_url r = Some url" "ip = Some a"
    using c by (auto simp: country_resolve_def bind_eq_Some_conv)
  obtain status b where rp: "send url (cr_api_key r) a = Replied status b"
    using c ua by (cases "send url (cr_api_key r) a") (auto simp: country_resolve_def)
  with c ua that show thesis by (auto simp: country_resolve_def bind_eq_Some_conv split: if_splits)
qed

lemma country_resolve_shape:
  "country_resolve parse_ip send r ip = Some c \<Longrightarrow> length c = 2 \<and> list_all is_ascii_uppercase c"
  by (erule country_resolve_Some) (rule normalize_iso_code_shape)


definition demo_parse_ip :: "string \<Rightarrow> ip_addr option" where
  "demo_parse_ip s = (if s = ''203.0.113.7'' then Some (IpV4 3405803783) else None)"

definition demo_send :: "string \<Rightarrow> string option \<Rightarrow> ip_addr \<Rightarrow> http_reply" where
  "demo_send url key a = Replied 200 (Some (JObject
     [(''status'', JString ''ok''), (''203.0.113.7'', JObject [(''isocode'', JString ''sv'')])]))"


end
