(* ===== verification/Lnurl_Server.thy ===== *)
theory Lnurl_Server
  imports Lnurl_Http Lnurl_Accounts_Props
begin

text \<open>
  The setting a request handler runs in (\<open>state.rs\<close>). The shared mutable state is a record. A
  handler is an action on it that returns a result; every \<open>await\<close> on the database is one call, and
  calls are numbered. What the outside world does at call \<open>k\<close> is a function of \<open>k\<close>: the clock, a
  fault of the connection, and the effect of the requests served concurrently, which may have
  written to the database since the previous call. Statements about handlers therefore hold for
  every interleaving.
\<close>

section \<open>State and environment\<close>

text \<open>A task left to \<open>tokio::spawn\<close> by the account routes: refresh the country evidence of a key.\<close>

datatype spawned_task = RefreshEvidence string "ip_addr option"

text \<open>
  The mutable parts of \<open>State\<close>. \<open>sv_usd_min_sendable_cache\<close> is the cache of the Blink provider: a
  value and the instant it was fetched at. \<open>sv_invoice_paid_triggers\<close> counts the values sent to the
  watch channel that wakes the background processors.
\<close>

record server =
  sv_db :: db
  sv_ip_rate_limiter :: rate_limiter
  sv_country_lookup_budget :: global_budget
  sv_legacy_verifies :: "u64 list"
  sv_spawned :: "spawned_task list"
  sv_usd_min_sendable_cache :: "(u64 \<times> nat) option"
  sv_invoice_paid_triggers :: nat
  sv_step :: nat

text \<open>
  A call may be lost before it reaches the database or its reply may be lost afterwards; the
  caller sees a storage error in both cases.
\<close>

datatype fault = Healthy | LostRequest | LostReply

text \<open>
  The \<open>hex\<close>, \<open>secp256k1\<close>, \<open>bitcoin::hashes\<close> and \<open>spark-wallet\<close> functions the routes call.
  \<open>hex_encode\<close> is also how a SHA-256 hash prints. \<open>hmac_sha256\<close> takes the key first.
\<close>

record ('k, 's) crypto_lib =
  hex_decode :: "string \<Rightarrow> bytes option"
  hex_encode :: "bytes \<Rightarrow> string"
  public_key_from_str :: "string \<Rightarrow> 'k option"
  public_key_from_slice :: "bytes \<Rightarrow> 'k option"
  public_key_to_string :: "'k \<Rightarrow> string"
  signature_from_der :: "bytes \<Rightarrow> 's option"
  verify_message :: "string \<Rightarrow> 's \<Rightarrow> 'k \<Rightarrow> bool"
  sha256_hash :: "bytes \<Rightarrow> bytes"
  hmac_sha256 :: "bytes \<Rightarrow> bytes \<Rightarrow> bytes"

text \<open>The message builders and the accept window of \<open>lnurl_models::signed_message\<close>.\<close>

record breez_lib =
  bz_validity_secs :: u64
  bz_available :: "string \<Rightarrow> string \<Rightarrow> string \<Rightarrow> u64 \<Rightarrow> string"
  bz_register :: "string \<Rightarrow> string \<Rightarrow> string \<Rightarrow> u64 \<Rightarrow> string"
  bz_unregister :: "string \<Rightarrow> string \<Rightarrow> u64 \<Rightarrow> string"
  bz_recover :: "string \<Rightarrow> string \<Rightarrow> u64 \<Rightarrow> string"
  bz_metadata :: "string \<Rightarrow> string \<Rightarrow> u64 \<Rightarrow> string"
  bz_transfer_from :: "string \<Rightarrow> string \<Rightarrow> string \<Rightarrow> string \<Rightarrow> u64 \<Rightarrow> string"
  bz_transfer_to :: "string \<Rightarrow> string \<Rightarrow> string \<Rightarrow> string \<Rightarrow> string \<Rightarrow> u64 \<Rightarrow> string"

text \<open>
  What the program reads of a parsed \<open>lightning_invoice::Bolt11Invoice\<close>: hashes in their printed
  form, and the expiry as a duration since the epoch in nanoseconds.
\<close>

record bolt11 =
  b11_payment_hash :: string
  b11_description_hash :: "string option"
  b11_amount_milli_satoshis :: "u64 option"
  b11_expires_at :: "nat option"

text \<open>
  What it reads of a \<open>nostr::Event\<close>. A tag has its raw values, its single letter (with whether it
  is lower case) and its standardised form, of which the program uses four.
\<close>

datatype tag_standard = Relays "string list" | Amount u64 | Preimage string | Bolt11_Tag string

record nostr_tag =
  nt_values :: "string list"
  nt_letter :: "(char \<times> bool) option"
  nt_standard :: "tag_standard option"

datatype nostr_kind = ZapRequest_Kind | ZapReceipt_Kind | Other_Kind

record nostr_event =
  ne_kind :: nostr_kind
  ne_pubkey :: string
  ne_verifies :: bool
  ne_tags :: "nostr_tag list"

text \<open>The server's nostr key pair: its secret and what \<open>public_key.xonly()\<close> gives.\<close>

record nostr_keys =
  nk_secret :: string
  nk_xonly :: "string option"

text \<open>Replies of the Blink API as \<open>reqwest\<close> and \<open>serde\<close> decode them into the client's structs.\<close>

record 'd graphql_envelope =
  ge_data :: "'d option"
  ge_errors :: "string list"

record graphql_invoice =
  gi_payment_request :: "string option"
  gi_payment_hash :: "string option"

record invoice_payload =
  ip_invoice :: "graphql_invoice option"
  ip_errors :: "string list"

record graphql_payment_status =
  gs_status :: "string option"
  gs_payment_hash :: "string option"
  gs_payment_request :: "string option"
  gs_payment_preimage :: "string option"

record graphql_currency_conversion_estimate =
  gc_btc_sat_amount :: "u64 option"
  gc_id :: "string option"
  gc_timestamp :: "int option"
  gc_usd_cent_amount :: "u64 option"

text \<open>What \<open>SparkWallet::create_lightning_invoice\<close> is asked for.\<close>

record 'k spark_invoice_request =
  sr_amount_sat :: u64
  sr_description_hash :: bytes
  sr_receiver_pubkey :: 'k
  sr_expiry_secs :: "u32 option"
  sr_include_spark_address :: bool

text \<open>
  What a \<open>POST\<close> to a webhook gives: a transport error with its debug text, or a status and, when
  it could be read, the body.
\<close>

datatype post_reply = PostFailed string | Posted nat "string option"

text \<open>
  The services and libraries of the payment side. A function whose first argument is a number is
  what the service answers at that call; \<open>None\<close> is an error. An invoice operation names the
  GraphQL document by whether it is the BTC one. \<open>pl_sign_receipt\<close> signs a zap receipt with the given
  tags, \<open>pl_zap_receipt_tags\<close> are the tags \<open>EventBuilder::zap_receipt\<close> chooses, the functions after it
  build one tag (for a public key the upper-case one), and \<open>pl_post\<close> is given
  the URL, the signature header and the body.
\<close>

record 'k pay_lib =
  pl_now_millis :: "nat \<Rightarrow> int"
  pl_bolt11_from_str :: "string \<Rightarrow> bolt11 option"
  pl_json_to_string :: "json \<Rightarrow> string"
  pl_event_from_json :: "string \<Rightarrow> nostr_event option"
  pl_event_try_as_json :: "nostr_event \<Rightarrow> string option"
  pl_event_as_json :: "nostr_event \<Rightarrow> string"
  pl_sign_receipt :: "nostr_keys \<Rightarrow> nostr_tag list \<Rightarrow> nostr_event option"
  pl_zap_receipt_tags :: "string \<Rightarrow> string option \<Rightarrow> nostr_event \<Rightarrow> nostr_tag list"
  pl_standard_tag :: "tag_standard \<Rightarrow> nostr_tag"
  pl_public_key_tag :: "string \<Rightarrow> nostr_tag"
  pl_description_tag :: "string \<Rightarrow> nostr_tag"
  pl_send_event :: "nat \<Rightarrow> string list \<Rightarrow> nostr_event \<Rightarrow> bool"
  pl_spark_invoice :: "nat \<Rightarrow> 'k spark_invoice_request \<Rightarrow> string option"
  pl_graphql_invoice :: "nat \<Rightarrow> bool \<Rightarrow> json \<Rightarrow> invoice_payload graphql_envelope option"
  pl_graphql_status :: "nat \<Rightarrow> json \<Rightarrow> graphql_payment_status graphql_envelope option"
  pl_graphql_estimate :: "nat \<Rightarrow> graphql_currency_conversion_estimate graphql_envelope option"
  pl_post :: "nat \<Rightarrow> string \<Rightarrow> string \<Rightarrow> string \<Rightarrow> post_reply"

text \<open>The immutable settings of \<open>State\<close> and of the provider registry.\<close>

record pay_config =
  pc_scheme :: string
  pc_callback_domain :: "string option"
  pc_min_sendable :: u64
  pc_max_sendable :: u64
  pc_include_spark_address :: bool
  pc_nostr_keys :: "nostr_keys option"
  pc_webhook_secret :: string
  pc_blink_webhook_url :: "string option"
  pc_blink_status_enabled :: bool

record ('k, 's) env =
  ev_crypto :: "('k, 's) crypto_lib"
  ev_breez :: breez_lib
  ev_lib :: "'k pay_lib"
  ev_config :: pay_config
  ev_backend :: backend
  ev_spark_enabled :: bool
  ev_blink_enabled :: bool
  ev_domains :: "string list"
  ev_resolver :: country_resolver
  ev_parse_ip :: "string \<Rightarrow> ip_addr option"
  ev_send :: "nat \<Rightarrow> string \<Rightarrow> string option \<Rightarrow> ip_addr \<Rightarrow> http_reply"
  ev_now :: "nat \<Rightarrow> u64"
  ev_instant :: "nat \<Rightarrow> nat"
  ev_fault :: "nat \<Rightarrow> fault"
  ev_others :: "nat \<Rightarrow> db \<Rightarrow> db"
  ev_fresh_id :: "nat \<Rightarrow> string"

section \<open>Actions\<close>

type_synonym ('e, 'a) action = "server \<Rightarrow> ('e + 'a) \<times> server"

definition ret :: "'a \<Rightarrow> ('e, 'a) action" where
  "ret x w = (Inr x, w)"

definition fail :: "'e \<Rightarrow> ('e, 'a) action" where
  "fail e w = (Inl e, w)"

definition lift :: "'e + 'a \<Rightarrow> ('e, 'a) action" where
  "lift r w = (r, w)"

definition bind_act :: "('e, 'a) action \<Rightarrow> ('a \<Rightarrow> ('e, 'b) action) \<Rightarrow> ('e, 'b) action" where
  "bind_act m f w = (case m w of (Inl e, w') \<Rightarrow> (Inl e, w') | (Inr x, w') \<Rightarrow> f x w')"

definition map_err_act :: "('e \<Rightarrow> 'f) \<Rightarrow> ('e, 'a) action \<Rightarrow> ('f, 'a) action" where
  "map_err_act g m w = (case m w of (r, w') \<Rightarrow> (map_err g r, w'))"

text \<open>\<open>if let Err(e) = ... { error!(...) }\<close>: the error is logged and dropped.\<close>

definition ignore_err :: "('f, 'a) action \<Rightarrow> ('e, unit) action" where
  "ignore_err m w = (Inr (), snd (m w))"

definition tick :: "server \<Rightarrow> server" where
  "tick w = w\<lparr>sv_step := sv_step w + 1\<rparr>"

definition db_call ::
  "('k, 's) env \<Rightarrow> (nat \<Rightarrow> db \<Rightarrow> (repository_error + 'a) \<times> db) \<Rightarrow> (repository_error, 'a) action" where
  "db_call env f w =
     (let k = sv_step w;
          d = ev_others env k (sv_db w)
      in case ev_fault env k of
           Healthy \<Rightarrow> (fst (f k d), tick (w\<lparr>sv_db := snd (f k d)\<rparr>))
         | LostRequest \<Rightarrow> (Inl (General StorageFault), tick (w\<lparr>sv_db := d\<rparr>))
         | LostReply \<Rightarrow> (Inl (General StorageFault), tick (w\<lparr>sv_db := snd (f k d)\<rparr>)))"

definition db_read :: "('k, 's) env \<Rightarrow> (db \<Rightarrow> repository_error + 'a) \<Rightarrow> (repository_error, 'a) action" where
  "db_read env f = db_call env (\<lambda>k d. (f d, d))"

text \<open>A writing call, at the clock reading of its own moment; the operation may use a fresh id.\<close>

definition db_write :: "('k, 's) env \<Rightarrow> (string \<Rightarrow> account_op) \<Rightarrow> (repository_error, unit) action" where
  "db_write env op = db_call env (\<lambda>k d. run_op (ev_backend env) (uint (ev_now env k)) (op (ev_fresh_id env k)) d)"

text \<open>Reading the clock also takes its turn.\<close>

definition read_millis :: "('k, 's) env \<Rightarrow> ('e, int) action" where
  "read_millis env w = (Inr (pl_now_millis (ev_lib env) (sv_step w)), tick w)"

definition read_clock :: "('k, 's) env \<Rightarrow> ('e, u64) action" where
  "read_clock env w = (Inr (ev_now env (sv_step w)), tick w)"

named_theorems act_iff \<open>what a successful run of an action says\<close>

lemma bind_act_iff [act_iff]:
  "bind_act m f w = (Inr y, w') \<longleftrightarrow> (\<exists>x w1. m w = (Inr x, w1) \<and> f x w1 = (Inr y, w'))"
  by (auto simp: bind_act_def split: prod.splits sum.splits)

lemma ret_iff [act_iff]: "ret x w = (Inr y, w') \<longleftrightarrow> y = x \<and> w' = w"
  by (auto simp: ret_def)

lemma fail_iff [act_iff]: "fail e w = (Inr y, w') \<longleftrightarrow> False"
  by (simp add: fail_def)

lemma lift_iff [act_iff]: "lift r w = (Inr y, w') \<longleftrightarrow> r = Inr y \<and> w' = w"
  by (auto simp: lift_def)

lemma map_err_act_iff [act_iff]: "map_err_act g m w = (Inr y, w') \<longleftrightarrow> m w = (Inr y, w')"
  by (auto simp: map_err_act_def split: prod.splits)

lemma read_clock_iff [act_iff]:
  "read_clock env w = (Inr y, w') \<longleftrightarrow> y = ev_now env (sv_step w) \<and> w' = tick w"
  by (auto simp: read_clock_def)

lemma read_millis_iff [act_iff]:
  "read_millis env w = (Inr y, w') \<longleftrightarrow> y = pl_now_millis (ev_lib env) (sv_step w) \<and> w' = tick w"
  by (auto simp: read_millis_def)

lemma if_act_iff [act_iff]:
  "(if c then m else m') w = (Inr y, w') \<longleftrightarrow> (c \<and> m w = (Inr y, w')) \<or> (\<not> c \<and> m' w = (Inr y, w'))"
  by auto

lemma db_call_iff:
  "db_call env f w = (Inr y, w') \<longleftrightarrow>
     ev_fault env (sv_step w) = Healthy \<and>
     f (sv_step w) (ev_others env (sv_step w) (sv_db w)) = (Inr y, sv_db w') \<and>
     w' = tick (w\<lparr>sv_db := sv_db w'\<rparr>)"
  by (auto simp: db_call_def Let_def tick_def prod_eq_iff split: fault.splits)

lemma db_read_iff [act_iff]:
  "db_read env f w = (Inr y, w') \<longleftrightarrow>
     ev_fault env (sv_step w) = Healthy \<and> f (ev_others env (sv_step w) (sv_db w)) = Inr y \<and>
     w' = tick (w\<lparr>sv_db := ev_others env (sv_step w) (sv_db w)\<rparr>)"
  by (auto simp: db_read_def db_call_iff tick_def)

lemma action_result: "fst p = Inr x \<Longrightarrow> p = (Inr x, snd p)"
  by (cases p) simp

lemma not_isl_result: "\<not> isl (fst p) \<Longrightarrow> \<exists>x w. p = (Inr x, w)"
  by (cases p; cases "fst p") auto

lemma tick_simps [simp]:
  "sv_db (tick w) = sv_db w" "sv_step (tick w) = Suc (sv_step w)"
  "sv_legacy_verifies (tick w) = sv_legacy_verifies w" "sv_spawned (tick w) = sv_spawned w"
  "sv_ip_rate_limiter (tick w) = sv_ip_rate_limiter w"
  "sv_country_lookup_budget (tick w) = sv_country_lookup_budget w"
  "sv_usd_min_sendable_cache (tick w) = sv_usd_min_sendable_cache w"
  "sv_invoice_paid_triggers (tick w) = sv_invoice_paid_triggers w"
  by (simp_all add: tick_def)

section \<open>What an action does to the database\<close>

text \<open>
  \<open>writes env G m\<close>: besides what others do, every change \<open>m\<close> makes to the database at its call
  \<open>k\<close> is one that \<open>G k\<close> allows. It holds on every path, failures included.
\<close>

inductive served :: "('k, 's) env \<Rightarrow> (nat \<Rightarrow> db \<Rightarrow> db \<Rightarrow> bool) \<Rightarrow> db \<Rightarrow> db \<Rightarrow> bool" for env G where
  served_refl: "served env G d d"
| served_others: "served env G d d1 \<Longrightarrow> served env G d (ev_others env k d1)"
| served_own: "served env G d d1 \<Longrightarrow> G k d1 d2 \<Longrightarrow> served env G d d2"

lemma served_trans: "served env G d1 d2 \<Longrightarrow> served env G d0 d1 \<Longrightarrow> served env G d0 d2"
  by (induction rule: served.induct) (auto intro: served.intros)

lemma served_invariant:
  assumes "served env G d d'" "I d" "\<And>k d. I d \<Longrightarrow> I (ev_others env k d)" "\<And>k d d'. I d \<Longrightarrow> G k d d' \<Longrightarrow> I d'"
  shows "I d'"
  using assms(1,2) by (induction rule: served.induct) (auto simp: assms(3) dest: assms(4))

definition writes :: "('k, 's) env \<Rightarrow> (nat \<Rightarrow> db \<Rightarrow> db \<Rightarrow> bool) \<Rightarrow> ('e, 'a) action \<Rightarrow> bool" where
  "writes env G m \<longleftrightarrow> (\<forall>w. served env G (sv_db w) (sv_db (snd (m w))))"

lemma writesD: "writes env G m \<Longrightarrow> served env G (sv_db w) (sv_db (snd (m w)))"
  by (simp add: writes_def)

text \<open>The change allowed to account operations satisfying \<open>P\<close>, and no change at all.\<close>

definition op_step :: "('k, 's) env \<Rightarrow> (account_op \<Rightarrow> bool) \<Rightarrow> nat \<Rightarrow> db \<Rightarrow> db \<Rightarrow> bool" where
  "op_step env P k d d' \<longleftrightarrow>
     (\<exists>op. P op \<and> d' = snd (run_op (ev_backend env) (uint (ev_now env k)) op d))"

definition no_step :: "nat \<Rightarrow> db \<Rightarrow> db \<Rightarrow> bool" where
  "no_step k d d' \<longleftrightarrow> False"

named_theorems writes_rules \<open>compositional rules for \<open>writes\<close>\<close>

lemma writes_pure [writes_rules]:
  "writes env G (ret x)" "writes env G (fail e)" "writes env G (lift r)" "writes env G (read_clock env)"
  "writes env G (read_millis env)"
  by (simp_all add: writes_def ret_def fail_def lift_def read_clock_def read_millis_def served_refl)

text \<open>The continuation may rely on its argument being a result of the first action.\<close>

lemma writes_bind [writes_rules]:
  assumes "writes env G m" "\<And>x w w'. m w = (Inr x, w') \<Longrightarrow> writes env G (f x)"
  shows "writes env G (bind_act m f)"
proof (unfold writes_def, intro allI)
  fix w
  obtain r w1 where m: "m w = (r, w1)" by (cases "m w")
  have 1: "served env G (sv_db w) (sv_db w1)" using assms(1) m by (metis snd_conv writes_def)
  show "served env G (sv_db w) (sv_db (snd (bind_act m f w)))"
  proof (cases r)
    case (Inl e)
    with m 1 show ?thesis by (simp add: bind_act_def)
  next
    case (Inr x)
    have "writes env G (f x)" using assms(2) m Inr by blast
    then have "served env G (sv_db w1) (sv_db (snd (f x w1)))" by (simp add: writes_def)
    with m 1 Inr show ?thesis by (simp add: bind_act_def served_trans)
  qed
qed

lemma writes_map_err [writes_rules]: "writes env G m \<Longrightarrow> writes env G (map_err_act g m)"
  by (simp add: writes_def map_err_act_def split_beta)

lemma writes_ignore [writes_rules]: "writes env G m \<Longrightarrow> writes env G (ignore_err m)"
  by (simp add: writes_def ignore_err_def)

lemma writes_if [writes_rules]:
  "(c \<Longrightarrow> writes env G m) \<Longrightarrow> (\<not> c \<Longrightarrow> writes env G m') \<Longrightarrow> writes env G (if c then m else m')"
  by simp

lemma writes_case_option [writes_rules]:
  "(opt = None \<Longrightarrow> writes env G m) \<Longrightarrow> (\<And>x. opt = Some x \<Longrightarrow> writes env G (f x)) \<Longrightarrow> writes env G (case opt of None \<Rightarrow> m | Some x \<Rightarrow> f x)"
  by (simp split: option.splits)

lemma writes_case_prod [writes_rules]:
  "(\<And>x y. p = (x, y) \<Longrightarrow> writes env G (f x y)) \<Longrightarrow> writes env G (case p of (x, y) \<Rightarrow> f x y)"
  by (simp split: prod.splits)

lemma writes_let [writes_rules]: "(\<And>x. x = v \<Longrightarrow> writes env G (f x)) \<Longrightarrow> writes env G (let x = v in f x)"
  by simp

lemma writes_read [writes_rules]: "writes env G (db_read env f)"
  by (auto simp: writes_def db_read_def db_call_def Let_def split: fault.splits
      intro: served_others served_refl)

lemma writes_call:
  assumes "\<And>k d. G k d (snd (f k d))"
  shows "writes env G (db_call env f)"
proof -
  have "served env G d (snd (f k (ev_others env k d)))" for k d
    by (rule served_own [of env G d "ev_others env k d" k]) (auto intro: served_others served_refl assms)
  then show ?thesis
    by (auto simp: writes_def db_call_def Let_def split: fault.splits intro: served_others served_refl)
qed

lemma writes_write [writes_rules]:
  "(\<And>k. P (op (ev_fresh_id env k))) \<Longrightarrow> writes env (op_step env P) (db_write env op)"
  unfolding db_write_def by (rule writes_call) (auto simp: op_step_def)

lemma writes_same_db: "(\<And>w. sv_db (snd (m w)) = sv_db w) \<Longrightarrow> writes env G m"
  by (simp add: writes_def served_refl)

lemma served_mono:
  assumes "served env G d d'" "\<And>k d d'. G k d d' \<Longrightarrow> H k d d'"
  shows "served env H d d'"
  using assms(1) by (induction rule: served.induct) (auto intro: served.intros assms(2))

lemma writes_mono: "writes env G m \<Longrightarrow> (\<And>k d d'. G k d d' \<Longrightarrow> H k d d') \<Longrightarrow> writes env H m"
  unfolding writes_def using served_mono by blast

lemma op_step_mono: "op_step env P k d d' \<Longrightarrow> (\<And>op. P op \<Longrightarrow> Q op) \<Longrightarrow> op_step env Q k d d'"
  unfolding op_step_def by blast

lemma op_step_inv: "accounts_inv d \<Longrightarrow> op_step env P k d d' \<Longrightarrow> accounts_inv d'"
  by (auto simp: op_step_def run_op_inv)

end
