(* ===== verification/Lnurl_Identifier.thy ===== *)
theory Lnurl_Identifier
  imports Lnurl_Schema
begin

text \<open>
  Identifiers: \<open>src/identifier.rs\<close>, the public-route parsing of \<open>src/routes/account.rs\<close>, and the
  sanitizer of \<open>src/models.rs\<close>. The \<open>phonenumber\<close> crate is a parameter: what the code uses of it is
  the four fields of \<open>phone_lib\<close>.
\<close>

section \<open>Data\<close>

datatype wallet_modifier = BtcModifier | UsdModifier
datatype identifier_kind = UsernameId | PhoneId
datatype identifier_error = EmptyIdentifier | InvalidUsername | InvalidPhoneNumber | InvalidModifier

record parsed_identifier =
  pi_canonical :: string
  pi_kind :: identifier_kind
  pi_wallet :: "wallet_modifier option"

record public_identifier_intent =
  int_canonical :: string
  int_wallet :: "wallet_kind option"
  int_callback_identifier :: string

record 'p phone_lib =
  phone_parse :: "string \<Rightarrow> 'p option"
  phone_has_country :: "'p \<Rightarrow> bool"
  phone_is_valid :: "'p \<Rightarrow> bool"
  phone_e164 :: "'p \<Rightarrow> string"

section \<open>Usernames\<close>

definition matches_blink_username_regex :: "string \<Rightarrow> bool" where
  "matches_blink_username_regex value =
     (let lower = to_lowercase value; len = length lower
      in if \<not> (3 \<le> len \<and> len \<le> 50) \<or> starts_with lower ''1'' \<or> starts_with lower ''3'' \<or>
            starts_with lower ''_'' \<or> starts_with lower ''bc1'' \<or> starts_with lower ''lnbc1''
         then False
         else (\<forall>ch \<in> set lower. is_ascii_lowercase ch \<or> is_ascii_digit ch \<or> ch = CHR ''_'') \<and>
              (\<exists>ch \<in> set lower. is_ascii_lowercase ch))"

definition checked_to_username :: "string \<Rightarrow> identifier_error + string" where
  "checked_to_username value =
     (let trimmed = trim value
      in if trimmed = [] then Inl InvalidUsername
         else if \<not> matches_blink_username_regex trimmed then Inl InvalidUsername
         else Inr (to_lowercase trimmed))"

definition canonical_spark_username :: "string \<Rightarrow> identifier_error + string" where
  "canonical_spark_username value = checked_to_username value"

definition sanitize_username :: "string \<Rightarrow> string" where
  "sanitize_username username = to_lowercase (trim username)"

section \<open>Phone numbers\<close>

definition checked_to_phone_number :: "'p phone_lib \<Rightarrow> string \<Rightarrow> identifier_error + string" where
  "checked_to_phone_number lib value =
     (let trimmed = trim value
      in if trimmed = [] then Inl InvalidPhoneNumber
         else
           let normalized =
             (if starts_with trimmed ''+'' then ''+'' @ drop 1 trimmed
              else if starts_with trimmed ''00'' then ''+'' @ drop 2 trimmed
              else ''+'' @ trimmed)
           in case phone_parse lib normalized of
                None \<Rightarrow> Inl InvalidPhoneNumber
              | Some phone \<Rightarrow>
                  (if \<not> phone_has_country lib phone \<or> \<not> phone_is_valid lib phone
                   then Inl InvalidPhoneNumber else Inr (phone_e164 lib phone)))"

definition is_phone_like :: "string \<Rightarrow> bool" where
  "is_phone_like value \<longleftrightarrow>
     starts_with value ''+'' \<or> starts_with value ''00'' \<or> (\<forall>ch \<in> set value. is_ascii_digit ch)"

section \<open>Wallet modifiers\<close>

text \<open>The index of the first \<open>+\<close> after the first character.\<close>

definition later_plus :: "string \<Rightarrow> nat option" where
  "later_plus value = find (\<lambda>i. value ! i = CHR ''+'') [1..<length value]"

definition split_final_wallet_modifier ::
  "string \<Rightarrow> identifier_error + string \<times> wallet_modifier option" where
  "split_final_wallet_modifier value =
     (case later_plus value of
        None \<Rightarrow> Inr (value, None)
      | Some plus_index \<Rightarrow>
          (let suffix = drop (plus_index + 1) value; base = take plus_index value;
               finish = (\<lambda>wallet. if later_plus base \<noteq> None then Inl InvalidModifier
                                  else Inr (base, Some wallet))
           in if eq_ignore_ascii_case suffix ''btc'' then finish BtcModifier
              else if eq_ignore_ascii_case suffix ''usd'' then finish UsdModifier
              else Inl InvalidModifier))"

definition parse_public_identifier :: "'p phone_lib \<Rightarrow> string \<Rightarrow> identifier_error + parsed_identifier" where
  "parse_public_identifier lib value =
     (let trimmed = trim value
      in if trimmed = [] then Inl EmptyIdentifier
         else bind_res (split_final_wallet_modifier trimmed) (\<lambda>(base, wallet).
           if is_phone_like base
           then bind_res (checked_to_phone_number lib base) (\<lambda>canonical.
                  Inr \<lparr>pi_canonical = canonical, pi_kind = PhoneId, pi_wallet = wallet\<rparr>)
           else bind_res (checked_to_username base) (\<lambda>canonical.
                  Inr \<lparr>pi_canonical = canonical, pi_kind = UsernameId, pi_wallet = wallet\<rparr>)))"

section \<open>Public routes\<close>

definition is_phone_like_public_identifier :: "string \<Rightarrow> bool" where
  "is_phone_like_public_identifier i \<longleftrightarrow>
     starts_with i ''+'' \<or> starts_with i ''00'' \<or> (\<forall>ch \<in> set i. is_ascii_digit ch)"

definition is_legacy_spark_lookup_candidate :: "string \<Rightarrow> bool" where
  "is_legacy_spark_lookup_candidate i \<longleftrightarrow>
     \<not> is_phone_like_public_identifier i \<and> \<not> (\<exists>ch \<in> set (drop 1 i). ch = CHR ''+'')"

fun wallet_modifier_to_kind :: "wallet_modifier \<Rightarrow> wallet_kind" where
  "wallet_modifier_to_kind BtcModifier = Btc"
| "wallet_modifier_to_kind UsdModifier = Usd"

definition parse_public_identifier_for_public_route ::
  "'p phone_lib \<Rightarrow> string \<Rightarrow> identifier_error + public_identifier_intent option" where
  "parse_public_identifier_for_public_route lib i =
     (let trimmed = trim i
      in if trimmed = [] then Inl EmptyIdentifier
         else case parse_public_identifier lib trimmed of
           Inr parsed \<Rightarrow>
             Inr (Some \<lparr>int_canonical = pi_canonical parsed,
               int_wallet = map_option wallet_modifier_to_kind (pi_wallet parsed),
               int_callback_identifier =
                 (case pi_wallet parsed of
                    Some BtcModifier \<Rightarrow> pi_canonical parsed @ ''+btc''
                  | Some UsdModifier \<Rightarrow> pi_canonical parsed @ ''+usd''
                  | None \<Rightarrow> pi_canonical parsed)\<rparr>)
         | Inl e \<Rightarrow>
             (if e = InvalidUsername \<and> is_legacy_spark_lookup_candidate trimmed
              then Inr (Some \<lparr>int_canonical = sanitize_username trimmed, int_wallet = None,
                     int_callback_identifier = sanitize_username trimmed\<rparr>)
              else if e = InvalidPhoneNumber \<and> is_phone_like_public_identifier trimmed then Inr None
              else Inl e))"

section \<open>Usernames are canonical\<close>

definition username_char :: "char \<Rightarrow> bool" where
  "username_char c \<longleftrightarrow> is_ascii_lowercase c \<or> is_ascii_digit c \<or> c = CHR ''_''"

lemma username_char_lower: "username_char c \<Longrightarrow> lower_char c = c"
  by (auto simp: username_char_def lower_char_def is_ascii_lowercase_def is_ascii_digit_def)

lemma username_char_not_space: "username_char c \<Longrightarrow> \<not> is_whitespace c"
  by (auto simp: username_char_def is_whitespace_def is_ascii_lowercase_def is_ascii_digit_def)

lemma checked_to_username_ok:
  assumes "checked_to_username v = Inr u"
  shows "u = to_lowercase (trim v)" "\<forall>c \<in> set u. username_char c" "3 \<le> length u" "length u \<le> 50"
    "\<exists>c \<in> set u. is_ascii_lowercase c" "matches_blink_username_regex u"
proof -
  have u: "u = to_lowercase (trim v)" and m: "matches_blink_username_regex (trim v)"
    using assms by (auto simp: checked_to_username_def Let_def split: if_splits)
  show "u = to_lowercase (trim v)" by (rule u)
  show "\<forall>c \<in> set u. username_char c" "3 \<le> length u" "length u \<le> 50" "\<exists>c \<in> set u. is_ascii_lowercase c"
    using m unfolding u
    by (auto simp: matches_blink_username_regex_def Let_def username_char_def split: if_splits)
  show "matches_blink_username_regex u" using m by (simp add: u matches_blink_username_regex_def)
qed

lemma to_lowercase_username: "\<forall>c \<in> set u. username_char c \<Longrightarrow> to_lowercase u = u"
  by (simp add: to_lowercase_def map_idI username_char_lower)

lemma trim_username: "\<forall>c \<in> set u. username_char c \<Longrightarrow> trim u = u"
  by (simp add: trim_no_whitespace username_char_not_space)

lemma checked_to_username_canonical:
  assumes "checked_to_username v = Inr u"
  shows "checked_to_username u = Inr u"
proof -
  note ok = checked_to_username_ok [OF assms]
  have "u \<noteq> []" using ok(3) by auto
  with ok(2,6) show ?thesis
    by (simp add: checked_to_username_def Let_def trim_username to_lowercase_username)
qed

section \<open>The callback identifier names the same recipient and wallet\<close>

lemma later_plus_None: "later_plus v = None \<longleftrightarrow> CHR ''+'' \<notin> set (drop 1 v)"
proof
  assume "later_plus v = None"
  then have no: "v ! i \<noteq> CHR ''+''" if "1 \<le> i" "i < length v" for i
    using that by (auto simp: later_plus_def find_None_iff)
  show "CHR ''+'' \<notin> set (drop 1 v)"
  proof
    assume "CHR ''+'' \<in> set (drop 1 v)"
    then obtain i where "i < length v - 1" "drop 1 v ! i = CHR ''+''"
      by (auto simp: in_set_conv_nth)
    with no [of "i + 1"] show False by simp
  qed
next
  assume no: "CHR ''+'' \<notin> set (drop 1 v)"
  have "v ! i \<noteq> CHR ''+''" if "1 \<le> i" "i < length v" for i
  proof -
    have "v ! i = drop 1 v ! (i - 1)" using that by simp
    moreover have "drop 1 v ! (i - 1) \<in> set (drop 1 v)" using that by (intro nth_mem) auto
    ultimately show ?thesis using no by metis
  qed
  then show "later_plus v = None" by (auto simp: later_plus_def find_None_iff)
qed

lemma later_plus_append:
  assumes "base \<noteq> []" "CHR ''+'' \<notin> set (drop 1 base)"
  shows "later_plus (base @ CHR ''+'' # s) = Some (length base)"
proof -
  let ?v = "base @ CHR ''+'' # s"
  have before: "?v ! j \<noteq> CHR ''+''" if "1 \<le> j" "j < length base" for j
  proof -
    have "?v ! j = drop 1 base ! (j - 1)" using that by (simp add: nth_append)
    moreover have "drop 1 base ! (j - 1) \<in> set (drop 1 base)" using that by (intro nth_mem) auto
    ultimately show ?thesis using assms(2) by metis
  qed
  let ?l = "[1..<length ?v]"
  have pos: "1 \<le> length base" using assms(1) by (cases base) auto
  then have len: "length base - 1 < length ?l" by simp
  have at: "?l ! (length base - 1) = length base" using pos len by (simp del: upt_Suc)
  show ?thesis
    unfolding later_plus_def find_Some_iff
    by (rule exI [of _ "length base - 1"]) (use len at before in \<open>auto simp del: upt_Suc\<close>)
qed

lemma later_plus_Some:
  assumes "later_plus v = Some i"
  shows "1 \<le> i" "i < length v" "v = take i v @ CHR ''+'' # drop (i + 1) v" "CHR ''+'' \<notin> set (drop 1 (take i v))"
proof -
  from assms obtain k where k: "k < length v - 1" "v ! ([1..<length v] ! k) = CHR ''+''"
    "i = [1..<length v] ! k" and first: "\<And>j. j < k \<Longrightarrow> v ! ([1..<length v] ! j) \<noteq> CHR ''+''"
    by (auto simp: later_plus_def find_Some_iff)
  from k have i: "i = k + 1" by simp
  show "1 \<le> i" "i < length v" using i k by auto
  then show "v = take i v @ CHR ''+'' # drop (i + 1) v"
    using id_take_nth_drop [of i v] k i by simp
  show "CHR ''+'' \<notin> set (drop 1 (take i v))"
  proof
    assume "CHR ''+'' \<in> set (drop 1 (take i v))"
    then obtain j where "j < length (drop 1 (take i v))" "drop 1 (take i v) ! j = CHR ''+''"
      by (metis in_set_conv_nth)
    with first [of j] i k show False by simp
  qed
qed

lemma split_modifier_ok:
  assumes "split_final_wallet_modifier v = Inr (base, w)" "v \<noteq> []"
  shows "base \<noteq> []" "CHR ''+'' \<notin> set (drop 1 base)" "w = None \<Longrightarrow> base = v"
proof -
  have "base \<noteq> [] \<and> CHR ''+'' \<notin> set (drop 1 base) \<and> (w = None \<longrightarrow> base = v)"
  proof (cases "later_plus v")
    case None
    with assms show ?thesis by (auto simp: split_final_wallet_modifier_def later_plus_None)
  next
    case (Some i)
    from later_plus_Some [OF Some] have "take i v \<noteq> []" "CHR ''+'' \<notin> set (drop 1 (take i v))" by auto
    moreover have "base = take i v" "w \<noteq> None"
      using assms(1) Some by (auto simp: split_final_wallet_modifier_def Let_def split: if_splits)
    ultimately have "base \<noteq> []" "CHR ''+'' \<notin> set (drop 1 base)" "w \<noteq> None" by simp_all
    then show ?thesis by auto
  qed
  then show "base \<noteq> []" "CHR ''+'' \<notin> set (drop 1 base)" "w = None \<Longrightarrow> base = v" by auto
qed

definition with_modifier :: "string \<Rightarrow> wallet_modifier option \<Rightarrow> string" where
  "with_modifier c w = (case w of Some BtcModifier \<Rightarrow> c @ ''+btc'' | Some UsdModifier \<Rightarrow> c @ ''+usd'' | None \<Rightarrow> c)"

lemma split_with_modifier:
  assumes "c \<noteq> []" "CHR ''+'' \<notin> set (drop 1 c)"
  shows "split_final_wallet_modifier (with_modifier c w) = Inr (c, w)"
proof (cases w)
  case None
  have "later_plus c = None" using assms(2) by (simp only: later_plus_None simp_thms)
  with None show ?thesis by (simp add: with_modifier_def split_final_wallet_modifier_def)
next
  case (Some m)
  have base: "later_plus c = None" using assms(2) by (simp only: later_plus_None simp_thms)
  show ?thesis
    using later_plus_append [OF assms, of "''btc''"] later_plus_append [OF assms, of "''usd''"] base Some
    by (cases m) (simp_all add: with_modifier_def split_final_wallet_modifier_def Let_def
        eq_ignore_ascii_case_def ascii_lower_char_def is_ascii_uppercase_def)
qed

lemma starts_with_Cons: "starts_with s (c # p) \<longleftrightarrow> (\<exists>t. s = c # t \<and> starts_with t p)"
  by (cases s) (auto simp: starts_with_def)

lemma starts_with_Nil [simp]: "starts_with s []"
  by (simp add: starts_with_def)

lemma trim_id:
  assumes "s \<noteq> [] \<Longrightarrow> \<not> is_whitespace (hd s) \<and> \<not> is_whitespace (last s)"
  shows "trim s = s"
proof (cases s rule: rev_cases)
  case Nil
  then show ?thesis by (simp add: trim_def trim_start_def trim_end_def)
next
  case (snoc t c)
  with assms have "\<not> is_whitespace c" "\<not> is_whitespace (hd s)" by auto
  then have "trim_end s = s" using snoc by (simp add: trim_end_def)
  moreover have "dropWhile is_whitespace s = s" using \<open>\<not> is_whitespace (hd s)\<close> by (cases s) simp_all
  ultimately show ?thesis by (simp add: trim_def trim_start_def)
qed

lemma trim_ends:
  assumes "trim s \<noteq> []"
  shows "\<not> is_whitespace (hd (trim s))" "\<not> is_whitespace (last (trim s))"
proof -
  show "\<not> is_whitespace (hd (trim s))"
    using assms hd_dropWhile [of is_whitespace "trim_end s"] unfolding trim_def trim_start_def by blast
  have "trim s = trim_end (trim_start s)" by (simp add: trim_def trim_end_trim_start)
  then have l: "trim s = rev (dropWhile is_whitespace (rev (trim_start s)))" by (simp add: trim_end_def)
  with assms have "dropWhile is_whitespace (rev (trim_start s)) \<noteq> []" by auto
  from hd_dropWhile [OF this] show "\<not> is_whitespace (last (trim s))"
    unfolding l by (simp add: last_rev)
qed

text \<open>\<open>trim\<close> of a string that starts with no space is a prefix of it.\<close>

lemma trim_prefix:
  assumes "s \<noteq> []" "\<not> is_whitespace (hd s)"
  shows "\<exists>r. s = trim s @ r" "trim s \<noteq> []"
proof -
  obtain c t where s: "s = c # t" using assms(1) by (cases s) auto
  with assms(2) have c: "trim_end s = c # trim_end t"
    using trim_end_append_nonspace [of c "[]" t] by simp
  with assms(2) s have tr: "trim s = trim_end s" by (simp add: trim_def trim_start_def)
  have "s = trim_end s @ rev (takeWhile is_whitespace (rev s))"
    unfolding trim_end_def by (metis rev_append rev_rev_ident takeWhile_dropWhile_id)
  with tr show "\<exists>r. s = trim s @ r" by metis
  show "trim s \<noteq> []" using tr c by simp
qed

lemma is_phone_like_Cons_iff:
  "is_phone_like v \<longleftrightarrow> v = [] \<or> hd v = CHR ''+'' \<or> take 2 v = ''00'' \<or> (\<forall>ch \<in> set v. is_ascii_digit ch)"
  by (cases v) (auto simp: is_phone_like_def starts_with_def)

lemma username_char_plus [simp]: "\<not> username_char (CHR ''+'')"
  by (auto simp: username_char_def is_ascii_lowercase_def is_ascii_digit_def)

lemma lower_char_eq_iff:
  "\<not> is_ascii_lowercase d \<Longrightarrow> code d < 128 \<Longrightarrow> lower_char c = d \<longleftrightarrow> c = d \<and> \<not> is_ascii_uppercase c"
proof -
  assume d: "\<not> is_ascii_lowercase d" "code d < 128"
  have "lower_char c = d \<longleftrightarrow> code (lower_char c) = code d" by (simp only: of_char_eq_iff)
  also have "\<dots> \<longleftrightarrow> code c = code d \<and> \<not> is_ascii_uppercase c"
    using d by (auto simp: code_lower_char is_ascii_lowercase_def is_ascii_uppercase_def)
  also have "\<dots> \<longleftrightarrow> c = d \<and> \<not> is_ascii_uppercase c" by (simp only: of_char_eq_iff)
  finally show ?thesis .
qed

lemma lower_char_zero [simp]: "lower_char c = CHR ''0'' \<longleftrightarrow> c = CHR ''0''"
  and lower_char_plus [simp]: "lower_char c = CHR ''+'' \<longleftrightarrow> c = CHR ''+''"
  by (auto simp: lower_char_eq_iff is_ascii_lowercase_def is_ascii_uppercase_def)

lemma is_ascii_digit_lower [simp]: "is_ascii_digit (lower_char c) = is_ascii_digit c"
  by (auto simp: is_ascii_digit_def code_lower_char)

lemma is_phone_like_lower [simp]: "is_phone_like (to_lowercase v) = is_phone_like v"
proof -
  have "take 2 (map lower_char v) = ''00'' \<longleftrightarrow> take 2 v = ''00''"
    by (cases v rule: list.exhaust; cases "tl v") (auto simp: take_map)
  then show ?thesis by (cases v) (auto simp: is_phone_like_Cons_iff to_lowercase_def)
qed

text \<open>A username taken from a base that is no phone number is itself no phone number.\<close>

lemma username_of_base:
  assumes ok: "checked_to_username base = Inr u" and np: "\<not> is_phone_like base"
    and hd: "\<not> is_whitespace (hd base)"
  shows "\<not> is_phone_like u" "u \<noteq> []" "CHR ''+'' \<notin> set u"
proof -
  note u = checked_to_username_ok [OF ok]
  have "base \<noteq> []" using np by (auto simp: is_phone_like_Cons_iff)
  obtain r where r: "base = trim base @ r" using trim_prefix [OF \<open>base \<noteq> []\<close> hd] by blast
  have len: "3 \<le> length (trim base)" using u(1,3) by simp
  obtain c where c: "c \<in> set u" "is_ascii_lowercase c" using u(5) by blast
  then have "\<not> is_ascii_digit c" by (auto simp: is_ascii_lowercase_def is_ascii_digit_def)
  with c(1) have nd: "\<not> (\<forall>ch \<in> set (trim base). is_ascii_digit ch)"
    using u(1) by (auto simp: to_lowercase_def)
  have "take 2 base = take 2 (trim base)" "hd base = hd (trim base)"
    using len by (subst r, cases "trim base"; simp)+
  then have "\<not> is_phone_like (trim base)"
    using np len nd by (auto simp: is_phone_like_Cons_iff)
  then show "\<not> is_phone_like u" by (simp add: u(1))
  show "u \<noteq> []" using u(3) by auto
  show "CHR ''+'' \<notin> set u" using u(2) username_char_plus by blast
qed

lemma hd_split_base:
  assumes "split_final_wallet_modifier v = Inr (base, w)" "v \<noteq> []"
  shows "hd base = hd v"
proof (cases "later_plus v")
  case None
  with assms show ?thesis by (simp add: split_final_wallet_modifier_def)
next
  case (Some i)
  with assms later_plus_Some(1) [OF Some] show ?thesis
    by (cases v; cases i) (auto simp: split_final_wallet_modifier_def Let_def split: if_splits)
qed

lemma with_modifier_ends:
  assumes "c \<noteq> []" "\<not> is_whitespace (hd c)" "\<not> is_whitespace (last c)"
  shows "trim (with_modifier c w) = with_modifier c w" "with_modifier c w \<noteq> []"
proof -
  have b: "\<not> is_whitespace (CHR ''c'')" "\<not> is_whitespace (CHR ''d'')" by (simp_all add: is_whitespace_def)
  have h: "hd (with_modifier c w) = hd c"
    using assms(1) by (auto simp: with_modifier_def split: option.splits wallet_modifier.splits)
  have l: "\<not> is_whitespace (last (with_modifier c w))"
    using assms b by (auto simp: with_modifier_def split: option.splits wallet_modifier.splits)
  show "trim (with_modifier c w) = with_modifier c w"
    by (rule trim_id) (use h l assms(2) in simp)
  show "with_modifier c w \<noteq> []"
    using assms(1) by (auto simp: with_modifier_def split: option.splits wallet_modifier.splits)
qed

text \<open>
  What the round trip needs of the \<open>phonenumber\<close> crate: an E.164 string is a plus sign and digits,
  and parses back to a valid number with the same E.164 form.
\<close>

definition phone_lib_ok :: "'p phone_lib \<Rightarrow> bool" where
  "phone_lib_ok lib \<longleftrightarrow>
     (\<forall>s p. phone_parse lib s = Some p \<and> phone_has_country lib p \<and> phone_is_valid lib p \<longrightarrow>
       (\<exists>ds. phone_e164 lib p = CHR ''+'' # ds \<and> (\<forall>c \<in> set ds. is_ascii_digit c)) \<and>
       (\<exists>q. phone_parse lib (phone_e164 lib p) = Some q \<and> phone_has_country lib q \<and>
          phone_is_valid lib q \<and> phone_e164 lib q = phone_e164 lib p))"

lemma is_ascii_digit_not_space: "is_ascii_digit c \<Longrightarrow> \<not> is_whitespace c"
  by (auto simp: is_ascii_digit_def is_whitespace_def)

lemma checked_phone_canonical:
  assumes lib: "phone_lib_ok lib" and ok: "checked_to_phone_number lib v = Inr e"
  shows "checked_to_phone_number lib e = Inr e" "is_phone_like e" "e \<noteq> []"
    "CHR ''+'' \<notin> set (drop 1 e)" "\<not> is_whitespace (hd e)" "\<not> is_whitespace (last e)" "hd e = CHR ''+''"
proof -
  obtain n p where p: "phone_parse lib n = Some p" "phone_has_country lib p" "phone_is_valid lib p"
    "e = phone_e164 lib p"
    using ok by (auto simp: checked_to_phone_number_def Let_def split: if_splits option.splits)
  from lib p obtain ds q where e: "e = CHR ''+'' # ds" and ds: "\<forall>c \<in> set ds. is_ascii_digit c"
    and q: "phone_parse lib e = Some q" "phone_has_country lib q" "phone_is_valid lib q" "phone_e164 lib q = e"
    unfolding phone_lib_ok_def by metis
  have plus: "\<not> is_whitespace (CHR ''+'')" "\<not> is_ascii_digit (CHR ''+'')"
    by (simp_all add: is_whitespace_def is_ascii_digit_def)
  have l: "\<not> is_whitespace (last e)"
    using e ds plus is_ascii_digit_not_space by (cases ds rule: rev_cases) auto
  have "trim e = e" by (rule trim_id) (use e plus l in simp)
  then show "checked_to_phone_number lib e = Inr e"
    using q e by (simp add: checked_to_phone_number_def Let_def starts_with_def)
  show "is_phone_like e" "e \<noteq> []" "\<not> is_whitespace (hd e)" "\<not> is_whitespace (last e)" "hd e = CHR ''+''"
    using e plus l by (simp_all add: is_phone_like_def starts_with_def)
  show "CHR ''+'' \<notin> set (drop 1 e)" using e ds plus by auto
qed

lemma parse_with_modifier_username:
  assumes "checked_to_username c = Inr c" "\<not> is_phone_like c" "CHR ''+'' \<notin> set c" "c \<noteq> []"
  shows "parse_public_identifier lib (with_modifier c w) =
    Inr \<lparr>pi_canonical = c, pi_kind = UsernameId, pi_wallet = w\<rparr>"
proof -
  have "\<forall>ch \<in> set c. username_char ch" using checked_to_username_ok(2) [OF assms(1)] .
  then have "\<not> is_whitespace (hd c)" "\<not> is_whitespace (last c)"
    using assms(4) username_char_not_space by auto
  from with_modifier_ends [OF assms(4) this] show ?thesis
    using split_with_modifier [OF assms(4), of w] assms(1-3) in_set_dropD
    by (fastforce simp: parse_public_identifier_def Let_def)
qed

lemma parse_with_modifier_phone:
  assumes "phone_lib_ok lib" "checked_to_phone_number lib v = Inr c"
  shows "parse_public_identifier lib (with_modifier c w) =
    Inr \<lparr>pi_canonical = c, pi_kind = PhoneId, pi_wallet = w\<rparr>"
proof -
  note c = checked_phone_canonical [OF assms]
  from with_modifier_ends [OF c(3,5,6)] split_with_modifier [OF c(3,4)] c(1,2) show ?thesis
    by (simp add: parse_public_identifier_def Let_def)
qed

lemma parse_public_identifier_again:
  assumes lib: "phone_lib_ok lib" and ok: "parse_public_identifier lib v = Inr p"
  shows "parse_public_identifier lib (with_modifier (pi_canonical p) (pi_wallet p)) = Inr p"
proof -
  have t: "trim v \<noteq> []" using ok by (auto simp: parse_public_identifier_def Let_def)
  obtain base w where sp: "split_final_wallet_modifier (trim v) = Inr (base, w)"
    using ok t by (auto simp: parse_public_identifier_def Let_def bind_res_Inr_iff)
  have hd: "\<not> is_whitespace (hd base)" using hd_split_base [OF sp t] trim_ends(1) [OF t] by simp
  show ?thesis
  proof (cases "is_phone_like base")
    case True
    then obtain c where c: "checked_to_phone_number lib base = Inr c"
      and p: "p = \<lparr>pi_canonical = c, pi_kind = PhoneId, pi_wallet = w\<rparr>"
      using ok t sp by (auto simp: parse_public_identifier_def Let_def bind_res_Inr_iff)
    from parse_with_modifier_phone [OF lib c] p show ?thesis by simp
  next
    case False
    then obtain c where c: "checked_to_username base = Inr c"
      and p: "p = \<lparr>pi_canonical = c, pi_kind = UsernameId, pi_wallet = w\<rparr>"
      using ok t sp by (auto simp: parse_public_identifier_def Let_def bind_res_Inr_iff)
    note u = username_of_base [OF c False hd]
    from parse_with_modifier_username [OF checked_to_username_canonical [OF c] u(1,3,2)] p show ?thesis by simp
  qed
qed

section \<open>Public intents\<close>

lemma callback_with_modifier:
  "(case w of Some BtcModifier \<Rightarrow> c @ ''+btc'' | Some UsdModifier \<Rightarrow> c @ ''+usd'' | None \<Rightarrow> c) = with_modifier c w"
  by (simp add: with_modifier_def)

lemma route_of_parsed:
  assumes "parse_public_identifier lib (trim v) = Inr p" "trim v \<noteq> []"
  shows "parse_public_identifier_for_public_route lib v =
    Inr (Some \<lparr>int_canonical = pi_canonical p, int_wallet = map_option wallet_modifier_to_kind (pi_wallet p),
      int_callback_identifier = with_modifier (pi_canonical p) (pi_wallet p)\<rparr>)"
  using assms by (simp add: parse_public_identifier_for_public_route_def with_modifier_def Let_def)

lemma is_phone_like_public: "is_phone_like_public_identifier v = is_phone_like v"
  by (simp add: is_phone_like_public_identifier_def is_phone_like_def)

lemma legacy_candidate_iff:
  "is_legacy_spark_lookup_candidate v \<longleftrightarrow> \<not> is_phone_like v \<and> CHR ''+'' \<notin> set (drop 1 v)"
  by (auto simp: is_legacy_spark_lookup_candidate_def is_phone_like_public)

lemma parse_no_plus:
  assumes "trim v = v" "v \<noteq> []" "\<not> is_phone_like v" "CHR ''+'' \<notin> set (drop 1 v)"
  shows "parse_public_identifier lib v =
    bind_res (checked_to_username v) (\<lambda>c. Inr \<lparr>pi_canonical = c, pi_kind = UsernameId, pi_wallet = None\<rparr>)"
proof -
  have "split_final_wallet_modifier v = Inr (v, None)"
    using split_with_modifier [OF assms(2,4), of None] by (simp add: with_modifier_def)
  with assms show ?thesis by (simp add: parse_public_identifier_def Let_def)
qed

lemma checked_to_username_lower:
  assumes "trim v = v"
  shows "checked_to_username (to_lowercase v) = checked_to_username v"
  using assms by (simp add: checked_to_username_def Let_def trim_to_lowercase matches_blink_username_regex_def)

lemma legacy_route_again:
  assumes t: "trim v \<noteq> []" and leg: "is_legacy_spark_lookup_candidate (trim v)"
    and bad: "parse_public_identifier lib (trim v) = Inl InvalidUsername"
  shows "parse_public_identifier_for_public_route lib (sanitize_username (trim v)) =
    Inr (Some \<lparr>int_canonical = sanitize_username (trim v), int_wallet = None,
      int_callback_identifier = sanitize_username (trim v)\<rparr>)"
proof -
  let ?u = "to_lowercase (trim v)"
  have u: "sanitize_username (trim v) = ?u" "trim ?u = ?u" "?u \<noteq> []" "to_lowercase ?u = ?u"
    using t by (simp_all add: sanitize_username_def)
  have np: "\<not> is_phone_like (trim v)" "CHR ''+'' \<notin> set (drop 1 (trim v))"
    using leg by (simp_all add: legacy_candidate_iff)
  have np': "\<not> is_phone_like ?u" using np(1) by simp
  have np'': "CHR ''+'' \<notin> set (drop 1 ?u)"
  proof
    assume "CHR ''+'' \<in> set (drop 1 ?u)"
    then obtain c where c: "c \<in> set (drop 1 (trim v))" "lower_char c = CHR ''+''"
      by (auto simp: to_lowercase_def drop_map simp del: lower_char_plus)
    with np(2) show False by simp
  qed
  have "checked_to_username (trim v) = Inl InvalidUsername"
    using bad parse_no_plus [OF trim_idem t np, of lib] by (cases "checked_to_username (trim v)") simp_all
  then have "parse_public_identifier lib ?u = Inl InvalidUsername"
    using parse_no_plus [OF u(2,3) np' np'', of lib] checked_to_username_lower [of "trim v"] by simp
  moreover have "is_legacy_spark_lookup_candidate ?u" using np' np'' by (simp add: legacy_candidate_iff)
  ultimately show ?thesis
    using u by (simp add: parse_public_identifier_for_public_route_def Let_def sanitize_username_def)
qed

section \<open>Properties\<close>

text \<open>
  An accepted username is canonical: three to fifty lower-case letters, digits and underscores
  with at least one letter, no reserved first character or address prefix; it is the trimmed,
  lower-cased input; and accepting it again changes nothing.
\<close>

theorem username_canonical:
  assumes "checked_to_username v = Inr u"
  shows "u = to_lowercase (trim v) \<and> 3 \<le> length u \<and> length u \<le> 50 \<and>
    (\<forall>c \<in> set u. is_ascii_lowercase c \<or> is_ascii_digit c \<or> c = CHR ''_'') \<and>
    (\<exists>c \<in> set u. is_ascii_lowercase c) \<and>
    \<not> starts_with u ''1'' \<and> \<not> starts_with u ''3'' \<and> \<not> starts_with u ''_'' \<and>
    \<not> starts_with u ''bc1'' \<and> \<not> starts_with u ''lnbc1'' \<and> checked_to_username u = Inr u"
proof -
  note ok = checked_to_username_ok [OF assms]
  have "to_lowercase u = u" using ok(1) by simp
  with ok(6) have "\<not> starts_with u ''1''" "\<not> starts_with u ''3''" "\<not> starts_with u ''_''"
    "\<not> starts_with u ''bc1''" "\<not> starts_with u ''lnbc1''"
    by (simp_all add: matches_blink_username_regex_def Let_def split: if_splits)
  with ok checked_to_username_canonical [OF assms] show ?thesis
    unfolding username_char_def by blast
qed

theorem username_canonical_witness: "checked_to_username ''alice_1'' = Inr ''alice_1''"
proof -
  have "checked_to_username '' Alice_1 '' = Inr ''alice_1''" by code_simp
  from username_canonical [OF this] show ?thesis by blast
qed

lemma callback_parses_again:
  assumes lib: "phone_lib_ok lib"
    and ok: "parse_public_identifier_for_public_route lib v = Inr (Some it)"
  shows "parse_public_identifier_for_public_route lib (int_callback_identifier it) = Inr (Some it)"
proof -
  have t: "trim v \<noteq> []" using ok by (auto simp: parse_public_identifier_for_public_route_def Let_def)
  show ?thesis
  proof (cases "parse_public_identifier lib (trim v)")
    case (Inr p)
    let ?c = "with_modifier (pi_canonical p) (pi_wallet p)"
    have it: "it = \<lparr>int_canonical = pi_canonical p, int_wallet = map_option wallet_modifier_to_kind (pi_wallet p),
        int_callback_identifier = ?c\<rparr>"
      using ok route_of_parsed [OF Inr t] by simp
    have again: "parse_public_identifier lib ?c = Inr p" using parse_public_identifier_again [OF lib Inr] .
    then have "trim ?c \<noteq> []" by (auto simp: parse_public_identifier_def Let_def)
    moreover from this again have "parse_public_identifier lib (trim ?c) = Inr p"
      by (simp add: parse_public_identifier_def)
    ultimately have "parse_public_identifier_for_public_route lib ?c = Inr (Some it)"
      unfolding it by (intro route_of_parsed)
    then show ?thesis by (simp add: it)
  next
    case (Inl e)
    have "e = InvalidUsername" "is_legacy_spark_lookup_candidate (trim v)"
      and it: "it = \<lparr>int_canonical = sanitize_username (trim v), int_wallet = None,
        int_callback_identifier = sanitize_username (trim v)\<rparr>"
      using ok Inl t by (auto simp: parse_public_identifier_for_public_route_def Let_def split: if_splits)
    with legacy_route_again [OF t _ Inl [unfolded \<open>e = InvalidUsername\<close>]] show ?thesis by simp
  qed
qed

text \<open>
  The callback identifier a public response advertises parses back to the same recipient, the
  same wallet and the same callback identifier, for usernames, phone numbers and legacy names.
\<close>

theorem callback_identifier_roundtrip:
  assumes "phone_lib_ok lib" "parse_public_identifier_for_public_route lib v = Inr (Some it)"
  shows "parse_public_identifier_for_public_route lib (int_callback_identifier it) = Inr (Some it)"
  using assms by (rule callback_parses_again)

definition demo_phone_lib :: "string phone_lib" where
  "demo_phone_lib = \<lparr>phone_parse = (\<lambda>s. if s = ''+50370000000'' then Some s else None),
     phone_has_country = (\<lambda>_. True), phone_is_valid = (\<lambda>_. True), phone_e164 = id\<rparr>"

lemma demo_phone_lib_ok: "phone_lib_ok demo_phone_lib"
  by (auto simp: phone_lib_ok_def demo_phone_lib_def is_ascii_digit_def)

theorem callback_identifier_roundtrip_witness:
  "parse_public_identifier_for_public_route demo_phone_lib ''+50370000000+usd'' =
     Inr (Some \<lparr>int_canonical = ''+50370000000'', int_wallet = Some Usd,
       int_callback_identifier = ''+50370000000+usd''\<rparr>)"
proof -
  have "parse_public_identifier_for_public_route demo_phone_lib ''0050370000000+USD'' =
     Inr (Some \<lparr>int_canonical = ''+50370000000'', int_wallet = Some Usd,
       int_callback_identifier = ''+50370000000+usd''\<rparr>)"
    by code_simp
  from callback_identifier_roundtrip [OF demo_phone_lib_ok this] show ?thesis by simp
qed

text \<open>
  Which registrable names can be paid. A canonical username that does not start with \<open>00\<close> is
  looked up under exactly that name; one that does start with \<open>00\<close> is read as a phone number by
  the public routes, so no public request ever looks it up.
\<close>

theorem username_reachable:
  assumes lib: "phone_lib_ok lib" and u: "canonical_spark_username u = Inr u"
  shows "(\<not> starts_with u ''00'' \<longrightarrow> parse_public_identifier_for_public_route lib u =
      Inr (Some \<lparr>int_canonical = u, int_wallet = None, int_callback_identifier = u\<rparr>)) \<and>
    (starts_with u ''00'' \<longrightarrow>
      (\<forall>it. parse_public_identifier_for_public_route lib u = Inr (Some it) \<longrightarrow> int_canonical it \<noteq> u))"
proof -
  have ok: "checked_to_username u = Inr u" using u by (simp add: canonical_spark_username_def)
  note c = checked_to_username_ok [OF ok]
  have tr: "trim u = u" "u \<noteq> []" using c(2,3) by (auto simp: trim_username)
  have np: "CHR ''+'' \<notin> set u" using c(2) username_char_plus by blast
  then have np1: "CHR ''+'' \<notin> set (drop 1 u)" by (auto dest: in_set_dropD)
  show ?thesis
  proof (intro conjI impI allI)
    assume no: "\<not> starts_with u ''00''"
    obtain ch where ch: "ch \<in> set u" "is_ascii_lowercase ch" using c(5) by blast
    then have "\<not> is_ascii_digit ch" by (auto simp: is_ascii_lowercase_def is_ascii_digit_def)
    with ch(1) np no tr(2) have "\<not> is_phone_like u" by (cases u) (auto simp: is_phone_like_def starts_with_def)
    then have "parse_public_identifier lib (trim u) =
        Inr \<lparr>pi_canonical = u, pi_kind = UsernameId, pi_wallet = None\<rparr>"
      using parse_no_plus [OF tr _ np1, of lib] ok tr by simp
    from route_of_parsed [OF this] tr show "parse_public_identifier_for_public_route lib u =
        Inr (Some \<lparr>int_canonical = u, int_wallet = None, int_callback_identifier = u\<rparr>)"
      by (simp add: with_modifier_def)
  next
    fix it
    assume zz: "starts_with u ''00''" and r: "parse_public_identifier_for_public_route lib u = Inr (Some it)"
    have ph: "is_phone_like u" using zz by (simp add: is_phone_like_def)
    have "split_final_wallet_modifier u = Inr (u, None)"
      using split_with_modifier [OF tr(2) np1, of None] by (simp add: with_modifier_def)
    then have parse: "parse_public_identifier lib u = bind_res (checked_to_phone_number lib u)
        (\<lambda>e. Inr \<lparr>pi_canonical = e, pi_kind = PhoneId, pi_wallet = None\<rparr>)"
      using tr ph by (simp add: parse_public_identifier_def Let_def)
    have "\<exists>e. checked_to_phone_number lib u = Inr e \<and> int_canonical it = e"
      using r parse tr ph
      by (cases "checked_to_phone_number lib u")
        (auto simp: parse_public_identifier_for_public_route_def Let_def legacy_candidate_iff split: if_splits)
    then obtain e where e: "checked_to_phone_number lib u = Inr e" "int_canonical it = e" by blast
    have "hd e = CHR ''+''" using checked_phone_canonical(7) [OF lib e(1)] .
    moreover have "hd u \<in> set u" using tr(2) by simp
    ultimately show "int_canonical it \<noteq> u" using np e(2) by metis
  qed
qed

theorem username_reachable_witness:
  "canonical_spark_username ''00alice'' = Inr ''00alice'' \<and>
   parse_public_identifier_for_public_route demo_phone_lib ''00alice'' \<noteq>
     Inr (Some \<lparr>int_canonical = ''00alice'', int_wallet = None, int_callback_identifier = ''00alice''\<rparr>)"
proof -
  have ok: "canonical_spark_username ''00alice'' = Inr ''00alice''" by code_simp
  from username_reachable [OF demo_phone_lib_ok ok] ok show ?thesis by (auto simp: starts_with_def)
qed

end
