(* ===== verification/Lnurl_Signed.thy ===== *)
theory Lnurl_Signed
  imports Lnurl_Server Lnurl_Identifier
begin

text \<open>
  Signed requests: \<open>routes/signed.rs\<close> and the Blink messages of \<open>signed_message.rs\<close>. The pubkey,
  signature, hash and verification functions are those of \<^typ>\<open>('k, 's) crypto_lib\<close>; the accept
  window and the \<open>breez-lnurl:v2\<close> builders are those of \<^typ>\<open>breez_lib\<close>.
\<close>

section \<open>Routes and candidates\<close>

datatype signed_route =
    Available_Route | Register_Route | Unregister_Route | Transfer_Route | Recover_Route
  | Metadata_Route | Mode_Route | ZapReceipt_Route | InvoicePaid_Route | InvoicesPaid_Route

definition LEGACY :: "signed_route list" where
  "LEGACY = [Register_Route, Recover_Route, Metadata_Route, Mode_Route, ZapReceipt_Route,
     InvoicePaid_Route, InvoicesPaid_Route]"

fun route_as_str :: "signed_route \<Rightarrow> string" where
  "route_as_str Available_Route = ''available''"
| "route_as_str Register_Route = ''register''"
| "route_as_str Unregister_Route = ''unregister''"
| "route_as_str Transfer_Route = ''transfer''"
| "route_as_str Recover_Route = ''recover''"
| "route_as_str Metadata_Route = ''metadata''"
| "route_as_str Mode_Route = ''mode''"
| "route_as_str ZapReceipt_Route = ''zap_receipt''"
| "route_as_str InvoicePaid_Route = ''invoice_paid''"
| "route_as_str InvoicesPaid_Route = ''invoices_paid''"

fun legacy_index :: "signed_route \<Rightarrow> nat option" where
  "legacy_index Available_Route = None"
| "legacy_index Unregister_Route = None"
| "legacy_index Transfer_Route = None"
| "legacy_index Register_Route = Some 0"
| "legacy_index Recover_Route = Some 1"
| "legacy_index Metadata_Route = Some 2"
| "legacy_index Mode_Route = Some 3"
| "legacy_index ZapReceipt_Route = Some 4"
| "legacy_index InvoicePaid_Route = Some 5"
| "legacy_index InvoicesPaid_Route = Some 6"

datatype message_format = BreezV2 | BlinkV1 | Legacy

record candidate =
  cd_message :: string
  cd_route :: signed_route
  cd_format :: message_format

definition breez_v2 :: "string \<Rightarrow> signed_route \<Rightarrow> candidate" where
  "breez_v2 message route = \<lparr>cd_message = message, cd_route = route, cd_format = BreezV2\<rparr>"

definition blink_v1 :: "string \<Rightarrow> signed_route \<Rightarrow> candidate" where
  "blink_v1 message route = \<lparr>cd_message = message, cd_route = route, cd_format = BlinkV1\<rparr>"

definition legacy :: "string \<Rightarrow> signed_route \<Rightarrow> candidate" where
  "legacy message route = \<lparr>cd_message = message, cd_route = route, cd_format = Legacy\<rparr>"

definition legacy_timestamped :: "string \<Rightarrow> u64 \<Rightarrow> string" where
  "legacy_timestamped message timestamp = message @ ''-'' @ show_u64 timestamp"

text \<open>The messages of \<open>signed_message::blink\<close>.\<close>

definition blink_recover_message :: "string \<Rightarrow> string \<Rightarrow> u64 \<Rightarrow> string" where
  "blink_recover_message domain pubkey timestamp =
     join_with [CHR 0x0A] [''blink-lnurl:v1'', ''recover'', domain, pubkey, show_u64 timestamp]"

definition blink_mode_message :: "string \<Rightarrow> string \<Rightarrow> string \<Rightarrow> u64 \<Rightarrow> string" where
  "blink_mode_message domain pubkey mode timestamp =
     join_with [CHR 0x0A] [''blink-lnurl:v1'', ''mode'', domain, pubkey, mode, show_u64 timestamp]"

section \<open>Verification\<close>

definition invalid_signature :: api_error where
  "invalid_signature = (BAD_REQUEST, JString ''invalid signature'')"

definition parse_pubkey :: "('k, 's) crypto_lib \<Rightarrow> string \<Rightarrow> api_error + 'k" where
  "parse_pubkey lib pubkey =
     bind_res (ok_or (BAD_REQUEST, JString ''invalid pubkey'') (hex_decode lib pubkey)) (\<lambda>b.
     ok_or (BAD_REQUEST, JString ''invalid pubkey'') (public_key_from_slice lib b))"

definition parse_signed_request :: "('k, 's) crypto_lib \<Rightarrow> string \<Rightarrow> string \<Rightarrow> api_error + 'k \<times> 's" where
  "parse_signed_request lib pubkey signature =
     bind_res (parse_pubkey lib pubkey) (\<lambda>pk.
     bind_res (ok_or invalid_signature (hex_decode lib signature)) (\<lambda>b.
     bind_res (ok_or invalid_signature (signature_from_der lib b)) (\<lambda>sg.
     Inr (pk, sg))))"

text \<open>The window test, and the route step that reads the clock for it.\<close>

definition timestamp_ok :: "breez_lib \<Rightarrow> u64 \<Rightarrow> u64 \<Rightarrow> bool" where
  "timestamp_ok bz now timestamp \<longleftrightarrow> u64_abs_diff timestamp now \<le> bz_validity_secs bz"

definition check_timestamp :: "('k, 's) env \<Rightarrow> u64 \<Rightarrow> (api_error, unit) action" where
  "check_timestamp env timestamp =
     bind_act (read_clock env) (\<lambda>now.
       if timestamp_ok (ev_breez env) now timestamp then ret ()
       else fail (BAD_REQUEST, JString ''invalid timestamp''))"

definition record_legacy_verify :: "signed_route \<Rightarrow> server \<Rightarrow> server" where
  "record_legacy_verify route w =
     (case legacy_index route of None \<Rightarrow> w
      | Some i \<Rightarrow> w\<lparr>sv_legacy_verifies := (sv_legacy_verifies w)[i := sv_legacy_verifies w ! i + 1]\<rparr>)"

definition drain_legacy_verifies :: "server \<Rightarrow> (string \<times> u64) list \<times> server" where
  "drain_legacy_verifies w =
     (List.map_filter (\<lambda>r. map_option (\<lambda>i. (route_as_str r, sv_legacy_verifies w ! i)) (legacy_index r)) LEGACY,
      w\<lparr>sv_legacy_verifies := replicate (length LEGACY) 0\<rparr>)"

fun verify_loop :: "('k, 's) crypto_lib \<Rightarrow> 'k \<Rightarrow> 's \<Rightarrow> candidate list \<Rightarrow> candidate option" where
  "verify_loop lib pk sg [] = None"
| "verify_loop lib pk sg (c # cs) =
     (if verify_message lib (cd_message c) sg pk then Some c else verify_loop lib pk sg cs)"

definition verify_candidates ::
  "('k, 's) env \<Rightarrow> 'k \<Rightarrow> 's \<Rightarrow> candidate list \<Rightarrow> string option \<Rightarrow> (api_error, candidate) action" where
  "verify_candidates env pk sg candidates domain w =
     (case verify_loop (ev_crypto env) pk sg candidates of
        Some c \<Rightarrow> (Inr c, if cd_format c = Legacy then record_legacy_verify (cd_route c) w else w)
      | None \<Rightarrow>
          (case domain of
             Some d \<Rightarrow> (Inl (BAD_REQUEST, JString (''invalid signature for domain '' @ [CHR 0x27] @ d @ [CHR 0x27])), w)
           | None \<Rightarrow> (Inl invalid_signature, w)))"

section \<open>Statements\<close>

definition claim_expires_at :: "breez_lib \<Rightarrow> u64 \<Rightarrow> int" where
  "claim_expires_at bz timestamp =
     (case i64_try_from_u64 (u64_saturating_add timestamp (bz_validity_secs bz)) of
        Some t \<Rightarrow> t | None \<Rightarrow> i64_max)"

definition statement_preimage :: "string \<Rightarrow> string \<Rightarrow> string \<Rightarrow> bytes" where
  "statement_preimage pubkey domain message =
     as_bytes pubkey @ [0] @ as_bytes domain @ [0] @ as_bytes message"

definition statement_claim_of :: "('k, 's) env \<Rightarrow> 'k \<Rightarrow> string \<Rightarrow> candidate \<Rightarrow> u64 \<Rightarrow> statement_claim" where
  "statement_claim_of env pk domain c timestamp =
     \<lparr>cl_statement_hash = sha256_hash (ev_crypto env)
        (statement_preimage (public_key_to_string (ev_crypto env) pk) domain (cd_message c)),
      cl_route = route_as_str (cd_route c),
      cl_expires_at = claim_expires_at (ev_breez env) timestamp\<rparr>"

definition statement_already_used :: api_error where
  "statement_already_used = (CONFLICT, JString ''signature has already been used'')"

text \<open>One round of the pruner's loop; a failed round leaves the next to retry.\<close>

definition prune_round :: "('k, 's) env \<Rightarrow> server \<Rightarrow> server" where
  "prune_round env w = snd (db_write env (\<lambda>_. PruneClaims) w)"

lemma verify_loop_Some:
  "verify_loop lib pk sg cs = Some c \<Longrightarrow> c \<in> set cs \<and> verify_message lib (cd_message c) sg pk"
  by (induction cs) (auto split: if_splits)

definition after_verify :: "candidate \<Rightarrow> server \<Rightarrow> server" where
  "after_verify c w = (if cd_format c = Legacy then record_legacy_verify (cd_route c) w else w)"

lemma verify_candidates_iff [act_iff]:
  "verify_candidates env pk sg cs dn w = (Inr c, w') \<longleftrightarrow>
     verify_loop (ev_crypto env) pk sg cs = Some c \<and> w' = after_verify c w"
  by (auto simp: verify_candidates_def after_verify_def split: option.splits)

lemma record_legacy_verify_simps [simp]:
  "sv_db (record_legacy_verify r w) = sv_db w" "sv_step (record_legacy_verify r w) = sv_step w"
  "sv_spawned (record_legacy_verify r w) = sv_spawned w"
  "sv_ip_rate_limiter (record_legacy_verify r w) = sv_ip_rate_limiter w"
  "sv_country_lookup_budget (record_legacy_verify r w) = sv_country_lookup_budget w"
  by (simp_all add: record_legacy_verify_def split: option.splits)

lemma after_verify_simps [simp]:
  "sv_db (after_verify c w) = sv_db w" "sv_step (after_verify c w) = sv_step w"
  by (simp_all add: after_verify_def)

lemma writes_verify [writes_rules]: "writes env G (verify_candidates env pk sg cs dn)"
  by (rule writes_same_db) (simp add: verify_candidates_def split: option.splits)

lemma writes_check_timestamp [writes_rules]: "writes env G (check_timestamp env ts)"
  unfolding check_timestamp_def by (intro writes_rules)

lemma check_timestamp_iff [act_iff]:
  "check_timestamp env ts w = (Inr u, w') \<longleftrightarrow>
     timestamp_ok (ev_breez env) (ev_now env (sv_step w)) ts \<and> w' = tick w"
  by (auto simp: check_timestamp_def act_iff)

lemma parse_signed_request_iff [act_iff]:
  "parse_signed_request lib pubkey signature = Inr (pk, sg) \<longleftrightarrow>
     parse_pubkey lib pubkey = Inr pk \<and>
     (\<exists>b. hex_decode lib signature = Some b \<and> signature_from_der lib b = Some sg)"
  by (auto simp: parse_signed_request_def bind_res_Inr_iff)

section \<open>Messages\<close>

lemma show_u64_chars: "c \<in> set (show_u64 t) \<Longrightarrow> is_ascii_digit c"
  unfolding show_u64_def by (rule show_nat_chars)

lemma not_in_show_u64 [simp]: "CHR 0x0A \<notin> set (show_u64 t)" "CHR ''-'' \<notin> set (show_u64 t)"
  using show_u64_chars [of "CHR 0x0A" t] show_u64_chars [of "CHR ''-''" t]
  by (auto simp: is_ascii_digit_def)

lemma show_u64_eq [simp]: "show_u64 t = show_u64 t' \<longleftrightarrow> t = t'"
  using show_u64_inj by blast

lemma legacy_timestamped_inj:
  "legacy_timestamped m t = legacy_timestamped m' t' \<longleftrightarrow> m = m' \<and> t = t'"
proof
  assume "legacy_timestamped m t = legacy_timestamped m' t'"
  then have "rev (show_u64 t) @ CHR ''-'' # rev m = rev (show_u64 t') @ CHR ''-'' # rev m'"
    unfolding legacy_timestamped_def by (metis append.assoc append_Cons append_Nil rev.simps(2) rev_append)
  then have "rev (show_u64 t) = rev (show_u64 t') \<and> rev m = rev m'"
    by (intro delimited_eq) simp_all
  then show "m = m' \<and> t = t'" by simp
qed simp

lemma blink_message_LF: "CHR 0x0A \<in> set (blink_recover_message dn k t)" "CHR 0x0A \<in> set (blink_mode_message dn k m t)"
  by (simp_all add: blink_recover_message_def blink_mode_message_def)

lemma LF_of_legacy: "CHR 0x0A \<in> set (legacy_timestamped m t) \<longleftrightarrow> CHR 0x0A \<in> set m"
  by (auto simp: legacy_timestamped_def)

lemma mode_as_str_LF [simp]: "CHR 0x0A \<notin> set (account_mode_as_str m)"
  by (cases m) simp_all

lemma account_mode_as_str_inj [simp]: "account_mode_as_str m = account_mode_as_str m' \<longleftrightarrow> m = m'"
  by (cases m; cases m') simp_all

lemma join_LF_inj:
  assumes "\<forall>x \<in> set xs. CHR 0x0A \<notin> set x" "\<forall>y \<in> set ys. CHR 0x0A \<notin> set y" "xs \<noteq> []" "ys \<noteq> []"
  shows "join_with [CHR 0x0A] xs = join_with [CHR 0x0A] ys \<longleftrightarrow> xs = ys"
  using join_with_char_inj [OF assms] by blast

lemma blink_messages_inj:
  assumes "CHR 0x0A \<notin> set dn" "CHR 0x0A \<notin> set k" "CHR 0x0A \<notin> set dn'" "CHR 0x0A \<notin> set k'"
  shows "blink_recover_message dn k t = blink_recover_message dn' k' t' \<longleftrightarrow> dn = dn' \<and> k = k' \<and> t = t'"
    and "blink_mode_message dn k (account_mode_as_str m) t = blink_mode_message dn' k' (account_mode_as_str m') t' \<longleftrightarrow>
      dn = dn' \<and> k = k' \<and> m = m' \<and> t = t'"
    and "blink_recover_message dn k t \<noteq> blink_mode_message dn' k' (account_mode_as_str m') t'"
  unfolding blink_recover_message_def blink_mode_message_def using assms by (subst join_LF_inj; auto)+

section \<open>Preimages\<close>

lemma of_nat_byte_eq: "x < 256 \<Longrightarrow> y < 256 \<Longrightarrow> (of_nat x :: 8 word) = of_nat y \<longleftrightarrow> x = y"
  by (simp add: word_of_nat_eq_iff take_bit_nat_eq_self)

lemma utf8_char_prefix:
  assumes "utf8_char c @ r = utf8_char d @ s"
  shows "c = d \<and> r = s"
proof -
  have c: "code c < 256" "code d < 256" by (rule nat_of_char_less_256)+
  have div: "code c div 64 < 4" "code d div 64 < 4" using c by (simp_all add: less_mult_imp_div_less)
  have eq: "code c div 64 = code d div 64 \<Longrightarrow> code c mod 64 = code d mod 64 \<Longrightarrow> c = d"
    by (metis div_mult_mod_eq of_char_eq_iff)
  show ?thesis
    using assms c div eq
    by (auto simp: utf8_char_def of_nat_byte_eq simp del: of_nat_add split: if_splits)
qed

lemma as_bytes_Nil [simp]: "as_bytes s = [] \<longleftrightarrow> s = []"
  by (cases s) (auto simp: as_bytes_def utf8_char_def)

lemma as_bytes_inj: "as_bytes s = as_bytes t \<Longrightarrow> s = t"
proof (induction s arbitrary: t)
  case Nil
  then show ?case by (metis as_bytes_Nil)
next
  case (Cons c s)
  then obtain d t' where t: "t = d # t'" by (cases t) (auto simp: as_bytes_def utf8_char_def split: if_splits)
  with Cons.prems have "utf8_char c @ as_bytes s = utf8_char d @ as_bytes t'" by (simp add: as_bytes_def)
  from utf8_char_prefix [OF this] Cons.IH t show ?case by simp
qed

lemma zero_in_as_bytes: "0 \<in> set (as_bytes s) \<longleftrightarrow> CHR 0x00 \<in> set s"
proof -
  have "0 \<in> set (utf8_char c) \<longleftrightarrow> c = CHR 0x00" for c
  proof -
    have b: "code c < 256" by (rule nat_of_char_less_256)
    have z: "(0 :: 8 word) = of_nat n \<longleftrightarrow> n = 0" if "n < 256" for n using of_nat_byte_eq [of 0 n] that by simp
    have "code c = 0 \<longleftrightarrow> c = CHR 0x00" using of_char_eq_iff [of c "CHR 0x00"] by simp
    moreover have "code c div 64 < 4" using b by (simp add: less_mult_imp_div_less)
    ultimately show ?thesis using b by (auto simp: utf8_char_def z simp del: of_nat_add)
  qed
  then show ?thesis by (auto simp: as_bytes_def)
qed

lemma statement_preimage_inj:
  assumes "CHR 0x00 \<notin> set k" "CHR 0x00 \<notin> set dn" "CHR 0x00 \<notin> set k'" "CHR 0x00 \<notin> set dn'"
    and "statement_preimage k dn m = statement_preimage k' dn' m'"
  shows "k = k' \<and> dn = dn' \<and> m = m'"
proof -
  have "as_bytes k @ 0 # (as_bytes dn @ 0 # as_bytes m) = as_bytes k' @ 0 # (as_bytes dn' @ 0 # as_bytes m')"
    using assms(5) by (simp add: statement_preimage_def)
  then have 1: "as_bytes k = as_bytes k' \<and> as_bytes dn @ 0 # as_bytes m = as_bytes dn' @ 0 # as_bytes m'"
    by (rule delimited_eq [rotated 2]) (simp_all add: zero_in_as_bytes assms)
  then have "as_bytes dn = as_bytes dn' \<and> as_bytes m = as_bytes m'"
    by (intro delimited_eq [of 0]) (simp_all add: zero_in_as_bytes assms)
  with 1 show ?thesis by (auto dest: as_bytes_inj)
qed

lemma claim_outlives_window:
  assumes "timestamp_ok bz now ts" "uint now \<le> i64_max"
  shows "uint now \<le> claim_expires_at bz ts"
proof -
  have "\<bar>uint ts - uint now\<bar> \<le> uint (bz_validity_secs bz)"
    using assms(1) by (simp add: timestamp_ok_def word_le_def uint_u64_abs_diff)
  then have "uint now \<le> uint ts + uint (bz_validity_secs bz)" by linarith
  moreover have "uint now \<le> 2 ^ 64 - 1" using assms(2) by simp
  ultimately have "uint now \<le> uint (u64_saturating_add ts (bz_validity_secs bz))"
    by (simp add: uint_u64_saturating_add)
  with assms(2) show ?thesis
    by (simp add: claim_expires_at_def i64_try_from_u64_def split: option.splits)
qed

section \<open>Properties\<close>



text \<open>
  The bytes hashed for a statement can be read in one way only: for keys and domains without
  NUL they determine the key, the domain and the message. So two claims share a hash only for the
  same three, or where the hash function itself collides on these two byte strings.
\<close>

theorem statement_hash_identifies:
  assumes "CHR 0x00 \<notin> set (public_key_to_string (ev_crypto env) pk)" "CHR 0x00 \<notin> set dn"
    "CHR 0x00 \<notin> set (public_key_to_string (ev_crypto env) pk')" "CHR 0x00 \<notin> set dn'"
  shows "\<exists>x x'. cl_statement_hash (statement_claim_of env pk dn c ts) = sha256_hash (ev_crypto env) x \<and>
    cl_statement_hash (statement_claim_of env pk' dn' c' ts') = sha256_hash (ev_crypto env) x' \<and>
    (x = x' \<longleftrightarrow> public_key_to_string (ev_crypto env) pk = public_key_to_string (ev_crypto env) pk' \<and>
       dn = dn' \<and> cd_message c = cd_message c')"
proof (intro exI conjI)
  let ?k = "public_key_to_string (ev_crypto env) pk" and ?k' = "public_key_to_string (ev_crypto env) pk'"
  show "cl_statement_hash (statement_claim_of env pk dn c ts) =
      sha256_hash (ev_crypto env) (statement_preimage ?k dn (cd_message c))"
    "cl_statement_hash (statement_claim_of env pk' dn' c' ts') =
      sha256_hash (ev_crypto env) (statement_preimage ?k' dn' (cd_message c'))"
    by (simp_all add: statement_claim_of_def)
  show "statement_preimage ?k dn (cd_message c) = statement_preimage ?k' dn' (cd_message c') \<longleftrightarrow>
      ?k = ?k' \<and> dn = dn' \<and> cd_message c = cd_message c'"
    using statement_preimage_inj [OF assms] by auto
qed

definition demo_crypto :: "(bytes, bytes) crypto_lib" where
  "demo_crypto = \<lparr>hex_decode = (\<lambda>s. Some (as_bytes s)),
     hex_encode = (\<lambda>b. map (\<lambda>x. char_of (unat x)) b), public_key_from_str = (\<lambda>s. Some (as_bytes s)),
     public_key_from_slice = (\<lambda>b. Some b),
     public_key_to_string = (\<lambda>k. if k = as_bytes ''02aa'' then ''02aa'' else ''02bb''),
     signature_from_der = (\<lambda>b. Some b), verify_message = (\<lambda>m sg k. sg = k @ as_bytes m),
     sha256_hash = (\<lambda>b. b), hmac_sha256 = (\<lambda>k b. k @ b)\<rparr>"

definition demo_breez :: breez_lib where
  "demo_breez = \<lparr>bz_validity_secs = 600,
     bz_available = (\<lambda>dn k u t. ''available '' @ join_with '' '' [dn, k, u, show_u64 t]),
     bz_register = (\<lambda>dn u de t. ''register '' @ join_with '' '' [dn, u, de, show_u64 t]),
     bz_unregister = (\<lambda>dn u t. ''unregister '' @ join_with '' '' [dn, u, show_u64 t]),
     bz_recover = (\<lambda>dn k t. ''recover '' @ join_with '' '' [dn, k, show_u64 t]),
     bz_metadata = (\<lambda>dn k t. ''metadata '' @ join_with '' '' [dn, k, show_u64 t]),
     bz_transfer_from = (\<lambda>dn u f k t. ''transfer-from '' @ join_with '' '' [dn, u, f, k, show_u64 t]),
     bz_transfer_to = (\<lambda>dn u f k de t. ''transfer-to '' @ join_with '' '' [dn, u, f, k, de, show_u64 t])\<rparr>"

definition demo_bolt11 :: "string \<Rightarrow> bolt11 option" where
  "demo_bolt11 s =
     (if s = ''lnbc1'' then Some \<lparr>b11_payment_hash = ''p1'', b11_description_hash = Some ''meta'',
        b11_amount_milli_satoshis = Some 21000, b11_expires_at = Some 46\<rparr> else None)"

definition demo_lib :: "bytes pay_lib" where
  "demo_lib = \<lparr>pl_now_millis = (\<lambda>k. 1000000 + int k), pl_bolt11_from_str = demo_bolt11,
     pl_json_to_string = (\<lambda>_. ''meta''),
     pl_event_from_json = (\<lambda>s. Some \<lparr>ne_kind = ZapRequest_Kind, ne_pubkey = ''np'', ne_verifies = True,
       ne_tags = [\<lparr>nt_values = [''relays'', ''r''], nt_letter = None, nt_standard = Some (Relays [''wss://r''])\<rparr>]\<rparr>),
     pl_event_try_as_json = (\<lambda>_. Some ''{}''), pl_event_as_json = (\<lambda>_. ''{}''),
     pl_sign_receipt = (\<lambda>k ts. Some \<lparr>ne_kind = ZapReceipt_Kind, ne_pubkey = nk_secret k, ne_verifies = True, ne_tags = ts\<rparr>),
     pl_zap_receipt_tags = (\<lambda>_ _ e. ne_tags e),
     pl_standard_tag = (\<lambda>t. \<lparr>nt_values = [], nt_letter = None, nt_standard = Some t\<rparr>),
     pl_public_key_tag = (\<lambda>s. \<lparr>nt_values = [''P'', s], nt_letter = Some (CHR ''p'', False), nt_standard = None\<rparr>),
     pl_description_tag = (\<lambda>s. \<lparr>nt_values = [''description'', s], nt_letter = None, nt_standard = None\<rparr>),
     pl_send_event = (\<lambda>_ _ _. True), pl_spark_invoice = (\<lambda>_ _. Some ''lnbc1''),
     pl_graphql_invoice = (\<lambda>_ _ _. None), pl_graphql_status = (\<lambda>_ _. None), pl_graphql_estimate = (\<lambda>_. None),
     pl_post = (\<lambda>_ _ _ _. Posted 200 None)\<rparr>"

definition demo_config :: pay_config where
  "demo_config = \<lparr>pc_scheme = ''https'', pc_callback_domain = None, pc_min_sendable = 1000,
     pc_max_sendable = 4000000000, pc_include_spark_address = False, pc_nostr_keys = None,
     pc_webhook_secret = ''k'', pc_blink_webhook_url = None, pc_blink_status_enabled = False\<rparr>"

definition demo_env :: "(bytes, bytes) env" where
  "demo_env = \<lparr>ev_crypto = demo_crypto, ev_breez = demo_breez, ev_lib = demo_lib, ev_config = demo_config, ev_backend = Sqlite, ev_spark_enabled = True,
     ev_blink_enabled = True,
     ev_domains = [''x.org''], ev_resolver = resolver_new ''https://proxycheck.io/v2'' None,
     ev_parse_ip = demo_parse_ip, ev_send = (\<lambda>_. demo_send), ev_now = (\<lambda>_. 1000), ev_instant = (\<lambda>_. 5),
     ev_fault = (\<lambda>_. Healthy), ev_others = (\<lambda>_ d. d), ev_fresh_id = (\<lambda>k. ''acct_'' @ show_nat k)\<rparr>"

theorem statement_hash_identifies_witness:
  "cl_statement_hash (statement_claim_of demo_env (as_bytes ''02aa'') ''x.org'' (legacy ''m'' Register_Route) 7) \<noteq>
   cl_statement_hash (statement_claim_of demo_env (as_bytes ''02aa'') ''y.org'' (legacy ''m'' Register_Route) 7)"
  using statement_hash_identifies [of demo_env "as_bytes ''02aa''" "''x.org''" "as_bytes ''02aa''" "''y.org''"
      "legacy ''m'' Register_Route" 7 "legacy ''m'' Register_Route" 7]
  by (simp add: demo_env_def demo_crypto_def)

end
