(* ===== verification/Lnurl_Account_Routes.thy ===== *)
theory Lnurl_Account_Routes
  imports Lnurl_Signed Lnurl_Invoices
begin

text \<open>
  The management routes of \<open>routes/account.rs\<close>: register, transfer, unregister, recover, set mode
  and list metadata, with their validation and error mapping. A request body is a record of its
  decoded fields. Logging is not modelled.
\<close>

section \<open>Requests and responses\<close>

record register_request =
  rq_username :: string
  rq_signature :: string
  rq_timestamp :: u64
  rq_description :: string

record unregister_request =
  uq_username :: string
  uq_signature :: string
  uq_timestamp :: u64

record transfer_request =
  tq_username :: string
  tq_description :: string
  tq_from_pubkey :: string
  tq_from_signature :: string
  tq_to_signature :: string
  tq_timestamp :: "u64 option"

record recover_request =
  vq_signature :: string
  vq_timestamp :: u64

record mode_request =
  mq_mode :: string
  mq_signature :: string
  mq_timestamp :: u64

record metadata_request =
  dq_signature :: "string option"
  dq_timestamp :: "u64 option"
  dq_offset :: "u32 option"
  dq_limit :: "u32 option"
  dq_updated_after :: "int option"

record address_response =
  ad_lnurl :: string
  ad_lightning_address :: string

record recover_response =
  rc_lnurl :: "string option"
  rc_lightning_address :: "string option"
  rc_username :: "string option"
  rc_description :: "string option"
  rc_mode :: "string option"

section \<open>Validation and errors\<close>

abbreviation internal_server_error :: api_error where
  "internal_server_error \<equiv> (INTERNAL_SERVER_ERROR, JString ''internal server error'')"

definition storage_error :: "repository_error \<Rightarrow> api_error" where
  "storage_error e = internal_server_error"

definition enhanced_mode_required :: api_error where
  "enhanced_mode_required = (CONFLICT, JString ''enhanced_mode_required'')"

definition user_not_found :: api_error where
  "user_not_found = (NOT_FOUND, JString ''user not found'')"

fun spark_mode_error :: "repository_error \<Rightarrow> api_error" where
  "spark_mode_error StaleModeTimestamp = (CONFLICT, JString ''mode_request_not_newer'')"
| "spark_mode_error AccountNotFound = user_not_found"
| "spark_mode_error e = storage_error e"

fun spark_transfer_error :: "repository_error \<Rightarrow> api_error" where
  "spark_transfer_error SourceNotOwner = (NOT_FOUND, JString ''source pubkey does not own this username'')"
| "spark_transfer_error NameTaken = (CONFLICT, JString ''name already taken'')"
| "spark_transfer_error IdentifierConflict = (CONFLICT, JString ''name already taken'')"
| "spark_transfer_error StaleModeTimestamp = (CONFLICT, JString ''mode_request_not_newer'')"
| "spark_transfer_error StatementAlreadyUsed = statement_already_used"
| "spark_transfer_error _ = internal_server_error"

fun spark_unregister_error :: "repository_error \<Rightarrow> api_error" where
  "spark_unregister_error SourceNotOwner = (NOT_FOUND, JString [])"
| "spark_unregister_error StatementAlreadyUsed = statement_already_used"
| "spark_unregister_error e = storage_error e"

fun spark_registration_error :: "repository_error \<Rightarrow> api_error" where
  "spark_registration_error NameTaken = (CONFLICT, JString ''name already taken'')"
| "spark_registration_error IdentifierConflict = (CONFLICT, JString ''name already taken'')"
| "spark_registration_error StatementAlreadyUsed = statement_already_used"
| "spark_registration_error e = storage_error e"

definition require_spark_provider_enabled :: "('k, 's) env \<Rightarrow> api_error + unit" where
  "require_spark_provider_enabled env =
     (if ev_spark_enabled env then Inr ()
      else Inl (SERVICE_UNAVAILABLE, JString ''Spark provider disabled''))"

definition canonical_spark_username_for_route :: "string \<Rightarrow> api_error + string" where
  "canonical_spark_username_for_route username =
     map_err (\<lambda>_. (BAD_REQUEST, JString ''invalid username'')) (canonical_spark_username username)"

definition validate_description :: "string \<Rightarrow> api_error + unit" where
  "validate_description description =
     (if 255 < length (take 256 description) then Inl (BAD_REQUEST, JString ''description too long'')
      else Inr ())"

definition sanitize_domain :: "('k, 's) env \<Rightarrow> string \<Rightarrow> api_error + string" where
  "sanitize_domain env host =
     (let domain = to_lowercase (trim host) in
      if ev_domains env = [] \<or> domain \<in> set (ev_domains env) then Inr domain
      else Inl (NOT_FOUND, JString []))"

definition parse_account_mode :: "string \<Rightarrow> api_error + account_mode" where
  "parse_account_mode mode =
     (let m = trim mode in
      if m = ''enhanced'' then Inr Enhanced
      else if m = ''anon'' then Inr Anon
      else Inl (BAD_REQUEST, JString ''invalid_mode''))"

definition transfer_requires_v2 :: api_error where
  "transfer_requires_v2 =
     (BAD_REQUEST, JString ''transfer requires a timestamped breez-lnurl:v2 authorization'')"

definition transfer_expired :: api_error where
  "transfer_expired = (BAD_REQUEST, JString ''transfer authorization is expired or not yet valid'')"

definition default_description :: "string \<Rightarrow> string \<Rightarrow> string" where
  "default_description username domain = ''Pay to '' @ username @ ''@'' @ domain"

definition malformed_header :: "string \<Rightarrow> api_error" where
  "malformed_header name = (BAD_REQUEST, JString (''malformed '' @ [CHR 0x27] @ name @ [CHR 0x27] @ '' header''))"

definition metadata_credentials ::
  "header_map \<Rightarrow> string option \<Rightarrow> u64 option \<Rightarrow> api_error + string \<times> u64" where
  "metadata_credentials headers query_signature query_timestamp =
     bind_res (case headers ''x-breez-signature'' of
         Some v \<Rightarrow> map_sum id Some (ok_or (malformed_header ''x-breez-signature'') (to_str v))
       | None \<Rightarrow> Inr query_signature) (\<lambda>sg.
     bind_res (case headers ''x-breez-timestamp'' of
         Some v \<Rightarrow> map_sum id Some (ok_or (malformed_header ''x-breez-timestamp'')
           (Option.bind (to_str v) parse_u64))
       | None \<Rightarrow> Inr query_timestamp) (\<lambda>ts.
     (case (sg, ts) of
        (Some s, Some t) \<Rightarrow> Inr (s, t)
      | _ \<Rightarrow> Inl (BAD_REQUEST, JString ''missing signature or timestamp''))))"

definition address_of :: "string \<Rightarrow> string \<Rightarrow> address_response" where
  "address_of domain username =
     \<lparr>ad_lnurl = ''lnurlp://'' @ domain @ ''/lnurlp/'' @ username,
      ad_lightning_address = username @ ''@'' @ domain\<rparr>"

definition spark_username_from_recipient :: "resolved_recipient \<Rightarrow> repository_error + spark_username" where
  "spark_username_from_recipient r =
     (if rr_provider r \<noteq> Spark \<or> rr_kind r \<noteq> Username then Inl InvalidProvider
      else case rr_spark_pubkey r of None \<Rightarrow> Inl InvalidOwnership
      | Some k \<Rightarrow> Inr \<lparr>su_domain = rr_domain r, su_pubkey = k, su_username = rr_identifier r,
          su_description = rr_description r\<rparr>)"

section \<open>Country evidence\<close>

definition check_ip_budget :: "('k, 's) env \<Rightarrow> ip_addr option \<Rightarrow> ('e, bool) action" where
  "check_ip_budget env ip w =
     (case limiter_check (ev_instant env (sv_step w)) ip (sv_ip_rate_limiter w) of
        (ok, l) \<Rightarrow> (Inr ok, tick (w\<lparr>sv_ip_rate_limiter := l\<rparr>)))"

definition spend_lookup_budget :: "('k, 's) env \<Rightarrow> ('e, bool) action" where
  "spend_lookup_budget env w =
     (case budget_spend (ev_instant env (sv_step w)) (sv_country_lookup_budget w) of
        (ok, b) \<Rightarrow> (Inr ok, tick (w\<lparr>sv_country_lookup_budget := b\<rparr>)))"

definition lookup_country :: "('k, 's) env \<Rightarrow> ip_addr option \<Rightarrow> ('e, string option) action" where
  "lookup_country env ip w =
     (Inr (country_resolve (ev_parse_ip env) (ev_send env (sv_step w)) (ev_resolver env) ip), tick w)"

definition resolve_country :: "('k, 's) env \<Rightarrow> ip_addr option \<Rightarrow> ('e, string option) action" where
  "resolve_country env ip =
     (if \<not> resolver_is_enabled (ev_resolver env) \<or> ip = None then ret None
      else bind_act (spend_lookup_budget env) (\<lambda>ok.
        if \<not> ok then ret None else lookup_country env ip))"

definition spawn_country_evidence_refresh ::
  "('k, 's) env \<Rightarrow> string \<Rightarrow> account_mode option \<Rightarrow> header_map \<Rightarrow> ('e, unit) action" where
  "spawn_country_evidence_refresh env pubkey mode headers w =
     (Inr (),
      if mode \<noteq> Some Enhanced then w
      else if \<not> resolver_is_enabled (ev_resolver env) then w
      else w\<lparr>sv_spawned := sv_spawned w @ [RefreshEvidence pubkey (client_ip (ev_parse_ip env) headers)]\<rparr>)"

text \<open>The body of the spawned task.\<close>

fun run_spawned :: "('k, 's) env \<Rightarrow> spawned_task \<Rightarrow> (repository_error, unit) action" where
  "run_spawned env (RefreshEvidence pubkey ip) =
     bind_act (check_ip_budget env ip) (\<lambda>ok.
     if \<not> ok then ret ()
     else bind_act (resolve_country env ip) (\<lambda>country.
       case country of
         None \<Rightarrow> ret ()
       | Some c \<Rightarrow> ignore_err (db_write env (\<lambda>_. RefreshCountry pubkey c))))"

definition stored_account_mode :: "('k, 's) env \<Rightarrow> string \<Rightarrow> (api_error, account_mode option) action" where
  "stored_account_mode env pubkey =
     bind_act (map_err_act storage_error (db_read env (\<lambda>d. Inr (get_spark_account_mode pubkey d))))
       (\<lambda>r. ret (Option.bind r sam_mode))"

section \<open>Register\<close>

definition register_candidates :: "('k, 's) env \<Rightarrow> string \<Rightarrow> string \<Rightarrow> string \<Rightarrow> u64 \<Rightarrow> candidate list" where
  "register_candidates env domain username description timestamp =
     [breez_v2 (bz_register (ev_breez env) domain username description timestamp) Register_Route,
      legacy (legacy_timestamped username timestamp) Register_Route]"

definition registration_of ::
  "('k, 's) env \<Rightarrow> 'k \<Rightarrow> string \<Rightarrow> string \<Rightarrow> candidate \<Rightarrow> register_request \<Rightarrow> new_spark_registration" where
  "registration_of env pk domain username c payload =
     \<lparr>nr_account_id = None, nr_pubkey = public_key_to_string (ev_crypto env) pk,
      nr_identifier = \<lparr>ni_domain = domain, ni_identifier = username, ni_kind = Username,
        ni_description = (if cd_format c = Legacy then default_description username domain
          else rq_description payload)\<rparr>,
      nr_claim = Some (statement_claim_of env pk domain c (rq_timestamp payload))\<rparr>"

definition register ::
  "('k, 's) env \<Rightarrow> string \<Rightarrow> string \<Rightarrow> header_map \<Rightarrow> register_request \<Rightarrow> (api_error, address_response) action" where
  "register env host pubkey headers payload =
     bind_act (lift (require_spark_provider_enabled env)) (\<lambda>_.
     bind_act (lift (canonical_spark_username_for_route (rq_username payload))) (\<lambda>username.
     bind_act (lift (validate_description (rq_description payload))) (\<lambda>_.
     bind_act (lift (sanitize_domain env host)) (\<lambda>domain.
     bind_act (lift (parse_signed_request (ev_crypto env) pubkey (rq_signature payload))) (\<lambda>(pk, sg).
     bind_act (check_timestamp env (rq_timestamp payload)) (\<lambda>_.
     bind_act (verify_candidates env pk sg
         (register_candidates env domain username (rq_description payload) (rq_timestamp payload))
         (Some domain)) (\<lambda>c.
     bind_act (stored_account_mode env (public_key_to_string (ev_crypto env) pk)) (\<lambda>mode.
     if mode = Some Anon then fail enhanced_mode_required
     else
     bind_act (map_err_act spark_registration_error
         (db_write env (\<lambda>fresh. Register fresh (registration_of env pk domain username c payload)))) (\<lambda>_.
     bind_act (spawn_country_evidence_refresh env (public_key_to_string (ev_crypto env) pk) mode headers) (\<lambda>_.
     ret (address_of domain username)))))))))))"

section \<open>Transfer\<close>

definition transfer_candidates ::
  "('k, 's) env \<Rightarrow> string \<Rightarrow> string \<Rightarrow> 'k \<Rightarrow> 'k \<Rightarrow> string \<Rightarrow> u64 \<Rightarrow> candidate list \<times> candidate list" where
  "transfer_candidates env domain username from_pk to_pk description timestamp =
     (let from = public_key_to_string (ev_crypto env) from_pk;
          to = public_key_to_string (ev_crypto env) to_pk
      in ([breez_v2 (bz_transfer_from (ev_breez env) domain username from to timestamp) Transfer_Route],
          [breez_v2 (bz_transfer_to (ev_breez env) domain username from to description timestamp) Transfer_Route]))"

definition transfer ::
  "('k, 's) env \<Rightarrow> string \<Rightarrow> string \<Rightarrow> transfer_request \<Rightarrow> (api_error, address_response) action" where
  "transfer env host to_pubkey payload =
     bind_act (lift (require_spark_provider_enabled env)) (\<lambda>_.
     bind_act (lift (canonical_spark_username_for_route (tq_username payload))) (\<lambda>username.
     bind_act (lift (validate_description (tq_description payload))) (\<lambda>_.
     bind_act (lift (sanitize_domain env host)) (\<lambda>domain.
     bind_act (lift (parse_signed_request (ev_crypto env) (tq_from_pubkey payload) (tq_from_signature payload))) (\<lambda>(from_pk, from_sig).
     bind_act (lift (parse_signed_request (ev_crypto env) to_pubkey (tq_to_signature payload))) (\<lambda>(to_pk, to_sig).
     bind_act (lift (ok_or transfer_requires_v2 (tq_timestamp payload))) (\<lambda>timestamp.
     bind_act (map_err_act (\<lambda>_. transfer_expired) (check_timestamp env timestamp)) (\<lambda>_.
     bind_act (verify_candidates env from_pk from_sig
         (fst (transfer_candidates env domain username from_pk to_pk (tq_description payload) timestamp)) (Some domain)) (\<lambda>c.
     bind_act (verify_candidates env to_pk to_sig
         (snd (transfer_candidates env domain username from_pk to_pk (tq_description payload) timestamp)) (Some domain)) (\<lambda>_.
     let claim = statement_claim_of env from_pk domain c timestamp in
     if from_pk = to_pk then fail (BAD_REQUEST, JString ''transfer source and target are the same pubkey'')
     else
     let from = public_key_to_string (ev_crypto env) from_pk;
         to = public_key_to_string (ev_crypto env) to_pk in
     bind_act (stored_account_mode env to) (\<lambda>mode.
     if mode = Some Anon then fail enhanced_mode_required
     else
     bind_act (map_err_act spark_transfer_error (db_read env (resolve_recipient_by_identifier domain username))) (\<lambda>found.
     bind_act (lift (ok_or (spark_transfer_error SourceNotOwner) found)) (\<lambda>source.
     if rr_spark_pubkey source \<noteq> Some from then fail (spark_transfer_error SourceNotOwner)
     else
     bind_act (map_err_act spark_transfer_error (db_write env (\<lambda>fresh. Transfer fresh
         \<lparr>tr_domain = domain, tr_identifier = username, tr_source_account_id = rr_account_id source,
          tr_destination_spark_pubkey = to, tr_description = tq_description payload, tr_claim = Some claim\<rparr>))) (\<lambda>_.
     bind_act (ignore_err (db_write env (\<lambda>_. MigrateMode to))) (\<lambda>_.
     ret (address_of domain username))))))))))))))))"

section \<open>Unregister\<close>

definition unregister ::
  "('k, 's) env \<Rightarrow> string \<Rightarrow> string \<Rightarrow> unregister_request \<Rightarrow> (api_error, unit) action" where
  "unregister env host pubkey payload =
     bind_act (lift (require_spark_provider_enabled env)) (\<lambda>_.
     bind_act (lift (canonical_spark_username_for_route (uq_username payload))) (\<lambda>username.
     bind_act (lift (sanitize_domain env host)) (\<lambda>domain.
     bind_act (lift (parse_signed_request (ev_crypto env) pubkey (uq_signature payload))) (\<lambda>(pk, sg).
     bind_act (check_timestamp env (uq_timestamp payload)) (\<lambda>_.
     bind_act (verify_candidates env pk sg
         [breez_v2 (bz_unregister (ev_breez env) domain username (uq_timestamp payload)) Unregister_Route]
         (Some domain)) (\<lambda>c.
     bind_act (map_err_act storage_error
         (db_read env (\<lambda>d. Inr (get_account_by_spark_pubkey (public_key_to_string (ev_crypto env) pk) d)))) (\<lambda>_.
     bind_act (map_err_act spark_unregister_error (db_write env (\<lambda>_. Unregister domain
         (public_key_to_string (ev_crypto env) pk) username
         (Some (statement_claim_of env pk domain c (uq_timestamp payload)))))) (\<lambda>_.
     ret ()))))))))"

section \<open>Recover\<close>

definition recover_candidates :: "('k, 's) env \<Rightarrow> string \<Rightarrow> 'k \<Rightarrow> string \<Rightarrow> u64 \<Rightarrow> candidate list" where
  "recover_candidates env domain pk pubkey timestamp =
     [breez_v2 (bz_recover (ev_breez env) domain (public_key_to_string (ev_crypto env) pk) timestamp) Recover_Route,
      blink_v1 (blink_recover_message domain (public_key_to_string (ev_crypto env) pk) timestamp) Recover_Route,
      legacy (legacy_timestamped pubkey timestamp) Recover_Route]"

definition recover_answer ::
  "message_format \<Rightarrow> spark_username option \<Rightarrow> account_mode option \<Rightarrow> api_error + recover_response" where
  "recover_answer matched user mode =
     (let mode = map_option account_mode_as_str mode in
      case user of
        Some u \<Rightarrow> Inr \<lparr>rc_lnurl = Some (''lnurlp://'' @ su_domain u @ ''/lnurlp/'' @ su_username u),
          rc_lightning_address = Some (su_username u @ ''@'' @ su_domain u),
          rc_username = Some (su_username u), rc_description = Some (su_description u), rc_mode = mode\<rparr>
      | None \<Rightarrow>
          if mode \<noteq> None \<and> matched \<noteq> BreezV2
          then Inr \<lparr>rc_lnurl = None, rc_lightning_address = None, rc_username = None,
            rc_description = None, rc_mode = mode\<rparr>
          else Inl user_not_found)"

definition recover ::
  "('k, 's) env \<Rightarrow> string \<Rightarrow> string \<Rightarrow> header_map \<Rightarrow> recover_request \<Rightarrow> (api_error, recover_response) action" where
  "recover env host pubkey headers payload =
     bind_act (lift (sanitize_domain env host)) (\<lambda>domain.
     bind_act (lift (parse_signed_request (ev_crypto env) pubkey (vq_signature payload))) (\<lambda>(pk, sg).
     bind_act (check_timestamp env (vq_timestamp payload)) (\<lambda>_.
     bind_act (verify_candidates env pk sg (recover_candidates env domain pk pubkey (vq_timestamp payload))
         (Some domain)) (\<lambda>c.
     let key = public_key_to_string (ev_crypto env) pk in
     bind_act (map_err_act storage_error (db_read env (\<lambda>d. Inr (get_account_by_spark_pubkey key d)))) (\<lambda>account.
     if account = None then fail user_not_found
     else
     bind_act (stored_account_mode env key) (\<lambda>mode.
     bind_act (spawn_country_evidence_refresh env key mode headers) (\<lambda>_.
     bind_act (map_err_act storage_error (db_read env (\<lambda>d. Inr (get_spark_username_by_pubkey domain key d)))) (\<lambda>user.
     lift (recover_answer (cd_format c) user mode)))))))))"

section \<open>Mode\<close>

definition mode_candidates :: "('k, 's) env \<Rightarrow> string \<Rightarrow> 'k \<Rightarrow> string \<Rightarrow> account_mode \<Rightarrow> u64 \<Rightarrow> candidate list" where
  "mode_candidates env domain pk pubkey mode timestamp =
     [blink_v1 (blink_mode_message domain (public_key_to_string (ev_crypto env) pk) (account_mode_as_str mode) timestamp)
        Mode_Route,
      legacy (legacy_timestamped (''mode:'' @ account_mode_as_str mode @ '':'' @ pubkey) timestamp) Mode_Route]"

fun country_for_mode :: "('k, 's) env \<Rightarrow> account_mode \<Rightarrow> ip_addr option \<Rightarrow> ('e, string option) action" where
  "country_for_mode env Enhanced ip = resolve_country env ip"
| "country_for_mode env Anon ip = ret None"

definition set_mode ::
  "('k, 's) env \<Rightarrow> string \<Rightarrow> string \<Rightarrow> header_map \<Rightarrow> mode_request \<Rightarrow> (api_error, string) action" where
  "set_mode env host pubkey headers payload =
     bind_act (lift (require_spark_provider_enabled env)) (\<lambda>_.
     bind_act (lift (parse_account_mode (mq_mode payload))) (\<lambda>mode.
     let request_ip = client_ip (ev_parse_ip env) headers in
     bind_act (check_ip_budget env request_ip) (\<lambda>ok.
     if \<not> ok then fail (TOO_MANY_REQUESTS, JString ''rate_limited'')
     else
     bind_act (lift (sanitize_domain env host)) (\<lambda>domain.
     bind_act (lift (parse_signed_request (ev_crypto env) pubkey (mq_signature payload))) (\<lambda>(pk, sg).
     bind_act (check_timestamp env (mq_timestamp payload)) (\<lambda>_.
     bind_act (verify_candidates env pk sg (mode_candidates env domain pk pubkey mode (mq_timestamp payload))
         (Some domain)) (\<lambda>_.
     bind_act (lift (ok_or (BAD_REQUEST, JString ''invalid timestamp'') (i64_try_from_u64 (mq_timestamp payload)))) (\<lambda>ts.
     bind_act (read_clock env) (\<lambda>now.
     if i64_saturating_add (uint now) 30 < ts
     then fail (BAD_REQUEST, JString ''mode_timestamp_in_future'')
     else
     bind_act (country_for_mode env mode request_ip) (\<lambda>country.
     bind_act (map_err_act spark_mode_error (db_write env (\<lambda>fresh. SetMode fresh
         \<lparr>mu_pubkey = public_key_to_string (ev_crypto env) pk, mu_mode = mode, mu_client_timestamp = ts,
          mu_country = country\<rparr>))) (\<lambda>_.
     ret (account_mode_as_str mode))))))))))))"

section \<open>Metadata\<close>

definition metadata_candidates :: "('k, 's) env \<Rightarrow> string \<Rightarrow> 'k \<Rightarrow> string \<Rightarrow> u64 \<Rightarrow> candidate list" where
  "metadata_candidates env domain pk pubkey timestamp =
     [breez_v2 (bz_metadata (ev_breez env) domain (public_key_to_string (ev_crypto env) pk) timestamp) Metadata_Route,
      legacy (legacy_timestamped pubkey timestamp) Metadata_Route]"

definition list_metadata ::
  "('k, 's) env \<Rightarrow> string \<Rightarrow> string \<Rightarrow> header_map \<Rightarrow> metadata_request \<Rightarrow> (api_error, list_metadata_metadata list) action" where
  "list_metadata env host pubkey headers params =
     bind_act (lift (metadata_credentials headers (dq_signature params) (dq_timestamp params))) (\<lambda>(signature, timestamp).
     bind_act (lift (sanitize_domain env host)) (\<lambda>domain.
     bind_act (lift (parse_signed_request (ev_crypto env) pubkey signature)) (\<lambda>(pk, sg).
     bind_act (check_timestamp env timestamp) (\<lambda>_.
     bind_act (verify_candidates env pk sg (metadata_candidates env domain pk pubkey timestamp) (Some domain)) (\<lambda>_.
     let offset = (case dq_offset params of Some x \<Rightarrow> x | None \<Rightarrow> 0);
         limit = (case dq_limit params of Some x \<Rightarrow> x | None \<Rightarrow> 100) in
     map_err_act (\<lambda>_. internal_server_error)
       (db_read env (\<lambda>d. Inr (get_metadata_by_pubkey (public_key_to_string (ev_crypto env) pk) offset limit
          (dq_updated_after params) d))))))))"

end
