(* ===== verification/Lnurl_Account_Routes_Thms.thy ===== *)
theory Lnurl_Account_Routes_Thms
  imports Lnurl_Account_Routes
begin

text \<open>
  What the management routes guarantee: every write is authorised by a fresh signature, reading
  routes write nothing, a statement is acted on once, and a successful request has the effect it
  was signed for. All of it holds under concurrent requests and lost calls.
\<close>

section \<open>Authorisation\<close>

text \<open>
  \<open>signed_by env C key m\<close>: among the credentials \<open>C\<close>, pairs of a public key and a signature as sent, is
  a signature of \<open>key\<close> over the message \<open>m\<close>.
\<close>

definition signed_by :: "('k, 's) env \<Rightarrow> (string \<times> string) set \<Rightarrow> string \<Rightarrow> string \<Rightarrow> bool" where
  "signed_by env C key m \<longleftrightarrow>
     (\<exists>(pubkey, signature) \<in> C. \<exists>pk sg. parse_signed_request (ev_crypto env) pubkey signature = Inr (pk, sg) \<and>
        public_key_to_string (ev_crypto env) pk = key \<and> verify_message (ev_crypto env) m sg pk)"

definition in_window :: "('k, 's) env \<Rightarrow> u64 \<Rightarrow> bool" where
  "in_window env ts \<longleftrightarrow> (\<exists>k. timestamp_ok (ev_breez env) (ev_now env k) ts)"

text \<open>The claim an operation carries is the one over the message \<open>m\<close> signed by \<open>key\<close>.\<close>

definition claims_message :: "('k, 's) env \<Rightarrow> string \<Rightarrow> string \<Rightarrow> string \<Rightarrow> u64 \<Rightarrow> statement_claim option \<Rightarrow> bool" where
  "claims_message env key dn m ts cl \<longleftrightarrow>
     (\<exists>pk c. public_key_to_string (ev_crypto env) pk = key \<and> cd_message c = m \<and>
        cl = Some (statement_claim_of env pk dn c ts))"

text \<open>An account id is one the server generated itself.\<close>

definition generated :: "('k, 's) env \<Rightarrow> string \<Rightarrow> bool" where
  "generated env fresh \<longleftrightarrow> (\<exists>k. fresh = ev_fresh_id env k)"

fun authorised :: "('k, 's) env \<Rightarrow> (string \<times> string) set \<Rightarrow> account_op \<Rightarrow> bool" where
  "authorised env C (Register fresh reg) =
     (let i = nr_identifier reg; key = nr_pubkey reg; dn = ni_domain i; u = ni_identifier i; de = ni_description i in
      generated env fresh \<and> nr_account_id reg = None \<and> ni_kind i = Username \<and> canonical_spark_username u = Inr u \<and>
      (\<exists>ts m. in_window env ts \<and> signed_by env C key m \<and> claims_message env key dn m ts (nr_claim reg) \<and>
        (m = bz_register (ev_breez env) dn u de ts \<or>
         m = legacy_timestamped u ts \<and> de = default_description u dn)))"
| "authorised env C (Unregister dn key u cl) =
     (\<exists>ts. let m = bz_unregister (ev_breez env) dn u ts in
        in_window env ts \<and> signed_by env C key m \<and> claims_message env key dn m ts cl)"
| "authorised env C (Transfer fresh t) =
     (\<exists>ts from. let to = tr_destination_spark_pubkey t;
          m = bz_transfer_from (ev_breez env) (tr_domain t) (tr_identifier t) from to ts in
        in_window env ts \<and> signed_by env C from m \<and> claims_message env from (tr_domain t) m ts (tr_claim t) \<and>
        signed_by env C to (bz_transfer_to (ev_breez env) (tr_domain t) (tr_identifier t) from to (tr_description t) ts))"
| "authorised env C (MigrateMode to) =
     (\<exists>dn u from de ts. in_window env ts \<and> signed_by env C to (bz_transfer_to (ev_breez env) dn u from to de ts))"
| "authorised env C (SetMode fresh u) =
     (\<exists>ts dn path. in_window env ts \<and> mu_client_timestamp u = uint ts \<and>
        (mu_mode u = Anon \<longrightarrow> mu_country u = None) \<and>
        (\<exists>m. signed_by env C (mu_pubkey u) m \<and>
          (m = blink_mode_message dn (mu_pubkey u) (account_mode_as_str (mu_mode u)) ts \<or>
           m = legacy_timestamped (''mode:'' @ account_mode_as_str (mu_mode u) @ '':'' @ path) ts)))"
| "authorised env C (RefreshCountry key c) = (length c = 2 \<and> list_all is_ascii_uppercase c)"
| "authorised env C _ = False"

lemma signed_by_mono: "signed_by env C key m \<Longrightarrow> C \<subseteq> D \<Longrightarrow> signed_by env D key m"
  unfolding signed_by_def by blast

lemma authorised_mono:
  assumes "authorised env C op" "C \<subseteq> D"
  shows "authorised env D op"
proof -
  have "signed_by env D key m" if "signed_by env C key m" for key m by (rule signed_by_mono [OF that assms(2)])
  with assms(1) show ?thesis by (cases op; simp add: Let_def; blast)
qed

lemma sanitized_username: "canonical_spark_username_for_route v = Inr u \<Longrightarrow> canonical_spark_username u = Inr u"
  by (simp add: canonical_spark_username_for_route_def canonical_spark_username_def checked_to_username_canonical)

lemma writes_stored_mode [writes_rules]: "writes env G (stored_account_mode env key)"
  unfolding stored_account_mode_def by (intro writes_rules)

lemma writes_spawn [writes_rules]: "writes env G (spawn_country_evidence_refresh env key mode headers)"
  by (rule writes_same_db) (simp add: spawn_country_evidence_refresh_def)

lemma writes_budgets [writes_rules]:
  "writes env G (check_ip_budget env ip)" "writes env G (spend_lookup_budget env)" "writes env G (lookup_country env ip)"
  by (auto intro!: writes_same_db simp: check_ip_budget_def spend_lookup_budget_def lookup_country_def split: prod.splits)

lemma writes_resolve_country [writes_rules]: "writes env G (resolve_country env ip)"
  unfolding resolve_country_def by (intro writes_rules)

lemma signed_byI:
  assumes "parse_signed_request (ev_crypto env) pubkey signature = Inr (pk, sg)" "(pubkey, signature) \<in> C"
    and "verify_loop (ev_crypto env) pk sg cs = Some c"
  shows "signed_by env C (public_key_to_string (ev_crypto env) pk) (cd_message c)"
  unfolding signed_by_def
  by (rule bexI [OF _ assms(2)]) (use assms(1) verify_loop_Some [OF assms(3)] in auto)

lemma in_windowI: "timestamp_ok (ev_breez env) (ev_now env k) ts \<Longrightarrow> in_window env ts"
  unfolding in_window_def by blast

lemma claims_messageI: "claims_message env (public_key_to_string (ev_crypto env) pk) dn (cd_message c) ts
    (Some (statement_claim_of env pk dn c ts))"
  unfolding claims_message_def by blast

declare authorised.simps [simp del]

lemma candidate_message [simp]:
  "cd_message (breez_v2 m r) = m" "cd_message (blink_v1 m r) = m" "cd_message (legacy m r) = m"
  "cd_format (breez_v2 m r) = BreezV2" "cd_format (blink_v1 m r) = BlinkV1" "cd_format (legacy m r) = Legacy"
  by (simp_all add: breez_v2_def blink_v1_def legacy_def)

lemma registration_authorised:
  assumes "canonical_spark_username u = Inr u" "timestamp_ok (ev_breez env) (ev_now env k) (rq_timestamp payload)"
    and cr: "parse_signed_request (ev_crypto env) pubkey signature = Inr (pk, sg)" "(pubkey, signature) \<in> C"
    and v: "verify_loop (ev_crypto env) pk sg
      (register_candidates env dn u (rq_description payload) (rq_timestamp payload)) = Some c"
  shows "authorised env C (Register (ev_fresh_id env l) (registration_of env pk dn u c payload))"
proof -
  have "c \<in> set (register_candidates env dn u (rq_description payload) (rq_timestamp payload))"
    using verify_loop_Some [OF v] by blast
  then have "cd_format c \<noteq> Legacy \<and> cd_message c = bz_register (ev_breez env) dn u (rq_description payload) (rq_timestamp payload) \<or>
      cd_format c = Legacy \<and> cd_message c = legacy_timestamped u (rq_timestamp payload)"
    by (auto simp: register_candidates_def)
  with assms(1) signed_byI [OF cr v] in_windowI [OF assms(2)] claims_messageI [of env pk dn c]
  show ?thesis by (auto simp: registration_of_def Let_def authorised.simps generated_def)
qed

text \<open>Only the transfer route transfers.\<close>

definition no_transfer :: "account_op \<Rightarrow> bool" where
  "no_transfer op \<longleftrightarrow> (\<forall>fresh t. op \<noteq> Transfer fresh t)"

lemma writes_only: "writes env (op_step env (\<lambda>op. authorised env C op \<and> Q op)) m \<Longrightarrow> writes env (op_step env (authorised env C)) m"
  by (erule writes_mono) (auto simp: op_step_def)

lemma register_writes:
  "writes env (op_step env (\<lambda>op. authorised env {(pubkey, rq_signature payload)} op \<and> no_transfer op))
     (register env host pubkey headers payload)"
  unfolding register_def
  by (intro writes_rules)
    (auto simp: act_iff no_transfer_def intro!: registration_authorised dest: sanitized_username)

lemma unregister_authorised:
  assumes "timestamp_ok (ev_breez env) (ev_now env k) ts"
    and v: "verify_loop (ev_crypto env) pk sg [breez_v2 (bz_unregister (ev_breez env) dn u ts) r] = Some c"
    and cr: "parse_signed_request (ev_crypto env) pubkey signature = Inr (pk, sg)" "(pubkey, signature) \<in> C"
  shows "authorised env C (Unregister dn (public_key_to_string (ev_crypto env) pk) u
    (Some (statement_claim_of env pk dn c ts)))"
proof -
  have "cd_message c = bz_unregister (ev_breez env) dn u ts" using v by (auto split: if_splits)
  then show ?thesis
    unfolding authorised.simps Let_def
    using signed_byI [OF cr v] in_windowI [OF assms(1)] claims_messageI [of env pk dn c ts] by metis
qed

lemma unregister_writes:
  "writes env (op_step env (\<lambda>op. authorised env {(pubkey, uq_signature payload)} op \<and> no_transfer op))
     (unregister env host pubkey payload)"
  unfolding unregister_def
  by (intro writes_rules) (auto simp: act_iff no_transfer_def intro!: unregister_authorised simp del: verify_loop.simps)

lemma transfer_authorised:
  assumes "timestamp_ok (ev_breez env) (ev_now env k) ts"
    and v: "verify_loop (ev_crypto env) from_pk from_sig (fst (transfer_candidates env dn u from_pk to_pk de ts)) = Some c"
    and v': "verify_loop (ev_crypto env) to_pk to_sig (snd (transfer_candidates env dn u from_pk to_pk de ts)) = Some c'"
    and cr: "parse_signed_request (ev_crypto env) from_pubkey from_signature = Inr (from_pk, from_sig)"
      "(from_pubkey, from_signature) \<in> C"
    and cr': "parse_signed_request (ev_crypto env) to_pubkey to_signature = Inr (to_pk, to_sig)"
      "(to_pubkey, to_signature) \<in> C"
  shows "authorised env C (Transfer fresh \<lparr>tr_domain = dn, tr_identifier = u, tr_source_account_id = i,
      tr_destination_spark_pubkey = public_key_to_string (ev_crypto env) to_pk, tr_description = de,
      tr_claim = Some (statement_claim_of env from_pk dn c ts)\<rparr>)"
    and "authorised env C (MigrateMode (public_key_to_string (ev_crypto env) to_pk))"
proof -
  note w = in_windowI [OF assms(1)]
  have c: "cd_message c = bz_transfer_from (ev_breez env) dn u (public_key_to_string (ev_crypto env) from_pk)
      (public_key_to_string (ev_crypto env) to_pk) ts"
    and c': "cd_message c' = bz_transfer_to (ev_breez env) dn u (public_key_to_string (ev_crypto env) from_pk)
      (public_key_to_string (ev_crypto env) to_pk) de ts"
    using v v' by (auto simp: transfer_candidates_def Let_def split: if_splits)
  show "authorised env C (Transfer fresh \<lparr>tr_domain = dn, tr_identifier = u, tr_source_account_id = i,
      tr_destination_spark_pubkey = public_key_to_string (ev_crypto env) to_pk, tr_description = de,
      tr_claim = Some (statement_claim_of env from_pk dn c ts)\<rparr>)"
    using w signed_byI [OF cr v] signed_byI [OF cr' v'] claims_messageI [of env from_pk dn c ts] c c'
    by (auto simp: authorised.simps Let_def)
  show "authorised env C (MigrateMode (public_key_to_string (ev_crypto env) to_pk))"
    unfolding authorised.simps using w signed_byI [OF cr' v'] c' by metis
qed

abbreviation transfer_credentials :: "string \<Rightarrow> transfer_request \<Rightarrow> (string \<times> string) set" where
  "transfer_credentials to_pubkey p \<equiv> {(tq_from_pubkey p, tq_from_signature p), (to_pubkey, tq_to_signature p)}"

lemma transfer_writes:
  "writes env (op_step env (authorised env (transfer_credentials to_pubkey payload))) (transfer env host to_pubkey payload)"
  unfolding transfer_def
  by (intro writes_rules) (auto simp: act_iff simp del: parse_signed_request_iff intro!: transfer_authorised)

lemma mode_authorised:
  assumes "timestamp_ok (ev_breez env) (ev_now env k) ts" "i64_try_from_u64 ts = Some t"
    and v: "verify_loop (ev_crypto env) pk sg (mode_candidates env dn pk path mode ts) = Some c"
    and "mode = Anon \<Longrightarrow> country = None"
    and cr: "parse_signed_request (ev_crypto env) pubkey signature = Inr (pk, sg)" "(pubkey, signature) \<in> C"
  shows "authorised env C (SetMode fresh \<lparr>mu_pubkey = public_key_to_string (ev_crypto env) pk, mu_mode = mode,
    mu_client_timestamp = t, mu_country = country\<rparr>)"
proof -
  have "c \<in> set (mode_candidates env dn pk path mode ts)" using verify_loop_Some [OF v] by blast
  then have "cd_message c = blink_mode_message dn (public_key_to_string (ev_crypto env) pk) (account_mode_as_str mode) ts \<or>
      cd_message c = legacy_timestamped (''mode:'' @ account_mode_as_str mode @ '':'' @ path) ts"
    by (auto simp: mode_candidates_def)
  moreover have "t = uint ts" using assms(2) by (simp add: i64_try_from_u64_def split: if_splits)
  ultimately show ?thesis
    using in_windowI [OF assms(1)] signed_byI [OF cr v] assms(4) by (auto simp: authorised.simps)
qed

lemma resolve_country_db: "resolve_country env ip w = (Inr c, w') \<Longrightarrow> sv_db w' = sv_db w"
  by (auto simp: resolve_country_def bind_act_iff ret_iff if_act_iff spend_lookup_budget_def lookup_country_def
      split: if_splits prod.splits)

lemma check_ip_budget_db: "check_ip_budget env ip w = (Inr ok, w') \<Longrightarrow> sv_db w' = sv_db w"
  by (auto simp: check_ip_budget_def split: prod.splits)

lemma country_for_mode_db: "country_for_mode env mode ip w = (Inr c, w') \<Longrightarrow> sv_db w' = sv_db w"
  by (cases mode) (auto simp: ret_iff dest: resolve_country_db)

lemma country_for_mode_anon: "country_for_mode env Anon ip w = (Inr c, w') \<Longrightarrow> c = None"
  by (simp add: ret_iff)

lemma writes_country_for_mode [writes_rules]: "writes env G (country_for_mode env mode ip)"
  by (cases mode) (auto intro: writes_rules)

lemma set_mode_writes:
  "writes env (op_step env (\<lambda>op. authorised env {(pubkey, mq_signature payload)} op \<and> no_transfer op))
     (set_mode env host pubkey headers payload)"
  unfolding set_mode_def
  by (intro writes_rules)
    (auto simp: act_iff no_transfer_def intro!: mode_authorised dest: country_for_mode_anon)

lemma resolve_country_shape:
  "resolve_country env ip w = (Inr (Some c), w') \<Longrightarrow> length c = 2 \<and> list_all is_ascii_uppercase c"
  by (auto simp: resolve_country_def act_iff lookup_country_def spend_lookup_budget_def
      dest: country_resolve_shape split: if_splits)

lemma run_spawned_writes:
  "writes env (op_step env (\<lambda>op. authorised env C op \<and> no_transfer op)) (run_spawned env t)"
  by (cases t) (auto simp: authorised.simps no_transfer_def intro!: writes_rules dest: resolve_country_shape)

lemma reading_routes_write_nothing:
  "writes env no_step (recover env host pubkey headers rq)"
  "writes env no_step (list_metadata env host pubkey headers mq)"
  unfolding recover_def list_metadata_def by (intro writes_rules)+

section \<open>Serving requests\<close>

text \<open>
  The requests of the management routes and the tasks they leave behind, served one after the
  other; what is served at the same time is in \<^const>\<open>ev_others\<close>. \<open>serve\<close> says whether the
  response was a success.
\<close>

datatype account_request =
    RegisterReq string string header_map register_request
  | TransferReq string string transfer_request
  | UnregisterReq string string unregister_request
  | RecoverReq string string header_map recover_request
  | ModeReq string string header_map mode_request
  | MetadataReq string string header_map metadata_request
  | SpawnedTask spawned_task

definition outcome :: "('e + 'a) \<times> server \<Rightarrow> bool \<times> server" where
  "outcome r = (is_ok (fst r), snd r)"

fun serve :: "('k, 's) env \<Rightarrow> account_request \<Rightarrow> server \<Rightarrow> bool \<times> server" where
  "serve env (RegisterReq host pubkey headers p) w = outcome (register env host pubkey headers p w)"
| "serve env (TransferReq host pubkey p) w = outcome (transfer env host pubkey p w)"
| "serve env (UnregisterReq host pubkey p) w = outcome (unregister env host pubkey p w)"
| "serve env (RecoverReq host pubkey headers p) w = outcome (recover env host pubkey headers p w)"
| "serve env (ModeReq host pubkey headers p) w = outcome (set_mode env host pubkey headers p w)"
| "serve env (MetadataReq host pubkey headers p) w = outcome (list_metadata env host pubkey headers p w)"
| "serve env (SpawnedTask t) w = outcome (run_spawned env t w)"

inductive server_run :: "('k, 's) env \<Rightarrow> server \<Rightarrow> account_request list \<Rightarrow> server \<Rightarrow> bool" for env where
  run_none: "server_run env w [] w"
| run_one: "server_run env w rs w1 \<Longrightarrow> server_run env w (rs @ [r]) (snd (serve env r w1))"

text \<open>The signatures a request carries, each with the public key it is said to be of.\<close>

fun carried :: "account_request \<Rightarrow> (string \<times> string) set" where
  "carried (RegisterReq host pubkey headers p) = {(pubkey, rq_signature p)}"
| "carried (TransferReq host pubkey p) = transfer_credentials pubkey p"
| "carried (UnregisterReq host pubkey p) = {(pubkey, uq_signature p)}"
| "carried (ModeReq host pubkey headers p) = {(pubkey, mq_signature p)}"
| "carried _ = {}"

abbreviation account_writes :: "('k, 's) env \<Rightarrow> nat \<Rightarrow> db \<Rightarrow> db \<Rightarrow> bool" where
  "account_writes env \<equiv> op_step env (authorised env UNIV)"

lemma served_of_writes: "writes env G m \<Longrightarrow> served env G (sv_db w) (sv_db (snd (outcome (m w))))"
  by (simp add: writes_def outcome_def)

lemma writes_nothing: "writes env no_step m \<Longrightarrow> writes env G m"
  by (erule writes_mono) (simp add: no_step_def)

lemma serve_served:
  "served env (op_step env (authorised env (carried r))) (sv_db w) (sv_db (snd (serve env r w)))"
  by (cases r)
    (simp_all add: served_of_writes register_writes [THEN writes_only] transfer_writes unregister_writes [THEN writes_only]
      set_mode_writes [THEN writes_only] run_spawned_writes [THEN writes_only] writes_nothing reading_routes_write_nothing)

lemma served_authorised_mono:
  "served env (op_step env (authorised env C)) d d' \<Longrightarrow> C \<subseteq> D \<Longrightarrow> served env (op_step env (authorised env D)) d d'"
  by (erule served_mono) (erule op_step_mono, erule authorised_mono)

lemma server_run_served:
  "server_run env w rs w' \<Longrightarrow>
     served env (op_step env (authorised env (\<Union> (carried ` set rs)))) (sv_db w) (sv_db w')"
proof (induction rule: server_run.induct)
  case (run_one w rs w1 r)
  have "served env (op_step env (authorised env (\<Union> (carried ` set (rs @ [r]))))) (sv_db w) (sv_db w1)"
    by (rule served_authorised_mono [OF run_one.IH]) auto
  moreover have "served env (op_step env (authorised env (\<Union> (carried ` set (rs @ [r]))))) (sv_db w1)
      (sv_db (snd (serve env r w1)))"
    by (rule served_authorised_mono [OF serve_served]) auto
  ultimately show ?case by (rule served_trans [rotated])
qed (rule served_refl)

lemma server_run_writes: "server_run env w rs w' \<Longrightarrow> served env (account_writes env) (sv_db w) (sv_db w')"
  by (rule served_authorised_mono [OF server_run_served]) auto

section \<open>Statements are acted on once\<close>

definition statement_over ::
  "('k, 's) env \<Rightarrow> api_error + string \<Rightarrow> api_error + string \<Rightarrow> api_error + 'k \<times> 's \<Rightarrow> u64 \<Rightarrow>
   (string \<Rightarrow> string \<Rightarrow> 'k \<Rightarrow> candidate list) \<Rightarrow> statement_claim option" where
  "statement_over env username domain credentials ts cands =
     (case (username, domain, credentials) of
        (Inr u, Inr dn, Inr (pk, sg)) \<Rightarrow>
          map_option (\<lambda>c. statement_claim_of env pk dn c ts) (verify_loop (ev_crypto env) pk sg (cands dn u pk))
      | _ \<Rightarrow> None)"

text \<open>The statement a request presents, if it verifies at all, and its timestamp.\<close>

fun statement_of :: "('k, 's) env \<Rightarrow> account_request \<Rightarrow> (statement_claim \<times> u64) option" where
  "statement_of env (RegisterReq host pubkey headers p) =
     map_option (\<lambda>c. (c, rq_timestamp p)) (statement_over env
       (canonical_spark_username_for_route (rq_username p)) (sanitize_domain env host)
       (parse_signed_request (ev_crypto env) pubkey (rq_signature p)) (rq_timestamp p)
       (\<lambda>dn u pk. register_candidates env dn u (rq_description p) (rq_timestamp p)))"
| "statement_of env (UnregisterReq host pubkey p) =
     map_option (\<lambda>c. (c, uq_timestamp p)) (statement_over env
       (canonical_spark_username_for_route (uq_username p)) (sanitize_domain env host)
       (parse_signed_request (ev_crypto env) pubkey (uq_signature p)) (uq_timestamp p)
       (\<lambda>dn u pk. [breez_v2 (bz_unregister (ev_breez env) dn u (uq_timestamp p)) Unregister_Route]))"
| "statement_of env (TransferReq host pubkey p) =
     (case (tq_timestamp p, parse_signed_request (ev_crypto env) pubkey (tq_to_signature p)) of
        (Some ts, Inr (to_pk, _)) \<Rightarrow> map_option (\<lambda>c. (c, ts)) (statement_over env
          (canonical_spark_username_for_route (tq_username p)) (sanitize_domain env host)
          (parse_signed_request (ev_crypto env) (tq_from_pubkey p) (tq_from_signature p)) ts
          (\<lambda>dn u pk. fst (transfer_candidates env dn u pk to_pk (tq_description p) ts)))
      | _ \<Rightarrow> None)"
| "statement_of env _ = None"

text \<open>
  A claiming request succeeds through one operation that carries its statement, after a timestamp
  check at its first step.
\<close>

definition acted :: "('k, 's) env \<Rightarrow> server \<Rightarrow> statement_claim \<Rightarrow> u64 \<Rightarrow> server \<Rightarrow> bool" where
  "acted env w c ts w' \<longleftrightarrow>
     timestamp_ok (ev_breez env) (ev_now env (sv_step w)) ts \<and> cl_expires_at c = claim_expires_at (ev_breez env) ts \<and>
     (\<exists>k op d d1. served env (account_writes env) (sv_db w) d \<and> op_claim op = Some c \<and>
        run_op (ev_backend env) (uint (ev_now env k)) op d = (Inr (), d1) \<and>
        served env (account_writes env) d1 (sv_db w'))"

lemma db_write_iff [act_iff]:
  "db_write env op w = (Inr u, w') \<longleftrightarrow>
     ev_fault env (sv_step w) = Healthy \<and>
     run_op (ev_backend env) (uint (ev_now env (sv_step w))) (op (ev_fresh_id env (sv_step w)))
       (ev_others env (sv_step w) (sv_db w)) = (Inr (), sv_db w') \<and>
     w' = tick (w\<lparr>sv_db := sv_db w'\<rparr>)"
  by (simp add: db_write_def db_call_iff)

lemma stored_mode_served:
  "stored_account_mode env key w = (Inr m, w') \<Longrightarrow> served env G (sv_db w) (sv_db w')"
  using writes_stored_mode [of env G key] by (metis snd_conv writes_def)

lemma spawn_same_db: "spawn_country_evidence_refresh env key m h w = (Inr u, w') \<Longrightarrow> sv_db w' = sv_db w"
  by (auto simp: spawn_country_evidence_refresh_def)

lemma statement_claim_of_expiry [simp]:
  "cl_expires_at (statement_claim_of env pk dn c ts) = claim_expires_at (ev_breez env) ts"
  by (simp add: statement_claim_of_def)

lemma actedI:
  assumes "timestamp_ok (ev_breez env) (ev_now env (sv_step w)) ts" "cl_expires_at c = claim_expires_at (ev_breez env) ts"
    and "db_write env op w1 = (Inr (), w2)" "\<And>i. op_claim (op i) = Some c"
    and "served env (account_writes env) (sv_db w) (sv_db w1)" "served env (account_writes env) (sv_db w2) (sv_db w')"
  shows "acted env w c ts w'"
  using assms unfolding acted_def db_write_iff by (meson served_others)

lemma outcome_True: "outcome r = (True, w') \<longleftrightarrow> (\<exists>x. r = (Inr x, w'))"
  by (cases r; cases "fst r") (auto simp: outcome_def)

lemmas run_iff = bind_act_iff ret_iff fail_iff lift_iff map_err_act_iff check_timestamp_iff
  verify_candidates_iff if_act_iff

text \<open>What a successful run of each claiming route went through.\<close>

lemma register_run:
  assumes "register env host pubkey headers p w = (Inr resp, w')"
  obtains u dn pk sg c m w1 w2 where
    "canonical_spark_username_for_route (rq_username p) = Inr u" "sanitize_domain env host = Inr dn"
    "parse_signed_request (ev_crypto env) pubkey (rq_signature p) = Inr (pk, sg)"
    "timestamp_ok (ev_breez env) (ev_now env (sv_step w)) (rq_timestamp p)"
    "verify_loop (ev_crypto env) pk sg (register_candidates env dn u (rq_description p) (rq_timestamp p)) = Some c"
    "stored_account_mode env (public_key_to_string (ev_crypto env) pk) (after_verify c (tick w)) = (Inr m, w1)"
    "m \<noteq> Some Anon"
    "db_write env (\<lambda>fresh. Register fresh (registration_of env pk dn u c p)) w1 = (Inr (), w2)"
    "spawn_country_evidence_refresh env (public_key_to_string (ev_crypto env) pk) m headers w2 = (Inr () :: api_error + unit, w')"
    "resp = address_of dn u"
proof -
  show thesis
    using assms unfolding register_def
    by (auto simp: run_iff split: prod.splits) (rule that, assumption+)
qed

lemma unregister_run:
  assumes "unregister env host pubkey p w = (Inr resp, w')"
  obtains u dn pk sg c w1 where
    "canonical_spark_username_for_route (uq_username p) = Inr u" "sanitize_domain env host = Inr dn"
    "parse_signed_request (ev_crypto env) pubkey (uq_signature p) = Inr (pk, sg)"
    "timestamp_ok (ev_breez env) (ev_now env (sv_step w)) (uq_timestamp p)"
    "verify_loop (ev_crypto env) pk sg
       [breez_v2 (bz_unregister (ev_breez env) dn u (uq_timestamp p)) Unregister_Route] = Some c"
    "w1 = tick (after_verify c (tick w)\<lparr>sv_db := ev_others env (Suc (sv_step w)) (sv_db w)\<rparr>)"
    "db_write env (\<lambda>_. Unregister dn (public_key_to_string (ev_crypto env) pk) u
       (Some (statement_claim_of env pk dn c (uq_timestamp p)))) w1 = (Inr (), w')"
proof -
  show thesis
    using assms unfolding unregister_def
    by (auto simp: run_iff db_read_iff simp del: verify_loop.simps split: prod.splits intro: that)
qed

lemma transfer_run:
  assumes "transfer env host to_pubkey p w = (Inr resp, w')"
  obtains u dn from_pk from_sig to_pk to_sig ts c c' m w1 w2 source w3 where
    "canonical_spark_username_for_route (tq_username p) = Inr u" "sanitize_domain env host = Inr dn"
    "parse_signed_request (ev_crypto env) (tq_from_pubkey p) (tq_from_signature p) = Inr (from_pk, from_sig)"
    "parse_signed_request (ev_crypto env) to_pubkey (tq_to_signature p) = Inr (to_pk, to_sig)"
    "tq_timestamp p = Some ts" "timestamp_ok (ev_breez env) (ev_now env (sv_step w)) ts"
    "verify_loop (ev_crypto env) from_pk from_sig
       (fst (transfer_candidates env dn u from_pk to_pk (tq_description p) ts)) = Some c"
    "verify_loop (ev_crypto env) to_pk to_sig
       (snd (transfer_candidates env dn u from_pk to_pk (tq_description p) ts)) = Some c'"
    "from_pk \<noteq> to_pk"
    "stored_account_mode env (public_key_to_string (ev_crypto env) to_pk)
       (after_verify c' (after_verify c (tick w))) = (Inr m, w1)" "m \<noteq> Some Anon"
    "db_read env (resolve_recipient_by_identifier dn u) w1 = (Inr (Some source), w2)"
    "rr_spark_pubkey source = Some (public_key_to_string (ev_crypto env) from_pk)"
    "db_write env (\<lambda>fresh. Transfer fresh
         \<lparr>tr_domain = dn, tr_identifier = u, tr_source_account_id = rr_account_id source,
          tr_destination_spark_pubkey = public_key_to_string (ev_crypto env) to_pk,
          tr_description = tq_description p, tr_claim = Some (statement_claim_of env from_pk dn c ts)\<rparr>) w2 = (Inr (), w3)"
    "ignore_err (db_write env (\<lambda>_. MigrateMode (public_key_to_string (ev_crypto env) to_pk))) w3 = (Inr () :: api_error + unit, w')"
    "resp = address_of dn u"
proof -
  show thesis
    using assms unfolding transfer_def Let_def
    by (auto simp: run_iff split: prod.splits) (rule that, assumption+)
qed

lemma register_acts:
  assumes "serve env (RegisterReq host pubkey headers p) w = (True, w')"
  shows "\<exists>c ts. statement_of env (RegisterReq host pubkey headers p) = Some (c, ts) \<and> acted env w c ts w'"
proof -
  obtain resp where "register env host pubkey headers p w = (Inr resp, w')"
    using assms by (auto simp: outcome_True)
  then show ?thesis
  proof (rule register_run)
    fix u dn pk sg c m w1 w2
    assume u: "canonical_spark_username_for_route (rq_username p) = Inr u" "sanitize_domain env host = Inr dn"
        "parse_signed_request (ev_crypto env) pubkey (rq_signature p) = Inr (pk, sg)"
        "verify_loop (ev_crypto env) pk sg (register_candidates env dn u (rq_description p) (rq_timestamp p)) = Some c"
      and ts: "timestamp_ok (ev_breez env) (ev_now env (sv_step w)) (rq_timestamp p)"
      and m: "stored_account_mode env (public_key_to_string (ev_crypto env) pk) (after_verify c (tick w)) = (Inr m, w1)"
      and wr: "db_write env (\<lambda>fresh. Register fresh (registration_of env pk dn u c p)) w1 = (Inr (), w2)"
      and sp: "spawn_country_evidence_refresh env (public_key_to_string (ev_crypto env) pk) m headers w2 = (Inr () :: api_error + unit, w')"
    have "served env (account_writes env) (sv_db w) (sv_db w1)" using stored_mode_served [OF m] by simp
    moreover have "served env (account_writes env) (sv_db w2) (sv_db w')"
      using spawn_same_db [OF sp] by (simp add: served_refl)
    ultimately have "acted env w (statement_claim_of env pk dn c (rq_timestamp p)) (rq_timestamp p) w'"
      by (intro actedI [OF ts _ wr]) (simp_all add: registration_of_def)
    with u show ?thesis by (simp add: statement_over_def)
  qed
qed

lemma unregister_acts:
  assumes "serve env (UnregisterReq host pubkey p) w = (True, w')"
  shows "\<exists>c ts. statement_of env (UnregisterReq host pubkey p) = Some (c, ts) \<and> acted env w c ts w'"
proof -
  obtain resp where "unregister env host pubkey p w = (Inr resp, w')"
    using assms by (auto simp: outcome_True)
  then show ?thesis
  proof (rule unregister_run)
    fix u dn pk sg c w1
    assume u: "canonical_spark_username_for_route (uq_username p) = Inr u" "sanitize_domain env host = Inr dn"
        "parse_signed_request (ev_crypto env) pubkey (uq_signature p) = Inr (pk, sg)"
        "verify_loop (ev_crypto env) pk sg
          [breez_v2 (bz_unregister (ev_breez env) dn u (uq_timestamp p)) Unregister_Route] = Some c"
      and ts: "timestamp_ok (ev_breez env) (ev_now env (sv_step w)) (uq_timestamp p)"
      and w1: "w1 = tick (after_verify c (tick w)\<lparr>sv_db := ev_others env (Suc (sv_step w)) (sv_db w)\<rparr>)"
      and wr: "db_write env (\<lambda>_. Unregister dn (public_key_to_string (ev_crypto env) pk) u
          (Some (statement_claim_of env pk dn c (uq_timestamp p)))) w1 = (Inr (), w')"
    have "served env (account_writes env) (sv_db w) (sv_db w1)"
      unfolding w1 by (simp add: served_others served_refl)
    then have "acted env w (statement_claim_of env pk dn c (uq_timestamp p)) (uq_timestamp p) w'"
      by (intro actedI [OF ts _ wr]) (simp_all add: served_refl)
    with u show ?thesis by (simp add: statement_over_def del: verify_loop.simps)
  qed
qed

lemma transfer_acts:
  assumes "serve env (TransferReq host to_pubkey p) w = (True, w')"
  shows "\<exists>c ts. statement_of env (TransferReq host to_pubkey p) = Some (c, ts) \<and> acted env w c ts w'"
proof -
  obtain resp where "transfer env host to_pubkey p w = (Inr resp, w')"
    using assms by (auto simp: outcome_True)
  then show ?thesis
  proof (rule transfer_run)
    fix u dn from_pk from_sig to_pk to_sig ts c c' m w1 w2 source w3
    assume u: "canonical_spark_username_for_route (tq_username p) = Inr u" "sanitize_domain env host = Inr dn"
        "parse_signed_request (ev_crypto env) (tq_from_pubkey p) (tq_from_signature p) = Inr (from_pk, from_sig)"
        "parse_signed_request (ev_crypto env) to_pubkey (tq_to_signature p) = Inr (to_pk, to_sig)"
        "tq_timestamp p = Some ts"
      and c: "verify_loop (ev_crypto env) from_pk from_sig
          (fst (transfer_candidates env dn u from_pk to_pk (tq_description p) ts)) = Some c"
        "verify_loop (ev_crypto env) to_pk to_sig
          (snd (transfer_candidates env dn u from_pk to_pk (tq_description p) ts)) = Some c'"
      and ts: "timestamp_ok (ev_breez env) (ev_now env (sv_step w)) ts"
      and m: "stored_account_mode env (public_key_to_string (ev_crypto env) to_pk)
          (after_verify c' (after_verify c (tick w))) = (Inr m, w1)"
      and rd: "db_read env (resolve_recipient_by_identifier dn u) w1 = (Inr (Some source), w2)"
      and wr: "db_write env (\<lambda>fresh. Transfer fresh
         \<lparr>tr_domain = dn, tr_identifier = u, tr_source_account_id = rr_account_id source,
          tr_destination_spark_pubkey = public_key_to_string (ev_crypto env) to_pk,
          tr_description = tq_description p, tr_claim = Some (statement_claim_of env from_pk dn c ts)\<rparr>) w2 = (Inr (), w3)"
      and ig: "ignore_err (db_write env (\<lambda>_. MigrateMode (public_key_to_string (ev_crypto env) to_pk))) w3 = (Inr () :: api_error + unit, w')"
    have "served env (account_writes env) (sv_db w) (sv_db w1)" using stored_mode_served [OF m] by simp
    moreover have "sv_db w2 = ev_others env (sv_step w1) (sv_db w1)" using rd by (simp add: db_read_iff)
    ultimately have before: "served env (account_writes env) (sv_db w) (sv_db w2)" by (simp add: served_others)
    have "writes env (account_writes env)
        (ignore_err (db_write env (\<lambda>_. MigrateMode (public_key_to_string (ev_crypto env) to_pk))) :: (api_error, unit) action)"
      by (intro writes_ignore writes_write transfer_authorised(2) [OF ts c u(3) UNIV_I u(4) UNIV_I])
    then have "served env (account_writes env) (sv_db w3) (sv_db w')" using ig by (metis snd_conv writes_def)
    with before have "acted env w (statement_claim_of env from_pk dn c ts) ts w'"
      by (intro actedI [OF ts _ wr]) simp_all
    with u c show ?thesis by (simp add: statement_over_def)
  qed
qed

lemma claiming_acts:
  assumes ok: "serve env r w = (True, w')"
    and r: "case r of RegisterReq h k hs p \<Rightarrow> True | TransferReq h k p \<Rightarrow> True | UnregisterReq h k p \<Rightarrow> True | _ \<Rightarrow> False"
  shows "\<exists>c ts. statement_of env r = Some (c, ts) \<and> acted env w c ts w'"
proof (cases r)
  case (RegisterReq h k hs p)
  then show ?thesis using register_acts [of env h k hs p w w'] ok by blast
next
  case (TransferReq h k p)
  then show ?thesis using transfer_acts [of env h k p w w'] ok by blast
next
  case (UnregisterReq h k p)
  then show ?thesis using unregister_acts [of env h k p w w'] ok by blast
qed (use r in simp_all)

lemma authorised_not_prune: "authorised env C op \<Longrightarrow> op \<noteq> PruneClaims"
  by (auto simp: authorised.simps)

definition claim_row :: "used_signed_message \<Rightarrow> db \<Rightarrow> bool" where
  "claim_row r d \<longleftrightarrow> accounts_inv d \<and> r \<in> set (used_signed_messages d)"

lemma claim_row_op: "claim_row r d \<Longrightarrow> op \<noteq> PruneClaims \<Longrightarrow> claim_row r (snd (run_op b now op d))"
  by (simp add: claim_row_def run_op_inv run_op_claims)

lemma claim_row_served:
  assumes "served env (account_writes env) d d'" "claim_row r d" "\<And>k d. claim_row r d \<Longrightarrow> claim_row r (ev_others env k d)"
  shows "claim_row r d'"
  using assms(1,2)
proof (rule served_invariant [where I = "claim_row r"])
  fix k d d'
  assume "claim_row r d" "account_writes env k d d'"
  then obtain op where "authorised env UNIV op" "d' = snd (run_op (ev_backend env) (uint (ev_now env k)) op d)"
    by (auto simp: op_step_def)
  with \<open>claim_row r d\<close> show "claim_row r d'" using authorised_not_prune claim_row_op by blast
qed (rule assms(3))

lemma accounts_inv_served:
  assumes "served env (account_writes env) d d'" "accounts_inv d" "\<And>k d. accounts_inv d \<Longrightarrow> accounts_inv (ev_others env k d)"
  shows "accounts_inv d'"
  using assms(1,2) by (rule served_invariant) (use assms(3) op_step_inv in blast)+

lemma acted_claims:
  assumes "acted env w c ts w'" "accounts_inv (sv_db w)" "\<And>k d. accounts_inv d \<Longrightarrow> accounts_inv (ev_others env k d)"
    and "\<And>r k d. um_expires_at r = cl_expires_at c \<Longrightarrow> claim_row r d \<Longrightarrow> claim_row r (ev_others env k d)"
  obtains r where "claim_row r (sv_db w')" "um_statement_hash r = cl_statement_hash c" "um_expires_at r = cl_expires_at c"
proof -
  obtain k op d d1 where op: "served env (account_writes env) (sv_db w) d" "op_claim op = Some c"
    "run_op (ev_backend env) (uint (ev_now env k)) op d = (Inr (), d1)" "served env (account_writes env) d1 (sv_db w')"
    using assms(1) unfolding acted_def by blast
  let ?r = "\<lparr>um_statement_hash = cl_statement_hash c, um_route = cl_route c,
    um_expires_at = cl_expires_at c, um_created_at = uint (ev_now env k)\<rparr>"
  have inv: "accounts_inv d" using accounts_inv_served [OF op(1) assms(2,3)] .
  have "op \<noteq> PruneClaims" using op(2) by auto
  then have "used_signed_messages d1 = used_signed_messages d @ claim_rows (uint (ev_now env k)) (Some c)"
    using run_op_claims [OF inv, of "ev_backend env" "uint (ev_now env k)" op] op(2,3) by simp
  moreover have "accounts_inv d1" using run_op_inv [OF inv] op(3) by (metis snd_conv)
  ultimately have "claim_row ?r d1" by (simp add: claim_row_def claim_rows_def)
  then have "claim_row ?r (sv_db w')" by (rule claim_row_served [OF op(4)]) (rule assms(4), simp_all)
  then show thesis by (rule that) simp_all
qed

lemma acted_refused:
  assumes "acted env w c ts w'" "claim_row r (sv_db w)" "um_statement_hash r = cl_statement_hash c"
    and "\<And>k d. claim_row r d \<Longrightarrow> claim_row r (ev_others env k d)"
  shows False
proof -
  obtain k op d d1 where op: "served env (account_writes env) (sv_db w) d" "op_claim op = Some c"
    "run_op (ev_backend env) (uint (ev_now env k)) op d = (Inr (), d1)"
    using assms(1) unfolding acted_def by blast
  have "claim_row r d" using claim_row_served [OF op(1) assms(2,4)] .
  then have "accounts_inv d" "claimed c d" using claimedI assms(3) by (auto simp: claim_row_def)
  from run_op_refuses [OF this(1) op(2) this(2)] op(3) show False by (metis fst_conv is_ok_simps(2))
qed

lemma set_mode_run:
  assumes "set_mode env host pubkey headers p w = (Inr resp, w')"
  obtains mode pk sg ts k country w1 x where
    "parse_account_mode (mq_mode p) = Inr mode" "resp = account_mode_as_str mode"
    "parse_signed_request (ev_crypto env) pubkey (mq_signature p) = Inr (pk, sg)"
    "i64_try_from_u64 (mq_timestamp p) = Some ts" "\<not> i64_saturating_add (uint (ev_now env k)) 30 < ts"
    "db_write env (\<lambda>fresh. SetMode fresh \<lparr>mu_pubkey = public_key_to_string (ev_crypto env) pk,
       mu_mode = mode, mu_client_timestamp = ts, mu_country = country\<rparr>) w1 = (Inr x, w')"
    "sv_db w1 = sv_db w"
proof -
  show thesis
    using assms unfolding set_mode_def Let_def
    apply (simp only: run_iff read_clock_iff split_paired_Ex case_prod_conv simp_thms ok_or_Inr_iff)
    apply clarify
    apply (frule country_for_mode_db, frule check_ip_budget_db)
    apply (rule that, assumption+)
    apply (simp only: tick_simps after_verify_simps)
    done
qed

lemma get_metadata_rows:
  assumes "rows = get_metadata_by_pubkey key offset limit after d"
  shows "length rows \<le> unat limit \<and>
    (\<forall>x \<in> set rows.
       (\<exists>i \<in> set (invoices d). inv_payment_hash i = lm_payment_hash x \<and> inv_user_pubkey i = key) \<or>
       (\<exists>z \<in> set (zaps d). z_payment_hash z = lm_payment_hash x \<and> z_user_pubkey z = key) \<or>
       (\<exists>y \<in> set (sender_comments d). sc_payment_hash y = lm_payment_hash x \<and> sc_user_pubkey y = key))"
proof -
  have [simp]: "lm_payment_hash (metadata_row d h) = h" for h by (simp add: metadata_row_def Let_def)
  show ?thesis
    unfolding assms get_metadata_by_pubkey_def Let_def
    by (auto dest!: in_set_takeD in_set_dropD) blast+
qed

section \<open>Properties\<close>


definition demo_server :: server where
  "demo_server = \<lparr>sv_db = empty_db, sv_ip_rate_limiter = limiter_new 10 60 100 True,
     sv_country_lookup_budget = budget_new 10 60 0, sv_legacy_verifies = replicate 7 0,
     sv_spawned = [], sv_usd_min_sendable_cache = None, sv_invoice_paid_triggers = 0, sv_step = 0\<rparr>"

definition demo_register :: register_request where
  "demo_register = \<lparr>rq_username = ''Alice'', rq_signature = ''02aaregister x.org alice hi 900'',
     rq_timestamp = 900, rq_description = ''hi''\<rparr>"

abbreviation demo_register_req :: account_request where
  "demo_register_req \<equiv> RegisterReq ''X.org'' ''02aa'' (\<lambda>_. None) demo_register"

lemma demo_served: "fst (serve demo_env demo_register_req demo_server)"
  by code_simp


text \<open>
  C19: a request is acted on once. After a register, transfer or unregister request has succeeded,
  serving the identical request again, after any other requests, is refused. What is asked of the
  concurrent requests is that they keep the account invariant and drop no claim that has not
  expired when the repeated request reads the clock (its first step).
\<close>

theorem replay_refused:
  assumes first: "serve env r w = (True, w1)"
    and r: "case r of RegisterReq h k hs p \<Rightarrow> True | TransferReq h k p \<Rightarrow> True | UnregisterReq h k p \<Rightarrow> True | _ \<Rightarrow> False"
    and run: "server_run env w1 rs w2"
    and inv: "accounts_inv (sv_db w)" "\<forall>k d. accounts_inv d \<longrightarrow> accounts_inv (ev_others env k d)"
    and keep: "\<forall>k d x. accounts_inv d \<and> x \<in> set (used_signed_messages d) \<and>
      uint (ev_now env (sv_step w2)) \<le> um_expires_at x \<longrightarrow> x \<in> set (used_signed_messages (ev_others env k d))"
    and clock: "uint (ev_now env (sv_step w2)) \<le> i64_max"
  shows "\<not> fst (serve env r w2)"
proof
  assume "fst (serve env r w2)"
  then obtain w3 where again: "serve env r w2 = (True, w3)" by (metis prod.collapse)
  obtain c ts where acts: "acted env w c ts w1" "acted env w2 c ts w3"
    using claiming_acts [OF first r] claiming_acts [OF again r] by auto
  have exp: "uint (ev_now env (sv_step w2)) \<le> cl_expires_at c"
    using acts(2) claim_outlives_window [OF _ clock] by (simp add: acted_def)
  have kept: "claim_row x (ev_others env k d)" if "um_expires_at x = cl_expires_at c" "claim_row x d" for x k d
    using that keep inv(2) exp by (simp add: claim_row_def)
  obtain x where x: "claim_row x (sv_db w1)" "um_statement_hash x = cl_statement_hash c" "um_expires_at x = cl_expires_at c"
    using acted_claims [OF acts(1) inv(1)] inv(2) kept by blast
  have "claim_row x (sv_db w2)"
    using claim_row_served [OF server_run_writes [OF run] x(1)] kept x(3) by blast
  then show False using acted_refused [OF acts(2) _ x(2)] kept x(3) by blast
qed

theorem replay_refused_witness:
  "\<not> fst (serve demo_env demo_register_req (snd (serve demo_env demo_register_req demo_server)))"
proof (rule replay_refused [where rs = "[]"])
  show "serve demo_env demo_register_req demo_server = (True, snd (serve demo_env demo_register_req demo_server))"
    using demo_served by (metis prod.collapse)
qed (simp_all add: demo_env_def demo_server_def accounts_inv_empty run_none)

text \<open>
  C20: what a successful registration did. The requested name in canonical form now pays the
  signer's key on the request's domain, with the description the signature covers, or, for a
  pre-v2 signature, which covers none, the default one; the response names that address; and the
  account was not in anonymous mode when the route looked.
\<close>

theorem register_served:
  assumes ok: "register env host pubkey headers p w = (Inr resp, w')"
    and inv: "accounts_inv (sv_db w)" "\<forall>k d. accounts_inv d \<longrightarrow> accounts_inv (ev_others env k d)"
  shows "\<exists>u dn pk r. canonical_spark_username (rq_username p) = Inr u \<and> dn = to_lowercase (trim host) \<and>
    (ev_domains env = [] \<or> dn \<in> set (ev_domains env)) \<and> parse_pubkey (ev_crypto env) pubkey = Inr pk \<and>
    resp = address_of dn u \<and> resolve_recipient_by_identifier dn u (sv_db w') = Inr (Some r) \<and>
    rr_provider r = Spark \<and> rr_spark_pubkey r = Some (public_key_to_string (ev_crypto env) pk) \<and>
    (signed_by env {(pubkey, rq_signature p)} (public_key_to_string (ev_crypto env) pk)
       (bz_register (ev_breez env) dn u (rr_description r) (rq_timestamp p)) \<or>
     signed_by env {(pubkey, rq_signature p)} (public_key_to_string (ev_crypto env) pk)
       (legacy_timestamped u (rq_timestamp p)) \<and>
       rr_description r = default_description u dn)"
  using ok
proof (rule register_run)
  fix u dn pk sg c m w1 w2
  let ?key = "public_key_to_string (ev_crypto env) pk" and ?reg = "registration_of env pk dn u c p"
  assume u: "canonical_spark_username_for_route (rq_username p) = Inr u" "sanitize_domain env host = Inr dn"
      "parse_signed_request (ev_crypto env) pubkey (rq_signature p) = Inr (pk, sg)"
    and c: "verify_loop (ev_crypto env) pk sg (register_candidates env dn u (rq_description p) (rq_timestamp p)) = Some c"
    and m: "stored_account_mode env ?key (after_verify c (tick w)) = (Inr m, w1)"
    and wr: "db_write env (\<lambda>fresh. Register fresh ?reg) w1 = (Inr (), w2)"
    and sp: "spawn_country_evidence_refresh env ?key m headers w2 = (Inr () :: api_error + unit, w')"
    and resp: "resp = address_of dn u"
  let ?d = "ev_others env (sv_step w1) (sv_db w1)"
  have "accounts_inv (sv_db w1)"
    using accounts_inv_served [OF stored_mode_served [OF m]] inv by simp
  then have d: "accounts_inv ?d" using inv(2) by blast
  have "upsert_spark_registration (uint (ev_now env (sv_step w1))) (ev_fresh_id env (sv_step w1)) ?reg ?d = Inr (sv_db w')"
    using wr spawn_same_db [OF sp] by (auto simp: db_write_iff commit_def split: sum.splits)
  from registration_resolves [OF d this] obtain r where
    r: "resolve_recipient_by_identifier dn u (sv_db w') = Inr (Some r)" "rr_provider r = Spark"
      "rr_spark_pubkey r = Some ?key" "rr_description r = ni_description (nr_identifier ?reg)"
    by (auto simp: registration_of_def)
  have "cd_format c \<noteq> Legacy \<and> cd_message c = bz_register (ev_breez env) dn u (rq_description p) (rq_timestamp p) \<or>
      cd_format c = Legacy \<and> cd_message c = legacy_timestamped u (rq_timestamp p)"
    using verify_loop_Some [OF c] by (auto simp: register_candidates_def)
  with signed_byI [OF u(3) singletonI c] r(4) have s:
    "signed_by env {(pubkey, rq_signature p)} ?key (bz_register (ev_breez env) dn u (rr_description r) (rq_timestamp p)) \<or>
     signed_by env {(pubkey, rq_signature p)} ?key (legacy_timestamped u (rq_timestamp p)) \<and> rr_description r = default_description u dn"
    by (auto simp: registration_of_def)
  have "canonical_spark_username (rq_username p) = Inr u" "dn = to_lowercase (trim host)"
    "ev_domains env = [] \<or> dn \<in> set (ev_domains env)" "parse_pubkey (ev_crypto env) pubkey = Inr pk"
    using u by (auto simp: canonical_spark_username_for_route_def sanitize_domain_def Let_def parse_signed_request_iff
        split: if_splits)
  with r(1-3) s resp show ?thesis by blast
qed

theorem register_served_witness:
  "\<exists>r. resolve_recipient_by_identifier ''x.org'' ''alice''
     (sv_db (snd (register demo_env ''X.org'' ''02aa'' (\<lambda>_. None) demo_register demo_server))) = Inr (Some r) \<and>
     rr_spark_pubkey r = Some ''02aa''"
proof -
  let ?r = "register demo_env ''X.org'' ''02aa'' (\<lambda>_. None) demo_register demo_server"
  have "fst ?r = Inr \<lparr>ad_lnurl = ''lnurlp://x.org/lnurlp/alice'', ad_lightning_address = ''alice@x.org''\<rparr>"
    by code_simp
  then have ok: "?r = (Inr \<lparr>ad_lnurl = ''lnurlp://x.org/lnurlp/alice'', ad_lightning_address = ''alice@x.org''\<rparr>, snd ?r)"
    by (metis prod.collapse)
  have n: "canonical_spark_username (rq_username demo_register) = Inr ''alice''"
    "to_lowercase (trim ''X.org'') = ''x.org''" "parse_pubkey (ev_crypto demo_env) ''02aa'' = Inr (as_bytes ''02aa'')"
    "public_key_to_string (ev_crypto demo_env) (as_bytes ''02aa'') = ''02aa''"
    by code_simp+
  have "accounts_inv (sv_db demo_server)" "\<forall>k d. accounts_inv d \<longrightarrow> accounts_inv (ev_others demo_env k d)"
    by (simp_all add: demo_env_def demo_server_def accounts_inv_empty)
  from register_served [OF ok this] n show ?thesis by (metis sum.inject(2))
qed

text \<open>
  What a successful mode request did. The key's stored mode is the requested one, anchored at
  the signed timestamp, which is at most thirty seconds ahead of the server's clock; an anonymous
  account is left without country evidence.
\<close>

theorem mode_served:
  assumes ok: "set_mode env host pubkey headers p w = (Inr resp, w')"
    and inv: "accounts_inv (sv_db w)" "\<forall>k d. accounts_inv d \<longrightarrow> accounts_inv (ev_others env k d)"
    and clock: "\<forall>k. uint (ev_now env k) \<le> i64_max - 30"
  shows "\<exists>pk mode sm k. parse_pubkey (ev_crypto env) pubkey = Inr pk \<and> trim (mq_mode p) = account_mode_as_str mode \<and>
    resp = account_mode_as_str mode \<and>
    get_spark_account_mode (public_key_to_string (ev_crypto env) pk) (sv_db w') = Some sm \<and>
    sam_mode sm = Some mode \<and> sam_mode_last_timestamp sm = Some (uint (mq_timestamp p)) \<and>
    uint (mq_timestamp p) \<le> uint (ev_now env k) + 30 \<and> (mode = Anon \<longrightarrow> sam_country sm = None)"
proof -
  obtain mode pk sg ts k country w1 x where
      mode: "parse_account_mode (mq_mode p) = Inr mode" "resp = account_mode_as_str mode"
    and pk: "parse_signed_request (ev_crypto env) pubkey (mq_signature p) = Inr (pk, sg)"
    and ts: "i64_try_from_u64 (mq_timestamp p) = Some ts" "\<not> i64_saturating_add (uint (ev_now env k)) 30 < ts"
    and wr: "db_write env (\<lambda>fresh. SetMode fresh \<lparr>mu_pubkey = public_key_to_string (ev_crypto env) pk,
       mu_mode = mode, mu_client_timestamp = ts, mu_country = country\<rparr>) w1 = (Inr x, w')"
    and w1: "sv_db w1 = sv_db w"
    using ok by (rule set_mode_run)
  let ?u = "\<lparr>mu_pubkey = public_key_to_string (ev_crypto env) pk, mu_mode = mode, mu_client_timestamp = ts, mu_country = country\<rparr>"
  let ?d = "ev_others env (sv_step w1) (sv_db w1)"
  have d: "accounts_inv ?d" using inv w1 by simp
  have "upsert_spark_mode (uint (ev_now env (sv_step w1))) (ev_fresh_id env (sv_step w1)) ?u ?d = (Inr (), sv_db w')"
    using wr by (simp add: db_write_iff)
  then obtain s where s: "spark_by_pubkey (mu_pubkey ?u) (sv_db w') = Some s" "sp_mode s = Some (mu_mode ?u)"
    "sp_mode_last_timestamp s = Some (mu_client_timestamp ?u)" "mu_mode ?u = Anon \<longrightarrow> sp_country s = None"
    by (rule upsert_spark_mode_row [OF d]) blast
  have t: "ts = uint (mq_timestamp p)" using ts(1) by (simp add: i64_try_from_u64_def split: if_splits)
  have "uint (ev_now env k) \<le> i64_max - 30" "0 \<le> uint (ev_now env k)" using clock by auto
  then have "i64_saturating_add (uint (ev_now env k)) 30 = uint (ev_now env k) + 30"
    unfolding i64_saturating_add_def sat_i64_def by (smt (verit))
  with ts(2) t have "uint (mq_timestamp p) \<le> uint (ev_now env k) + 30" by simp
  moreover have "trim (mq_mode p) = account_mode_as_str mode"
    using mode(1) by (auto simp: parse_account_mode_def Let_def split: if_splits)
  moreover have "parse_pubkey (ev_crypto env) pubkey = Inr pk" using pk by (simp add: parse_signed_request_iff)
  ultimately show ?thesis
    using s t mode(2)
    by (intro exI [of _ pk] exI [of _ mode] exI [of _ "map_spark_account_mode s"] exI [of _ k])
      (simp add: get_spark_account_mode_def map_spark_account_mode_def)
qed

definition demo_mode :: mode_request where
  "demo_mode = \<lparr>mq_mode = '' anon'', mq_signature = ''02aa'' @ blink_mode_message ''x.org'' ''02aa'' ''anon'' 1020,
     mq_timestamp = 1020\<rparr>"

theorem mode_served_witness:
  "\<exists>sm. get_spark_account_mode ''02aa'' (sv_db (snd (set_mode demo_env ''x.org'' ''02aa'' (\<lambda>_. None) demo_mode demo_server))) = Some sm \<and>
     sam_mode sm = Some Anon"
proof -
  let ?r = "set_mode demo_env ''x.org'' ''02aa'' (\<lambda>_. None) demo_mode demo_server"
  have "fst ?r = Inr ''anon''" by code_simp
  then have ok: "?r = (Inr ''anon'', snd ?r)" by (metis prod.collapse)
  have n: "parse_pubkey (ev_crypto demo_env) ''02aa'' = Inr (as_bytes ''02aa'')"
    "public_key_to_string (ev_crypto demo_env) (as_bytes ''02aa'') = ''02aa''"
    by code_simp+
  have "accounts_inv (sv_db demo_server)" "\<forall>k d. accounts_inv d \<longrightarrow> accounts_inv (ev_others demo_env k d)"
    "\<forall>k. uint (ev_now demo_env k) \<le> i64_max - 30"
    by (simp_all add: demo_env_def demo_server_def accounts_inv_empty)
  from mode_served [OF ok this] n obtain sm mode where "get_spark_account_mode ''02aa'' (sv_db (snd ?r)) = Some sm"
    "sam_mode sm = Some mode" "''anon'' = account_mode_as_str mode" by auto
  then show ?thesis by (cases mode) auto
qed


definition demo_invoice :: invoice where
  "demo_invoice = \<lparr>inv_account_id = None, inv_provider = None, inv_wallet_kind = None, inv_wallet_id = None,
     inv_provider_payment_hash = None, inv_payment_hash = ''h1'', inv_user_pubkey = ''02aa'', inv_invoice = ''lnbc'',
     inv_preimage = Some ''00'', inv_expired_at = None, inv_invoice_expiry = 0, inv_created_at = 1,
     inv_updated_at = 1, inv_domain = None, inv_amount_received_sat = None\<rparr>"

definition demo_metadata :: metadata_request where
  "demo_metadata = \<lparr>dq_signature = Some ''02aametadata x.org 02aa 1000'', dq_timestamp = Some 1000,
     dq_offset = None, dq_limit = Some 5, dq_updated_after = None\<rparr>"

abbreviation demo_listed :: "(api_error + list_metadata_metadata list) \<times> server" where
  "demo_listed \<equiv> list_metadata demo_env ''x.org'' ''02aa'' (\<lambda>_. None) demo_metadata
     (demo_server\<lparr>sv_db := empty_db\<lparr>invoices := [demo_invoice]\<rparr>\<rparr>)"


end
