(* ===== verification/Lnurl_Providers.thy ===== *)
theory Lnurl_Providers
  imports Lnurl_Server
begin

text \<open>
  The payment providers: \<open>providers.rs\<close> and the Blink client of \<open>crates/blink-client\<close>. The Spark
  SDK wallet and the Blink API are services: what they answer at a call is given by the functions
  of \<^typ>\<open>'k pay_lib\<close>, for the Blink API after decoding into the client's structs. The error payloads
  of libraries are dropped; \<open>InvoiceCreationFailed\<close> and its kin carry none.
\<close>

section \<open>Calls to services\<close>

text \<open>A call to a service that the program awaits takes its turn like one to the database.\<close>

definition ask :: "(nat \<Rightarrow> 'r) \<Rightarrow> ('e, 'r) action" where
  "ask f w = (Inr (f (sv_step w)), tick w)"

definition read_instant :: "('k, 's) env \<Rightarrow> ('e, nat) action" where
  "read_instant env = ask (ev_instant env)"

lemma ask_iff [act_iff]: "ask f w = (Inr y, w') \<longleftrightarrow> y = f (sv_step w) \<and> w' = tick w"
  by (auto simp: ask_def)

lemma read_instant_iff [act_iff]:
  "read_instant env w = (Inr y, w') \<longleftrightarrow> y = ev_instant env (sv_step w) \<and> w' = tick w"
  by (simp add: read_instant_def ask_iff)

lemma writes_ask [writes_rules]: "writes env G (ask f)" "writes env G (read_instant env)"
  by (rule writes_same_db; simp add: ask_def read_instant_def)+

section \<open>The Blink client\<close>

datatype blink_client_error = Transport | Graphql "string list" | MalformedResponse string | ApiFailure string

record blink_invoice_request =
  bq_wallet_id :: string
  bq_amount_sat :: u64
  bq_description_hash_hex :: "string option"
  bq_expires_in_minutes :: "u32 option"
  bq_webhook_url :: "string option"

record created_invoice =
  ci_bolt11 :: string
  ci_payment_hash :: string

record currency_conversion_estimate =
  ce_btc_sat_amount :: u64
  ce_id :: string
  ce_timestamp :: int
  ce_usd_cent_amount :: u64

datatype payment_status_state = Paid | Pending | Expired | Unknown

record payment_status =
  ps_state :: payment_status_state
  ps_settled :: bool
  ps_payment_hash :: string
  ps_payment_request :: "string option"
  ps_preimage :: "string option"
  ps_amount_received_sat :: "int option"

definition execute_with_variables :: "'d graphql_envelope option \<Rightarrow> blink_client_error + 'd" where
  "execute_with_variables reply =
     (case reply of
        None \<Rightarrow> Inl Transport
      | Some envelope \<Rightarrow>
          if ge_errors envelope \<noteq> [] then Inl (Graphql (ge_errors envelope))
          else ok_or (MalformedResponse ''missing GraphQL data'') (ge_data envelope))"

text \<open>The variables of an invoice operation; an absent option leaves its key out.\<close>

definition invoice_variables :: "blink_invoice_request \<Rightarrow> json" where
  "invoice_variables r =
     JObject [(''input'', JObject (
       [(''recipientWalletId'', JString (bq_wallet_id r)), (''amount'', JNumber (uint (bq_amount_sat r)))] @
       (case bq_description_hash_hex r of None \<Rightarrow> [] | Some h \<Rightarrow> [(''descriptionHash'', JString h)]) @
       (case bq_expires_in_minutes r of None \<Rightarrow> [] | Some m \<Rightarrow> [(''expiresIn'', JNumber (uint m))]) @
       (case bq_webhook_url r of None \<Rightarrow> [] | Some u \<Rightarrow> [(''webhookUrl'', JString u)])))]"

definition into_created_invoice :: "invoice_payload \<Rightarrow> blink_client_error + created_invoice" where
  "into_created_invoice p =
     (if ip_errors p \<noteq> [] then Inl (ApiFailure (join_with '', '' (ip_errors p)))
      else bind_res (ok_or (MalformedResponse ''missing invoice payload'') (ip_invoice p)) (\<lambda>i.
           bind_res (ok_or (MalformedResponse ''missing invoice paymentRequest'') (gi_payment_request i)) (\<lambda>b.
           bind_res (ok_or (MalformedResponse ''missing invoice paymentHash'') (gi_payment_hash i)) (\<lambda>h.
             Inr \<lparr>ci_bolt11 = b, ci_payment_hash = h\<rparr>))))"

definition create_btc_invoice ::
  "('k, 's) env \<Rightarrow> blink_invoice_request \<Rightarrow> (blink_client_error, created_invoice) action" where
  "create_btc_invoice env r =
     bind_act (ask (\<lambda>k. pl_graphql_invoice (ev_lib env) k True (invoice_variables r))) (\<lambda>reply.
       lift (bind_res (execute_with_variables reply) into_created_invoice))"

definition create_usd_invoice ::
  "('k, 's) env \<Rightarrow> blink_invoice_request \<Rightarrow> (blink_client_error, created_invoice) action" where
  "create_usd_invoice env r =
     bind_act (ask (\<lambda>k. pl_graphql_invoice (ev_lib env) k False (invoice_variables r))) (\<lambda>reply.
       lift (bind_res (execute_with_variables reply) into_created_invoice))"

definition payment_status_state_of :: "string \<Rightarrow> payment_status_state" where
  "payment_status_state_of s =
     (if s = ''PAID'' then Paid else if s = ''PENDING'' then Pending
      else if s = ''EXPIRED'' then Expired else Unknown)"

definition into_payment_status :: "graphql_payment_status \<Rightarrow> blink_client_error + payment_status" where
  "into_payment_status g =
     bind_res (ok_or (MalformedResponse ''missing payment status'') (gs_status g)) (\<lambda>s.
     bind_res (ok_or (MalformedResponse ''missing status paymentHash'') (gs_payment_hash g)) (\<lambda>h.
       let state = payment_status_state_of s in
       Inr \<lparr>ps_state = state, ps_settled = (state = Paid), ps_payment_hash = h,
         ps_payment_request = gs_payment_request g, ps_preimage = gs_payment_preimage g,
         ps_amount_received_sat = None\<rparr>))"

definition client_payment_status ::
  "('k, 's) env \<Rightarrow> string \<Rightarrow> (blink_client_error, payment_status) action" where
  "client_payment_status env payment_hash =
     bind_act (ask (\<lambda>k. pl_graphql_status (ev_lib env) k
       (JObject [(''input'', JObject [(''paymentHash'', JString payment_hash)])]))) (\<lambda>reply.
       lift (bind_res (execute_with_variables reply) into_payment_status))"

definition into_currency_conversion_estimate ::
  "graphql_currency_conversion_estimate \<Rightarrow> blink_client_error + currency_conversion_estimate" where
  "into_currency_conversion_estimate g =
     bind_res (ok_or (MalformedResponse ''missing conversion btcSatAmount'') (gc_btc_sat_amount g)) (\<lambda>b.
     bind_res (ok_or (MalformedResponse ''missing conversion id'') (gc_id g)) (\<lambda>i.
     bind_res (ok_or (MalformedResponse ''missing conversion timestamp'') (gc_timestamp g)) (\<lambda>t.
     bind_res (ok_or (MalformedResponse ''missing conversion usdCentAmount'') (gc_usd_cent_amount g)) (\<lambda>u.
       Inr \<lparr>ce_btc_sat_amount = b, ce_id = i, ce_timestamp = t, ce_usd_cent_amount = u\<rparr>))))"

text \<open>The only conversion asked for is that of one US cent.\<close>

definition currency_conversion_estimation ::
  "('k, 's) env \<Rightarrow> (blink_client_error, currency_conversion_estimate) action" where
  "currency_conversion_estimation env =
     bind_act (ask (pl_graphql_estimate (ev_lib env))) (\<lambda>reply.
       lift (bind_res (execute_with_variables reply) into_currency_conversion_estimate))"

section \<open>Providers\<close>

record create_invoice_request =
  cq_recipient :: resolved_recipient
  cq_wallet :: "wallet_kind option"
  cq_amount_sat :: u64
  cq_description_hash :: bytes
  cq_expiry :: "u32 option"
  cq_include_spark_address :: bool

record provider_invoice =
  pv_bolt11 :: string
  pv_wallet_kind :: wallet_kind
  pv_wallet_id :: "string option"
  pv_provider_payment_hash :: "string option"

record provider_payment_status =
  pp_settled :: bool
  pp_expired :: bool
  pp_preimage :: "string option"
  pp_amount_received_sat :: "int option"

datatype provider_error =
    UnsupportedProvider account_provider
  | UnsupportedWallet account_provider wallet_kind
  | MissingSparkPubkey
  | InvalidSparkPubkey
  | MissingBlinkDefaultWallet
  | MissingBlinkBtcWalletId
  | MissingBlinkUsdWalletId
  | BlinkInvoiceCreationFailed blink_client_error
  | BlinkPaymentStatusUnavailable blink_client_error
  | BlinkUsdMinSendableUnavailable blink_client_error
  | UsdMinSendableOverflow
  | BlinkStatusEndpointUnavailable
  | InvoiceCreationFailed
  | PaymentStatusUnavailable

definition select_blink_wallet_id ::
  "resolved_recipient \<Rightarrow> wallet_kind option \<Rightarrow> provider_error + wallet_kind \<times> string" where
  "select_blink_wallet_id recipient requested_wallet =
     bind_res (ok_or MissingBlinkDefaultWallet (opt_or requested_wallet (rr_default_wallet recipient))) (\<lambda>wallet.
     bind_res (case wallet of
         Btc \<Rightarrow> ok_or MissingBlinkBtcWalletId (rr_btc_wallet_id recipient)
       | Usd \<Rightarrow> ok_or MissingBlinkUsdWalletId (rr_usd_wallet_id recipient)) (\<lambda>wallet_id.
       Inr (wallet, wallet_id)))"

definition spark_create_invoice ::
  "('k, 's) env \<Rightarrow> create_invoice_request \<Rightarrow> (provider_error, provider_invoice) action" where
  "spark_create_invoice env r =
     (if rr_provider (cq_recipient r) \<noteq> Spark then fail (UnsupportedProvider (rr_provider (cq_recipient r)))
      else if cq_wallet r = Some Usd then fail (UnsupportedWallet Spark Usd)
      else
      bind_act (lift (ok_or MissingSparkPubkey (rr_spark_pubkey (cq_recipient r)))) (\<lambda>spark_pubkey.
      bind_act (lift (ok_or InvalidSparkPubkey (public_key_from_str (ev_crypto env) spark_pubkey))) (\<lambda>pubkey.
      bind_act (ask (\<lambda>k. pl_spark_invoice (ev_lib env) k
          \<lparr>sr_amount_sat = cq_amount_sat r, sr_description_hash = cq_description_hash r,
           sr_receiver_pubkey = pubkey, sr_expiry_secs = cq_expiry r,
           sr_include_spark_address = cq_include_spark_address r\<rparr>)) (\<lambda>reply.
      bind_act (lift (ok_or InvoiceCreationFailed reply)) (\<lambda>bolt11.
      ret \<lparr>pv_bolt11 = bolt11, pv_wallet_kind = Btc, pv_wallet_id = None, pv_provider_payment_hash = None\<rparr>)))))"

definition spark_payment_status :: "('k, 's) env \<Rightarrow> string \<Rightarrow> (provider_error, provider_payment_status) action" where
  "spark_payment_status env payment_hash = fail PaymentStatusUnavailable"

definition usd_cache_ttl :: nat where
  "usd_cache_ttl = 300000000000"

definition store_usd_cache :: "u64 \<Rightarrow> nat \<Rightarrow> ('e, unit) action" where
  "store_usd_cache v t w = (Inr (), w\<lparr>sv_usd_min_sendable_cache := Some (v, t)\<rparr>)"

definition fresh_usd_cache :: "('k, 's) env \<Rightarrow> ('e, u64 option) action" where
  "fresh_usd_cache env w =
     (Inr (case sv_usd_min_sendable_cache w of
         Some (v, fetched_at) \<Rightarrow> if ev_instant env (sv_step w) - fetched_at < usd_cache_ttl then Some v else None
       | None \<Rightarrow> None), tick w)"

definition usd_min_sendable_msat :: "('k, 's) env \<Rightarrow> (provider_error, u64) action" where
  "usd_min_sendable_msat env =
     bind_act (fresh_usd_cache env) (\<lambda>cached.
     case cached of
       Some v \<Rightarrow> ret v
     | None \<Rightarrow>
         bind_act (map_err_act BlinkUsdMinSendableUnavailable (currency_conversion_estimation env)) (\<lambda>estimate.
         bind_act (lift (ok_or UsdMinSendableOverflow
             (Option.bind (u64_checked_add (ce_btc_sat_amount estimate) 1) (\<lambda>sats. u64_checked_mul sats 1000)))) (\<lambda>v.
         bind_act (read_instant env) (\<lambda>t.
         bind_act (store_usd_cache v t) (\<lambda>_.
         ret v)))))"

definition blink_create_invoice ::
  "('k, 's) env \<Rightarrow> create_invoice_request \<Rightarrow> (provider_error, provider_invoice) action" where
  "blink_create_invoice env r =
     (if rr_provider (cq_recipient r) \<noteq> Blink then fail (UnsupportedProvider (rr_provider (cq_recipient r)))
      else
      bind_act (lift (select_blink_wallet_id (cq_recipient r) (cq_wallet r))) (\<lambda>(wallet, wallet_id).
      let client_request = \<lparr>bq_wallet_id = wallet_id, bq_amount_sat = cq_amount_sat r,
            bq_description_hash_hex = Some (hex_encode (ev_crypto env) (cq_description_hash r)),
            bq_expires_in_minutes = cq_expiry r, bq_webhook_url = pc_blink_webhook_url (ev_config env)\<rparr> in
      bind_act (map_err_act BlinkInvoiceCreationFailed
          (case wallet of Btc \<Rightarrow> create_btc_invoice env client_request | Usd \<Rightarrow> create_usd_invoice env client_request)) (\<lambda>invoice.
      ret \<lparr>pv_bolt11 = ci_bolt11 invoice, pv_wallet_kind = wallet, pv_wallet_id = Some wallet_id,
           pv_provider_payment_hash = Some (ci_payment_hash invoice)\<rparr>)))"

definition blink_payment_status :: "('k, 's) env \<Rightarrow> string \<Rightarrow> (provider_error, provider_payment_status) action" where
  "blink_payment_status env payment_hash =
     bind_act (map_err_act BlinkPaymentStatusUnavailable (client_payment_status env payment_hash)) (\<lambda>status.
     if ps_payment_hash status \<noteq> payment_hash then fail PaymentStatusUnavailable
     else ret \<lparr>pp_settled = ps_settled status, pp_expired = (ps_state status = Expired),
       pp_preimage = ps_preimage status, pp_amount_received_sat = ps_amount_received_sat status\<rparr>)"

section \<open>Registry\<close>

definition provider_create_invoice ::
  "('k, 's) env \<Rightarrow> create_invoice_request \<Rightarrow> (provider_error, provider_invoice) action" where
  "provider_create_invoice env r =
     (case rr_provider (cq_recipient r) of
        Spark \<Rightarrow> spark_create_invoice env r
      | Blink \<Rightarrow> blink_create_invoice env r)"

definition provider_payment_status_of ::
  "('k, 's) env \<Rightarrow> account_provider \<Rightarrow> string \<Rightarrow> (provider_error, provider_payment_status) action" where
  "provider_payment_status_of env provider payment_hash =
     (case provider of
        Spark \<Rightarrow> spark_payment_status env payment_hash
      | Blink \<Rightarrow> if pc_blink_status_enabled (ev_config env) then blink_payment_status env payment_hash
          else fail BlinkStatusEndpointUnavailable)"

section \<open>Settlement notifications\<close>

datatype blink_settlement_notification = Ignored | SettlementCandidate "string option" "string option"

record settlement_transaction =
  stx_status :: "string option"
  stx_payment_hash :: "string option option"
  stx_pre_image :: "string option option"

record settlement_payload =
  stp_event_type :: "string option"
  stp_transaction :: "settlement_transaction option"

fun should_settle :: "blink_settlement_notification \<Rightarrow> bool" where
  "should_settle Ignored = False"
| "should_settle (SettlementCandidate _ _) = True"

text \<open>On the decoded payload; the initiation and the settlement are optional objects of optional fields.\<close>

definition parse_blink_settlement_notification :: "settlement_payload \<Rightarrow> blink_settlement_notification" where
  "parse_blink_settlement_notification p =
     (if stp_event_type p \<noteq> Some ''receive.lightning'' then Ignored
      else case stp_transaction p of
        None \<Rightarrow> SettlementCandidate None None
      | Some t \<Rightarrow>
          if stx_status t \<noteq> Some ''success'' then Ignored
          else SettlementCandidate (Option.bind (stx_payment_hash t) id) (Option.bind (stx_pre_image t) id))"

section \<open>Facts\<close>

lemma writes_case_wallet [writes_rules]:
  "writes env G m \<Longrightarrow> writes env G m' \<Longrightarrow> writes env G (case wallet of Btc \<Rightarrow> m | Usd \<Rightarrow> m')"
  by (cases wallet) simp_all

lemma writes_case_provider [writes_rules]:
  "writes env G m \<Longrightarrow> writes env G m' \<Longrightarrow> writes env G (case p of Spark \<Rightarrow> m | Blink \<Rightarrow> m')"
  by (cases p) simp_all

lemma writes_usd_cache [writes_rules]: "writes env G (store_usd_cache v t)" "writes env G (fresh_usd_cache env)"
  by (rule writes_same_db; simp add: store_usd_cache_def fresh_usd_cache_def)+

lemma writes_usd_min [writes_rules]: "writes env G (usd_min_sendable_msat env)"
  unfolding usd_min_sendable_msat_def currency_conversion_estimation_def by (intro writes_rules)

lemma writes_provider [writes_rules]:
  "writes env G (provider_create_invoice env r)" "writes env G (provider_payment_status_of env p h)"
  unfolding provider_create_invoice_def provider_payment_status_of_def spark_create_invoice_def
    blink_create_invoice_def spark_payment_status_def blink_payment_status_def create_btc_invoice_def
    create_usd_invoice_def client_payment_status_def
  by (intro writes_rules)+

text \<open>A settled status names the payment hash that was asked for and comes with the preimage the API gave.\<close>

lemma blink_payment_status_settled:
  assumes "blink_payment_status env h w = (Inr st, w')" "pp_settled st"
  shows "\<exists>k e g. pl_graphql_status (ev_lib env) k (JObject [(''input'', JObject [(''paymentHash'', JString h)])]) = Some e \<and>
    ge_data e = Some g \<and> gs_status g = Some ''PAID'' \<and> gs_payment_hash g = Some h \<and> gs_payment_preimage g = pp_preimage st"
proof -
  let ?q = "JObject [(''input'', JObject [(''paymentHash'', JString h)])]"
  obtain status w1 where c: "client_payment_status env h w = (Inr status, w1)" "ps_payment_hash status = h"
    "pp_settled st = ps_settled status" "pp_preimage st = ps_preimage status"
    using assms(1) unfolding blink_payment_status_def by (auto simp: act_iff)
  from c(1) have "bind_res (execute_with_variables (pl_graphql_status (ev_lib env) (sv_step w) ?q)) into_payment_status = Inr status"
    unfolding client_payment_status_def by (simp add: act_iff)
  then obtain e g where e: "pl_graphql_status (ev_lib env) (sv_step w) ?q = Some e" "ge_data e = Some g"
    and g: "into_payment_status g = Inr status"
    unfolding bind_res_Inr_iff execute_with_variables_def by (auto split: option.splits if_splits)
  obtain s where "gs_status g = Some s" "gs_payment_hash g = Some (ps_payment_hash status)"
    "ps_settled status = (payment_status_state_of s = Paid)" "ps_preimage status = gs_payment_preimage g"
    using g by (auto simp: into_payment_status_def bind_res_Inr_iff Let_def)
  moreover have "payment_status_state_of s = Paid \<Longrightarrow> s = ''PAID''" for s
    by (auto simp: payment_status_state_of_def split: if_splits)
  ultimately show ?thesis using e c assms(2) by (intro exI [of _ "sv_step w"] exI [of _ e] exI [of _ g]) simp
qed

lemma usd_min_sendable_cases:
  assumes "usd_min_sendable_msat env w = (Inr v, w')"
  obtains t where "sv_usd_min_sendable_cache w = Some (v, t)"
  | sats where "u64_checked_add sats 1 \<noteq> None" "uint v = (uint sats + 1) * 1000"
proof -
  obtain c where c: "fresh_usd_cache env w = (Inr c :: provider_error + _, tick w)"
    by (simp add: fresh_usd_cache_def)
  show thesis
  proof (cases c)
    case (Some x)
    with c assms have "v = x" by (simp add: usd_min_sendable_msat_def bind_act_def ret_def)
    moreover obtain t where "sv_usd_min_sendable_cache w = Some (x, t)"
      using c Some by (auto simp: fresh_usd_cache_def split: option.splits if_splits)
    ultimately show thesis using that(1) by blast
  next
    case None
    obtain e :: currency_conversion_estimate where "Option.bind (u64_checked_add (ce_btc_sat_amount e) 1) (\<lambda>sats. u64_checked_mul sats 1000) = Some v"
      using assms c None unfolding usd_min_sendable_msat_def
      by (simp only: act_iff) (auto simp: act_iff)
    then obtain y where "u64_checked_add (ce_btc_sat_amount e) 1 = Some y" "u64_checked_mul y 1000 = Some v"
      by (auto simp: bind_eq_Some_conv)
    then show thesis using that(2) u64_checked_mul_Some u64_checked_add_Some by fastforce
  qed
qed

end
