(* ===== verification/Lnurl_Invoice_Paid.thy ===== *)
theory Lnurl_Invoice_Paid
  imports Lnurl_Server Lnurl_Invoices Lnurl_Queues
begin

text \<open>
  Settlement: \<open>invoice_paid.rs\<close>, the enqueueing half of \<open>zap.rs\<close> and \<open>webhook_notify.rs\<close>. The text a
  library's own error adds to a message is dropped. \<open>trigger.send\<close> is counted; that its receiver may
  be gone is only logged by the code.
\<close>

section \<open>Database calls of the payment side\<close>

text \<open>A statement that cannot break a constraint, one that can, and one that also returns a value.\<close>

definition db_exec :: "('k, 's) env \<Rightarrow> (nat \<Rightarrow> db \<Rightarrow> db) \<Rightarrow> (repository_error, unit) action" where
  "db_exec env f = db_call env (\<lambda>k d. (Inr (), f k d))"

definition db_update :: "('k, 's) env \<Rightarrow> (db \<Rightarrow> repository_error + db) \<Rightarrow> (repository_error, unit) action" where
  "db_update env f = db_call env (\<lambda>k d. case f d of Inl e \<Rightarrow> (Inl e, d) | Inr d' \<Rightarrow> (Inr (), d'))"

definition db_returning ::
  "('k, 's) env \<Rightarrow> (db \<Rightarrow> repository_error + 'a \<times> db) \<Rightarrow> (repository_error, 'a) action" where
  "db_returning env f = db_call env (\<lambda>k d. case f d of Inl e \<Rightarrow> (Inl e, d) | Inr (x, d') \<Rightarrow> (Inr x, d'))"

fun on_backend :: "backend \<Rightarrow> 'a \<Rightarrow> 'a \<Rightarrow> 'a" where
  "on_backend Sqlite x y = x"
| "on_backend Postgres x y = y"

lemma db_update_iff:
  "db_update env f w = (Inr y, w') \<longleftrightarrow> ev_fault env (sv_step w) = Healthy \<and>
     f (ev_others env (sv_step w) (sv_db w)) = Inr (sv_db w') \<and> w' = tick (w\<lparr>sv_db := sv_db w'\<rparr>)"
  by (auto simp: db_update_def db_call_iff split: sum.splits)

lemma db_exec_iff [act_iff]:
  "db_exec env f w = (Inr y, w') \<longleftrightarrow> ev_fault env (sv_step w) = Healthy \<and>
     w' = tick (w\<lparr>sv_db := f (sv_step w) (ev_others env (sv_step w) (sv_db w))\<rparr>)"
  by (auto simp: db_exec_def db_call_iff tick_def)

section \<open>Zap receipts\<close>

definition new_pending_receipt :: "int \<Rightarrow> string \<Rightarrow> pending_zap_receipt" where
  "new_pending_receipt now payment_hash =
     \<lparr>pz_payment_hash = payment_hash, pz_created_at = now, pz_retry_count = 0, pz_next_retry_at = now,
      pz_claimed_at = None\<rparr>"

definition enqueue_zap_receipt :: "('k, 's) env \<Rightarrow> string \<Rightarrow> (repository_error, unit) action" where
  "enqueue_zap_receipt env payment_hash =
     bind_act (read_millis env) (\<lambda>now.
       db_exec env (\<lambda>_. insert_pending_zap_receipt (new_pending_receipt now payment_hash)))"

definition enqueue_zap_receipts :: "('k, 's) env \<Rightarrow> string list \<Rightarrow> (repository_error, unit) action" where
  "enqueue_zap_receipts env payment_hashes =
     (if payment_hashes = [] then ret ()
      else bind_act (read_millis env) (\<lambda>now.
        db_exec env (\<lambda>_. on_backend (ev_backend env) insert_pending_zap_receipt_batch
          insert_pending_zap_receipt_batch_pg (map (new_pending_receipt now) payment_hashes))))"

section \<open>Webhook notifications\<close>

definition json_opt :: "('a \<Rightarrow> json) \<Rightarrow> 'a option \<Rightarrow> json" where
  "json_opt f x = (case x of None \<Rightarrow> JNull | Some y \<Rightarrow> f y)"

definition webhook_payload :: "int \<Rightarrow> webhook_payload_data \<Rightarrow> json" where
  "webhook_payload now x =
     JObject [(''template'', JString ''payment_received''),
       (''data'', JObject [
         (''payment_hash'', JString (wp_payment_hash x)),
         (''invoice'', JString (wp_invoice x)),
         (''preimage'', JString (wp_preimage x)),
         (''amount_sat'', json_opt JNumber (wp_amount_received_sat x)),
         (''lightning_address'', json_opt JString (wp_lightning_address x)),
         (''sender_comment'', json_opt JString (wp_sender_comment x)),
         (''timestamp'', JNumber now)])]"

definition delivery_of :: "('k, 's) env \<Rightarrow> int \<Rightarrow> webhook_payload_data \<Rightarrow> new_webhook_delivery" where
  "delivery_of env now x =
     \<lparr>nd_identifier = wp_payment_hash x, nd_domain = wp_domain x,
      nd_payload = pl_json_to_string (ev_lib env) (webhook_payload now x)\<rparr>"

definition notify_webhooks :: "('k, 's) env \<Rightarrow> string list \<Rightarrow> (repository_error, unit) action" where
  "notify_webhooks env payment_hashes =
     bind_act (db_read env (\<lambda>d. Inr (get_webhook_payloads payment_hashes d))) (\<lambda>data.
     if data = [] then ret ()
     else bind_act (read_millis env) (\<lambda>now.
       db_exec env (\<lambda>k. on_backend (ev_backend env) insert_webhook_deliveries insert_webhook_deliveries_pg
         (pl_now_millis (ev_lib env) k) (map (delivery_of env now) data))))"

section \<open>Settlement\<close>

datatype invoice_paid_error = InvalidInvoice string | InvalidPreimage string | Repository repository_error

definition verify_preimage :: "('k, 's) crypto_lib \<Rightarrow> string \<Rightarrow> string \<Rightarrow> invoice_paid_error + unit" where
  "verify_preimage lib payment_hash preimage =
     bind_res (ok_or (InvalidPreimage ''could not hex-decode preimage'') (hex_decode lib preimage)) (\<lambda>b.
     if hex_encode lib (sha256_hash lib b) \<noteq> payment_hash
     then Inl (InvalidPreimage ''preimage does not match payment hash'')
     else Inr ())"

definition send_trigger :: "('e, unit) action" where
  "send_trigger w = (Inr (), w\<lparr>sv_invoice_paid_triggers := sv_invoice_paid_triggers w + 1\<rparr>)"

definition with_preimage :: "string \<Rightarrow> int option \<Rightarrow> int \<Rightarrow> invoice \<Rightarrow> invoice" where
  "with_preimage preimage amount now i =
     i\<lparr>inv_preimage := Some preimage, inv_amount_received_sat := amount, inv_updated_at := now\<rparr>"

definition handle_invoice_paid ::
  "('k, 's) env \<Rightarrow> string \<Rightarrow> string \<Rightarrow> int option \<Rightarrow> (invoice_paid_error, unit) action" where
  "handle_invoice_paid env payment_hash preimage amount_received_sat =
     bind_act (lift (verify_preimage (ev_crypto env) payment_hash preimage)) (\<lambda>_.
     bind_act (read_millis env) (\<lambda>now.
     bind_act (map_err_act Repository (db_read env (\<lambda>d. Inr (get_invoice_by_payment_hash payment_hash d)))) (\<lambda>found.
     case found of
       None \<Rightarrow> ret ()
     | Some invoice \<Rightarrow>
         bind_act
           (if inv_preimage invoice = None
            then bind_act (map_err_act Repository
                   (db_update env (upsert_invoice (with_preimage preimage amount_received_sat now invoice)))) (\<lambda>_.
                 map_err_act Repository (enqueue_zap_receipt env payment_hash))
            else ret ()) (\<lambda>_.
         bind_act (ignore_err (notify_webhooks env [payment_hash])) (\<lambda>_.
         send_trigger)))))"

record paid_invoice =
  pd_preimage :: string
  pd_invoice :: string

text \<open>\<open>i64::try_from(t.as_millis()).unwrap_or(i64::MAX)\<close> of a duration in nanoseconds, 0 without one.\<close>

definition expiry_millis :: "nat option \<Rightarrow> int" where
  "expiry_millis t = (case t of None \<Rightarrow> 0 | Some n \<Rightarrow> min (int n div 1000000) i64_max)"

definition paid_invoice_row ::
  "('k, 's) env \<Rightarrow> int \<Rightarrow> string \<Rightarrow> paid_invoice \<Rightarrow> invoice_paid_error + invoice" where
  "paid_invoice_row env now user_pubkey item =
     bind_res (ok_or (InvalidPreimage ''could not hex-decode preimage'') (hex_decode (ev_crypto env) (pd_preimage item))) (\<lambda>b.
     let payment_hash = hex_encode (ev_crypto env) (sha256_hash (ev_crypto env) b) in
     bind_res (ok_or (InvalidInvoice ''invalid bolt11 invoice'') (pl_bolt11_from_str (ev_lib env) (pd_invoice item))) (\<lambda>bolt11.
     if b11_payment_hash bolt11 \<noteq> payment_hash
     then Inl (InvalidPreimage (''invoice payment hash does not match preimage for hash '' @ payment_hash))
     else Inr \<lparr>inv_account_id = None, inv_provider = None, inv_wallet_kind = None, inv_wallet_id = None,
       inv_provider_payment_hash = None, inv_payment_hash = payment_hash, inv_user_pubkey = user_pubkey,
       inv_invoice = pd_invoice item, inv_preimage = Some (pd_preimage item), inv_expired_at = None,
       inv_invoice_expiry = expiry_millis (b11_expires_at bolt11), inv_created_at = now, inv_updated_at = now,
       inv_domain = None, inv_amount_received_sat = None\<rparr>))"

fun paid_invoice_rows ::
  "('k, 's) env \<Rightarrow> int \<Rightarrow> string \<Rightarrow> paid_invoice list \<Rightarrow> invoice_paid_error + invoice list" where
  "paid_invoice_rows env now user_pubkey [] = Inr []"
| "paid_invoice_rows env now user_pubkey (item # items) =
     bind_res (paid_invoice_row env now user_pubkey item) (\<lambda>i.
     bind_res (paid_invoice_rows env now user_pubkey items) (\<lambda>is. Inr (i # is)))"

definition handle_invoices_paid ::
  "('k, 's) env \<Rightarrow> paid_invoice list \<Rightarrow> string \<Rightarrow> (invoice_paid_error, unit) action" where
  "handle_invoices_paid env items user_pubkey =
     bind_act (read_millis env) (\<lambda>now.
     bind_act (lift (paid_invoice_rows env now user_pubkey items)) (\<lambda>all.
     bind_act (map_err_act Repository (db_read env (\<lambda>d. Inr (filter_known_payment_hashes (map inv_payment_hash all) d)))) (\<lambda>known.
     let is = filter (\<lambda>i. inv_payment_hash i \<in> set known) all in
     if is = [] then ret ()
     else
     bind_act (map_err_act Repository (db_returning env
         (on_backend (ev_backend env) upsert_invoices_paid upsert_invoices_paid_pg is))) (\<lambda>affected.
     bind_act (if affected = [] then ret () else map_err_act Repository (enqueue_zap_receipts env affected)) (\<lambda>_.
     bind_act (ignore_err (notify_webhooks env (map inv_payment_hash is))) (\<lambda>_.
     send_trigger))))))"

section \<open>Invoice records\<close>

definition create_provider_invoice_for_account ::
  "('k, 's) env \<Rightarrow> string \<Rightarrow> string option \<Rightarrow> account_provider option \<Rightarrow> wallet_kind option \<Rightarrow> string option \<Rightarrow>
   string option \<Rightarrow> string \<Rightarrow> string \<Rightarrow> int \<Rightarrow> string \<Rightarrow> (repository_error, unit) action" where
  "create_provider_invoice_for_account env payment_hash account_id provider wallet_kind wallet_id
     provider_payment_hash user_pubkey invoice invoice_expiry domain =
     bind_act (read_millis env) (\<lambda>now.
       db_update env (upsert_invoice \<lparr>inv_account_id = account_id, inv_provider = provider,
         inv_wallet_kind = wallet_kind, inv_wallet_id = wallet_id, inv_provider_payment_hash = provider_payment_hash,
         inv_payment_hash = payment_hash, inv_user_pubkey = user_pubkey, inv_invoice = invoice,
         inv_preimage = None, inv_expired_at = None, inv_invoice_expiry = invoice_expiry,
         inv_created_at = now, inv_updated_at = now, inv_domain = Some domain, inv_amount_received_sat = None\<rparr>))"

definition create_invoice_for_account ::
  "('k, 's) env \<Rightarrow> string \<Rightarrow> string option \<Rightarrow> string \<Rightarrow> string \<Rightarrow> int \<Rightarrow> string \<Rightarrow> (repository_error, unit) action" where
  "create_invoice_for_account env payment_hash account_id user_pubkey invoice invoice_expiry domain =
     create_provider_invoice_for_account env payment_hash account_id None None None None user_pubkey invoice
       invoice_expiry domain"

definition create_invoice ::
  "('k, 's) env \<Rightarrow> string \<Rightarrow> string \<Rightarrow> string \<Rightarrow> int \<Rightarrow> string \<Rightarrow> (repository_error, unit) action" where
  "create_invoice env payment_hash user_pubkey invoice invoice_expiry domain =
     create_invoice_for_account env payment_hash None user_pubkey invoice invoice_expiry domain"

section \<open>Stored preimages\<close>

text \<open>
  The invariant of settlement: every stored preimage is one of its payment hash. \<open>payment_step\<close>
  is the change a payment handler may make to the database: it keeps the invariant and leaves the
  tables of the accounts alone.
\<close>

definition preimage_row :: "('k, 's) crypto_lib \<Rightarrow> invoice \<Rightarrow> bool" where
  "preimage_row lib i =
     (case inv_preimage i of None \<Rightarrow> True | Some p \<Rightarrow> verify_preimage lib (inv_payment_hash i) p = Inr ())"

definition preimages_ok :: "('k, 's) crypto_lib \<Rightarrow> db \<Rightarrow> bool" where
  "preimages_ok lib d \<longleftrightarrow> unique_by inv_payment_hash (invoices d) \<and> (\<forall>i \<in> set (invoices d). preimage_row lib i)"

definition account_tables :: "db \<Rightarrow> account list \<times> account_identifier list \<times> spark_account list \<times>
    blink_account list \<times> used_signed_message list" where
  "account_tables d =
     (accounts d, account_identifiers d, spark_accounts d, blink_accounts d, used_signed_messages d)"

definition payment_step :: "('k, 's) crypto_lib \<Rightarrow> nat \<Rightarrow> db \<Rightarrow> db \<Rightarrow> bool" where
  "payment_step lib k d d' \<longleftrightarrow> (preimages_ok lib d \<longrightarrow> preimages_ok lib d') \<and> account_tables d' = account_tables d"

lemma account_tables_update [simp]:
  "account_tables (d\<lparr>invoices := a\<rparr>) = account_tables d"
  "account_tables (d\<lparr>zaps := b\<rparr>) = account_tables d"
  "account_tables (d\<lparr>sender_comments := c\<rparr>) = account_tables d"
  "account_tables (d\<lparr>pending_zap_receipts := e\<rparr>) = account_tables d"
  "account_tables (d\<lparr>webhook_deliveries := f\<rparr>) = account_tables d"
  "account_tables (d\<lparr>webhook_next_id := n\<rparr>) = account_tables d"
  by (simp_all add: account_tables_def)

lemma verify_preimage_iff:
  "verify_preimage lib h p = Inr () \<longleftrightarrow> (\<exists>b. hex_decode lib p = Some b \<and> hex_encode lib (sha256_hash lib b) = h)"
  by (auto simp: verify_preimage_def bind_res_Inr_iff)

lemma preimage_row_merge [simp]:
  "inv_payment_hash old = inv_payment_hash i \<Longrightarrow> preimage_row lib (merge_invoice old i) = preimage_row lib i"
  "inv_payment_hash old = inv_payment_hash i \<Longrightarrow> preimage_row lib (merge_paid old i) = preimage_row lib i"
  "preimage_row lib (paid_row i) = preimage_row lib i"
  by (simp_all add: preimage_row_def merge_invoice_def split: option.splits)

lemma preimages_ok_frame: "invoices d' = invoices d \<Longrightarrow> preimages_ok lib d' = preimages_ok lib d"
  by (simp add: preimages_ok_def)

lemma set_upsert_on:
  "r \<in> set (upsert_on key merge row t) \<Longrightarrow> r \<in> set t \<or> r = row \<or> (\<exists>s \<in> set t. key s = key row \<and> r = merge s row)"
  by (auto simp: upsert_on_def table_simps split: if_splits)

lemma upsert_invoice_preimages:
  assumes "preimages_ok lib d" "preimage_row lib i" "upsert_invoice i d = Inr d'"
  shows "preimages_ok lib d'"
proof -
  have d': "invoices d' = upsert_on inv_payment_hash merge_invoice i (invoices d)"
    using assms(3) by (auto simp: upsert_invoice_def split: if_splits)
  have "preimage_row lib r" if "r \<in> set (invoices d')" for r
    using set_upsert_on [OF that [unfolded d']] assms(1,2) by (auto simp: preimages_ok_def)
  with assms(1) show ?thesis by (simp add: preimages_ok_def d' invoice_table.unique_upsert)
qed

lemma settle_row_preimages:
  assumes "preimages_ok lib d" "preimage_row lib i" "settle_row i d = Inr (h, d')"
  shows "preimages_ok lib d'"
  using assms(3)
proof (cases rule: settle_row_cases)
  case new
  with assms(1,2) show ?thesis by (auto simp: preimages_ok_def)
next
  case update
  have "preimage_row lib r" if "r \<in> set (invoices d')" for r
    using that assms(1,2) by (auto simp: update(3) table_simps preimages_ok_def paid_applies_def)
  with assms(1) show ?thesis by (simp add: preimages_ok_def update(3) unique_by_update)
next
  case skip
  with assms(1) show ?thesis by simp
qed

lemma settle_rows_preimages:
  "preimages_ok lib d \<Longrightarrow> \<forall>i \<in> set is. preimage_row lib i \<Longrightarrow> settle_rows is d = Inr (hs, d') \<Longrightarrow> preimages_ok lib d'"
proof (induction "is" arbitrary: d hs)
  case (Cons i "is")
  from Cons.prems(3) obtain h d1 hs1 where "settle_row i d = Inr (h, d1)" "settle_rows is d1 = Inr (hs1, d')"
    by (auto simp: bind_res_Inr_iff)
  with Cons settle_row_preimages show ?case by (metis list.set_intros(1,2))
qed simp

lemma settle_rows_pg_preimages:
  "preimages_ok lib d \<Longrightarrow> \<forall>i \<in> set is. preimage_row lib i \<Longrightarrow> settle_rows_pg touched is d = Inr (hs, d') \<Longrightarrow> preimages_ok lib d'"
proof (induction "is" arbitrary: d hs touched)
  case (Cons i "is")
  from Cons.prems(3) obtain h d1 hs1 touched1 where "settle_row i d = Inr (h, d1)" "settle_rows_pg touched1 is d1 = Inr (hs1, d')"
    by (auto simp: bind_res_Inr_iff split: if_splits)
  with Cons settle_row_preimages show ?case by (metis list.set_intros(1,2))
qed simp

lemma upsert_invoices_paid_preimages:
  assumes "preimages_ok lib d" "\<forall>i \<in> set is. preimage_row lib i"
    and "on_backend b upsert_invoices_paid upsert_invoices_paid_pg is d = Inr (hs, d')"
  shows "preimages_ok lib d'"
  using assms settle_rows_preimages settle_rows_pg_preimages
  by (cases b) (auto simp: upsert_invoices_paid_def upsert_invoices_paid_pg_def split: if_splits)

lemma settle_rows_accounts:
  "settle_rows is d = Inr (hs, d') \<Longrightarrow> account_tables d' = account_tables d"
  "settle_rows_pg touched is d = Inr (hs, d') \<Longrightarrow> account_tables d' = account_tables d"
proof -
  have one: "settle_row i d = Inr (h, d') \<Longrightarrow> account_tables d' = account_tables d" for i d h d'
    by (erule settle_row_cases) simp_all
  show "settle_rows is d = Inr (hs, d') \<Longrightarrow> account_tables d' = account_tables d"
    by (induction "is" arbitrary: d hs) (auto simp: bind_res_Inr_iff dest!: one)
  show "settle_rows_pg touched is d = Inr (hs, d') \<Longrightarrow> account_tables d' = account_tables d"
    by (induction "is" arbitrary: d hs touched) (auto simp: bind_res_Inr_iff dest!: one split: if_splits)
qed

lemma upsert_invoices_accounts:
  "upsert_invoice i d = Inr d' \<Longrightarrow> account_tables d' = account_tables d"
  "on_backend b upsert_invoices_paid upsert_invoices_paid_pg is d = Inr (hs, d') \<Longrightarrow> account_tables d' = account_tables d"
  "account_tables (mark_invoice_expired h t d) = account_tables d"
  by (cases b; auto simp: upsert_invoice_def upsert_invoices_paid_def upsert_invoices_paid_pg_def
      mark_invoice_expired_def dest: settle_rows_accounts split: if_splits)+

lemma mark_invoice_expired_preimages: "preimages_ok lib d \<Longrightarrow> preimages_ok lib (mark_invoice_expired h t d)"
  by (auto simp: preimages_ok_def mark_invoice_expired_def unique_by_update table_simps preimage_row_def)

text \<open>The queues, the zaps and the comments have tables of their own.\<close>

lemma invoices_insert_receipt [simp]:
  "invoices (insert_pending_zap_receipt p d) = invoices d"
  "account_tables (insert_pending_zap_receipt p d) = account_tables d"
  by (simp_all add: insert_pending_zap_receipt_def)

lemma invoices_insert_batch [simp]:
  "invoices (insert_pending_zap_receipt_batch ps d) = invoices d"
  "invoices (insert_pending_zap_receipt_batch_pg ps d) = invoices d"
  "account_tables (insert_pending_zap_receipt_batch ps d) = account_tables d"
  "account_tables (insert_pending_zap_receipt_batch_pg ps d) = account_tables d"
proof -
  have "invoices (fold insert_pending_zap_receipt ps d) = invoices d"
    "account_tables (fold insert_pending_zap_receipt ps d) = account_tables d"
    by (induction ps arbitrary: d) simp_all
  then show "invoices (insert_pending_zap_receipt_batch ps d) = invoices d"
    "account_tables (insert_pending_zap_receipt_batch ps d) = account_tables d"
    by (simp_all add: insert_pending_zap_receipt_batch_def)
qed (simp_all add: insert_pending_zap_receipt_batch_pg_def)

lemma invoices_insert_deliveries [simp]:
  "invoices (insert_webhook_deliveries now ws d) = invoices d"
  "invoices (insert_webhook_deliveries_pg now ws d) = invoices d"
  "account_tables (insert_webhook_deliveries now ws d) = account_tables d"
  "account_tables (insert_webhook_deliveries_pg now ws d) = account_tables d"
proof -
  have "invoices (insert_webhook_delivery now w d) = invoices d"
    "account_tables (insert_webhook_delivery now w d) = account_tables d" for w d
    by (simp_all add: insert_webhook_delivery_def)
  then have "invoices (fold (insert_webhook_delivery now) ws d) = invoices d"
    "account_tables (fold (insert_webhook_delivery now) ws d) = account_tables d"
    by (induction ws arbitrary: d) simp_all
  then show "invoices (insert_webhook_deliveries now ws d) = invoices d"
    "account_tables (insert_webhook_deliveries now ws d) = account_tables d"
    by (simp_all add: insert_webhook_deliveries_def)
  have "invoices (insert_candidates_pg now xs d) = invoices d"
    "account_tables (insert_candidates_pg now xs d) = account_tables d" for xs
    by (induction now xs d rule: insert_candidates_pg.induct) simp_all
  then show "invoices (insert_webhook_deliveries_pg now ws d) = invoices d"
    "account_tables (insert_webhook_deliveries_pg now ws d) = account_tables d"
    by (simp_all add: insert_webhook_deliveries_pg_def)
qed

lemma writes_exec:
  "(\<And>k d. G k d (f k d)) \<Longrightarrow> writes env G (db_exec env f)"
  unfolding db_exec_def by (rule writes_call) simp

lemma writes_update:
  "(\<And>k d. G k d d) \<Longrightarrow> (\<And>k d d'. f d = Inr d' \<Longrightarrow> G k d d') \<Longrightarrow> writes env G (db_update env f)"
  unfolding db_update_def by (rule writes_call) (simp split: sum.splits)

lemma writes_returning:
  "(\<And>k d. G k d d) \<Longrightarrow> (\<And>k d x d'. f d = Inr (x, d') \<Longrightarrow> G k d d') \<Longrightarrow> writes env G (db_returning env f)"
  unfolding db_returning_def by (rule writes_call) (simp split: sum.splits prod.splits)

lemma payment_step_refl [simp]: "payment_step lib k d d"
  by (simp add: payment_step_def)

lemma payment_step_frame:
  "invoices d' = invoices d \<Longrightarrow> account_tables d' = account_tables d \<Longrightarrow> payment_step lib k d d'"
  by (drule preimages_ok_frame [of d' d lib]) (simp add: payment_step_def)

lemma writes_send_trigger [writes_rules]: "writes env G send_trigger"
  by (rule writes_same_db) (simp add: send_trigger_def)

lemma writes_enqueue [writes_rules]:
  "writes env (payment_step lib) (enqueue_zap_receipt env h)"
  "writes env (payment_step lib) (enqueue_zap_receipts env hs)"
  "writes env (payment_step lib) (notify_webhooks env hs)"
proof -
  have b: "invoices (on_backend b insert_pending_zap_receipt_batch insert_pending_zap_receipt_batch_pg ps d) = invoices d"
    "invoices (on_backend b insert_webhook_deliveries insert_webhook_deliveries_pg now ws d) = invoices d"
    "account_tables (on_backend b insert_pending_zap_receipt_batch insert_pending_zap_receipt_batch_pg ps d) = account_tables d"
    "account_tables (on_backend b insert_webhook_deliveries insert_webhook_deliveries_pg now ws d) = account_tables d"
    for b ps d now ws
    by (cases b; simp)+
  show "writes env (payment_step lib) (enqueue_zap_receipt env h)"
    unfolding enqueue_zap_receipt_def by (intro writes_rules writes_exec payment_step_frame) simp_all
  show "writes env (payment_step lib) (enqueue_zap_receipts env hs)"
    unfolding enqueue_zap_receipts_def by (intro writes_rules writes_exec payment_step_frame) (simp_all add: b)
  show "writes env (payment_step lib) (notify_webhooks env hs)"
    unfolding notify_webhooks_def by (intro writes_rules writes_exec payment_step_frame) (simp_all add: b)
qed

lemma writes_upsert_invoice:
  "preimage_row lib i \<Longrightarrow> writes env (payment_step lib) (db_update env (upsert_invoice i))"
  by (rule writes_update) (simp_all add: payment_step_def upsert_invoice_preimages upsert_invoices_accounts(1))

lemma get_invoice_hash: "get_invoice_by_payment_hash h d = Some i \<Longrightarrow> inv_payment_hash i = h \<and> i \<in> set (invoices d)"
  using fetch_optional_SomeD by (fastforce simp: get_invoice_by_payment_hash_def)

lemma handle_invoice_paid_writes [writes_rules]:
  "writes env (payment_step (ev_crypto env)) (handle_invoice_paid env h p a)"
  unfolding handle_invoice_paid_def
proof (intro writes_rules writes_upsert_invoice)
  fix x w w' now i and found :: "invoice option" and wb wb'
  assume "lift (verify_preimage (ev_crypto env) h p) w = (Inr x, w')"
    and "map_err_act Repository (db_read env (\<lambda>d. Inr (get_invoice_by_payment_hash h d))) wb = (Inr found, wb')"
    and "found = Some i"
  then show "preimage_row (ev_crypto env) (with_preimage p a now i)"
    by (auto simp: act_iff preimage_row_def with_preimage_def dest: get_invoice_hash)
qed

lemma paid_invoice_row_ok:
  "paid_invoice_row env now k item = Inr i \<Longrightarrow> preimage_row (ev_crypto env) i"
  by (auto simp: paid_invoice_row_def bind_res_Inr_iff preimage_row_def verify_preimage_iff Let_def split: if_splits)

lemma paid_invoice_rows_ok:
  "paid_invoice_rows env now k items = Inr is \<Longrightarrow> i \<in> set is \<Longrightarrow> preimage_row (ev_crypto env) i"
  by (induction items arbitrary: "is") (auto simp: bind_res_Inr_iff dest: paid_invoice_row_ok)

lemma handle_invoices_paid_writes [writes_rules]:
  "writes env (payment_step (ev_crypto env)) (handle_invoices_paid env items k)"
proof -
  have u: "writes env (payment_step (ev_crypto env)) (db_returning env
      (on_backend (ev_backend env) upsert_invoices_paid upsert_invoices_paid_pg (filter P all)))"
    if "lift (paid_invoice_rows env now k items) w = (Inr all, w')" for now w w' all and P :: "invoice \<Rightarrow> bool"
  proof -
    have "\<forall>i \<in> set (filter P all). preimage_row (ev_crypto env) i"
      using that by (auto simp: act_iff dest: paid_invoice_rows_ok)
    note up = upsert_invoices_paid_preimages [OF _ this]
    show ?thesis
      by (intro writes_returning) (auto simp: payment_step_def intro: up upsert_invoices_accounts(2))
  qed
  show ?thesis unfolding handle_invoices_paid_def Let_def by (intro writes_rules u)
qed

lemma create_provider_invoice_writes [writes_rules]:
  "writes env (payment_step lib) (create_provider_invoice_for_account env h a p wk wi ph u b e dn)"
  unfolding create_provider_invoice_for_account_def
  by (intro writes_rules writes_upsert_invoice) (simp add: preimage_row_def)

end
