(* ===== verification/Lnurl_Webhook.thy ===== *)
theory Lnurl_Webhook
  imports Lnurl_Providers Lnurl_Invoice_Paid
begin

text \<open>
  The webhook routes of \<open>routes/webhook.rs\<close>: payment notifications of the Spark service provider,
  authenticated by an HMAC of the body, and of Blink, whose word is checked against the preimage or
  against the payment status the Blink API reports. The decoding of the SSP body by \<open>serde_json\<close> is
  an argument; the Blink payload is its decoded struct.
\<close>

section \<open>SSP notifications\<close>

record ssp_amount =
  sa_value :: int
  sa_unit :: string

record ssp_webhook_payload =
  sw_event_type :: string
  sw_payment_preimage :: "string option"
  sw_receiver_identity_public_key :: "string option"
  sw_htlc_amount :: "ssp_amount option"

text \<open>Division of an \<open>i64\<close> by a positive number truncates towards zero.\<close>

definition i64_div :: "int \<Rightarrow> int \<Rightarrow> int" where
  "i64_div a b = (if a < 0 then - ((- a) div b) else a div b)"

definition amount_received_of :: "ssp_amount option \<Rightarrow> int option" where
  "amount_received_of a =
     (case a of
        None \<Rightarrow> None
      | Some a \<Rightarrow>
          if sa_unit a = ''SATOSHI'' then Some (sa_value a)
          else if sa_unit a = ''MILLISATOSHI'' then Some (i64_div (sa_value a) 1000)
          else None)"

definition webhook_error :: api_error where
  "webhook_error = (INTERNAL_SERVER_ERROR, JString ''internal server error'')"

definition process_webhook ::
  "('k, 's) env \<Rightarrow> (bytes \<Rightarrow> ssp_webhook_payload option) \<Rightarrow> header_map \<Rightarrow> bytes \<Rightarrow> (api_error, unit) action" where
  "process_webhook env decode headers body =
     bind_act (lift (ok_or (UNAUTHORIZED, JString ''missing signature'')
       (Option.bind (headers ''x-spark-signature'') to_str))) (\<lambda>signature_header.
     bind_act (lift (ok_or (UNAUTHORIZED, JString ''invalid signature'')
       (hex_decode (ev_crypto env) signature_header))) (\<lambda>signature_bytes.
     if hmac_sha256 (ev_crypto env) (as_bytes (pc_webhook_secret (ev_config env))) body \<noteq> signature_bytes
     then fail (UNAUTHORIZED, JString ''invalid signature'')
     else
     bind_act (lift (ok_or (BAD_REQUEST, JString ''invalid payload'') (decode body))) (\<lambda>payload.
     if sw_event_type payload \<noteq> ''SPARK_LIGHTNING_RECEIVE_FINISHED'' then ret ()
     else
     bind_act (lift (ok_or (BAD_REQUEST, JString ''missing payment_preimage'') (sw_payment_preimage payload))) (\<lambda>preimage.
     bind_act (lift (ok_or (BAD_REQUEST, JString ''missing receiver_identity_public_key'')
       (sw_receiver_identity_public_key payload))) (\<lambda>receiver_pubkey.
     bind_act (lift (ok_or (BAD_REQUEST, JString ''invalid preimage'') (hex_decode (ev_crypto env) preimage))) (\<lambda>preimage_bytes.
     let payment_hash = hex_encode (ev_crypto env) (sha256_hash (ev_crypto env) preimage_bytes) in
     bind_act (map_err_act (\<lambda>_. webhook_error)
       (db_read env (\<lambda>d. Inr (get_invoice_by_payment_hash payment_hash d)))) (\<lambda>found.
     case found of
       None \<Rightarrow> ret ()
     | Some invoice \<Rightarrow>
         if inv_user_pubkey invoice \<noteq> receiver_pubkey then ret ()
         else map_err_act (\<lambda>_. webhook_error)
           (handle_invoice_paid env payment_hash preimage (amount_received_of (sw_htlc_amount payload))))))))))"

section \<open>Blink notifications\<close>

datatype blink_webhook_status = WebhookPaid | WebhookExpired

record blink_webhook_payload =
  bw_payment_hash :: string
  bw_payment_preimage :: "string option"
  bw_payment_request :: "string option"
  bw_status :: blink_webhook_status

datatype blink_settlement_error =
    SettlementRepository repository_error
  | SettlementProvider provider_error
  | SettlementInvoicePaid invoice_paid_error

fun blink_webhook_settlement_error :: "blink_settlement_error \<Rightarrow> api_error" where
  "blink_webhook_settlement_error (SettlementInvoicePaid (InvalidInvoice _)) = (BAD_REQUEST, JString ''invalid payload'')"
| "blink_webhook_settlement_error (SettlementInvoicePaid (InvalidPreimage _)) = (BAD_REQUEST, JString ''invalid payload'')"
| "blink_webhook_settlement_error _ = webhook_error"

definition validate_blink_payment_request_hash ::
  "('k, 's) env \<Rightarrow> string \<Rightarrow> string option \<Rightarrow> api_error + unit" where
  "validate_blink_payment_request_hash env payment_hash payment_request =
     (case payment_request of
        None \<Rightarrow> Inr ()
      | Some pr \<Rightarrow>
          bind_res (ok_or (BAD_REQUEST, JString ''invalid paymentRequest'') (pl_bolt11_from_str (ev_lib env) pr)) (\<lambda>invoice.
          if b11_payment_hash invoice \<noteq> payment_hash
          then Inl (BAD_REQUEST, JString ''paymentRequest hash mismatch'')
          else Inr ()))"

text \<open>The status of a Blink invoice; \<open>None\<close> where no status endpoint is configured.\<close>

definition blink_status ::
  "('k, 's) env \<Rightarrow> string \<Rightarrow> (blink_settlement_error, provider_payment_status option) action" where
  "blink_status env payment_hash w =
     (case provider_payment_status_of env Blink payment_hash w of
        (Inr status, w') \<Rightarrow> (Inr (Some status), w')
      | (Inl BlinkStatusEndpointUnavailable, w') \<Rightarrow> (Inr None, w')
      | (Inl e, w') \<Rightarrow> (Inl (SettlementProvider e), w'))"

definition settle_blink_invoice_by_payment_hash ::
  "('k, 's) env \<Rightarrow> string \<Rightarrow> string option \<Rightarrow> (blink_settlement_error, string option) action" where
  "settle_blink_invoice_by_payment_hash env payment_hash supplied_preimage =
     bind_act (map_err_act SettlementRepository
       (db_read env (\<lambda>d. Inr (get_invoice_by_payment_hash payment_hash d)))) (\<lambda>found.
     case found of
       None \<Rightarrow> ret None
     | Some invoice \<Rightarrow>
         if inv_provider invoice \<noteq> Some Blink then ret None
         else case supplied_preimage of
           Some preimage \<Rightarrow>
             bind_act (map_err_act SettlementInvoicePaid (handle_invoice_paid env payment_hash preimage None)) (\<lambda>_.
             ret (Some preimage))
         | None \<Rightarrow>
             bind_act (blink_status env payment_hash) (\<lambda>status.
             case status of
               None \<Rightarrow> ret None
             | Some status \<Rightarrow>
                 if \<not> pp_settled status then ret None
                 else case pp_preimage status of
                   None \<Rightarrow> ret None
                 | Some preimage \<Rightarrow>
                     bind_act (map_err_act SettlementInvoicePaid
                       (handle_invoice_paid env payment_hash preimage (pp_amount_received_sat status))) (\<lambda>_.
                     ret (Some preimage))))"

definition expire_blink_invoice_by_payment_hash ::
  "('k, 's) env \<Rightarrow> string \<Rightarrow> (blink_settlement_error, unit) action" where
  "expire_blink_invoice_by_payment_hash env payment_hash =
     bind_act (map_err_act SettlementRepository
       (db_read env (\<lambda>d. Inr (get_invoice_by_payment_hash payment_hash d)))) (\<lambda>found.
     case found of
       None \<Rightarrow> ret ()
     | Some invoice \<Rightarrow>
         if inv_provider invoice \<noteq> Some Blink then ret ()
         else bind_act (blink_status env payment_hash) (\<lambda>status.
           case status of
             None \<Rightarrow> ret ()
           | Some status \<Rightarrow>
               if pp_expired status
               then bind_act (read_millis env) (\<lambda>now.
                 map_err_act SettlementRepository (db_exec env (\<lambda>_. mark_invoice_expired payment_hash now)))
               else ret ()))"

definition blink_webhook :: "('k, 's) env \<Rightarrow> blink_webhook_payload \<Rightarrow> (api_error, unit) action" where
  "blink_webhook env payload =
     bind_act (lift (validate_blink_payment_request_hash env (bw_payment_hash payload) (bw_payment_request payload))) (\<lambda>_.
     case bw_status payload of
       WebhookPaid \<Rightarrow>
         bind_act (map_err_act blink_webhook_settlement_error
           (settle_blink_invoice_by_payment_hash env (bw_payment_hash payload) (bw_payment_preimage payload))) (\<lambda>_.
         ret ())
     | WebhookExpired \<Rightarrow>
         map_err_act blink_webhook_settlement_error
           (expire_blink_invoice_by_payment_hash env (bw_payment_hash payload)))"

section \<open>What they write\<close>

lemma writes_blink_status [writes_rules]: "writes env G (blink_status env h)"
proof (unfold writes_def, intro allI)
  fix w
  have "sv_db (snd (blink_status env h w)) = sv_db (snd (provider_payment_status_of env Blink h w))"
    by (simp add: blink_status_def split: prod.splits sum.splits provider_error.splits)
  moreover have "writes env G (provider_payment_status_of env Blink h)" by (rule writes_provider)
  ultimately show "served env G (sv_db w) (sv_db (snd (blink_status env h w)))" by (simp add: writes_def)
qed

lemma writes_case_webhook_status [writes_rules]:
  "writes env G m \<Longrightarrow> writes env G m' \<Longrightarrow> writes env G (case s of WebhookPaid \<Rightarrow> m | WebhookExpired \<Rightarrow> m')"
  by (cases s) simp_all

lemma settle_blink_writes [writes_rules]:
  "writes env (payment_step (ev_crypto env)) (settle_blink_invoice_by_payment_hash env h p)"
  unfolding settle_blink_invoice_by_payment_hash_def by (intro writes_rules)

lemma expire_blink_writes [writes_rules]:
  "writes env (payment_step (ev_crypto env)) (expire_blink_invoice_by_payment_hash env h)"
  unfolding expire_blink_invoice_by_payment_hash_def
  by (intro writes_rules writes_exec) (simp add: payment_step_def mark_invoice_expired_preimages upsert_invoices_accounts(3))

lemma webhook_writes [writes_rules]:
  "writes env (payment_step (ev_crypto env)) (process_webhook env decode headers body)"
  "writes env (payment_step (ev_crypto env)) (blink_webhook env payload)"
  unfolding process_webhook_def blink_webhook_def by (intro writes_rules)+

end
