(* ===== verification/Lnurl_Pay.thy ===== *)
theory Lnurl_Pay
  imports Lnurl_Webhook Lnurl_Account_Routes
begin

text \<open>
  The public payment routes of \<open>routes/lnurl_pay.rs\<close> (discovery, invoice callback, verify,
  availability and the paid notifications of wallets) with the zap request rules of
  \<open>routes/zap.rs\<close>. Query and body parameters are records of their decoded fields; \<open>phones\<close> is the
  \<open>phonenumber\<close> crate.
\<close>

section \<open>Data\<close>

record callback_params =
  cp_amount :: "u64 option"
  cp_comment :: "string option"
  cp_nostr :: "string option"
  cp_expiry :: "u32 option"

record pay_response =
  pr_callback :: string
  pr_max_sendable :: u64
  pr_min_sendable :: u64
  pr_tag :: string
  pr_metadata :: string
  pr_comment_allowed :: "u32 option"
  pr_allows_nostr :: "bool option"
  pr_nostr_pubkey :: "string option"

record public_recipient =
  pu_recipient :: resolved_recipient
  pu_wallet :: "wallet_kind option"
  pu_callback_identifier :: string

record available_request =
  aq_username :: string
  aq_signature :: string
  aq_timestamp :: u64

record invoice_paid_request =
  iq_signature :: string
  iq_timestamp :: u64
  iq_preimage :: string

record invoices_paid_request =
  iqs_signature :: string
  iqs_timestamp :: u64
  iqs_invoices :: "paid_invoice list"

abbreviation STATUS_OK :: nat where "STATUS_OK \<equiv> 200"

definition lnurl_error :: "string \<Rightarrow> api_error" where
  "lnurl_error message = (STATUS_OK, JObject [(''status'', JString ''ERROR''), (''reason'', JString message)])"

definition not_found :: api_error where
  "not_found = (NOT_FOUND, JString [])"

section \<open>Helpers\<close>

definition public_recipient_wallet :: "public_recipient \<Rightarrow> wallet_kind option" where
  "public_recipient_wallet p = opt_or (pu_wallet p) (rr_default_wallet (pu_recipient p))"

definition is_blink_usd_recipient :: "public_recipient \<Rightarrow> bool" where
  "is_blink_usd_recipient p \<longleftrightarrow> rr_provider (pu_recipient p) = Blink \<and> public_recipient_wallet p = Some Usd"

definition BLINK_USD_MIN_SENDABLE_FALLBACK_MSAT :: u64 where
  "BLINK_USD_MIN_SENDABLE_FALLBACK_MSAT = 50000"

definition unwrap_or :: "'a \<Rightarrow> ('f, 'a) action \<Rightarrow> ('e, 'a) action" where
  "unwrap_or x m w = (case m w of (Inl _, w') \<Rightarrow> (Inr x, w') | (Inr y, w') \<Rightarrow> (Inr y, w'))"

definition resolve_min_sendable_msat :: "('k, 's) env \<Rightarrow> public_recipient \<Rightarrow> ('e, u64) action" where
  "resolve_min_sendable_msat env p =
     (if is_blink_usd_recipient p
      then bind_act (unwrap_or BLINK_USD_MIN_SENDABLE_FALLBACK_MSAT (usd_min_sendable_msat env)) (\<lambda>usd_min.
        ret (max usd_min (pc_min_sendable (ev_config env))))
      else ret (pc_min_sendable (ev_config env)))"

definition build_callback_url :: "pay_config \<Rightarrow> string \<Rightarrow> string \<Rightarrow> string" where
  "build_callback_url cfg recipient_domain callback_identifier =
     (case pc_callback_domain cfg of
        Some callback_domain \<Rightarrow>
          pc_scheme cfg @ ''://'' @ callback_domain @ ''/lnurlp/'' @ recipient_domain @ ''/'' @ callback_identifier @ ''/invoice''
      | None \<Rightarrow> pc_scheme cfg @ ''://'' @ recipient_domain @ ''/lnurlp/'' @ callback_identifier @ ''/invoice'')"

definition build_verify_url :: "pay_config \<Rightarrow> string \<Rightarrow> string \<Rightarrow> string" where
  "build_verify_url cfg recipient_domain payment_hash =
     pc_scheme cfg @ ''://'' @ (case pc_callback_domain cfg of Some c \<Rightarrow> c | None \<Rightarrow> recipient_domain) @
     ''/verify/'' @ payment_hash"

definition get_metadata_for_recipient :: "('k, 's) env \<Rightarrow> resolved_recipient \<Rightarrow> string \<Rightarrow> string" where
  "get_metadata_for_recipient env recipient requested_identifier =
     pl_json_to_string (ev_lib env) (JArray [
       JArray [JString ''text/plain'', JString (rr_description recipient)],
       JArray [JString ''text/identifier'', JString (requested_identifier @ ''@'' @ rr_domain recipient)]])"

definition BLINK_BTC_EXPIRY_LIMIT_SECS :: u32 where "BLINK_BTC_EXPIRY_LIMIT_SECS = 86400"
definition BLINK_USD_EXPIRY_LIMIT_SECS :: u32 where "BLINK_USD_EXPIRY_LIMIT_SECS = 300"

text \<open>\<open>u32::div_ceil\<close>.\<close>

definition u32_div_ceil :: "u32 \<Rightarrow> u32 \<Rightarrow> u32" where
  "u32_div_ceil a b = (if a mod b = 0 then a div b else a div b + 1)"

definition callback_expiry_for_provider ::
  "account_provider \<Rightarrow> wallet_kind option \<Rightarrow> wallet_kind option \<Rightarrow> u32 option \<Rightarrow> api_error + u32 option" where
  "callback_expiry_for_provider provider requested_wallet default_wallet expiry_secs =
     (if provider \<noteq> Blink then Inr expiry_secs
      else case expiry_secs of
        None \<Rightarrow> Inr None
      | Some seconds \<Rightarrow>
          bind_res (ok_or (lnurl_error ''internal server error'') (opt_or requested_wallet default_wallet)) (\<lambda>wallet.
          if (case wallet of Btc \<Rightarrow> BLINK_BTC_EXPIRY_LIMIT_SECS | Usd \<Rightarrow> BLINK_USD_EXPIRY_LIMIT_SECS) < seconds
          then Inl (lnurl_error ''expiry too long'')
          else Inr (Some (u32_div_ceil seconds 60))))"

fun map_provider_invoice_error :: "provider_error \<Rightarrow> api_error" where
  "map_provider_invoice_error (UnsupportedWallet _ _) = lnurl_error ''unsupported wallet''"
| "map_provider_invoice_error InvoiceCreationFailed = lnurl_error ''invoice creation failed''"
| "map_provider_invoice_error (BlinkInvoiceCreationFailed _) = lnurl_error ''invoice creation failed''"
| "map_provider_invoice_error _ = lnurl_error ''internal server error''"

definition resolve_public_recipient ::
  "('k, 's) env \<Rightarrow> string \<Rightarrow> public_identifier_intent \<Rightarrow> (api_error, public_recipient option) action" where
  "resolve_public_recipient env domain intent =
     bind_act (map_err_act (\<lambda>_. lnurl_error ''internal server error'')
       (db_read env (resolve_recipient_by_identifier domain (int_canonical intent)))) (\<lambda>recipient.
     ret (map_option (\<lambda>r. \<lparr>pu_recipient = r, pu_wallet = int_wallet intent,
       pu_callback_identifier = int_callback_identifier intent\<rparr>) recipient))"

definition public_identifier_of :: "'p phone_lib \<Rightarrow> string \<Rightarrow> api_error + public_identifier_intent" where
  "public_identifier_of phones identifier =
     bind_res (map_err (\<lambda>_. lnurl_error ''invalid identifier'')
       (parse_public_identifier_for_public_route phones identifier)) (\<lambda>intent.
     ok_or not_found intent)"

text \<open>The key zaps are signed with, when nostr is configured.\<close>

definition nostr_pubkey_of :: "pay_config \<Rightarrow> api_error + string option" where
  "nostr_pubkey_of cfg =
     (case pc_nostr_keys cfg of
        None \<Rightarrow> Inr None
      | Some keys \<Rightarrow> map_sum id Some (ok_or (lnurl_error ''internal server error'') (nk_xonly keys)))"

section \<open>Zap requests\<close>

definition letter_count :: "char \<Rightarrow> nostr_event \<Rightarrow> nat" where
  "letter_count c event = length (filter (\<lambda>t. nt_letter t = Some (c, True)) (ne_tags event))"

fun amount_of_tag :: "nostr_tag \<Rightarrow> u64 option" where
  "amount_of_tag t = (case nt_standard t of Some (Amount m) \<Rightarrow> Some m | _ \<Rightarrow> None)"

definition has_relays :: "nostr_tag \<Rightarrow> bool" where
  "has_relays t = (case nt_standard t of Some (Relays _) \<Rightarrow> True | _ \<Rightarrow> False)"

definition find_map :: "('a \<Rightarrow> 'b option) \<Rightarrow> 'a list \<Rightarrow> 'b option" where
  "find_map f xs = (case List.map_filter f xs of [] \<Rightarrow> None | y # _ \<Rightarrow> Some y)"

definition validate_nostr_zap_request :: "u64 \<Rightarrow> nostr_event \<Rightarrow> api_error + unit" where
  "validate_nostr_zap_request amount_msat event =
     (if ne_kind event \<noteq> ZapRequest_Kind then Inl (lnurl_error ''invalid nostr event'')
      else if \<not> ne_verifies event then Inl (lnurl_error ''invalid nostr event'')
      else if ne_tags event = [] then Inl (lnurl_error ''invalid nostr event'')
      else if letter_count (CHR ''p'') event \<noteq> 1 then Inl (lnurl_error ''invalid nostr event'')
      else if letter_count (CHR ''e'') event > 1 then Inl (lnurl_error ''invalid nostr event'')
      else if \<not> list_ex has_relays (ne_tags event) then Inl (lnurl_error ''invalid nostr event'')
      else case find_map amount_of_tag (ne_tags event) of
        Some millisats \<Rightarrow> if millisats \<noteq> amount_msat then Inl (lnurl_error ''invalid nostr event'') else Inr ()
      | None \<Rightarrow> Inr ())"

definition MAX_NOSTR_EVENT_SIZE :: nat where "MAX_NOSTR_EVENT_SIZE = 32768"
definition MAX_COMMENT_LENGTH :: nat where "MAX_COMMENT_LENGTH = 255"

section \<open>Discovery\<close>

definition handle_lnurl_pay ::
  "('k, 's) env \<Rightarrow> 'p phone_lib \<Rightarrow> string \<Rightarrow> string \<Rightarrow> (api_error, pay_response) action" where
  "handle_lnurl_pay env phones host identifier =
     (if identifier = [] then fail not_found
      else
      bind_act (lift (sanitize_domain env host)) (\<lambda>domain.
      bind_act (lift (public_identifier_of phones identifier)) (\<lambda>intent.
      bind_act (resolve_public_recipient env domain intent) (\<lambda>found.
      bind_act (lift (ok_or (lnurl_error (''Couldn'' @ [CHR 0x27] @ ''t find user '' @ [CHR 0x27] @ identifier @ [CHR 0x27] @ ''.'')) found)) (\<lambda>p.
      bind_act (resolve_min_sendable_msat env p) (\<lambda>min_sendable.
      if pc_max_sendable (ev_config env) < min_sendable then fail (lnurl_error ''internal server error'')
      else
      bind_act (lift (nostr_pubkey_of (ev_config env))) (\<lambda>nostr_pubkey.
      ret \<lparr>pr_callback = build_callback_url (ev_config env) domain (pu_callback_identifier p),
        pr_max_sendable = pc_max_sendable (ev_config env), pr_min_sendable = min_sendable,
        pr_tag = ''payRequest'',
        pr_metadata = get_metadata_for_recipient env (pu_recipient p) (pu_callback_identifier p),
        pr_comment_allowed = Some (of_nat MAX_COMMENT_LENGTH),
        pr_allows_nostr = map_option (\<lambda>_. True) nostr_pubkey, pr_nostr_pubkey = nostr_pubkey\<rparr>)))))))"

section \<open>Invoice callback\<close>

text \<open>What the invoice must commit to: the zap request if there is one, else the metadata.\<close>

definition description_bytes ::
  "('k, 's) env \<Rightarrow> public_recipient \<Rightarrow> u64 \<Rightarrow> string option \<Rightarrow> string option \<Rightarrow> api_error + bytes" where
  "description_bytes env p amount_msat nostr nostr_pubkey =
     (case nostr of
        Some raw_event \<Rightarrow>
          if nostr_pubkey = None then Inl (lnurl_error ''nostr zap not supported'')
          else if MAX_NOSTR_EVENT_SIZE < utf8_len raw_event then Inl (lnurl_error ''nostr event too large'')
          else bind_res (ok_or (lnurl_error ''invalid nostr event'') (pl_event_from_json (ev_lib env) raw_event)) (\<lambda>event.
               bind_res (validate_nostr_zap_request amount_msat event) (\<lambda>_. Inr (as_bytes raw_event)))
      | None \<Rightarrow> Inr (as_bytes (get_metadata_for_recipient env (pu_recipient p) (pu_callback_identifier p))))"

text \<open>The checks on the query, in order; the result is the amount.\<close>

definition checked_amount :: "pay_config \<Rightarrow> callback_params \<Rightarrow> api_error + u64" where
  "checked_amount cfg params =
     bind_res (ok_or (lnurl_error ''missing amount'') (cp_amount params)) (\<lambda>amount_msat.
     if amount_msat mod 1000 \<noteq> 0 then Inl (lnurl_error ''amount must be a whole sat amount'')
     else if amount_msat < pc_min_sendable cfg then Inl (lnurl_error ''amount out of range'')
     else if pc_max_sendable cfg < amount_msat then Inl (lnurl_error ''amount out of range'')
     else case cp_comment params of
       Some comment \<Rightarrow> if MAX_COMMENT_LENGTH < utf8_len (trim comment) then Inl (lnurl_error ''comment too long'')
         else Inr amount_msat
     | None \<Rightarrow> Inr amount_msat)"

text \<open>The checks on what the provider returned; the result is the payment hash and the expiry in seconds.\<close>

definition checked_invoice :: "('k, 's) env \<Rightarrow> string \<Rightarrow> bytes \<Rightarrow> u64 \<Rightarrow> api_error + string \<times> int" where
  "checked_invoice env bolt11 desc_hash amount_msat =
     bind_res (ok_or (lnurl_error ''internal server error'') (pl_bolt11_from_str (ev_lib env) bolt11)) (\<lambda>invoice.
     if b11_description_hash invoice \<noteq> Some (hex_encode (ev_crypto env) desc_hash)
     then Inl (lnurl_error ''internal server error'')
     else if b11_amount_milli_satoshis invoice \<noteq> Some amount_msat
     then Inl (lnurl_error ''internal server error'')
     else bind_res (ok_or (lnurl_error ''internal server error'') (b11_expires_at invoice)) (\<lambda>t.
          if i64_max < int t div 1000000000 then Inl (lnurl_error ''internal server error'')
          else Inr (b11_payment_hash invoice, int t div 1000000000)))"

definition save_zap ::
  "('k, 's) env \<Rightarrow> string option \<Rightarrow> string \<Rightarrow> string \<Rightarrow> string \<Rightarrow> int \<Rightarrow> int \<Rightarrow> (api_error, unit) action" where
  "save_zap env nostr account_id payment_hash user_pubkey invoice_expiry updated_at =
     (case nostr of
        None \<Rightarrow> ret ()
      | Some zap_request \<Rightarrow>
          map_err_act (\<lambda>_. lnurl_error ''internal server error'') (db_update env (upsert_zap
            \<lparr>z_account_id = Some account_id, z_payment_hash = payment_hash, z_zap_request = zap_request,
             z_zap_event = None, z_user_pubkey = user_pubkey, z_invoice_expiry = invoice_expiry,
             z_updated_at = updated_at, z_is_user_nostr_key = False\<rparr>)))"

definition save_comment ::
  "('k, 's) env \<Rightarrow> string option \<Rightarrow> string \<Rightarrow> string \<Rightarrow> string \<Rightarrow> int \<Rightarrow> (api_error, unit) action" where
  "save_comment env comment account_id payment_hash user_pubkey updated_at =
     (case comment of
        None \<Rightarrow> ret ()
      | Some comment \<Rightarrow>
          if trim comment = [] then ret ()
          else map_err_act (\<lambda>_. lnurl_error ''internal server error'') (db_update env (insert_lnurl_sender_comment
            \<lparr>sc_account_id = Some account_id, sc_comment = trim comment, sc_payment_hash = payment_hash,
             sc_user_pubkey = user_pubkey, sc_updated_at = updated_at\<rparr>)))"

definition receiving_allowed :: "('k, 's) env \<Rightarrow> string option \<Rightarrow> (api_error, unit) action" where
  "receiving_allowed env spark_pubkey =
     (case spark_pubkey of
        None \<Rightarrow> ret ()
      | Some k \<Rightarrow>
          bind_act (map_err_act (\<lambda>_. lnurl_error ''internal server error'') (stored_account_mode env k)) (\<lambda>mode.
          if mode = Some Anon then fail (lnurl_error ''recipient not accepting payments'') else ret ()))"

definition handle_invoice_for_resolved_domain ::
  "('k, 's) env \<Rightarrow> 'p phone_lib \<Rightarrow> string \<Rightarrow> string \<Rightarrow> callback_params \<Rightarrow> (api_error, json) action" where
  "handle_invoice_for_resolved_domain env phones domain identifier params =
     (if identifier = [] then fail not_found
      else
      bind_act (lift (public_identifier_of phones identifier)) (\<lambda>intent.
      bind_act (resolve_public_recipient env domain intent) (\<lambda>found.
      bind_act (lift (ok_or not_found found)) (\<lambda>p.
      bind_act (receiving_allowed env (rr_spark_pubkey (pu_recipient p))) (\<lambda>_.
      let account_id = rr_account_id (pu_recipient p);
          user_pubkey = (case rr_spark_pubkey (pu_recipient p) of Some k \<Rightarrow> k | None \<Rightarrow> []) in
      bind_act (lift (checked_amount (ev_config env) params)) (\<lambda>amount_msat.
      bind_act (lift (nostr_pubkey_of (ev_config env))) (\<lambda>nostr_pubkey.
      bind_act (lift (description_bytes env p amount_msat (cp_nostr params) nostr_pubkey)) (\<lambda>description.
      let desc_hash = sha256_hash (ev_crypto env) description in
      bind_act (lift (callback_expiry_for_provider (rr_provider (pu_recipient p)) (pu_wallet p)
        (rr_default_wallet (pu_recipient p)) (cp_expiry params))) (\<lambda>expiry.
      bind_act (resolve_min_sendable_msat env p) (\<lambda>min_sendable.
      if amount_msat < min_sendable then fail (lnurl_error ''amount out of range'')
      else
      bind_act (map_err_act map_provider_invoice_error (provider_create_invoice env
        \<lparr>cq_recipient = pu_recipient p, cq_wallet = pu_wallet p, cq_amount_sat = amount_msat div 1000,
         cq_description_hash = desc_hash, cq_expiry = expiry,
         cq_include_spark_address = pc_include_spark_address (ev_config env)\<rparr>)) (\<lambda>res.
      bind_act (lift (checked_invoice env (pv_bolt11 res) desc_hash amount_msat)) (\<lambda>(payment_hash, invoice_expiry).
      bind_act (read_millis env) (\<lambda>updated_at.
      bind_act (save_zap env (cp_nostr params) account_id payment_hash user_pubkey invoice_expiry updated_at) (\<lambda>_.
      bind_act (save_comment env (cp_comment params) account_id payment_hash user_pubkey updated_at) (\<lambda>_.
      bind_act (map_err_act (\<lambda>_. lnurl_error ''internal server error'')
        (create_provider_invoice_for_account env payment_hash (Some account_id) (Some (rr_provider (pu_recipient p)))
          (Some (pv_wallet_kind res)) (pv_wallet_id res) (pv_provider_payment_hash res) user_pubkey (pv_bolt11 res)
          invoice_expiry domain)) (\<lambda>_.
      ret (JObject [(''pr'', JString (pv_bolt11 res)), (''routes'', JArray []),
        (''verify'', JString (build_verify_url (ev_config env) domain payment_hash))])))))))))))))))))"

definition handle_invoice ::
  "('k, 's) env \<Rightarrow> 'p phone_lib \<Rightarrow> string \<Rightarrow> string \<Rightarrow> callback_params \<Rightarrow> (api_error, json) action" where
  "handle_invoice env phones host identifier params =
     (if identifier = [] then fail not_found
      else bind_act (lift (sanitize_domain env host)) (\<lambda>domain.
        handle_invoice_for_resolved_domain env phones domain identifier params))"

definition handle_invoice_for_domain ::
  "('k, 's) env \<Rightarrow> 'p phone_lib \<Rightarrow> string \<Rightarrow> string \<Rightarrow> string \<Rightarrow> callback_params \<Rightarrow> (api_error, json) action" where
  "handle_invoice_for_domain env phones host domain identifier params =
     (if identifier = [] then fail not_found
      else
      bind_act (lift (ok_or not_found (pc_callback_domain (ev_config env)))) (\<lambda>callback_domain.
      if \<not> eq_ignore_ascii_case (trim host) callback_domain then fail not_found
      else bind_act (lift (sanitize_domain env domain)) (\<lambda>domain.
        handle_invoice_for_resolved_domain env phones domain identifier params)))"

section \<open>Verify\<close>

definition verify_failure :: "string \<Rightarrow> json" where
  "verify_failure reason = JObject [(''status'', JString ''ERROR''), (''reason'', JString reason)]"

text \<open>The handler always answers 200; what an inner step fails with is the answer itself.\<close>

definition answer :: "('a, 'a) action \<Rightarrow> ('e, 'a) action" where
  "answer m w = (case m w of (Inl x, w') \<Rightarrow> (Inr x, w') | (Inr x, w') \<Rightarrow> (Inr x, w'))"

definition verify :: "('k, 's) env \<Rightarrow> string \<Rightarrow> ('e, json) action" where
  "verify env payment_hash =
     answer (
       bind_act (map_err_act (\<lambda>_. verify_failure ''Internal server error'')
         (db_read env (\<lambda>d. Inr (get_invoice_by_payment_hash payment_hash d)))) (\<lambda>found.
       bind_act (lift (ok_or (verify_failure ''Not found'') found)) (\<lambda>invoice.
       bind_act
         (if inv_preimage invoice = None \<and> inv_expired_at invoice = None \<and> inv_provider invoice = Some Blink
          then bind_act (map_err_act (\<lambda>_. verify_failure ''Internal server error'')
                 (settle_blink_invoice_by_payment_hash env payment_hash None)) (\<lambda>settled.
               ret (case settled of Some p \<Rightarrow> Some p | None \<Rightarrow> inv_preimage invoice))
          else ret (inv_preimage invoice)) (\<lambda>preimage.
       ret (JObject [(''status'', JString ''OK''), (''settled'', JBool (preimage \<noteq> None)),
         (''preimage'', json_opt JString preimage), (''pr'', JString (inv_invoice invoice))])))))"

section \<open>Signed notifications and availability\<close>

definition validate ::
  "('k, 's) env \<Rightarrow> string \<Rightarrow> string \<Rightarrow> string \<Rightarrow> u64 \<Rightarrow> signed_route \<Rightarrow> (api_error, 'k) action" where
  "validate env pubkey signature message timestamp route =
     bind_act (lift (parse_signed_request (ev_crypto env) pubkey signature)) (\<lambda>(pk, sg).
     bind_act (check_timestamp env timestamp) (\<lambda>_.
     bind_act (verify_candidates env pk sg [legacy (legacy_timestamped message timestamp) route] None) (\<lambda>_.
     ret pk)))"

definition invoice_paid :: "('k, 's) env \<Rightarrow> string \<Rightarrow> invoice_paid_request \<Rightarrow> (api_error, unit) action" where
  "invoice_paid env pubkey payload =
     bind_act (validate env pubkey (iq_signature payload) (iq_preimage payload) (iq_timestamp payload) InvoicePaid_Route) (\<lambda>pk.
     bind_act (lift (ok_or (BAD_REQUEST, JString ''invalid preimage'') (hex_decode (ev_crypto env) (iq_preimage payload)))) (\<lambda>preimage_bytes.
     let payment_hash = hex_encode (ev_crypto env) (sha256_hash (ev_crypto env) preimage_bytes) in
     bind_act (map_err_act (\<lambda>_. internal_server_error)
       (db_read env (\<lambda>d. Inr (get_invoice_by_payment_hash payment_hash d)))) (\<lambda>found.
     bind_act (lift (ok_or (NOT_FOUND, JString ''invoice not found'') found)) (\<lambda>invoice.
     if inv_user_pubkey invoice \<noteq> public_key_to_string (ev_crypto env) pk
     then fail (NOT_FOUND, JString ''invoice not found'')
     else map_err_act (\<lambda>_. internal_server_error)
       (handle_invoice_paid env payment_hash (iq_preimage payload) None)))))"

fun invoices_paid_error :: "invoice_paid_error \<Rightarrow> api_error" where
  "invoices_paid_error (InvalidInvoice msg) = (BAD_REQUEST, JString msg)"
| "invoices_paid_error (InvalidPreimage msg) = (BAD_REQUEST, JString msg)"
| "invoices_paid_error (Repository _) = internal_server_error"

definition invoices_paid :: "('k, 's) env \<Rightarrow> string \<Rightarrow> invoices_paid_request \<Rightarrow> (api_error, unit) action" where
  "invoices_paid env pubkey payload =
     (if iqs_invoices payload = [] then fail (BAD_REQUEST, JString ''invoices must not be empty'')
      else if 100 < length (iqs_invoices payload) then fail (BAD_REQUEST, JString ''too many invoices, max is 100'')
      else
      bind_act (validate env pubkey (iqs_signature payload) pubkey (iqs_timestamp payload) InvoicesPaid_Route) (\<lambda>pk.
      map_err_act invoices_paid_error
        (handle_invoices_paid env (iqs_invoices payload) (public_key_to_string (ev_crypto env) pk))))"

definition username_available :: "('k, 's) env \<Rightarrow> string \<Rightarrow> string \<Rightarrow> (api_error, bool) action" where
  "username_available env domain username =
     bind_act (map_err_act (\<lambda>_. internal_server_error)
       (db_read env (resolve_recipient_by_identifier domain username))) (\<lambda>recipient.
     ret (recipient = None))"

definition available :: "('k, 's) env \<Rightarrow> string \<Rightarrow> string \<Rightarrow> (api_error, bool) action" where
  "available env host identifier =
     bind_act (lift (canonical_spark_username_for_route identifier)) (\<lambda>username.
     bind_act (lift (sanitize_domain env host)) (\<lambda>domain.
     username_available env domain username))"

definition available_for_pubkey ::
  "('k, 's) env \<Rightarrow> string \<Rightarrow> string \<Rightarrow> available_request \<Rightarrow> (api_error, bool) action" where
  "available_for_pubkey env host pubkey payload =
     bind_act (lift (canonical_spark_username_for_route (aq_username payload))) (\<lambda>username.
     bind_act (lift (sanitize_domain env host)) (\<lambda>domain.
     bind_act (lift (parse_signed_request (ev_crypto env) pubkey (aq_signature payload))) (\<lambda>(identity, signature).
     bind_act (check_timestamp env (aq_timestamp payload)) (\<lambda>_.
     bind_act (verify_candidates env identity signature
       [breez_v2 (bz_available (ev_breez env) domain (public_key_to_string (ev_crypto env) identity) username
          (aq_timestamp payload)) Available_Route] (Some domain)) (\<lambda>_.
     username_available env domain username)))))"

section \<open>What they write\<close>

lemma writes_unwrap_or [writes_rules]: "writes env G m \<Longrightarrow> writes env G (unwrap_or x m)"
  by (auto simp: writes_def unwrap_or_def split_beta split: sum.splits)

lemma writes_answer [writes_rules]: "writes env G m \<Longrightarrow> writes env G (answer m)"
  by (auto simp: writes_def answer_def split_beta split: sum.splits)

lemma writes_resolve_min [writes_rules]: "writes env G (resolve_min_sendable_msat env p)"
  unfolding resolve_min_sendable_msat_def by (intro writes_rules)

lemma writes_resolve_public [writes_rules]: "writes env G (resolve_public_recipient env dn i)"
  unfolding resolve_public_recipient_def by (intro writes_rules)

lemma writes_receiving_allowed [writes_rules]: "writes env G (receiving_allowed env k)"
  unfolding receiving_allowed_def stored_account_mode_def by (intro writes_rules)

lemma writes_validate [writes_rules]: "writes env G (validate env k sg m t r)"
  unfolding validate_def by (intro writes_rules)

lemma upsert_zap_frame: "upsert_zap z d = Inr d' \<Longrightarrow> invoices d' = invoices d \<and> account_tables d' = account_tables d"
  by (auto simp: upsert_zap_def split: if_splits)

lemma insert_comment_frame:
  "insert_lnurl_sender_comment c d = Inr d' \<Longrightarrow> invoices d' = invoices d \<and> account_tables d' = account_tables d"
  by (auto simp: insert_lnurl_sender_comment_def split: if_splits)

lemma writes_upsert_zap [writes_rules]: "writes env (payment_step lib) (db_update env (upsert_zap z))"
  by (rule writes_update) (auto intro: payment_step_frame dest: upsert_zap_frame)

lemma writes_save [writes_rules]:
  "writes env (payment_step lib) (save_zap env n a h u e t)"
  "writes env (payment_step lib) (save_comment env c a h u t)"
  unfolding save_zap_def save_comment_def
  by (intro writes_rules writes_update payment_step_refl payment_step_frame; (drule insert_comment_frame, simp)?)+

lemma pay_writes [writes_rules]:
  "writes env (payment_step (ev_crypto env)) (handle_invoice env phones host i params)"
  "writes env (payment_step (ev_crypto env)) (handle_invoice_for_domain env phones host dn i params)"
  "writes env (payment_step (ev_crypto env)) (verify env h)"
  "writes env (payment_step (ev_crypto env)) (invoice_paid env k q)"
  "writes env (payment_step (ev_crypto env)) (invoices_paid env k qs)"
  unfolding handle_invoice_def handle_invoice_for_domain_def handle_invoice_for_resolved_domain_def
    verify_def invoice_paid_def invoices_paid_def
  by (intro writes_rules)+

end
