(* ===== verification/Lnurl_Backoff.thy ===== *)
theory Lnurl_Backoff
  imports Lnurl_Prelude
begin

text \<open>
  The exponential backoff of the two background processors (\<open>webhooks/background.rs\<close> and \<open>zap.rs\<close>),
  which is computed in \<open>f64\<close>: \<open>(30_000 as f64 * 1.5.powi(retry_count)) as i64\<close>. A positive double is
  a pair of a mantissa and a binary exponent. Products are rounded to 53 bits, ties to even;
  \<open>powi\<close> is the repeated squaring of the compiler runtime. The exponent is unbounded: where a
  double would overflow to infinity the cast gives \<open>i64::MAX\<close>, as it does for the unbounded value.
  The retry count is a \<^typ>\<open>nat\<close>: rows start at zero and the callers add one.
\<close>

section \<open>Doubles\<close>

function bit_len :: "int \<Rightarrow> nat" where
  "bit_len n = (if n \<le> 0 then 0 else Suc (bit_len (n div 2)))"
  by pat_completeness auto

termination by (relation "measure nat") auto

declare bit_len.simps [simp del]

type_synonym f64 = "int \<times> int"

definition f64_round :: "f64 \<Rightarrow> f64" where
  "f64_round x =
     (let (m, e) = x in
      if m < 2 ^ 53 then (m, e)
      else let s = bit_len m - 53; q = m div 2 ^ s; r = m mod 2 ^ s; h = 2 ^ (s - 1) in
        (if h < r \<or> (r = h \<and> odd q) then q + 1 else q, e + int s))"

definition f64_mul :: "f64 \<Rightarrow> f64 \<Rightarrow> f64" where
  "f64_mul x y = f64_round (fst x * fst y, snd x + snd y)"

text \<open>
  \<open>powi_loop a r b\<close> is the loop \<open>while true { if b & 1 { r *= a } b /= 2; if b == 0 { break } a *= a }\<close>.
\<close>

function powi_loop :: "f64 \<Rightarrow> f64 \<Rightarrow> nat \<Rightarrow> f64" where
  "powi_loop a r b =
     (let r' = (if odd b then f64_mul r a else r) in
      if b div 2 = 0 then r' else powi_loop (f64_mul a a) r' (b div 2))"
  by pat_completeness auto

termination by (relation "measure (\<lambda>(a, r, b). b)") auto

declare powi_loop.simps [simp del]

definition f64_powi :: "f64 \<Rightarrow> nat \<Rightarrow> f64" where
  "f64_powi a n = powi_loop a (1, 0) n"

text \<open>\<open>as i64\<close>: truncation, saturating.\<close>

definition f64_as_i64 :: "f64 \<Rightarrow> int" where
  "f64_as_i64 x =
     min (if 0 \<le> snd x then fst x * 2 ^ nat (snd x) else fst x div 2 ^ nat (- snd x)) i64_max"

section \<open>Delays\<close>

definition RETRY_MULTIPLIER :: f64 where "RETRY_MULTIPLIER = (3, - 1)"
definition BASE_RETRY_DELAY_MS :: int where "BASE_RETRY_DELAY_MS = 30000"

definition next_retry_delay :: "nat \<Rightarrow> int" where
  "next_retry_delay retry_count =
     f64_as_i64 (f64_mul (BASE_RETRY_DELAY_MS, 0) (f64_powi RETRY_MULTIPLIER retry_count))"

definition zap_next_retry_delay :: "nat \<Rightarrow> int" where
  "zap_next_retry_delay retry_count =
     f64_as_i64 (f64_mul (30000, 0) (f64_powi (3, - 1) retry_count))"

lemma zap_next_retry_delay_eq: "zap_next_retry_delay = next_retry_delay"
  by (rule ext) (simp add: zap_next_retry_delay_def next_retry_delay_def BASE_RETRY_DELAY_MS_def RETRY_MULTIPLIER_def)

section \<open>Binary magnitude\<close>

lemma bit_len_bounds: "0 < n \<Longrightarrow> 2 ^ (bit_len n - 1) \<le> n \<and> n < 2 ^ bit_len n \<and> 0 < bit_len n"
proof (induction n rule: bit_len.induct)
  case (1 n)
  show ?case
  proof (cases "n div 2 = 0")
    case True
    with 1(2) have "n = 1" by linarith
    then show ?thesis by (simp add: bit_len.simps)
  next
    case False
    with 1 have IH: "2 ^ (bit_len (n div 2) - 1) \<le> n div 2" "n div 2 < 2 ^ bit_len (n div 2)" "0 < bit_len (n div 2)"
      by auto
    have b: "bit_len n = Suc (bit_len (n div 2))" using 1(2) by (subst bit_len.simps) simp
    have "2 ^ bit_len (n div 2) = 2 * (2::int) ^ (bit_len (n div 2) - 1)" using IH(3) by (simp add: power_eq_if)
    moreover have "2 * (n div 2) \<le> n" "n < 2 * (n div 2) + 2" by linarith+
    ultimately show ?thesis using IH b by simp
  qed
qed

lemma bit_len_ge: "2 ^ k \<le> n \<Longrightarrow> k < bit_len n"
proof -
  assume k: "2 ^ k \<le> n"
  then have "0 < n" by (smt (verit) zero_less_power)
  with k have "(2::int) ^ k < 2 ^ bit_len n" using bit_len_bounds le_less_trans by blast
  then show ?thesis by simp
qed

lemma bit_len_shift: "2 ^ k \<le> n \<Longrightarrow> bit_len n = k + bit_len (n div 2 ^ k)"
proof (induction k arbitrary: n)
  case (Suc k)
  have n: "0 < n" using Suc.prems by (smt (verit) zero_less_power)
  have "2 * 2 ^ k div 2 \<le> n div 2" using Suc.prems by (intro zdiv_mono1) simp_all
  then have "bit_len (n div 2) = k + bit_len (n div 2 div 2 ^ k)" by (intro Suc.IH) simp
  moreover have "n div 2 div 2 ^ k = n div 2 ^ Suc k" by (simp add: zdiv_zmult2_eq)
  ultimately show ?case using n by (subst bit_len.simps) simp
qed simp

lemma bit_len_code [code]:
  "bit_len n = (if 65536 \<le> n then 16 + bit_len (n div 65536) else if n \<le> 0 then 0 else Suc (bit_len (n div 2)))"
  using bit_len_shift [of 16 n] by (auto simp: bit_len.simps [of n])

text \<open>The exponent of the leading bit.\<close>

definition magnitude :: "f64 \<Rightarrow> int" where
  "magnitude x = int (bit_len (fst x)) - 1 + snd x"

lemma magnitude_round:
  assumes "0 < fst x"
  shows "0 < fst (f64_round x) \<and> magnitude x \<le> magnitude (f64_round x)"
proof (cases "fst x < 2 ^ 53")
  case True
  with assms show ?thesis by (cases x) (simp add: f64_round_def)
next
  case False
  let ?m = "fst x" let ?s = "bit_len ?m - 53" let ?q = "?m div 2 ^ ?s"
  have n: "53 < bit_len ?m" using False by (intro bit_len_ge) simp
  have "52 + ?s = bit_len ?m - 1" using n by simp
  then have "(2::int) ^ 52 * 2 ^ ?s = 2 ^ (bit_len ?m - 1)" by (metis power_add)
  also have "\<dots> \<le> ?m" using bit_len_bounds assms by blast
  finally have "2 ^ 52 * 2 ^ ?s div 2 ^ ?s \<le> ?m div 2 ^ ?s" by (intro zdiv_mono1) simp_all
  then have "2 ^ 52 \<le> ?q" by simp
  moreover obtain u where "f64_round x = (u, snd x + int ?s)" "?q \<le> u"
    using False by (cases x) (simp add: f64_round_def Let_def)
  ultimately have "2 ^ 52 \<le> fst (f64_round x)" "snd (f64_round x) = snd x + int ?s" by simp_all
  moreover from this(1) have "52 < bit_len (fst (f64_round x))" by (rule bit_len_ge)
  ultimately show ?thesis using n by (auto simp: magnitude_def)
qed

lemma magnitude_mul:
  assumes "0 < fst x" "0 < fst y"
  shows "0 < fst (f64_mul x y) \<and> magnitude x + magnitude y \<le> magnitude (f64_mul x y)"
proof -
  have "(2::int) ^ (bit_len (fst x) - 1 + (bit_len (fst y) - 1)) \<le> fst x * fst y"
    unfolding power_add by (rule mult_mono) (use bit_len_bounds assms in \<open>auto simp: less_imp_le\<close>)
  from bit_len_ge [OF this] have "magnitude x + magnitude y \<le> magnitude (fst x * fst y, snd x + snd y)"
    using bit_len_bounds [OF assms(1)] bit_len_bounds [OF assms(2)] by (auto simp: magnitude_def)
  with magnitude_round [of "(fst x * fst y, snd x + snd y)"] assms show ?thesis by (auto simp: f64_mul_def)
qed

lemma magnitude_powi_loop:
  "0 < fst a \<Longrightarrow> 0 < fst r \<Longrightarrow> 0 \<le> magnitude a \<Longrightarrow>
   0 < fst (powi_loop a r b) \<and> magnitude r + int b * magnitude a \<le> magnitude (powi_loop a r b)"
proof (induction a r b rule: powi_loop.induct)
  case (1 a r b)
  define r' where "r' = (if odd b then f64_mul r a else r)"
  have r': "0 < fst r'" "magnitude r + int (b mod 2) * magnitude a \<le> magnitude r'"
    using magnitude_mul [of r a] 1(2,3) by (auto simp: r'_def odd_iff_mod_2_eq_one)
  have bm: "int b * magnitude a = int (b mod 2) * magnitude a + int (b div 2) * (2 * magnitude a)"
  proof -
    have "int b = int (b mod 2) + 2 * int (b div 2)" by presburger
    then show ?thesis by (simp add: algebra_simps)
  qed
  show ?case
  proof (cases "b div 2 = 0")
    case True
    then have "powi_loop a r b = r'" by (subst powi_loop.simps) (simp add: r'_def Let_def)
    moreover have "int b * magnitude a = int (b mod 2) * magnitude a"
      using bm unfolding True by (simp only: of_nat_0 mult_zero_left add_0_right)
    ultimately show ?thesis using r' by (simp only: conj_absorb simp_thms)
  next
    case False
    have a2: "0 < fst (f64_mul a a)" "2 * magnitude a \<le> magnitude (f64_mul a a)" using magnitude_mul [of a a] 1(2) by auto
    have "0 < fst (powi_loop (f64_mul a a) r' (b div 2)) \<and>
        magnitude r' + int (b div 2) * magnitude (f64_mul a a) \<le> magnitude (powi_loop (f64_mul a a) r' (b div 2))"
      using 1(1) [OF r'_def False a2(1) r'(1)] a2(2) 1(4) by simp
    moreover have "int (b div 2) * (2 * magnitude a) \<le> int (b div 2) * magnitude (f64_mul a a)"
      using a2(2) by (intro mult_left_mono) simp_all
    moreover have "powi_loop a r b = powi_loop (f64_mul a a) r' (b div 2)"
      using False by (subst powi_loop.simps) (simp add: r'_def Let_def)
    ultimately show ?thesis using r'(2) bm by (simp only: simp_thms) linarith
  qed
qed

lemma as_i64_saturates:
  assumes "0 < fst x" "63 \<le> magnitude x"
  shows "f64_as_i64 x = i64_max"
proof -
  let ?m = "fst x" and ?e = "snd x"
  have b: "(2::int) ^ (bit_len ?m - 1) \<le> ?m" "0 < bit_len ?m" using bit_len_bounds assms(1) by auto
  have "(2::int) ^ 63 \<le> (if 0 \<le> ?e then ?m * 2 ^ nat ?e else ?m div 2 ^ nat (- ?e))"
  proof (cases "0 \<le> ?e")
    case True
    have "(2::int) ^ 63 \<le> 2 ^ (bit_len ?m - 1 + nat ?e)"
      using assms(2) b(2) True by (intro power_increasing) (auto simp: magnitude_def)
    also have "\<dots> \<le> ?m * 2 ^ nat ?e" using b(1) by (simp add: power_add)
    finally show ?thesis using True by simp
  next
    case False
    have "(2::int) ^ 63 * 2 ^ nat (- ?e) \<le> 2 ^ (bit_len ?m - 1)"
      unfolding power_add [symmetric] using assms(2) b(2) False by (intro power_increasing) (auto simp: magnitude_def)
    with b(1) have "2 ^ 63 * 2 ^ nat (- ?e) \<le> ?m" by linarith
    then have "2 ^ 63 * 2 ^ nat (- ?e) div 2 ^ nat (- ?e) \<le> ?m div 2 ^ nat (- ?e)" by (intro zdiv_mono1) simp_all
    then show ?thesis using False by simp
  qed
  then have "i64_max \<le> (if 0 \<le> ?e then ?m * 2 ^ nat ?e else ?m div 2 ^ nat (- ?e))"
    by (rule order.trans [rotated]) simp
  then show ?thesis unfolding f64_as_i64_def by (rule min.absorb2)
qed

lemma powi_magnitude: "0 < fst (f64_powi RETRY_MULTIPLIER n) \<and> int (n div 2) \<le> magnitude (f64_powi RETRY_MULTIPLIER n)"
proof (cases "n div 2 = 0")
  case True
  then have "n = 0 \<or> n = 1" by auto
  then show ?thesis by (elim disjE) (simp_all, code_simp+)
next
  case False
  define r where "r = (if odd n then f64_mul (1, 0) RETRY_MULTIPLIER else (1, 0))"
  have r: "0 < fst r" "0 \<le> magnitude r" by (auto simp: r_def) (code_simp+)
  have q: "0 < fst (f64_mul RETRY_MULTIPLIER RETRY_MULTIPLIER)" "magnitude (f64_mul RETRY_MULTIPLIER RETRY_MULTIPLIER) = 1" by code_simp+
  have "f64_powi RETRY_MULTIPLIER n = powi_loop (f64_mul RETRY_MULTIPLIER RETRY_MULTIPLIER) r (n div 2)"
    using False unfolding f64_powi_def by (subst powi_loop.simps) (simp add: r_def Let_def)
  with magnitude_powi_loop [OF q(1) r(1), of "n div 2"] q(2) r(2) show ?thesis by simp
qed

lemma delay_saturates: "98 \<le> n \<Longrightarrow> next_retry_delay n = i64_max"
proof -
  assume n: "98 \<le> n"
  have "0 < fst (BASE_RETRY_DELAY_MS, 0 :: int)" "magnitude (BASE_RETRY_DELAY_MS, 0) = 14" by code_simp+
  moreover have "49 \<le> int (n div 2)" using n by linarith
  ultimately show ?thesis
    unfolding next_retry_delay_def
    using powi_magnitude [of n] magnitude_mul [of "(BASE_RETRY_DELAY_MS, 0)" "f64_powi RETRY_MULTIPLIER n"]
    by (intro as_i64_saturates) linarith+
qed

lemma delays_exact: "map next_retry_delay [0..<27] = map (\<lambda>n. 30000 * 3 ^ n div 2 ^ n) [0..<27]"
  by code_simp

lemma delays_sorted: "sorted (map next_retry_delay [0..<99])"
  by code_simp

lemma delay_83: "next_retry_delay 83 = i64_max"
  by code_simp

lemma delay_0: "next_retry_delay 0 = 30000"
  by code_simp

lemma delay_le: "next_retry_delay n \<le> i64_max"
  by (simp add: next_retry_delay_def f64_as_i64_def)

lemma delay_mono:
  assumes "m \<le> n"
  shows "next_retry_delay m \<le> next_retry_delay n"
proof (cases "98 \<le> n")
  case True
  with delay_saturates delay_le show ?thesis by simp
next
  case False
  then have "map next_retry_delay [0..<99] ! m \<le> map next_retry_delay [0..<99] ! n"
    using assms by (intro sorted_nth_mono [OF delays_sorted]) simp_all
  with assms False show ?thesis by simp
qed

lemma delay_exact: "n \<le> 26 \<Longrightarrow> next_retry_delay n = 30000 * 3 ^ n div 2 ^ n"
  using arg_cong [OF delays_exact, of "\<lambda>xs. xs ! n"] by simp

lemma delay_saturated: "83 \<le> n \<Longrightarrow> next_retry_delay n = i64_max"
  using delay_mono [of 83 n] delay_le [of n] delay_83 by simp

section \<open>Property\<close>

text \<open>
  The backoff. Up to the 26th retry, which is thirteen days after the one before, the delay
  is thirty seconds times 1.5 to the retry count, rounded down, exactly; it never decreases, is at
  least thirty seconds, and from the 83rd retry on it is the largest \<open>i64\<close>, without ever wrapping
  around. Both processors use the same delays.
\<close>

theorem retry_backoff:
  "(n \<le> 26 \<longrightarrow> next_retry_delay n = 30000 * 3 ^ n div 2 ^ n) \<and>
   (m \<le> n \<longrightarrow> next_retry_delay m \<le> next_retry_delay n) \<and>
   30000 \<le> next_retry_delay n \<and> next_retry_delay n \<le> i64_max \<and>
   (83 \<le> n \<longrightarrow> next_retry_delay n = i64_max) \<and> zap_next_retry_delay n = next_retry_delay n"
  using delay_exact delay_mono delay_mono [of 0 n] delay_0 delay_le delay_saturated zap_next_retry_delay_eq by auto

theorem retry_backoff_witness:
  "next_retry_delay 3 = 101250 \<and> next_retry_delay 3 \<le> next_retry_delay 26 \<and> next_retry_delay 90 = i64_max"
  using retry_backoff [of 3 3] retry_backoff [of 26 3] retry_backoff [of 90 3] by simp

end
