(* ===== verification/Lnurl_Zap.thy ===== *)
theory Lnurl_Zap
  imports Lnurl_Pay Lnurl_Backoff
begin

text \<open>
  Zap receipts: the receipt route of \<open>routes/zap.rs\<close> and the background processor of \<open>zap.rs\<close>.
  Building, signing and publishing nostr events are functions of \<^typ>\<open>'k pay_lib\<close>. Adding a relay and
  connecting only log their failures, so publishing is one call. The processor's wait for a trigger
  or a minute is not modelled; each round it runs is.
\<close>

section \<open>Publishing by the wallet\<close>

record publish_zap_receipt_request =
  zq_signature :: string
  zq_timestamp :: u64
  zq_zap_receipt :: string

record publish_zap_receipt_response =
  zr_published :: bool
  zr_zap_receipt :: string

definition json_error :: "string \<Rightarrow> json" where
  "json_error message = JObject [(''error'', JString message)]"

definition zap_server_error :: api_error where
  "zap_server_error = (INTERNAL_SERVER_ERROR, json_error ''internal server error'')"

definition preimage_tag :: "nostr_tag \<Rightarrow> string option" where
  "preimage_tag t = (case nt_standard t of Some (Preimage p) \<Rightarrow> Some p | _ \<Rightarrow> None)"

definition bolt11_tag :: "nostr_tag \<Rightarrow> string option" where
  "bolt11_tag t = (case nt_standard t of Some (Bolt11_Tag b) \<Rightarrow> Some b | _ \<Rightarrow> None)"

definition MAX_NOSTR_RELAYS :: nat where "MAX_NOSTR_RELAYS = 10"

definition relays_of :: "nostr_event \<Rightarrow> string list" where
  "relays_of event =
     take MAX_NOSTR_RELAYS (concat (List.map_filter
       (\<lambda>t. case nt_standard t of Some (Relays r) \<Rightarrow> Some r | _ \<Rightarrow> None) (ne_tags event)))"

text \<open>Only an invalid preimage stops the request; other failures of settlement are logged.\<close>

definition settle_from_receipt :: "('k, 's) env \<Rightarrow> string \<Rightarrow> string option \<Rightarrow> (api_error, unit) action" where
  "settle_from_receipt env payment_hash preimage w =
     (case preimage of
        None \<Rightarrow> (Inr (), w)
      | Some p \<Rightarrow>
          (case handle_invoice_paid env payment_hash p None w of
             (Inl (InvalidPreimage _), w') \<Rightarrow> (Inl (BAD_REQUEST, json_error ''invalid preimage''), w')
           | (_, w') \<Rightarrow> (Inr (), w')))"

definition receipt_to_publish :: "('k, 's) env \<Rightarrow> zap \<Rightarrow> nostr_event \<Rightarrow> nostr_event \<Rightarrow> api_error + nostr_event" where
  "receipt_to_publish env zap zap_request zap_receipt =
     (if z_is_user_nostr_key zap then Inr zap_receipt
      else case pc_nostr_keys (ev_config env) of
        None \<Rightarrow> Inl (INTERNAL_SERVER_ERROR, json_error
          ''zap receipt should be server-published, but server does not support nostr (anymore)'')
      | Some signing_keys \<Rightarrow>
          bind_res (ok_or (BAD_REQUEST, json_error ''zap receipt missing bolt11 tag'')
            (find_map bolt11_tag (ne_tags zap_receipt))) (\<lambda>invoice.
          ok_or zap_server_error (pl_sign_receipt (ev_lib env) signing_keys
            (pl_zap_receipt_tags (ev_lib env) invoice (find_map preimage_tag (ne_tags zap_receipt)) zap_request))))"

definition publish_to_relays :: "('k, 's) env \<Rightarrow> string list \<Rightarrow> nostr_event \<Rightarrow> ('e, bool) action" where
  "publish_to_relays env relays event =
     (if relays = [] then ret False else ask (\<lambda>k. pl_send_event (ev_lib env) k relays event))"

definition publish_zap_receipt_route ::
  "('k, 's) env \<Rightarrow> string \<Rightarrow> string \<Rightarrow> publish_zap_receipt_request \<Rightarrow> (api_error, publish_zap_receipt_response) action" where
  "publish_zap_receipt_route env pubkey payment_hash payload =
     bind_act (validate env pubkey (zq_signature payload) (zq_zap_receipt payload) (zq_timestamp payload) ZapReceipt_Route) (\<lambda>pk.
     if MAX_NOSTR_EVENT_SIZE < utf8_len (zq_zap_receipt payload)
     then fail (BAD_REQUEST, json_error ''zap receipt too large'')
     else
     bind_act (lift (ok_or (BAD_REQUEST, json_error ''invalid zap receipt'')
       (pl_event_from_json (ev_lib env) (zq_zap_receipt payload)))) (\<lambda>zap_receipt.
     if ne_kind zap_receipt \<noteq> ZapReceipt_Kind then fail (BAD_REQUEST, json_error ''event is not a zap receipt'')
     else if \<not> ne_verifies zap_receipt then fail (BAD_REQUEST, json_error ''invalid zap receipt signature'')
     else
     bind_act (map_err_act (\<lambda>_. zap_server_error) (db_read env (\<lambda>d. Inr (get_zap_by_payment_hash payment_hash d)))) (\<lambda>found.
     bind_act (lift (ok_or (NOT_FOUND, json_error ''zap not found'') found)) (\<lambda>zap.
     if z_user_pubkey zap \<noteq> public_key_to_string (ev_crypto env) pk
     then fail (FORBIDDEN, json_error ''unauthorized'')
     else
     bind_act (settle_from_receipt env payment_hash (find_map preimage_tag (ne_tags zap_receipt))) (\<lambda>_.
     case z_zap_event zap of
       Some existing \<Rightarrow> ret \<lparr>zr_published = False, zr_zap_receipt = existing\<rparr>
     | None \<Rightarrow>
         bind_act (lift (ok_or zap_server_error (pl_event_from_json (ev_lib env) (z_zap_request zap)))) (\<lambda>zap_request.
         bind_act (lift (receipt_to_publish env zap zap_request zap_receipt)) (\<lambda>receipt.
         bind_act (publish_to_relays env (relays_of zap_request) receipt) (\<lambda>published.
         bind_act (lift (ok_or zap_server_error (pl_event_try_as_json (ev_lib env) receipt))) (\<lambda>text.
         bind_act (read_millis env) (\<lambda>now.
         bind_act (map_err_act (\<lambda>_. zap_server_error)
           (db_update env (upsert_zap (zap\<lparr>z_zap_event := Some text, z_updated_at := now\<rparr>)))) (\<lambda>_.
         ret \<lparr>zr_published = published, zr_zap_receipt = text\<rparr>)))))))))))"

section \<open>Publishing in the background\<close>

definition is_copied_tag :: "nostr_tag \<Rightarrow> bool" where
  "is_copied_tag t = (case nt_values t of [] \<Rightarrow> False | name # _ \<Rightarrow> name \<in> {''e'', ''a'', ''p''})"

definition receipt_tags :: "'k pay_lib \<Rightarrow> zap \<Rightarrow> nostr_event \<Rightarrow> string \<Rightarrow> string \<Rightarrow> nostr_tag list" where
  "receipt_tags lib zap zap_request bolt11 preimage =
     [pl_standard_tag lib (Bolt11_Tag bolt11), pl_description_tag lib (z_zap_request zap),
      pl_standard_tag lib (Preimage preimage)] @
     filter is_copied_tag (ne_tags zap_request) @ [pl_public_key_tag lib (ne_pubkey zap_request)]"

definition build_zap_receipt_event ::
  "('k, 's) env \<Rightarrow> nostr_keys \<Rightarrow> zap \<Rightarrow> string \<Rightarrow> string \<Rightarrow> unit + nostr_event" where
  "build_zap_receipt_event env nostr_keys zap bolt11 preimage =
     bind_res (ok_or () (pl_event_from_json (ev_lib env) (z_zap_request zap))) (\<lambda>zap_request.
     ok_or () (pl_sign_receipt (ev_lib env) nostr_keys (receipt_tags (ev_lib env) zap zap_request bolt11 preimage)))"

text \<open>Errors are only logged by the caller and carry nothing here.\<close>

definition publish_zap_receipt ::
  "('k, 's) env \<Rightarrow> nostr_keys \<Rightarrow> zap \<Rightarrow> string \<Rightarrow> string \<Rightarrow> (unit, unit) action" where
  "publish_zap_receipt env nostr_keys zap bolt11 preimage =
     bind_act (lift (ok_or () (pl_event_from_json (ev_lib env) (z_zap_request zap)))) (\<lambda>zap_request.
     bind_act (lift (build_zap_receipt_event env nostr_keys zap bolt11 preimage)) (\<lambda>zap_event.
     if relays_of zap_request = [] then fail ()
     else
     bind_act (ask (\<lambda>k. pl_send_event (ev_lib env) k (relays_of zap_request) zap_event)) (\<lambda>sent.
     if \<not> sent then fail ()
     else
     bind_act (read_millis env) (\<lambda>now.
     map_err_act (\<lambda>_. ()) (db_update env (upsert_zap (zap\<lparr>
       z_zap_event := Some (pl_event_as_json (ev_lib env) zap_event), z_updated_at := now\<rparr>)))))))"

definition MAX_RETRY_DURATION_MS :: int where "MAX_RETRY_DURATION_MS = 1209600000"

definition drop_pending :: "('k, 's) env \<Rightarrow> string \<Rightarrow> ('e, unit) action" where
  "drop_pending env payment_hash = ignore_err (db_exec env (\<lambda>_. delete_pending_zap_receipt payment_hash))"

text \<open>Runs one action or another depending on whether a first one succeeded.\<close>

definition on_result :: "('f, 'a) action \<Rightarrow> ('a \<Rightarrow> ('e, 'b) action) \<Rightarrow> ('f \<Rightarrow> ('e, 'b) action) \<Rightarrow> ('e, 'b) action" where
  "on_result m f g w = (case m w of (Inl e, w') \<Rightarrow> g e w' | (Inr x, w') \<Rightarrow> f x w')"

lemma writes_on_result:
  assumes "writes env G m" "\<And>x w w'. m w = (Inr x, w') \<Longrightarrow> writes env G (f x)" "\<And>e. writes env G (g e)"
  shows "writes env G (on_result m f g)"
proof (unfold writes_def, intro allI)
  fix w
  obtain r w1 where m: "m w = (r, w1)" by (cases "m w")
  have 1: "served env G (sv_db w) (sv_db w1)" using assms(1) m by (metis snd_conv writes_def)
  have "served env G (sv_db w1) (sv_db (snd (case r of Inl e \<Rightarrow> g e w1 | Inr x \<Rightarrow> f x w1)))"
    using assms(2,3) m by (cases r) (simp_all add: writes_def)
  with 1 m show "served env G (sv_db w) (sv_db (snd (on_result m f g w)))"
    by (cases r) (simp_all add: on_result_def served_trans)
qed

definition process_pending_zap_receipt ::
  "('k, 's) env \<Rightarrow> nostr_keys option \<Rightarrow> pending_zap_receipt \<Rightarrow> (unit, unit) action" where
  "process_pending_zap_receipt env nostr_keys item =
     (case nostr_keys of
        None \<Rightarrow> drop_pending env (pz_payment_hash item)
      | Some keys \<Rightarrow>
          bind_act (read_millis env) (\<lambda>now.
          if MAX_RETRY_DURATION_MS < i64_saturating_sub now (pz_created_at item)
          then drop_pending env (pz_payment_hash item)
          else on_result (db_read env (\<lambda>d. Inr (get_zap_and_invoice_by_payment_hash (pz_payment_hash item) d)))
            (\<lambda>(zap, invoice).
              case zap of
                None \<Rightarrow> drop_pending env (pz_payment_hash item)
              | Some zap \<Rightarrow>
                  if z_zap_event zap \<noteq> None then drop_pending env (pz_payment_hash item)
                  else case invoice of
                    None \<Rightarrow> drop_pending env (pz_payment_hash item)
                  | Some invoice \<Rightarrow>
                      case inv_preimage invoice of
                        None \<Rightarrow> ret ()
                      | Some preimage \<Rightarrow>
                          on_result (publish_zap_receipt env keys zap (inv_invoice invoice) preimage)
                            (\<lambda>_. drop_pending env (pz_payment_hash item))
                            (\<lambda>_. let retry_count = i32_saturating_add (pz_retry_count item) 1;
                                     next_retry_at = i64_saturating_add now (zap_next_retry_delay (nat retry_count)) in
                               ignore_err (db_exec env (\<lambda>_. update_pending_zap_receipt_retry
                                 (pz_payment_hash item) retry_count next_retry_at))))
            (\<lambda>_. ret ())))"

fun process_items :: "('k, 's) env \<Rightarrow> nostr_keys option \<Rightarrow> pending_zap_receipt list \<Rightarrow> (unit, unit) action" where
  "process_items env keys [] = ret ()"
| "process_items env keys (item # items) =
     bind_act (process_pending_zap_receipt env keys item) (\<lambda>_. process_items env keys items)"

definition ZAP_RECEIPT_BATCH_LIMIT :: u32 where "ZAP_RECEIPT_BATCH_LIMIT = 4"

definition take_batch :: "('k, 's) env \<Rightarrow> (repository_error, pending_zap_receipt list) action" where
  "take_batch env = db_call env (\<lambda>k d.
     case take_pending_zap_receipts ZAP_RECEIPT_BATCH_LIMIT (pl_now_millis (ev_lib env) k) d of (items, d') \<Rightarrow> (Inr items, d'))"

text \<open>One turn of the loop: whether another follows, and the state it leaves.\<close>

definition receipt_round :: "('k, 's) env \<Rightarrow> nostr_keys option \<Rightarrow> server \<Rightarrow> bool \<times> server" where
  "receipt_round env keys w =
     (case take_batch env w of
        (Inl _, w1) \<Rightarrow> (False, w1)
      | (Inr pending, w1) \<Rightarrow>
          if pending = [] then (False, w1)
          else (\<not> length pending < unat ZAP_RECEIPT_BATCH_LIMIT, snd (process_items env keys pending w1)))"

partial_function (option) process_pending_zap_receipts ::
  "('k, 's) env \<Rightarrow> nostr_keys option \<Rightarrow> server \<Rightarrow> server option" where
  "process_pending_zap_receipts env keys w =
     (case receipt_round env keys w of
        (again, w') \<Rightarrow> if again then process_pending_zap_receipts env keys w' else Some w')"

end
