(* ===== verification/Lnurl_Pay_Thms.thy ===== *)
theory Lnurl_Pay_Thms
  imports Lnurl_Zap Lnurl_Account_Routes_Thms
begin

text \<open>
  Properties of the payment routes: what an issued invoice commits to and what is recorded of it,
  that stored preimages are genuine under any interleaving of the payment handlers, that verify
  tells the truth, and the window in which a zap receipt is lost.
\<close>

section \<open>Inversion\<close>

lemma resolve_public_recipient_run:
  assumes "resolve_public_recipient env dn it w = (Inr (Some p), w')"
  shows "w' = tick (w\<lparr>sv_db := ev_others env (sv_step w) (sv_db w)\<rparr>)"
    and "resolve_recipient_by_identifier dn (int_canonical it) (sv_db w') = Inr (Some (pu_recipient p))"
    and "pu_wallet p = int_wallet it" "pu_callback_identifier p = int_callback_identifier it"
  using assms by (auto simp: resolve_public_recipient_def act_iff map_option_case split: option.splits)

lemma invoice_run:
  assumes "handle_invoice_for_resolved_domain env phones domain identifier params w = (Inr resp, w')"
  obtains it p w0 u wr amount nk desc res h e w1 v where
    "public_identifier_of phones identifier = Inr it"
    "resolve_public_recipient env domain it w = (Inr (Some p), w0)"
    "receiving_allowed env (rr_spark_pubkey (pu_recipient p)) w0 = (Inr u, wr)"
    "checked_amount (ev_config env) params = Inr amount"
    "description_bytes env p amount (cp_nostr params) nk = Inr desc"
    "checked_invoice env (pv_bolt11 (res :: provider_invoice)) (sha256_hash (ev_crypto env) desc) amount = Inr (h, e)"
    "create_provider_invoice_for_account env h (Some (rr_account_id (pu_recipient p))) (Some (rr_provider (pu_recipient p)))
       (Some (pv_wallet_kind res)) (pv_wallet_id res) (pv_provider_payment_hash res)
       (case rr_spark_pubkey (pu_recipient p) of Some k \<Rightarrow> k | None \<Rightarrow> []) (pv_bolt11 res) e domain w1 = (Inr v, w')"
    "resp = JObject [(''pr'', JString (pv_bolt11 res)), (''routes'', JArray []),
        (''verify'', JString (build_verify_url (ev_config env) domain h))]"
  using assms unfolding handle_invoice_for_resolved_domain_def Let_def
  by (simp only: act_iff split_paired_Ex case_prod_conv simp_thms ok_or_Inr_iff) (clarify, rule that, assumption+)

lemma checked_amount_ok:
  assumes "checked_amount cfg params = Inr a"
  shows "cp_amount params = Some a" "a mod 1000 = 0" "pc_min_sendable cfg \<le> a" "a \<le> pc_max_sendable cfg"
  using assms by (auto simp: checked_amount_def bind_res_Inr_iff split: if_splits option.splits)

lemma checked_invoice_ok:
  assumes "checked_invoice env b desc a = Inr (h, e)"
  obtains i where "pl_bolt11_from_str (ev_lib env) b = Some i" "b11_payment_hash i = h"
    "b11_amount_milli_satoshis i = Some a" "b11_description_hash i = Some (hex_encode (ev_crypto env) desc)"
  using assms by (auto simp: checked_invoice_def bind_res_Inr_iff split: if_splits)

lemma receiving_allowed_ok:
  assumes "receiving_allowed env (Some k) w = (Inr u, w')"
  shows "Option.bind (get_spark_account_mode k (ev_others env (sv_step w) (sv_db w))) sam_mode \<noteq> Some Anon"
  using assms by (auto simp: receiving_allowed_def stored_account_mode_def act_iff)

lemma description_bytes_ok:
  assumes "description_bytes env p a nostr nk = Inr desc"
  shows "desc = as_bytes (case nostr of Some raw \<Rightarrow> raw
    | None \<Rightarrow> get_metadata_for_recipient env (pu_recipient p) (pu_callback_identifier p))"
    and "nostr = Some raw \<Longrightarrow> \<exists>event. pl_event_from_json (ev_lib env) raw = Some event \<and> validate_nostr_zap_request a event = Inr ()"
  using assms by (auto simp: description_bytes_def bind_res_Inr_iff split: option.splits if_splits)

lemma created_invoice_stored:
  assumes "create_provider_invoice_for_account env h a pr wk wi ph u b e dn w = (Inr v, w')"
  obtains i where "get_invoice_by_payment_hash h (sv_db w') = Some i" "inv_payment_hash i = h"
    "inv_invoice i = b" "inv_user_pubkey i = u" "inv_domain i = Some dn" "inv_invoice_expiry i = e"
    "inv_preimage i = None" "a = Some x \<Longrightarrow> inv_account_id i = Some x" "pr = Some y \<Longrightarrow> inv_provider i = Some y"
    "wk = Some z \<Longrightarrow> inv_wallet_kind i = Some z"
proof -
  define now where "now = pl_now_millis (ev_lib env) (sv_step w)"
  define row where "row = \<lparr>inv_account_id = a, inv_provider = pr,
         inv_wallet_kind = wk, inv_wallet_id = wi, inv_provider_payment_hash = ph,
         inv_payment_hash = h, inv_user_pubkey = u, inv_invoice = b,
         inv_preimage = None, inv_expired_at = None, inv_invoice_expiry = e,
         inv_created_at = now, inv_updated_at = now, inv_domain = Some dn, inv_amount_received_sat = None\<rparr>"
  let ?d = "ev_others env (sv_step (tick w)) (sv_db (tick w))"
  have "upsert_invoice row ?d = Inr (sv_db w')"
    using assms unfolding create_provider_invoice_for_account_def
    by (simp only: bind_act_iff read_millis_iff db_update_iff row_def now_def) auto
  then have "sv_db w' = ?d\<lparr>invoices := upsert_on inv_payment_hash merge_invoice row (invoices ?d)\<rparr>"
    by (simp add: upsert_invoice_def split: if_splits)
  then have "invoices (sv_db w') = upsert_on inv_payment_hash merge_invoice row (invoices ?d)" by simp
  then have "get_invoice_by_payment_hash h (sv_db w') =
      Some (case fetch_optional (\<lambda>r. inv_payment_hash r = h) (invoices ?d) of None \<Rightarrow> row | Some r \<Rightarrow> merge_invoice r row)"
    using invoice_table.lookup_upsert_same [of row "invoices ?d"]
    by (simp add: get_invoice_by_payment_hash_def row_def)
  then show thesis
    by (rule that) (auto simp: row_def merge_invoice_def dest: fetch_optional_SomeD split: option.splits)
qed

section \<open>Issued invoices\<close>


section \<open>Discovery and callback\<close>

lemma lnurl_pay_run:
  assumes "handle_lnurl_pay env phones host identifier w = (Inr pay, w')"
  obtains domain it p w0 ms where
    "sanitize_domain env host = Inr domain" "public_identifier_of phones identifier = Inr it"
    "resolve_public_recipient env domain it w = (Inr (Some p), w0)"
    "resolve_min_sendable_msat env p w0 = (Inr ms :: api_error + u64, w')"
    "ms \<le> pc_max_sendable (ev_config env)"
    "pr_callback pay = build_callback_url (ev_config env) domain (pu_callback_identifier p)"
    "pr_metadata pay = get_metadata_for_recipient env (pu_recipient p) (pu_callback_identifier p)"
    "pr_min_sendable pay = ms" "pr_max_sendable pay = pc_max_sendable (ev_config env)"
  using assms unfolding handle_lnurl_pay_def
  by (simp only: act_iff split_paired_Ex simp_thms ok_or_Inr_iff) (clarify, rule that, assumption+, simp_all)

lemma resolve_min_ge:
  "resolve_min_sendable_msat env p w = (Inr ms, w') \<Longrightarrow> pc_min_sendable (ev_config env) \<le> ms"
  by (auto simp: resolve_min_sendable_msat_def act_iff split: if_splits)

text \<open>Without concurrent writers a handler that does not write leaves the database as it was.\<close>

lemma quiet_reader:
  assumes "writes env no_step m" "\<forall>k d. ev_others env k d = d" "m w = (r, w')"
  shows "sv_db w' = sv_db w"
proof -
  have "served env no_step (sv_db w) (sv_db w')" using assms(1,3) by (metis snd_conv writes_def)
  then show ?thesis by (induction rule: served.induct) (auto simp: assms(2) no_step_def)
qed

lemma writes_lnurl_pay: "writes env no_step (handle_lnurl_pay env phones host identifier)"
  unfolding handle_lnurl_pay_def by (intro writes_rules)

lemma sanitize_domain_again: "sanitize_domain env host = Inr dn \<Longrightarrow> sanitize_domain env dn = Inr dn"
  by (auto simp: sanitize_domain_def Let_def split: if_splits)

lemma public_identifier_again:
  assumes "phone_lib_ok phones" "public_identifier_of phones i = Inr it"
  shows "public_identifier_of phones (int_callback_identifier it) = Inr it"
  using assms callback_parses_again [of phones i it] by (auto simp: public_identifier_of_def bind_res_Inr_iff)

text \<open>The request a payer's wallet makes to the callback of a discovery response for a domain and name.\<close>

definition callback_request ::
  "('k, 's) env \<Rightarrow> 'p phone_lib \<Rightarrow> string \<Rightarrow> string \<Rightarrow> callback_params \<Rightarrow> (api_error, json) action" where
  "callback_request env phones domain c params =
     (case pc_callback_domain (ev_config env) of
        None \<Rightarrow> handle_invoice env phones domain c params
      | Some callback_domain \<Rightarrow> handle_invoice_for_domain env phones callback_domain domain c params)"

lemma callback_request_run:
  assumes "callback_request env phones domain c params w = (Inr resp, w')" "sanitize_domain env domain = Inr domain"
  shows "handle_invoice_for_resolved_domain env phones domain c params w = (Inr resp, w')"
  using assms unfolding callback_request_def handle_invoice_def handle_invoice_for_domain_def
  by (auto simp: act_iff split: option.splits)

text \<open>
  C24: discovery and callback agree. The advertised range is not empty and within the configured
  one. While nobody else writes to the database, an invoice a wallet obtains at the advertised
  callback without a zap commits to the hash of exactly the metadata the wallet was shown, which
  is what it must check before paying, and is for an amount within the configured range.
\<close>

theorem callback_commits_to_metadata:
  assumes lib: "phone_lib_ok phones" and quiet: "\<forall>k d. ev_others env k d = d"
    and pay: "handle_lnurl_pay env phones host identifier w = (Inr pay, w1)"
  shows "\<exists>domain c. pr_callback pay = build_callback_url (ev_config env) domain c \<and>
    pc_min_sendable (ev_config env) \<le> pr_min_sendable pay \<and> pr_min_sendable pay \<le> pr_max_sendable pay \<and>
    (\<forall>params resp w2. cp_nostr params = None \<and> callback_request env phones domain c params w1 = (Inr resp, w2) \<longrightarrow>
      (\<exists>b i a. json_get ''pr'' resp = Some (JString b) \<and> pl_bolt11_from_str (ev_lib env) b = Some i \<and>
        b11_amount_milli_satoshis i = Some a \<and> cp_amount params = Some a \<and> a \<le> pr_max_sendable pay \<and>
        b11_description_hash i = Some (hex_encode (ev_crypto env) (sha256_hash (ev_crypto env) (as_bytes (pr_metadata pay))))))"
proof -
  obtain domain it p w0 ms where
      dn: "sanitize_domain env host = Inr domain" "public_identifier_of phones identifier = Inr it"
    and p: "resolve_public_recipient env domain it w = (Inr (Some p), w0)"
    and ms: "resolve_min_sendable_msat env p w0 = (Inr ms :: api_error + u64, w1)" "ms \<le> pc_max_sendable (ev_config env)"
    and resp: "pr_callback pay = build_callback_url (ev_config env) domain (pu_callback_identifier p)"
      "pr_metadata pay = get_metadata_for_recipient env (pu_recipient p) (pu_callback_identifier p)"
      "pr_min_sendable pay = ms" "pr_max_sendable pay = pc_max_sendable (ev_config env)"
    using pay by (rule lnurl_pay_run)
  note rp = resolve_public_recipient_run [OF p]
  let ?c = "pu_callback_identifier p"
  have db: "sv_db w1 = sv_db w" by (rule quiet_reader [OF writes_lnurl_pay quiet pay])
  have again: "public_identifier_of phones ?c = Inr it"
    using public_identifier_again [OF lib dn(2)] rp(4) by simp
  have "\<exists>b i a. json_get ''pr'' rs = Some (JString b) \<and> pl_bolt11_from_str (ev_lib env) b = Some i \<and>
        b11_amount_milli_satoshis i = Some a \<and> cp_amount params = Some a \<and> a \<le> pr_max_sendable pay \<and>
        b11_description_hash i = Some (hex_encode (ev_crypto env) (sha256_hash (ev_crypto env) (as_bytes (pr_metadata pay))))"
    if n: "cp_nostr params = None" and req: "callback_request env phones domain ?c params w1 = (Inr rs, w2)" for params rs w2
  proof -
    note run = callback_request_run [OF req sanitize_domain_again [OF dn(1)]]
    obtain it' p' w0' a nk desc res h e where
        r: "public_identifier_of phones ?c = Inr it'" "resolve_public_recipient env domain it' w1 = (Inr (Some p'), w0')"
      and a: "checked_amount (ev_config env) params = Inr a"
      and desc: "description_bytes env p' a (cp_nostr params) nk = Inr desc"
      and inv: "checked_invoice env (pv_bolt11 (res :: provider_invoice)) (sha256_hash (ev_crypto env) desc) a = Inr (h, e)"
      and rs: "rs = JObject [(''pr'', JString (pv_bolt11 res)), (''routes'', JArray []),
        (''verify'', JString (build_verify_url (ev_config env) domain h))]"
      using run by (rule invoice_run)
    note rp' = resolve_public_recipient_run [OF r(2)]
    have "it' = it" using r(1) again by simp
    then have "pu_recipient p' = pu_recipient p" "pu_callback_identifier p' = pu_callback_identifier p"
      using rp rp' db quiet by simp_all
    then have "desc = as_bytes (pr_metadata pay)"
      using description_bytes_ok(1) [OF desc] n resp(2) by simp
    moreover obtain i where "pl_bolt11_from_str (ev_lib env) (pv_bolt11 res) = Some i" "b11_payment_hash i = h"
        "b11_amount_milli_satoshis i = Some a" "b11_description_hash i = Some (hex_encode (ev_crypto env) (sha256_hash (ev_crypto env) desc))"
      using inv by (rule checked_invoice_ok)
    ultimately show ?thesis
      using rs checked_amount_ok [OF a] resp(4)
      by (intro exI [of _ "pv_bolt11 res"] exI [of _ i] exI [of _ a]) (simp add: json_get_def)
  qed
  then show ?thesis
    using resp resolve_min_ge [OF ms(1)] ms(2) by (intro exI [of _ domain] exI [of _ ?c]) simp
qed

section \<open>Genuine preimages\<close>

lemma writes_settle_from_receipt: "writes env (payment_step (ev_crypto env)) (settle_from_receipt env h p)"
proof (cases p)
  case (Some q)
  have "sv_db (snd (settle_from_receipt env h p w)) = sv_db (snd (handle_invoice_paid env h q None w))" for w
    using Some by (auto simp: settle_from_receipt_def split: prod.splits sum.splits invoice_paid_error.splits)
  with handle_invoice_paid_writes [of env h q None] show ?thesis by (simp add: writes_def)
qed (simp add: writes_def settle_from_receipt_def served_refl)

lemma writes_publish_route:
  "writes env (payment_step (ev_crypto env)) (publish_zap_receipt_route env pubkey h payload)"
  unfolding publish_zap_receipt_route_def publish_to_relays_def
  by (intro writes_rules writes_settle_from_receipt)

text \<open>The requests of the payment side, with the answer left out.\<close>

datatype pay_request =
    PayInvoice string string callback_params
  | PayInvoiceForDomain string string string callback_params
  | VerifyReq string
  | InvoicePaidReq string invoice_paid_request
  | InvoicesPaidReq string invoices_paid_request
  | SspWebhook header_map bytes
  | BlinkWebhook blink_webhook_payload
  | ZapReceiptReq string string publish_zap_receipt_request

fun serve_pay ::
  "('k, 's) env \<Rightarrow> 'p phone_lib \<Rightarrow> (bytes \<Rightarrow> ssp_webhook_payload option) \<Rightarrow> pay_request \<Rightarrow> server \<Rightarrow> server" where
  "serve_pay env phones decode (PayInvoice host i params) w = snd (handle_invoice env phones host i params w)"
| "serve_pay env phones decode (PayInvoiceForDomain host dn i params) w =
     snd (handle_invoice_for_domain env phones host dn i params w)"
| "serve_pay env phones decode (VerifyReq h) w = snd (verify env h w :: (unit + json) \<times> server)"
| "serve_pay env phones decode (InvoicePaidReq k q) w = snd (invoice_paid env k q w)"
| "serve_pay env phones decode (InvoicesPaidReq k q) w = snd (invoices_paid env k q w)"
| "serve_pay env phones decode (SspWebhook headers body) w = snd (process_webhook env decode headers body w)"
| "serve_pay env phones decode (BlinkWebhook payload) w = snd (blink_webhook env payload w)"
| "serve_pay env phones decode (ZapReceiptReq k h q) w = snd (publish_zap_receipt_route env k h q w)"

lemma served_preimages:
  assumes "served env (payment_step lib) d d'" "preimages_ok lib d"
    "\<forall>k d. preimages_ok lib d \<longrightarrow> preimages_ok lib (ev_others env k d)"
  shows "preimages_ok lib d'"
  using assms(1,2) by (rule served_invariant) (use assms(3) in \<open>auto simp: payment_step_def\<close>)

lemma serve_pay_served:
  "served env (payment_step (ev_crypto env)) (sv_db w) (sv_db (serve_pay env phones decode req w))"
  by (cases req; simp only: serve_pay.simps; rule writesD; rule pay_writes webhook_writes writes_publish_route)

text \<open>
  No forged settlement. Whatever payment requests arrive, valid or not, in whatever order,
  with whatever replies of the services, lost calls and concurrent writers that keep it themselves,
  every preimage in the database hashes to the payment hash of its invoice.
\<close>

theorem preimages_genuine:
  assumes "preimages_ok (ev_crypto env) (sv_db w)"
    and "\<forall>k d. preimages_ok (ev_crypto env) d \<longrightarrow> preimages_ok (ev_crypto env) (ev_others env k d)"
  shows "\<forall>i \<in> set (invoices (sv_db (fold (serve_pay env phones decode) reqs w))). \<forall>p. inv_preimage i = Some p \<longrightarrow>
    (\<exists>b. hex_decode (ev_crypto env) p = Some b \<and>
      hex_encode (ev_crypto env) (sha256_hash (ev_crypto env) b) = inv_payment_hash i)"
proof -
  have "preimages_ok (ev_crypto env) (sv_db (fold (serve_pay env phones decode) reqs w))"
    using assms(1)
  proof (induction reqs arbitrary: w)
    case (Cons req reqs)
    have "preimages_ok (ev_crypto env) (sv_db (serve_pay env phones decode req w))"
      by (rule served_preimages [OF serve_pay_served Cons.prems assms(2)])
    with Cons.IH show ?case by simp
  qed simp
  then show ?thesis by (auto simp: preimages_ok_def preimage_row_def verify_preimage_iff)
qed

lemma handle_invoice_paid_verified:
  "handle_invoice_paid env h p a w = (Inr u, w') \<Longrightarrow> verify_preimage (ev_crypto env) h p = Inr ()"
  unfolding handle_invoice_paid_def by (auto simp: bind_act_iff lift_iff)

lemma settle_blink_verified:
  assumes "settle_blink_invoice_by_payment_hash env h q w = (Inr (Some p), w')"
  shows "verify_preimage (ev_crypto env) h p = Inr ()"
  using assms unfolding settle_blink_invoice_by_payment_hash_def
  by (auto simp: act_iff split: option.splits if_splits dest: handle_invoice_paid_verified)

definition verify_answer :: "string option \<Rightarrow> string \<Rightarrow> json" where
  "verify_answer p b = JObject [(''status'', JString ''OK''), (''settled'', JBool (p \<noteq> None)),
     (''preimage'', json_opt JString p), (''pr'', JString b)]"

lemma verify_cases:
  assumes "verify env h w = (Inr resp :: unit + json, w')"
  obtains (failure) s where "resp = verify_failure s"
  | (stored) i where "get_invoice_by_payment_hash h (ev_others env (sv_step w) (sv_db w)) = Some i"
      "resp = verify_answer (inv_preimage i) (inv_invoice i)"
  | (asked) i q wa wb where "settle_blink_invoice_by_payment_hash env h None wa = (Inr (Some q), wb)"
      "resp = verify_answer (Some q) (inv_invoice (i :: invoice))"
proof -
  let ?read = "db_read env (\<lambda>d. Inr (get_invoice_by_payment_hash h d) :: repository_error + invoice option)"
  obtain rd w1 where rd: "?read w = (rd, w1)" by (cases "?read w")
  show thesis
  proof (cases rd)
    case (Inl e)
    with rd assms have "resp = verify_failure ''Internal server error''"
      by (simp add: verify_def answer_def bind_act_def map_err_act_def)
    with that(1) show thesis by blast
  next
    case found: (Inr found)
    show thesis
    proof (cases found)
      case None
      with found rd assms have "resp = verify_failure ''Not found''"
        by (simp add: verify_def answer_def bind_act_def map_err_act_def lift_def)
      with that(1) show thesis by blast
    next
      case (Some i)
      have i: "get_invoice_by_payment_hash h (ev_others env (sv_step w) (sv_db w)) = Some i"
        using rd found Some by (simp add: db_read_iff)
      obtain st w2 where st: "settle_blink_invoice_by_payment_hash env h None w1 = (st, w2)"
        by (cases "settle_blink_invoice_by_payment_hash env h None w1")
      show thesis
      proof (cases "inv_preimage i = None \<and> inv_expired_at i = None \<and> inv_provider i = Some Blink")
        case False
        then have "resp = verify_answer (inv_preimage i) (inv_invoice i)"
          using rd found Some assms
          by (auto simp: verify_def answer_def bind_act_def map_err_act_def lift_def ret_def verify_answer_def
              split: if_splits)
        with i that(2) show thesis by blast
      next
        case True
        show thesis
        proof (cases st)
          case (Inl e)
          with True rd found Some assms st have "resp = verify_failure ''Internal server error''"
            by (simp add: verify_def answer_def bind_act_def map_err_act_def lift_def)
          with that(1) show thesis by blast
        next
          case (Inr settled)
          with True rd found Some assms st
          have "resp = verify_answer (case settled of Some p \<Rightarrow> Some p | None \<Rightarrow> inv_preimage i) (inv_invoice i)"
            by (simp add: verify_def answer_def bind_act_def map_err_act_def lift_def ret_def verify_answer_def)
          with Inr st i that(2,3) show thesis by (cases settled) auto
        qed
      qed
    qed
  qed
qed

text \<open>
  C25: verify tells the truth. When the answer says that an invoice is settled, it shows a preimage
  of the payment hash asked for.
\<close>

theorem verify_truthful:
  assumes "verify env h w = (Inr resp :: unit + json, w')" "preimages_ok (ev_crypto env) (sv_db w)"
    and "\<forall>k d. preimages_ok (ev_crypto env) d \<longrightarrow> preimages_ok (ev_crypto env) (ev_others env k d)"
    and "json_get ''settled'' resp = Some (JBool True)"
  shows "\<exists>p b. json_get ''preimage'' resp = Some (JString p) \<and> hex_decode (ev_crypto env) p = Some b \<and>
    hex_encode (ev_crypto env) (sha256_hash (ev_crypto env) b) = h"
proof -
  have ok: "\<exists>b. hex_decode (ev_crypto env) p = Some b \<and> hex_encode (ev_crypto env) (sha256_hash (ev_crypto env) b) = h"
    if "resp = verify_answer (Some p) c" for p c
    using assms(1)
  proof (cases rule: verify_cases)
    case (failure s)
    with assms(4) show ?thesis by (simp add: verify_failure_def json_get_def)
  next
    case (stored i)
    then have "preimage_row (ev_crypto env) i" "inv_payment_hash i = h" "inv_preimage i = Some p"
      using that assms(2,3) get_invoice_hash [of h _ i]
      by (auto simp: preimages_ok_def verify_answer_def json_opt_def split: option.splits)
    then show ?thesis by (simp add: preimage_row_def verify_preimage_iff)
  next
    case (asked i q wa wb)
    with that settle_blink_verified [OF asked(1)] show ?thesis
      by (simp add: verify_answer_def json_opt_def verify_preimage_iff)
  qed
  obtain p c where "resp = verify_answer (Some p) c"
    using assms(1)
  proof (cases rule: verify_cases)
    case (stored i)
    with assms(4) that show thesis by (cases "inv_preimage i") (auto simp: verify_answer_def json_get_def)
  qed (use assms(4) that in \<open>auto simp: verify_failure_def json_get_def\<close>)
  with ok show ?thesis by (auto simp: verify_answer_def json_get_def json_opt_def)
qed

section \<open>A demonstration run\<close>

text \<open>The state after the demonstration registration, and a payer's request.\<close>

definition paying_server :: server where
  "paying_server = snd (register demo_env ''X.org'' ''02aa'' (\<lambda>_. None) demo_register demo_server)"

definition demo_params :: callback_params where
  "demo_params = \<lparr>cp_amount = Some 21000, cp_comment = Some ''hi'', cp_nostr = None, cp_expiry = None\<rparr>"

lemma demo_invoice_issued:
  "\<not> isl (fst (handle_invoice demo_env demo_phone_lib ''x.org'' ''alice'' demo_params paying_server))"
  by code_simp


lemma demo_discovered:
  "\<not> isl (fst (handle_lnurl_pay demo_env demo_phone_lib ''x.org'' ''alice'' paying_server))"
  by code_simp

lemma demo_called_back:
  "\<not> isl (fst (callback_request demo_env demo_phone_lib ''x.org'' ''alice'' demo_params
     (snd (handle_lnurl_pay demo_env demo_phone_lib ''x.org'' ''alice'' paying_server))))"
  by code_simp

theorem callback_commits_to_metadata_witness:
  "\<exists>pay w1 resp w2. handle_lnurl_pay demo_env demo_phone_lib ''x.org'' ''alice'' paying_server = (Inr pay, w1) \<and>
     callback_request demo_env demo_phone_lib ''x.org'' ''alice'' demo_params w1 = (Inr resp, w2) \<and>
     pr_min_sendable pay \<le> pr_max_sendable pay"
proof -
  obtain pay w1 where p: "handle_lnurl_pay demo_env demo_phone_lib ''x.org'' ''alice'' paying_server = (Inr pay, w1)"
    using not_isl_result [OF demo_discovered] by blast
  obtain resp w2 where c: "callback_request demo_env demo_phone_lib ''x.org'' ''alice'' demo_params w1 = (Inr resp, w2)"
    using not_isl_result [OF demo_called_back] p by (metis snd_conv)
  have "\<forall>k d. ev_others demo_env k d = d" by (simp add: demo_env_def)
  from callback_commits_to_metadata [OF demo_phone_lib_ok this p] have "pr_min_sendable pay \<le> pr_max_sendable pay" by blast
  with p c show ?thesis by blast
qed

definition demo_pending_invoice :: invoice where
  "demo_pending_invoice = \<lparr>inv_account_id = None, inv_provider = Some Spark, inv_wallet_kind = Some Btc,
     inv_wallet_id = None, inv_provider_payment_hash = None, inv_payment_hash = ''p1'', inv_user_pubkey = ''02aa'',
     inv_invoice = ''lnbc1'', inv_preimage = None, inv_expired_at = None, inv_invoice_expiry = 4600, inv_created_at = 1,
     inv_updated_at = 1, inv_domain = Some ''x.org'', inv_amount_received_sat = None\<rparr>"

definition preimage_server :: server where
  "preimage_server = demo_server\<lparr>sv_db := empty_db\<lparr>invoices := [demo_pending_invoice]\<rparr>\<rparr>"

abbreviation demo_notified :: "pay_request list" where
  "demo_notified \<equiv> [InvoicePaidReq ''02aa''
     \<lparr>iq_signature = ''02aap1-900'', iq_timestamp = 900, iq_preimage = ''p1''\<rparr>]"

definition paid_server :: server where
  "paid_server = fold (serve_pay demo_env demo_phone_lib (\<lambda>_. None)) demo_notified preimage_server"

lemma demo_settled:
  "map_option inv_preimage (get_invoice_by_payment_hash ''p1'' (sv_db paid_server)) = Some (Some ''p1'')"
  by code_simp

lemma demo_unpaid: "preimages_ok demo_crypto (sv_db preimage_server)"
  by code_simp

lemma demo_genuine: "preimages_ok demo_crypto (sv_db paid_server)"
  by code_simp

theorem preimages_genuine_witness:
  "\<exists>i \<in> set (invoices (sv_db paid_server)). inv_payment_hash i = ''p1'' \<and>
     (\<exists>b. hex_decode demo_crypto ''p1'' = Some b \<and> hex_encode demo_crypto (sha256_hash demo_crypto b) = ''p1'')"
proof -
  obtain i where i: "get_invoice_by_payment_hash ''p1'' (sv_db paid_server) = Some i" "inv_preimage i = Some ''p1''"
    using demo_settled by auto
  have e: "ev_crypto demo_env = demo_crypto" "\<forall>k d. ev_others demo_env k d = d" by (simp_all add: demo_env_def)
  have "\<forall>i \<in> set (invoices (sv_db paid_server)). \<forall>p. inv_preimage i = Some p \<longrightarrow>
    (\<exists>b. hex_decode demo_crypto p = Some b \<and> hex_encode demo_crypto (sha256_hash demo_crypto b) = inv_payment_hash i)"
    using preimages_genuine [of demo_env preimage_server demo_phone_lib "\<lambda>_. None" demo_notified] demo_unpaid e
    by (simp add: paid_server_def)
  with i(2) get_invoice_hash [OF i(1)] show ?thesis by (intro bexI [of _ i]) auto
qed

lemma demo_verified:
  "map_sum (\<lambda>_::unit. ()) (json_get ''settled'') (fst (verify demo_env ''p1'' paid_server)) = Inr (Some (JBool True))"
  by code_simp

theorem verify_truthful_witness:
  "\<exists>resp w'. verify demo_env ''p1'' paid_server = (Inr resp :: unit + json, w') \<and>
     (\<exists>p. json_get ''preimage'' resp = Some (JString p))"
proof -
  obtain resp w' where v: "verify demo_env ''p1'' paid_server = (Inr resp :: unit + json, w')"
    and s: "json_get ''settled'' resp = Some (JBool True)"
    using demo_verified
    by (cases "fst (verify demo_env ''p1'' paid_server :: (unit + json) \<times> server)"; cases "verify demo_env ''p1'' paid_server :: (unit + json) \<times> server") auto
  have "preimages_ok (ev_crypto demo_env) (sv_db paid_server)"
    "\<forall>k d. preimages_ok (ev_crypto demo_env) d \<longrightarrow> preimages_ok (ev_crypto demo_env) (ev_others demo_env k d)"
    using demo_genuine by (simp_all add: demo_env_def)
  from verify_truthful [OF v this s] v show ?thesis by blast
qed

end
