(* ===== verification/Lnurl_Zap_Thms.thy ===== *)
theory Lnurl_Zap_Thms
  imports Lnurl_Zap
begin

text \<open>
  The background drain of zap receipts: it returns, and leaves nothing that was due. The argument is
  on the receipts that are ready at some time of a span of thirty seconds, the shortest retry delay:
  every turn of the loop that is followed by another takes some of them, and what a turn does to a
  receipt keeps it from being ready again within the span.
\<close>

section \<open>Ready receipts\<close>

definition ready_keys :: "int set \<Rightarrow> db \<Rightarrow> string set" where
  "ready_keys S d = {h. \<exists>p \<in> set (pending_zap_receipts d). pz_payment_hash p = h \<and> (\<exists>t \<in> S. zap_ready t p)}"

abbreviation receipts_unique :: "db \<Rightarrow> bool" where
  "receipts_unique d \<equiv> unique_by pz_payment_hash (pending_zap_receipts d)"

lemma finite_ready_keys [simp]: "finite (ready_keys S d)"
proof -
  have "ready_keys S d \<subseteq> pz_payment_hash ` set (pending_zap_receipts d)" by (auto simp: ready_keys_def)
  then show ?thesis by (rule finite_subset) simp
qed

lemma ready_keys_Union: "ready_keys S d = (\<Union>t \<in> S. ready_keys {t} d)"
  by (auto simp: ready_keys_def)

lemma ready_keys_mono: "S \<subseteq> S' \<Longrightarrow> ready_keys S d \<subseteq> ready_keys S' d"
  by (auto simp: ready_keys_def)

text \<open>A change that keeps the keys unique and makes no receipt ready at a time of \<open>S\<close>.\<close>

definition no_new_ready :: "int set \<Rightarrow> nat \<Rightarrow> db \<Rightarrow> db \<Rightarrow> bool" where
  "no_new_ready S k d d' \<longleftrightarrow> (receipts_unique d \<longrightarrow> receipts_unique d' \<and> ready_keys S d' \<subseteq> ready_keys S d)"

lemma no_new_ready_frame: "pending_zap_receipts d' = pending_zap_receipts d \<Longrightarrow> no_new_ready S k d d'"
  by (simp add: no_new_ready_def ready_keys_def)

lemma delete_no_new_ready: "no_new_ready S k d (delete_pending_zap_receipt h d)"
proof -
  have "receipts_unique d \<Longrightarrow> receipts_unique (delete_pending_zap_receipt h d)"
    by (simp add: delete_pending_zap_receipt_def delete_where_def unique_by_def distinct_map_filter)
  then show ?thesis by (auto simp: no_new_ready_def ready_keys_def delete_pending_zap_receipt_def table_simps)
qed

lemma retry_no_new_ready:
  assumes "\<forall>t \<in> S. t < next"
  shows "no_new_ready S k d (update_pending_zap_receipt_retry h n next d)"
proof -
  have "\<not> zap_ready t (p\<lparr>pz_retry_count := n, pz_next_retry_at := next, pz_claimed_at := None\<rparr>)" if "t \<in> S" for t p
    using assms that by (auto simp: zap_ready_def ready_def)
  then show ?thesis
    by (auto simp: no_new_ready_def ready_keys_def update_pending_zap_receipt_retry_def table_simps unique_by_update)
qed

section \<open>Processing a receipt\<close>

lemma upsert_zap_pending: "upsert_zap z d = Inr d' \<Longrightarrow> pending_zap_receipts d' = pending_zap_receipts d"
  by (auto simp: upsert_zap_def split: if_splits)

lemma writes_publish: "writes env (no_new_ready S) (publish_zap_receipt env keys zap b p)"
  unfolding publish_zap_receipt_def
  by (intro writes_rules writes_update no_new_ready_frame refl) (erule upsert_zap_pending)

lemma writes_drop: "writes env (no_new_ready S) (drop_pending env h)"
  unfolding drop_pending_def by (intro writes_rules writes_exec delete_no_new_ready)

lemma writes_process:
  assumes clock: "\<And>k t. t \<in> S \<Longrightarrow> t < pl_now_millis (ev_lib env) k + 30000"
    and range: "\<And>t. t \<in> S \<Longrightarrow> t < i64_max"
  shows "writes env (no_new_ready S) (process_pending_zap_receipt env keys item)"
proof -
  have next_ok: "t < i64_saturating_add now (zap_next_retry_delay n)"
    if "read_millis env w = (Inr now, w')" "t \<in> S" for now w w' t n
  proof -
    have "t < now + 30000" using that clock by (simp add: act_iff)
    moreover have "30000 \<le> zap_next_retry_delay n"
      using delay_mono [of 0 n] delay_0 by (simp add: zap_next_retry_delay_eq)
    ultimately show ?thesis using range [OF that(2)] by (simp add: i64_saturating_add_def sat_i64_def)
  qed
  show ?thesis
    unfolding process_pending_zap_receipt_def Let_def
    by (intro writes_rules writes_on_result writes_publish writes_drop writes_exec retry_no_new_ready ballI next_ok)
qed

lemma writes_items:
  assumes "\<And>k t. t \<in> S \<Longrightarrow> t < pl_now_millis (ev_lib env) k + 30000" "\<And>t. t \<in> S \<Longrightarrow> t < i64_max"
  shows "writes env (no_new_ready S) (process_items env keys items)"
  by (induction items) (auto intro!: writes_rules writes_process [OF assms])

section \<open>Taking a batch\<close>

abbreviation taken_keys :: "u32 \<Rightarrow> int \<Rightarrow> db \<Rightarrow> string set" where
  "taken_keys limit now d \<equiv> pz_payment_hash ` set (fst (take_pending_zap_receipts limit now d))"

lemma taken_keys_eq: "taken_keys limit now d = zap_keys limit now d"
proof -
  have "zap_keys limit now d \<subseteq> pz_payment_hash ` set (pending_zap_receipts d)"
    using zap_keys_ready by (auto simp: image_iff) metis
  then show ?thesis
    unfolding take_pending_zap_receipts_eq fst_conv key_image_update [of pz_payment_hash "claim_zap now", OF claim_zap_key]
    by blast
qed

lemma taken_ready: "taken_keys limit now d \<subseteq> ready_keys {now} d"
  unfolding taken_keys_eq using zap_keys_ready by (fastforce simp: ready_keys_def)

lemma take_removes:
  assumes u: "receipts_unique d" and S: "\<And>t. t \<in> S \<Longrightarrow> 0 \<le> t \<and> t \<le> now + 300000"
  shows "ready_keys S (snd (take_pending_zap_receipts limit now d)) \<subseteq> ready_keys S d - taken_keys limit now d"
proof
  fix h
  let ?d' = "snd (take_pending_zap_receipts limit now d)"
  assume "h \<in> ready_keys S ?d'"
  then obtain p t where p: "p \<in> set (pending_zap_receipts ?d')" "pz_payment_hash p = h" and t: "t \<in> S" "zap_ready t p"
    by (auto simp: ready_keys_def)
  have n: "h \<notin> taken_keys limit now d"
    using zap_queue.grabbed_blocked [OF u _ p] S t by blast
  moreover have "p \<in> set (pending_zap_receipts d)"
    using p n unfolding zap_queue.grab_writes [OF u] by (auto simp: table_simps)
  ultimately show "h \<in> ready_keys S d - taken_keys limit now d" using p t by (auto simp: ready_keys_def)
qed

lemma take_short_takes_all:
  assumes u: "receipts_unique d" and short: "length (fst (take_pending_zap_receipts limit now d)) < unat limit"
  shows "taken_keys limit now d = ready_keys {now} d"
proof -
  let ?rs = "filter (zap_ready now) (pending_zap_receipts d)"
  have du: "distinct (map pz_payment_hash (sort_key pz_next_retry_at ?rs))"
    using u by (auto simp: unique_by_def distinct_map intro: inj_on_subset)
  have k: "taken_keys limit now d = pz_payment_hash ` set (take (unat limit) (sort_key pz_next_retry_at ?rs))"
    unfolding taken_keys_eq zap_keys_def ..
  have "length ?rs < unat limit"
  proof (rule ccontr)
    assume "\<not> length ?rs < unat limit"
    moreover have "distinct (take (unat limit) (map pz_payment_hash (sort_key pz_next_retry_at ?rs)))"
      using du by (rule distinct_take)
    ultimately have "card (taken_keys limit now d) = unat limit"
      using distinct_card [of "take (unat limit) (map pz_payment_hash (sort_key pz_next_retry_at ?rs))"]
      unfolding k by (simp add: take_map)
    moreover have "card (taken_keys limit now d) \<le> length (fst (take_pending_zap_receipts limit now d))"
      by (metis card_image_le card_length finite_set le_trans)
    ultimately show False using short by simp
  qed
  then have "taken_keys limit now d = pz_payment_hash ` set ?rs" unfolding k by simp
  then show ?thesis by (auto simp: ready_keys_def)
qed

section \<open>The loop\<close>

text \<open>Concurrent work on the queue that enqueues nothing and reschedules nothing into the span.\<close>

definition quiet_others :: "('k, 's) env \<Rightarrow> bool" where
  "quiet_others env \<longleftrightarrow> (\<forall>k d. receipts_unique d \<longrightarrow> receipts_unique (ev_others env k d) \<and>
     (\<forall>t. ready_keys {t} (ev_others env k d) \<subseteq> ready_keys {t} d))"

lemma quiet_othersD:
  assumes "quiet_others env" "receipts_unique d"
  shows "receipts_unique (ev_others env k d)" "ready_keys S (ev_others env k d) \<subseteq> ready_keys S d"
  using assms unfolding quiet_others_def ready_keys_Union [of S] by blast+

lemma served_no_new_ready:
  assumes "served env (no_new_ready S) d d'" "quiet_others env" "receipts_unique d"
  shows "receipts_unique d' \<and> ready_keys S d' \<subseteq> ready_keys S d"
  using assms(1,3)
proof (induction rule: served.induct)
  case (served_others d d1 k)
  then show ?case using quiet_othersD [OF assms(2)] by blast
qed (auto simp: no_new_ready_def)

text \<open>One turn, with the clock of every call in the span.\<close>

definition span :: "int \<Rightarrow> int set" where
  "span T = {T..<T + 30000}"

lemma items_effect:
  assumes q: "quiet_others env" and clock: "\<And>k. pl_now_millis (ev_lib env) k \<in> span T" "T + 30000 \<le> i64_max"
    and u: "receipts_unique (sv_db w)" and S: "S \<subseteq> span T"
  shows "receipts_unique (sv_db (snd (process_items env keys xs w))) \<and>
    ready_keys S (sv_db (snd (process_items env keys xs w))) \<subseteq> ready_keys S (sv_db w)"
proof (rule served_no_new_ready [OF _ q u])
  have "t < pl_now_millis (ev_lib env) k + 30000 \<and> t < i64_max" if "t \<in> S" for t k
  proof -
    have "t \<in> span T" using that S by blast
    with clock(1) [of k] clock(2) show ?thesis by (simp add: span_def)
  qed
  then have "writes env (no_new_ready S) (process_items env keys xs)" by (intro writes_items) blast+
  then show "served env (no_new_ready S) (sv_db w) (sv_db (snd (process_items env keys xs w)))"
    by (simp add: writes_def)
qed

text \<open>
  What fetching a batch at \<open>now\<close> does to the receipts ready at times of \<open>S\<close>: the ones it returns are
  no longer among them, and a batch that is not full has all that are ready now.
\<close>

lemma less_subset: "A \<subseteq> D - K \<Longrightarrow> K \<subseteq> D \<Longrightarrow> K \<noteq> {} \<Longrightarrow> D \<subseteq> W \<Longrightarrow> A \<subset> W"
  by blast

lemma take_batch_effect:
  assumes q: "quiet_others env" and u: "receipts_unique (sv_db w)"
    and clock: "pl_now_millis (ev_lib env) (sv_step w) \<in> span T" "0 \<le> T"
    and take: "take_batch env w = (r, w1)"
  shows "receipts_unique (sv_db w1)"
    and "S \<subseteq> span T \<Longrightarrow> ready_keys S (sv_db w1) \<subseteq> ready_keys S (sv_db w)"
    and "r = Inl e \<Longrightarrow> ev_fault env (sv_step w) \<noteq> Healthy"
    and "r = Inr xs \<Longrightarrow> xs \<noteq> [] \<Longrightarrow> ready_keys (span T) (sv_db w1) \<subset> ready_keys (span T) (sv_db w)"
    and "r = Inr xs \<Longrightarrow> length xs < 4 \<Longrightarrow> ready_keys {pl_now_millis (ev_lib env) (sv_step w)} (sv_db w1) = {}"
proof -
  let ?k = "sv_step w" let ?now = "pl_now_millis (ev_lib env) ?k"
  let ?d = "ev_others env ?k (sv_db w)"
  let ?t = "take_pending_zap_receipts ZAP_RECEIPT_BATCH_LIMIT ?now ?d"
  let ?taken = "taken_keys ZAP_RECEIPT_BATCH_LIMIT ?now ?d"
  have now: "T \<le> ?now" "?now < T + 30000" "{?now} \<subseteq> span T" using clock by (auto simp: span_def)
  have d: "receipts_unique ?d" "ready_keys S ?d \<subseteq> ready_keys S (sv_db w)" for S
    by (rule quiet_othersD [OF q u])+
  have t: "receipts_unique (snd ?t)" by (rule zap_queue.grab_keeps_keys [OF d(1)])
  have rm: "ready_keys S (snd ?t) \<subseteq> ready_keys S ?d - ?taken" if "S \<subseteq> span T" for S
    by (rule take_removes [OF d(1)]) (use that now clock(2) in \<open>auto simp: span_def\<close>)
  have four: "unat ZAP_RECEIPT_BATCH_LIMIT = 4" by (simp add: ZAP_RECEIPT_BATCH_LIMIT_def)
  have cases: "sv_db w1 = ?d \<and> r \<noteq> Inr xs \<or> sv_db w1 = snd ?t \<and> (r = Inr xs \<longrightarrow> xs = fst ?t)" for xs
    using take unfolding take_batch_def db_call_def Let_def by (cases "ev_fault env ?k") (auto simp: split_beta)
  show "receipts_unique (sv_db w1)" using cases [of "[]"] d(1) t by auto
  show "ready_keys S (sv_db w1) \<subseteq> ready_keys S (sv_db w)" if "S \<subseteq> span T"
    using cases [of "[]"] d(2) [of S] rm [OF that] by (elim disjE conjE) (simp_all, blast)
  show "r = Inl e \<Longrightarrow> ev_fault env ?k \<noteq> Healthy"
    using take unfolding take_batch_def db_call_def Let_def by (auto simp: split_beta)
  show "ready_keys (span T) (sv_db w1) \<subset> ready_keys (span T) (sv_db w)" if "r = Inr xs" "xs \<noteq> []"
  proof -
    have "sv_db w1 = snd ?t" "xs = fst ?t" using cases [of xs] that by blast+
    moreover have "?taken \<subseteq> ready_keys (span T) ?d"
      using taken_ready ready_keys_mono [OF now(3)] by blast
    moreover have "?taken \<noteq> {}" using calculation(2) that(2) by simp
    ultimately show ?thesis using less_subset [OF rm [OF subset_refl] _ _ d(2)] by simp
  qed
  show "ready_keys {?now} (sv_db w1) = {}" if "r = Inr xs" "length xs < 4"
  proof -
    have "sv_db w1 = snd ?t" "xs = fst ?t" using cases [of xs] that by blast+
    moreover from this(2) have "?taken = ready_keys {?now} ?d"
      using take_short_takes_all [OF d(1)] that(2) four by simp
    ultimately show ?thesis using rm [OF now(3)] by auto
  qed
qed

lemma receipt_round_effect:
  assumes q: "quiet_others env" and u: "receipts_unique (sv_db w)"
    and clock: "\<And>k. pl_now_millis (ev_lib env) k \<in> span T" and T: "0 \<le> T" "T + 30000 \<le> i64_max"
    and round: "receipt_round env keys w = (again, w')"
  shows "receipts_unique (sv_db w')"
    and "again \<Longrightarrow> card (ready_keys (span T) (sv_db w')) < card (ready_keys (span T) (sv_db w))"
    and "\<not> again \<Longrightarrow> ev_fault env (sv_step w) = Healthy \<Longrightarrow>
      ready_keys {pl_now_millis (ev_lib env) (sv_step w)} (sv_db w') = {}"
proof -
  obtain r w1 where t: "take_batch env w = (r, w1)" by (cases "take_batch env w")
  note te = take_batch_effect [OF q u clock T(1) t]
  have it: "receipts_unique (sv_db (snd (process_items env keys xs w1))) \<and>
      ready_keys S (sv_db (snd (process_items env keys xs w1))) \<subseteq> ready_keys S (sv_db w1)" if "S \<subseteq> span T" for S xs
    by (rule items_effect [OF q clock T(2) te(1) that])
  consider (lost) e where "r = Inl e" "\<not> again" "w' = w1"
    | (none) "r = Inr []" "\<not> again" "w' = w1"
    | (some) xs where "r = Inr xs" "xs \<noteq> []" "again = (\<not> length xs < 4)" "w' = snd (process_items env keys xs w1)"
    using round t by (cases r) (auto simp: receipt_round_def ZAP_RECEIPT_BATCH_LIMIT_def split: if_splits)
  then have "receipts_unique (sv_db w') \<and>
    (again \<longrightarrow> card (ready_keys (span T) (sv_db w')) < card (ready_keys (span T) (sv_db w))) \<and>
    (\<not> again \<longrightarrow> ev_fault env (sv_step w) = Healthy \<longrightarrow>
      ready_keys {pl_now_millis (ev_lib env) (sv_step w)} (sv_db w') = {})"
  proof cases
    case some
    have "ready_keys (span T) (sv_db w') \<subset> ready_keys (span T) (sv_db w)"
      using it [OF subset_refl, of xs] te(4) [OF some(1,2)] some(4) by blast
    then have "card (ready_keys (span T) (sv_db w')) < card (ready_keys (span T) (sv_db w))"
      by (rule psubset_card_mono [OF finite_ready_keys])
    have "{pl_now_millis (ev_lib env) (sv_step w)} \<subseteq> span T" using clock by simp
    note n = it [OF this, of xs]
    show ?thesis using n te(5) [OF some(1)] some(3,4) \<open>card _ < card _\<close> by auto
  qed (use te in simp_all)
  then show "receipts_unique (sv_db w')"
    "again \<Longrightarrow> card (ready_keys (span T) (sv_db w')) < card (ready_keys (span T) (sv_db w))"
    "\<not> again \<Longrightarrow> ev_fault env (sv_step w) = Healthy \<Longrightarrow>
      ready_keys {pl_now_millis (ev_lib env) (sv_step w)} (sv_db w') = {}"
    by blast+
qed

text \<open>
  C22: the drain returns. While the clock stays within thirty seconds and no one enqueues or
  reschedules receipts into that time, the loop ends, whatever the relays and the storage do; and
  when no call to the storage is lost, no receipt is left that was ready at the last fetch.
\<close>

theorem receipts_drained:
  assumes "quiet_others env" "receipts_unique (sv_db w)"
    and "\<forall>k. pl_now_millis (ev_lib env) k \<in> {T..<T + 30000}" "0 \<le> T" "T + 30000 \<le> i64_max"
  shows "\<exists>w'. process_pending_zap_receipts env keys w = Some w' \<and> receipts_unique (sv_db w') \<and>
    ((\<forall>k. ev_fault env k = Healthy) \<longrightarrow>
      (\<exists>k. \<forall>p \<in> set (pending_zap_receipts (sv_db w')). \<not> zap_ready (pl_now_millis (ev_lib env) k) p))"
  using assms(2)
proof (induction "card (ready_keys (span T) (sv_db w))" arbitrary: w rule: less_induct)
  case less
  obtain again w1 where r: "receipt_round env keys w = (again, w1)" by (cases "receipt_round env keys w")
  have clock: "\<And>k. pl_now_millis (ev_lib env) k \<in> span T" using assms(3) by (simp add: span_def)
  note e = receipt_round_effect [OF assms(1) less.prems clock assms(4,5) r]
  show ?case
  proof (cases again)
    case True
    with less.hyps [OF e(2) [OF True] e(1)] r show ?thesis
      by (subst process_pending_zap_receipts.simps) simp
  next
    case False
    have "process_pending_zap_receipts env keys w = Some w1"
      using False r by (subst process_pending_zap_receipts.simps) simp
    moreover have "\<forall>p \<in> set (pending_zap_receipts (sv_db w1)). \<not> zap_ready (pl_now_millis (ev_lib env) (sv_step w)) p"
      if "\<forall>k. ev_fault env k = Healthy"
      using e(3) [OF False] that by (auto simp: ready_keys_def)
    ultimately show ?thesis using e(1) by blast
  qed
qed

definition drain_env :: "(bytes, bytes) env" where
  "drain_env = demo_env\<lparr>ev_lib := demo_lib\<lparr>pl_now_millis := (\<lambda>_. 1000000)\<rparr>\<rparr>"

definition drain_server :: server where
  "drain_server = \<lparr>sv_db = empty_db\<lparr>pending_zap_receipts := map (new_pending_receipt 0) [''a'', ''b'', ''c'', ''d'', ''e'']\<rparr>,
     sv_ip_rate_limiter = limiter_new 10 60 100 True, sv_country_lookup_budget = budget_new 10 60 0,
     sv_legacy_verifies = replicate 7 0, sv_spawned = [], sv_usd_min_sendable_cache = None,
     sv_invoice_paid_triggers = 0, sv_step = 0\<rparr>"

theorem receipts_drained_witness:
  "\<exists>w'. process_pending_zap_receipts drain_env None drain_server = Some w' \<and>
     (\<forall>p \<in> set (pending_zap_receipts (sv_db w')). \<not> zap_ready 1000000 p)"
proof -
  have "quiet_others drain_env" by (simp add: quiet_others_def drain_env_def demo_env_def)
  moreover have "receipts_unique (sv_db drain_server)"
    by (simp add: drain_server_def empty_db_def new_pending_receipt_def unique_by_def)
  moreover have "\<forall>k. pl_now_millis (ev_lib drain_env) k \<in> {1000000..<1000000 + 30000}"
    by (simp add: drain_env_def)
  ultimately have "\<exists>w'. process_pending_zap_receipts drain_env None drain_server = Some w' \<and> receipts_unique (sv_db w') \<and>
    ((\<forall>k. ev_fault drain_env k = Healthy) \<longrightarrow>
      (\<exists>k. \<forall>p \<in> set (pending_zap_receipts (sv_db w')). \<not> zap_ready (pl_now_millis (ev_lib drain_env) k) p))"
    by (rule receipts_drained) simp_all
  then show ?thesis by (auto simp: drain_env_def demo_env_def)
qed

end
