(* ===== verification/Lnurl_Settlement_Thms.thy ===== *)
theory Lnurl_Settlement_Thms
  imports Lnurl_Zap_Thms Lnurl_Pay_Thms
begin

text \<open>
  What one settlement records when nobody else writes, and what is lost when the reply to its first
  write is.
\<close>

section \<open>Frames\<close>

lemma quiet_frame:
  assumes "writes env (\<lambda>k d d'. f d' = f d) m" "\<forall>k d. ev_others env k d = d"
  shows "f (sv_db (snd (m w))) = f (sv_db w)"
proof -
  have "served env (\<lambda>k d d'. f d' = f d) (sv_db w) (sv_db (snd (m w)))" using assms(1) by (simp add: writes_def)
  then show ?thesis by (induction rule: served.induct) (auto simp: assms(2))
qed

lemma pending_insert_deliveries [simp]:
  "pending_zap_receipts (insert_webhook_deliveries now ws d) = pending_zap_receipts d"
  "pending_zap_receipts (insert_webhook_deliveries_pg now ws d) = pending_zap_receipts d"
proof -
  have "pending_zap_receipts (insert_webhook_delivery now w d) = pending_zap_receipts d" for w d
    by (simp add: insert_webhook_delivery_def)
  then have "pending_zap_receipts (fold (insert_webhook_delivery now) ws d) = pending_zap_receipts d"
    by (induction ws arbitrary: d) simp_all
  then show "pending_zap_receipts (insert_webhook_deliveries now ws d) = pending_zap_receipts d"
    by (simp add: insert_webhook_deliveries_def)
  have "pending_zap_receipts (insert_candidates_pg now xs d) = pending_zap_receipts d" for xs
    by (induction now xs d rule: insert_candidates_pg.induct) simp_all
  then show "pending_zap_receipts (insert_webhook_deliveries_pg now ws d) = pending_zap_receipts d"
    by (simp add: insert_webhook_deliveries_pg_def)
qed

lemma notify_frame:
  assumes "\<forall>k d. ev_others env k d = d"
  shows "invoices (sv_db (snd (notify_webhooks env hs w))) = invoices (sv_db w)"
    and "pending_zap_receipts (sv_db (snd (notify_webhooks env hs w))) = pending_zap_receipts (sv_db w)"
proof -
  have "invoices (on_backend b insert_webhook_deliveries insert_webhook_deliveries_pg now ws d) = invoices d"
    "pending_zap_receipts (on_backend b insert_webhook_deliveries insert_webhook_deliveries_pg now ws d) = pending_zap_receipts d"
    for b now ws d by (cases b; simp)+
  then have "writes env (\<lambda>k d d'. invoices d' = invoices d) (notify_webhooks env hs)"
    "writes env (\<lambda>k d d'. pending_zap_receipts d' = pending_zap_receipts d) (notify_webhooks env hs)"
    unfolding notify_webhooks_def by (intro writes_rules writes_exec; simp)+
  then show "invoices (sv_db (snd (notify_webhooks env hs w))) = invoices (sv_db w)"
    "pending_zap_receipts (sv_db (snd (notify_webhooks env hs w))) = pending_zap_receipts (sv_db w)"
    using quiet_frame assms by blast+
qed

section \<open>Notification\<close>

lemma deliveries_inserted:
  assumes "nw \<in> set ws"
  shows "exists_where (same_delivery nw)
    (webhook_deliveries (on_backend b insert_webhook_deliveries insert_webhook_deliveries_pg now ws d))"
proof -
  have s: "exists_where (same_delivery nw) (webhook_deliveries (insert_webhook_deliveries now ws d))"
    using fold_insert_known [OF assms] by (simp add: insert_webhook_deliveries_def del: exists_where_iff) (use assms in auto)
  moreover have "exists_where (same_delivery nw) (webhook_deliveries (insert_webhook_deliveries_pg now ws d))"
    using s by (metis exists_content insert_deliveries_backends)
  ultimately show ?thesis by (cases b) (simp_all del: exists_where_iff)
qed

lemma payload_found:
  assumes "i \<in> set (invoices d)" "inv_payment_hash i = h" "inv_domain i = Some dn" "inv_preimage i = Some p"
  shows "\<exists>x \<in> set (get_webhook_payloads [h] d). wp_payment_hash x = h \<and> wp_domain x = dn"
proof -
  obtain x where x: "payload_row d i = Some x" "wp_payment_hash x = h" "wp_domain x = dn"
    using assms by (auto simp: payload_row_def Let_def)
  have "x \<in> set (List.map_filter (payload_row d) (filter (\<lambda>i. inv_payment_hash i \<in> set [h]) (invoices d)))"
    unfolding set_map_filter_eq using x(1) assms(1,2) by auto
  with x show ?thesis by (auto simp: get_webhook_payloads_def)
qed

lemma notify_delivers:
  assumes "\<forall>k d. ev_others env k d = d" "\<forall>k. ev_fault env k = Healthy"
    and "i \<in> set (invoices (sv_db w))" "inv_payment_hash i = h" "inv_domain i = Some dn" "inv_preimage i = Some p"
  shows "\<exists>r \<in> set (webhook_deliveries (sv_db (snd (notify_webhooks env [h] w)))). wd_identifier r = h \<and> wd_domain r = dn"
proof -
  obtain x where x: "x \<in> set (get_webhook_payloads [h] (sv_db w))" "wp_payment_hash x = h" "wp_domain x = dn"
    using payload_found [OF assms(3-6)] by blast
  define now where "now = pl_now_millis (ev_lib env) (Suc (sv_step w))"
  define ws where "ws = map (delivery_of env now) (get_webhook_payloads [h] (sv_db w))"
  have "delivery_of env now x \<in> set ws" using x(1) by (simp add: ws_def)
  note del = deliveries_inserted [OF this, of "ev_backend env" "pl_now_millis (ev_lib env) (Suc (Suc (sv_step w)))" "sv_db w"]
  have "get_webhook_payloads [h] (sv_db w) \<noteq> []" using x(1) by auto
  then have "sv_db (snd (notify_webhooks env [h] w)) = on_backend (ev_backend env) insert_webhook_deliveries
      insert_webhook_deliveries_pg (pl_now_millis (ev_lib env) (Suc (Suc (sv_step w)))) ws (sv_db w)"
    using assms(1,2)
    by (simp add: notify_webhooks_def bind_act_def db_read_def db_exec_def db_call_def read_millis_def ws_def now_def Let_def)
  with del show ?thesis using x(2,3) by (auto simp: same_delivery_def delivery_of_def)
qed

section \<open>Settlement\<close>

lemma db_update_trigger:
  "db_update env f w = (Inr y, w') \<Longrightarrow> sv_invoice_paid_triggers w' = sv_invoice_paid_triggers w"
  by (auto simp: db_update_def db_call_def Let_def tick_def split: fault.splits)

lemma handle_invoice_paid_run:
  assumes run: "handle_invoice_paid env h p a w = (Inr u, w')" and quiet: "\<forall>k d. ev_others env k d = d"
    and found: "get_invoice_by_payment_hash h (sv_db w) = Some i"
  obtains w1 :: server and now now' where "sv_invoice_paid_triggers w1 = sv_invoice_paid_triggers w"
    "inv_preimage i \<noteq> None \<Longrightarrow> sv_db w1 = sv_db w"
    "inv_preimage i = None \<Longrightarrow> \<exists>d. upsert_invoice (with_preimage p a now i) (sv_db w) = Inr d \<and>
       sv_db w1 = insert_pending_zap_receipt (new_pending_receipt now' h) d"
    "w' = snd (send_trigger (snd (notify_webhooks env [h] w1)) :: (unit + unit) \<times> server)"
proof -
  define w0 where "w0 = tick (tick w)"
  have o: "ev_others env k d = d" for k d using quiet by simp
  let ?now = "pl_now_millis (ev_lib env) (sv_step w)"
  obtain w1 where w1: "inv_preimage i = None \<and> (\<exists>wa. db_update env (upsert_invoice (with_preimage p a ?now i)) w0 = (Inr (), wa) \<and>
        enqueue_zap_receipt env h wa = (Inr (), w1)) \<or> inv_preimage i \<noteq> None \<and> w1 = w0"
    and w': "w' = snd (send_trigger (snd (notify_webhooks env [h] w1)) :: (unit + unit) \<times> server)"
    using run found unfolding handle_invoice_paid_def
    by (simp add: act_iff o w0_def tick_def ignore_err_def send_trigger_def) blast
  show thesis
  proof (cases "inv_preimage i")
    case (Some q)
    with w1 w' that [of w1] show thesis by (simp add: w0_def)
  next
    case None
    with w1 obtain wa where u: "db_update env (upsert_invoice (with_preimage p a ?now i)) w0 = (Inr (), wa)"
      and e: "enqueue_zap_receipt env h wa = (Inr (), w1)" by auto
    have "upsert_invoice (with_preimage p a ?now i) (sv_db w) = Inr (sv_db wa)"
      "sv_invoice_paid_triggers wa = sv_invoice_paid_triggers w"
      using u db_update_trigger [OF u] by (auto simp: db_update_iff o w0_def)
    moreover have "sv_db w1 = insert_pending_zap_receipt (new_pending_receipt (pl_now_millis (ev_lib env) (sv_step wa)) h) (sv_db wa)"
      "sv_invoice_paid_triggers w1 = sv_invoice_paid_triggers wa"
      using e by (auto simp: enqueue_zap_receipt_def act_iff o)
    ultimately show thesis using None w' by (intro that [of w1 ?now]) (auto simp: w0_def)
  qed
qed

lemma writes_notify_triggers [simp]:
  "sv_invoice_paid_triggers (snd (notify_webhooks env hs w)) = sv_invoice_paid_triggers w"
  by (auto simp: notify_webhooks_def bind_act_def db_read_def db_exec_def db_call_def read_millis_def ret_def Let_def tick_def
      split: fault.splits sum.splits prod.splits)

lemma upserted_invoice:
  assumes "upsert_invoice j d = Inr d'" "inv_payment_hash j = h" "get_invoice_by_payment_hash h d = Some i"
  shows "get_invoice_by_payment_hash h d' = Some (merge_invoice i j)"
    and "h' \<noteq> h \<Longrightarrow> get_invoice_by_payment_hash h' d' = get_invoice_by_payment_hash h' d"
    and "pending_zap_receipts d' = pending_zap_receipts d"
proof -
  have d': "d' = d\<lparr>invoices := upsert_on inv_payment_hash merge_invoice j (invoices d)\<rparr>"
    using assms(1) by (simp add: upsert_invoice_def split: if_splits)
  show "get_invoice_by_payment_hash h d' = Some (merge_invoice i j)"
    using assms(2,3) invoice_table.lookup_upsert_same [of j "invoices d"] by (simp add: d' get_invoice_by_payment_hash_def)
  show "h' \<noteq> h \<Longrightarrow> get_invoice_by_payment_hash h' d' = get_invoice_by_payment_hash h' d"
    using assms(2) invoice_table.lookup_upsert_other [of h' j "invoices d"] by (simp add: d' get_invoice_by_payment_hash_def)
  show "pending_zap_receipts d' = pending_zap_receipts d" by (simp add: d')
qed

lemma receipt_inserted:
  "\<exists>r \<in> set (pending_zap_receipts (insert_pending_zap_receipt (new_pending_receipt now h) d)). pz_payment_hash r = h"
  by (auto simp: insert_pending_zap_receipt_def new_pending_receipt_def insert_ignore_def exists_where_iff)

text \<open>
  C26: what settling an invoice records. While nobody else writes, a settlement that succeeds
  leaves the invoice paid: an unpaid one gets exactly the given preimage and amount, loses its
  expiry mark and has a pending zap receipt, a paid one is left as it was. No other invoice changes,
  the background processors are woken once, and when no call is lost the notification for the domain
  of the invoice is in the delivery queue.
\<close>

theorem settlement_recorded:
  assumes run: "handle_invoice_paid env h p a w = (Inr u, w')" and quiet: "\<forall>k d. ev_others env k d = d"
    and found: "get_invoice_by_payment_hash h (sv_db w) = Some i"
  shows "\<exists>row. get_invoice_by_payment_hash h (sv_db w') = Some row \<and>
    (inv_preimage i = None \<longrightarrow> inv_preimage row = Some p \<and> inv_amount_received_sat row = a \<and>
      inv_expired_at row = None \<and> inv_domain row = inv_domain i \<and>
      (\<exists>r \<in> set (pending_zap_receipts (sv_db w')). pz_payment_hash r = h)) \<and>
    (inv_preimage i \<noteq> None \<longrightarrow> row = i \<and> pending_zap_receipts (sv_db w') = pending_zap_receipts (sv_db w)) \<and>
    (\<forall>h'. h' \<noteq> h \<longrightarrow> get_invoice_by_payment_hash h' (sv_db w') = get_invoice_by_payment_hash h' (sv_db w)) \<and>
    sv_invoice_paid_triggers w' = sv_invoice_paid_triggers w + 1 \<and>
    (\<forall>dn. (\<forall>k. ev_fault env k = Healthy) \<and> inv_domain i = Some dn \<longrightarrow>
      (\<exists>r \<in> set (webhook_deliveries (sv_db w')). wd_identifier r = h \<and> wd_domain r = dn))"
proof -
  obtain w1 :: server and now now' where w1: "sv_invoice_paid_triggers w1 = sv_invoice_paid_triggers w"
    "inv_preimage i \<noteq> None \<Longrightarrow> sv_db w1 = sv_db w"
    "inv_preimage i = None \<Longrightarrow> \<exists>d. upsert_invoice (with_preimage p a now i) (sv_db w) = Inr d \<and>
       sv_db w1 = insert_pending_zap_receipt (new_pending_receipt now' h) d"
    and w': "w' = snd (send_trigger (snd (notify_webhooks env [h] w1)) :: (unit + unit) \<times> server)"
    using handle_invoice_paid_run [OF run quiet found] by blast
  let ?j = "with_preimage p a now i"
  have i: "inv_payment_hash i = h" "inv_payment_hash ?j = h"
    using get_invoice_hash [OF found] by (simp_all add: with_preimage_def)
  have db: "sv_db w' = sv_db (snd (notify_webhooks env [h] w1))"
    and trigger: "sv_invoice_paid_triggers w' = sv_invoice_paid_triggers w + 1"
    by (simp_all add: w' send_trigger_def w1(1))
  have frame: "get_invoice_by_payment_hash x (sv_db w') = get_invoice_by_payment_hash x (sv_db w1)"
    "pending_zap_receipts (sv_db w') = pending_zap_receipts (sv_db w1)" for x
    using notify_frame [OF quiet] by (simp_all add: db get_invoice_by_payment_hash_def)
  define row where "row = (if inv_preimage i = None then merge_invoice i ?j else i)"
  have g: "get_invoice_by_payment_hash h (sv_db w1) = Some row \<and>
    (h' \<noteq> h \<longrightarrow> get_invoice_by_payment_hash h' (sv_db w1) = get_invoice_by_payment_hash h' (sv_db w))" for h'
  proof (cases "inv_preimage i")
    case None
    with w1(3) obtain d where d: "upsert_invoice ?j (sv_db w) = Inr d"
      "sv_db w1 = insert_pending_zap_receipt (new_pending_receipt now' h) d" by blast
    have "get_invoice_by_payment_hash x (sv_db w1) = get_invoice_by_payment_hash x d" for x
      by (simp add: d(2) get_invoice_by_payment_hash_def)
    with upserted_invoice [OF d(1) i(2) found] None show ?thesis by (simp add: row_def)
  qed (use w1(2) found in \<open>simp add: row_def\<close>)
  have r: "inv_preimage row \<noteq> None" "inv_domain row = inv_domain i" "inv_payment_hash row = h"
    "inv_preimage i = None \<Longrightarrow> inv_preimage row = Some p \<and> inv_amount_received_sat row = a \<and> inv_expired_at row = None"
    by (auto simp: row_def merge_invoice_def merged_expired_at_def with_preimage_def i)
  have "\<exists>r \<in> set (pending_zap_receipts (sv_db w')). pz_payment_hash r = h" if "inv_preimage i = None"
    using w1(3) [OF that] receipt_inserted frame(2) by metis
  moreover have "\<exists>r \<in> set (webhook_deliveries (sv_db w')). wd_identifier r = h \<and> wd_domain r = dn"
    if "\<forall>k. ev_fault env k = Healthy" "inv_domain i = Some dn" for dn
  proof -
    obtain q where "inv_preimage row = Some q" using r(1) by blast
    moreover have "row \<in> set (invoices (sv_db w1))" using g get_invoice_hash by blast
    ultimately show ?thesis
      unfolding db using r(2,3) that notify_delivers [OF quiet that(1), of row w1 h dn q] by simp
  qed
  ultimately show ?thesis
    using g r w1(2) frame trigger by (intro exI [of _ row]) (auto simp: row_def)
qed


section \<open>A demonstration run\<close>

definition unpaid_invoice :: invoice where
  "unpaid_invoice = the (get_invoice_by_payment_hash ''p1'' (sv_db preimage_server))"

lemma demo_unpaid_invoice:
  "get_invoice_by_payment_hash ''p1'' (sv_db preimage_server) = Some unpaid_invoice"
  "inv_preimage unpaid_invoice = None" "inv_domain unpaid_invoice = Some ''x.org''"
  "account_ref_ok (sv_db preimage_server) (inv_account_id unpaid_invoice)"
proof -
  have "map_option (\<lambda>i. (inv_preimage i, inv_domain i, account_ref_ok (sv_db preimage_server) (inv_account_id i)))
    (get_invoice_by_payment_hash ''p1'' (sv_db preimage_server)) = Some (None, Some ''x.org'', True)" by code_simp
  then show "get_invoice_by_payment_hash ''p1'' (sv_db preimage_server) = Some unpaid_invoice"
    "inv_preimage unpaid_invoice = None" "inv_domain unpaid_invoice = Some ''x.org''"
    "account_ref_ok (sv_db preimage_server) (inv_account_id unpaid_invoice)"
    by (auto simp: unpaid_invoice_def)
qed

lemma demo_paid: "\<not> isl (fst (handle_invoice_paid demo_env ''p1'' ''p1'' (Some 21) preimage_server))"
  by code_simp

theorem settlement_recorded_witness:
  "\<exists>w' row. handle_invoice_paid demo_env ''p1'' ''p1'' (Some 21) preimage_server = (Inr (), w') \<and>
     get_invoice_by_payment_hash ''p1'' (sv_db w') = Some row \<and> inv_amount_received_sat row = Some 21 \<and>
     (\<exists>r \<in> set (webhook_deliveries (sv_db w')). wd_domain r = ''x.org'')"
proof -
  obtain w' where r: "handle_invoice_paid demo_env ''p1'' ''p1'' (Some 21) preimage_server = (Inr (), w')"
    using not_isl_result [OF demo_paid] by auto
  have "\<forall>k d. ev_others demo_env k d = d" "\<forall>k. ev_fault demo_env k = Healthy" by (simp_all add: demo_env_def)
  with settlement_recorded [OF r this(1) demo_unpaid_invoice(1)] demo_unpaid_invoice r show ?thesis by blast
qed

definition losing_env :: "(bytes, bytes) env" where
  "losing_env = demo_env\<lparr>ev_fault := (\<lambda>k. if k = sv_step preimage_server + 2 then LostReply else Healthy)\<rparr>"

definition losing_server :: server where
  "losing_server = snd (handle_invoice_paid losing_env ''p1'' ''p1'' (Some 21) preimage_server)"

lemma demo_retried: "\<not> isl (fst (handle_invoice_paid losing_env ''p1'' ''p1'' (Some 21) losing_server))"
  by code_simp


end
