(* ===== verification/Lnurl_Internal.thy ===== *)
theory Lnurl_Internal
  imports Lnurl_Pay
begin

text \<open>
  The internal API: the certificate check of \<open>auth.rs\<close>, the token check of \<open>internal_auth.rs\<close> and the
  routes of \<open>routes/internal.rs\<close>, with the order \<open>main.rs\<close> mounts them in. Parsing certificates and
  web tokens, checking their signatures and decoding bodies are functions of \<open>token_lib\<close>.
\<close>

section \<open>Libraries\<close>

datatype jwt_algorithm = RS256 | Other_Algorithm

record jwt_header =
  jh_alg :: jwt_algorithm
  jh_kid :: "string option"

text \<open>A key of the published set: its id and what \<open>DecodingKey::from_jwk\<close> makes of it.\<close>

record 'd jwk =
  jk_kid :: "string option"
  jk_decoding_key :: "'d option"

record internal_claims =
  cm_sub :: "string option"
  cm_scope :: "json option"
  cm_scp :: "json option"
  cm_scopes :: "json option"

text \<open>What \<open>decode\<close> is told to check of a token besides its signature.\<close>

record jwt_validation =
  jv_algorithm :: jwt_algorithm
  jv_validate_nbf :: bool
  jv_issuer :: "string list"
  jv_audience :: "string list"
  jv_required_spec_claims :: "string list"

record internal_transfer_request =
  it_domain :: string
  it_identifier :: string
  it_destination_spark_pubkey :: string
  it_description :: string

text \<open>\<open>tl_decode\<close> depends on the moment of the call, since it compares the expiry with the clock.\<close>

record ('c, 'd) token_lib =
  tl_base64_decode :: "string \<Rightarrow> bytes option"
  tl_certificate_from_der :: "bytes \<Rightarrow> 'c option"
  tl_issuer :: "'c \<Rightarrow> bytes"
  tl_subject :: "'c \<Rightarrow> bytes"
  tl_verify_signature :: "'c \<Rightarrow> 'c \<Rightarrow> bool"
  tl_serial :: "'c \<Rightarrow> string"
  tl_jwks_from_str :: "string \<Rightarrow> 'd jwk list option"
  tl_decode_header :: "string \<Rightarrow> jwt_header option"
  tl_decode :: "nat \<Rightarrow> string \<Rightarrow> 'd \<Rightarrow> jwt_validation \<Rightarrow> internal_claims option"
  tl_update_from_slice :: "bytes \<Rightarrow> string option"
  tl_transfer_from_slice :: "bytes \<Rightarrow> internal_transfer_request option"

section \<open>Client certificates\<close>

text \<open>\<open>str::trim_start_matches\<close> with a string pattern.\<close>

function trim_start_matches :: "string \<Rightarrow> string \<Rightarrow> string" where
  "trim_start_matches p s =
     (if p \<noteq> [] \<and> starts_with s p then trim_start_matches p (drop (length p) s) else s)"
  by pat_completeness auto
termination
proof (relation "measure (\<lambda>(p, s). length s)")
  fix p s :: string
  assume "p \<noteq> [] \<and> starts_with s p"
  then have "s \<noteq> []" "p \<noteq> []" by (auto simp: starts_with_def)
  then show "((p, drop (length p) s), (p, s)) \<in> measure (\<lambda>(p, s). length s)" by (simp add: diff_less)
qed simp

declare trim_start_matches.simps [simp del]

definition header_str :: "header_map \<Rightarrow> string \<Rightarrow> string option" where
  "header_str headers name = Option.bind (headers name) to_str"

definition verify_cert_against_ca :: "('c, 'd) token_lib \<Rightarrow> 'c \<Rightarrow> 'c \<Rightarrow> unit + unit" where
  "verify_cert_against_ca lib cert ca =
     (if tl_issuer lib cert \<noteq> tl_subject lib ca then Inl ()
      else if \<not> tl_verify_signature lib cert ca then Inl () else Inr ())"

definition auth ::
  "('c, 'd) token_lib \<Rightarrow> bytes option \<Rightarrow> string set \<Rightarrow> bool \<Rightarrow> header_map \<Rightarrow> nat + unit" where
  "auth lib ca_cert crl is_options headers =
     (if is_options then Inr ()
      else case ca_cert of
        None \<Rightarrow> Inr ()
      | Some ca_der \<Rightarrow>
          bind_res (ok_or INTERNAL_SERVER_ERROR (tl_certificate_from_der lib ca_der)) (\<lambda>ca.
          bind_res (ok_or UNAUTHORIZED (header_str headers ''authorization'')) (\<lambda>h.
          bind_res (ok_or UNAUTHORIZED (tl_base64_decode lib (trim (trim_start_matches ''Bearer '' h)))) (\<lambda>der.
          bind_res (ok_or UNAUTHORIZED (tl_certificate_from_der lib der)) (\<lambda>cert.
          bind_res (map_err (\<lambda>_. UNAUTHORIZED) (verify_cert_against_ca lib cert ca)) (\<lambda>_.
          if tl_serial lib cert \<in> crl then Inl UNAUTHORIZED else Inr ()))))))"

section \<open>Internal tokens\<close>

abbreviation SCOPE_BLINK_ACCOUNTS_CREATE :: string where
  "SCOPE_BLINK_ACCOUNTS_CREATE \<equiv> ''blink:accounts:create''"
abbreviation SCOPE_BLINK_ACCOUNTS_READ :: string where
  "SCOPE_BLINK_ACCOUNTS_READ \<equiv> ''blink:accounts:read''"
abbreviation SCOPE_BLINK_ACCOUNTS_UPDATE :: string where
  "SCOPE_BLINK_ACCOUNTS_UPDATE \<equiv> ''blink:accounts:update''"
abbreviation SCOPE_BLINK_TRANSFERS_WRITE :: string where
  "SCOPE_BLINK_TRANSFERS_WRITE \<equiv> ''blink:transfers:write''"

record 'd internal_auth_state =
  ia_keys :: "string \<rightharpoonup> 'd"
  ia_issuer :: string
  ia_audience :: string

record internal_principal =
  pn_subject :: "string option"
  pn_scopes :: "string set"

datatype internal_auth_error =
    InvalidJwks | MissingKid | InvalidKey | MissingBearer | InvalidHeader | MissingTokenKid | UnknownKid
  | UnsupportedAlgorithm | InvalidToken

text \<open>The keys by id; a later key replaces an earlier one with the same id.\<close>

fun insert_keys :: "'d jwk list \<Rightarrow> (string \<rightharpoonup> 'd) \<Rightarrow> internal_auth_error + (string \<rightharpoonup> 'd)" where
  "insert_keys [] keys = Inr keys"
| "insert_keys (k # ks) keys =
     bind_res (ok_or MissingKid (jk_kid k)) (\<lambda>kid.
     bind_res (ok_or InvalidKey (jk_decoding_key k)) (\<lambda>d. insert_keys ks (keys(kid \<mapsto> d))))"

definition from_jwks_json ::
  "('c, 'd) token_lib \<Rightarrow> string \<Rightarrow> string \<Rightarrow> string \<Rightarrow> internal_auth_error + 'd internal_auth_state" where
  "from_jwks_json lib jwks_json issuer audience =
     bind_res (ok_or InvalidJwks (tl_jwks_from_str lib jwks_json)) (\<lambda>jwks.
     bind_res (insert_keys jwks Map.empty) (\<lambda>keys.
     Inr \<lparr>ia_keys = keys, ia_issuer = issuer, ia_audience = audience\<rparr>))"

text \<open>\<open>str::split_whitespace\<close>.\<close>

function split_whitespace :: "string \<Rightarrow> string list" where
  "split_whitespace s =
     (case dropWhile is_whitespace s of
        [] \<Rightarrow> []
      | c # cs \<Rightarrow> takeWhile (\<lambda>c. \<not> is_whitespace c) (c # cs) #
          split_whitespace (dropWhile (\<lambda>c. \<not> is_whitespace c) cs))"
  by pat_completeness auto
termination
proof (relation "measure length")
  fix s c cs
  assume "dropWhile is_whitespace s = c # cs"
  then have "length cs < length s" using length_dropWhile_le [of is_whitespace s] by simp
  then show "(dropWhile (\<lambda>c. \<not> is_whitespace c) cs, s) \<in> measure length"
    using length_dropWhile_le [of "\<lambda>c. \<not> is_whitespace c" cs] by simp
qed simp

declare split_whitespace.simps [simp del]

datatype scope_shape = StringOnly | StringOrArray

definition extend_scopes :: "string set \<Rightarrow> json option \<Rightarrow> scope_shape \<Rightarrow> string set" where
  "extend_scopes scopes value shape =
     (case value of
        Some (JString s) \<Rightarrow> scopes \<union> set (split_whitespace s)
      | Some (JArray items) \<Rightarrow>
          if shape = StringOrArray \<and> list_all (\<lambda>i. as_str i \<noteq> None) items
          then scopes \<union> set (List.map_filter as_str items) else scopes
      | _ \<Rightarrow> scopes)"

definition parse_scopes :: "internal_claims \<Rightarrow> string set" where
  "parse_scopes claims =
     (let scopes = extend_scopes {} (cm_scope claims) StringOnly;
          scopes = extend_scopes scopes (cm_scp claims) StringOrArray
      in extend_scopes scopes (cm_scopes claims) StringOrArray)"

definition bearer_token :: "header_map \<Rightarrow> internal_auth_error + string" where
  "bearer_token headers =
     bind_res (ok_or MissingBearer (header_str headers ''authorization'')) (\<lambda>h.
     if \<not> starts_with h ''Bearer '' then Inl MissingBearer
     else let token = drop 7 h in
       if token = [] \<or> list_ex is_whitespace token then Inl MissingBearer else Inr token)"

definition validation_of :: "'d internal_auth_state \<Rightarrow> jwt_validation" where
  "validation_of st = \<lparr>jv_algorithm = RS256, jv_validate_nbf = True, jv_issuer = [ia_issuer st],
     jv_audience = [ia_audience st], jv_required_spec_claims = [''exp'', ''nbf'', ''iss'', ''aud'']\<rparr>"

definition validate_internal_token ::
  "('c, 'd) token_lib \<Rightarrow> 'd internal_auth_state \<Rightarrow> string \<Rightarrow> (internal_auth_error, internal_principal) action" where
  "validate_internal_token lib st token =
     bind_act (lift (ok_or InvalidHeader (tl_decode_header lib token))) (\<lambda>header.
     if jh_alg header \<noteq> RS256 then fail UnsupportedAlgorithm
     else
     bind_act (lift (ok_or MissingTokenKid (jh_kid header))) (\<lambda>kid.
     bind_act (lift (ok_or UnknownKid (ia_keys st kid))) (\<lambda>key.
     bind_act (ask (\<lambda>k. tl_decode lib k token key (validation_of st))) (\<lambda>reply.
     bind_act (lift (ok_or InvalidToken reply)) (\<lambda>claims.
     ret \<lparr>pn_subject = cm_sub claims, pn_scopes = parse_scopes claims\<rparr>)))))"

text \<open>A preflight request passes without a principal.\<close>

definition internal_auth ::
  "('c, 'd) token_lib \<Rightarrow> 'd internal_auth_state option \<Rightarrow> bool \<Rightarrow> header_map \<Rightarrow> (nat, internal_principal option) action" where
  "internal_auth lib auth_state is_options headers =
     (if is_options then ret None
      else
      bind_act (lift (ok_or UNAUTHORIZED auth_state)) (\<lambda>st.
      bind_act (lift (map_err (\<lambda>_. UNAUTHORIZED) (bearer_token headers))) (\<lambda>token.
      bind_act (map_err_act (\<lambda>_. UNAUTHORIZED) (validate_internal_token lib st token)) (\<lambda>caller.
      ret (Some caller)))))"

type_synonym internal_error = "nat \<times> string"

definition require_scope :: "internal_principal \<Rightarrow> string \<Rightarrow> internal_error + unit" where
  "require_scope caller scope =
     (if scope \<in> pn_scopes caller then Inr () else Inl (FORBIDDEN, ''forbidden''))"

section \<open>Requests and responses\<close>

record create_blink_request =
  cb_domain :: string
  cb_blink_account_id :: string
  cb_btc_wallet_id :: string
  cb_usd_wallet_id :: string
  cb_default_wallet :: string
  cb_description :: string
  cb_identifiers :: "string list"

record identifier_response =
  ir_identifier :: string
  ir_kind :: string
  ir_description :: string

record create_blink_response =
  cr_account_id :: string
  cr_provider :: string
  cr_blink_account_id :: string
  cr_btc_wallet_id :: string
  cr_usd_wallet_id :: string
  cr_default_wallet :: string
  cr_domain :: string
  cr_identifiers :: "identifier_response list"

record update_blink_response =
  ur_account_id :: string
  ur_provider :: string
  ur_blink_account_id :: string
  ur_default_wallet :: string

record provider_details_response =
  dr_spark_pubkey :: "string option"
  dr_blink_account_id :: "string option"
  dr_btc_wallet_id :: "string option"
  dr_usd_wallet_id :: "string option"
  dr_default_wallet :: "string option"

record lookup_response =
  lr_provider :: string
  lr_account_id :: string
  lr_domain :: string
  lr_identifier :: string
  lr_identifier_kind :: string
  lr_description :: string
  lr_requested_wallet :: "string option"
  lr_provider_details :: provider_details_response

record internal_transfer_response =
  xr_domain :: string
  xr_identifier :: string
  xr_provider :: string
  xr_spark_pubkey :: string
  xr_lightning_address :: string
  xr_lnurl :: string

section \<open>Validation and errors\<close>

definition internal_bad_request :: "string \<Rightarrow> internal_error" where
  "internal_bad_request message = (BAD_REQUEST, message)"

abbreviation internal_failure :: internal_error where
  "internal_failure \<equiv> (INTERNAL_SERVER_ERROR, ''internal_server_error'')"

definition validate_internal_domain :: "string \<Rightarrow> internal_error + string" where
  "validate_internal_domain domain =
     (let domain = to_lowercase (trim domain) in
      if domain = [] then Inl (internal_bad_request ''invalid_request'') else Inr domain)"

definition validate_internal_lookup_domain :: "string \<Rightarrow> internal_error + string" where
  "validate_internal_lookup_domain domain =
     (let domain = to_lowercase (trim domain) in
      if domain = [] \<or> list_ex is_whitespace domain then Inl (internal_bad_request ''invalid_domain'')
      else Inr domain)"

definition validate_internal_required_string :: "string \<Rightarrow> internal_error + string" where
  "validate_internal_required_string v =
     (if trim v = [] then Inl (internal_bad_request ''invalid_request'') else Inr (trim v))"

definition validate_internal_description :: "string \<Rightarrow> internal_error + string" where
  "validate_internal_description description =
     bind_res (validate_internal_required_string description) (\<lambda>description.
     map_err (\<lambda>_. internal_bad_request ''invalid_request'')
       (bind_res (validate_description description) (\<lambda>_. Inr description)))"

definition parse_internal_default_wallet :: "string \<Rightarrow> internal_error + wallet_kind" where
  "parse_internal_default_wallet wallet =
     (let w = to_lowercase (trim wallet) in
      if w = ''btc'' then Inr Btc else if w = ''usd'' then Inr Usd
      else Inl (internal_bad_request ''invalid_request''))"

fun internal_account_creation_error :: "repository_error \<Rightarrow> internal_error" where
  "internal_account_creation_error BlinkAccountExists = (CONFLICT, ''blink_account_exists'')"
| "internal_account_creation_error IdentifierConflict = (CONFLICT, ''identifier_conflict'')"
| "internal_account_creation_error NameTaken = (CONFLICT, ''identifier_conflict'')"
| "internal_account_creation_error _ = internal_failure"

fun internal_account_update_error :: "repository_error \<Rightarrow> internal_error" where
  "internal_account_update_error AccountNotFound = (NOT_FOUND, ''not_found'')"
| "internal_account_update_error _ = internal_failure"

fun internal_transfer_to_spark_error :: "repository_error \<Rightarrow> internal_error" where
  "internal_transfer_to_spark_error SourceNotOwner = (NOT_FOUND, ''not_found'')"
| "internal_transfer_to_spark_error AccountNotFound = (NOT_FOUND, ''not_found'')"
| "internal_transfer_to_spark_error InvalidOwnership = (CONFLICT, ''invalid_request'')"
| "internal_transfer_to_spark_error InvalidProvider = (CONFLICT, ''invalid_request'')"
| "internal_transfer_to_spark_error IdentifierConflict = (CONFLICT, ''identifier_conflict'')"
| "internal_transfer_to_spark_error NameTaken = (CONFLICT, ''identifier_conflict'')"
| "internal_transfer_to_spark_error _ = internal_failure"

definition internal_lookup_storage_error :: "repository_error \<Rightarrow> internal_error" where
  "internal_lookup_storage_error e = internal_failure"

definition require_internal_provider_enabled :: "bool \<Rightarrow> internal_error + unit" where
  "require_internal_provider_enabled enabled =
     (if enabled then Inr () else Inl (SERVICE_UNAVAILABLE, ''provider_disabled''))"

fun wallet_modifier_response_value :: "wallet_modifier \<Rightarrow> string" where
  "wallet_modifier_response_value BtcModifier = ''btc''"
| "wallet_modifier_response_value UsdModifier = ''usd''"

definition internal_identifier_lookup_response ::
  "resolved_recipient \<Rightarrow> wallet_modifier option \<Rightarrow> lookup_response" where
  "internal_identifier_lookup_response r requested_wallet =
     \<lparr>lr_provider = account_provider_as_str (rr_provider r), lr_account_id = rr_account_id r,
      lr_domain = rr_domain r, lr_identifier = rr_identifier r,
      lr_identifier_kind = identifier_kind_as_str (rr_kind r), lr_description = rr_description r,
      lr_requested_wallet = map_option wallet_modifier_response_value requested_wallet,
      lr_provider_details = \<lparr>dr_spark_pubkey = rr_spark_pubkey r, dr_blink_account_id = rr_blink_account_id r,
        dr_btc_wallet_id = rr_btc_wallet_id r, dr_usd_wallet_id = rr_usd_wallet_id r,
        dr_default_wallet = map_option wallet_kind_as_str (rr_default_wallet r)\<rparr>\<rparr>"

section \<open>Routes\<close>

definition transfer_identifier_to_spark ::
  "('c, 'd) token_lib \<Rightarrow> ('k, 's) env \<Rightarrow> 'p phone_lib \<Rightarrow> internal_principal \<Rightarrow> bytes \<Rightarrow>
   (internal_error, internal_transfer_response) action" where
  "transfer_identifier_to_spark lib env phones caller body =
     bind_act (lift (require_scope caller SCOPE_BLINK_TRANSFERS_WRITE)) (\<lambda>_.
     bind_act (lift (require_internal_provider_enabled (ev_spark_enabled env \<and> ev_blink_enabled env))) (\<lambda>_.
     bind_act (lift (ok_or (internal_bad_request ''invalid_request'') (tl_transfer_from_slice lib body))) (\<lambda>payload.
     bind_act (lift (validate_internal_domain (it_domain payload))) (\<lambda>domain.
     bind_act (lift (map_err (\<lambda>_. internal_bad_request ''invalid_identifier'')
       (parse_public_identifier phones (it_identifier payload)))) (\<lambda>parsed.
     if pi_wallet parsed \<noteq> None then fail (internal_bad_request ''wallet_modifier_not_allowed'')
     else
     let identifier = pi_canonical parsed in
     bind_act (lift (validate_internal_required_string (it_destination_spark_pubkey payload))) (\<lambda>destination.
     bind_act (lift (map_err (\<lambda>_. internal_bad_request ''invalid_request'') (parse_pubkey (ev_crypto env) destination))) (\<lambda>pk.
     let destination = public_key_to_string (ev_crypto env) pk in
     bind_act (lift (validate_internal_description (it_description payload))) (\<lambda>description.
     bind_act (map_err_act internal_transfer_to_spark_error
       (db_read env (resolve_recipient_by_identifier domain identifier))) (\<lambda>found.
     bind_act (lift (ok_or (internal_transfer_to_spark_error SourceNotOwner) found)) (\<lambda>source.
     if rr_provider source \<noteq> Blink then fail (internal_transfer_to_spark_error InvalidOwnership)
     else
     bind_act (map_err_act internal_transfer_to_spark_error (db_write env (\<lambda>fresh. TransferBlink fresh
       \<lparr>bt_domain = domain, bt_identifier = identifier, bt_source_account_id = rr_account_id source,
        bt_destination_spark_pubkey = destination, bt_description = description\<rparr>))) (\<lambda>_.
     bind_act (ignore_err (db_write env (\<lambda>_. MigrateMode destination))) (\<lambda>_.
     ret \<lparr>xr_domain = domain, xr_identifier = identifier, xr_provider = account_provider_as_str Spark,
       xr_spark_pubkey = destination, xr_lightning_address = identifier @ ''@'' @ domain,
       xr_lnurl = ''lnurlp://'' @ domain @ ''/lnurlp/'' @ identifier\<rparr>))))))))))))"

fun kind_of_identifier :: "identifier_kind \<Rightarrow> account_identifier_kind" where
  "kind_of_identifier UsernameId = Username"
| "kind_of_identifier PhoneId = Phone"

text \<open>The loop over the requested identifiers, with those seen so far.\<close>

fun requested_identifiers ::
  "'p phone_lib \<Rightarrow> string \<Rightarrow> string \<Rightarrow> (string \<times> string) set \<Rightarrow> string list \<Rightarrow>
   internal_error + (new_account_identifier \<times> identifier_response) list" where
  "requested_identifiers phones domain description seen [] = Inr []"
| "requested_identifiers phones domain description seen (raw # raws) =
     bind_res (map_err (\<lambda>_. internal_bad_request ''invalid_identifier'') (parse_public_identifier phones raw)) (\<lambda>parsed.
     if pi_wallet parsed \<noteq> None then Inl (internal_bad_request ''wallet_modifier_not_allowed'')
     else if (domain, pi_canonical parsed) \<in> seen then Inl (internal_bad_request ''invalid_request'')
     else
     bind_res (requested_identifiers phones domain description (insert (domain, pi_canonical parsed) seen) raws) (\<lambda>rest.
     Inr ((\<lparr>ni_domain = domain, ni_identifier = pi_canonical parsed, ni_kind = kind_of_identifier (pi_kind parsed),
            ni_description = description\<rparr>,
          \<lparr>ir_identifier = pi_canonical parsed,
           ir_kind = identifier_kind_as_str (kind_of_identifier (pi_kind parsed)),
           ir_description = description\<rparr>) # rest)))"

definition create_internal_blink_account ::
  "('k, 's) env \<Rightarrow> 'p phone_lib \<Rightarrow> internal_principal \<Rightarrow> create_blink_request \<Rightarrow>
   (internal_error, create_blink_response) action" where
  "create_internal_blink_account env phones caller payload =
     bind_act (lift (require_scope caller SCOPE_BLINK_ACCOUNTS_CREATE)) (\<lambda>_.
     bind_act (lift (require_internal_provider_enabled (ev_blink_enabled env))) (\<lambda>_.
     bind_act (lift (validate_internal_domain (cb_domain payload))) (\<lambda>domain.
     bind_act (lift (validate_internal_required_string (cb_blink_account_id payload))) (\<lambda>blink_account_id.
     bind_act (lift (validate_internal_required_string (cb_btc_wallet_id payload))) (\<lambda>btc_wallet_id.
     bind_act (lift (validate_internal_required_string (cb_usd_wallet_id payload))) (\<lambda>usd_wallet_id.
     bind_act (lift (validate_internal_description (cb_description payload))) (\<lambda>description.
     if cb_identifiers payload = [] then fail (internal_bad_request ''invalid_request'')
     else
     bind_act (lift (parse_internal_default_wallet (cb_default_wallet payload))) (\<lambda>default_wallet.
     bind_act (lift (requested_identifiers phones domain description {} (cb_identifiers payload))) (\<lambda>rows.
     bind_act (ask (ev_fresh_id env)) (\<lambda>account_id.
     bind_act (map_err_act internal_account_creation_error (db_write env (\<lambda>fresh. CreateBlink fresh
       \<lparr>nb_account_id = Some account_id, nb_blink_account_id = blink_account_id, nb_btc_wallet_id = btc_wallet_id,
        nb_usd_wallet_id = usd_wallet_id, nb_default_wallet = default_wallet, nb_identifiers = map fst rows\<rparr>))) (\<lambda>_.
     ret \<lparr>cr_account_id = account_id, cr_provider = account_provider_as_str Blink,
       cr_blink_account_id = blink_account_id, cr_btc_wallet_id = btc_wallet_id, cr_usd_wallet_id = usd_wallet_id,
       cr_default_wallet = wallet_kind_as_str default_wallet, cr_domain = domain, cr_identifiers = map snd rows\<rparr>)))))))))))"

definition write_default_wallet ::
  "('k, 's) env \<Rightarrow> string \<Rightarrow> wallet_kind \<Rightarrow> (repository_error, updated_blink_account) action" where
  "write_default_wallet env blink_account_id wallet =
     db_call env (\<lambda>k d.
       case on_backend (ev_backend env) update_blink_default_wallet update_blink_default_wallet_pg
         (uint (ev_now env k)) blink_account_id wallet d of
         Inl e \<Rightarrow> (Inl e, d) | Inr (u, d') \<Rightarrow> (Inr u, d'))"

definition update_internal_blink_account ::
  "('c, 'd) token_lib \<Rightarrow> ('k, 's) env \<Rightarrow> internal_principal \<Rightarrow> string \<Rightarrow> bytes \<Rightarrow>
   (internal_error, update_blink_response) action" where
  "update_internal_blink_account lib env caller blink_account_id body =
     bind_act (lift (require_scope caller SCOPE_BLINK_ACCOUNTS_UPDATE)) (\<lambda>_.
     bind_act (lift (require_internal_provider_enabled (ev_blink_enabled env))) (\<lambda>_.
     bind_act (lift (ok_or (internal_bad_request ''invalid_request'') (tl_update_from_slice lib body))) (\<lambda>wallet.
     bind_act (lift (validate_internal_required_string blink_account_id)) (\<lambda>blink_account_id.
     bind_act (lift (parse_internal_default_wallet wallet)) (\<lambda>default_wallet.
     bind_act (map_err_act internal_account_update_error (write_default_wallet env blink_account_id default_wallet)) (\<lambda>updated.
     ret \<lparr>ur_account_id = ub_account_id updated, ur_provider = account_provider_as_str Blink,
       ur_blink_account_id = ub_blink_account_id updated,
       ur_default_wallet = wallet_kind_as_str (ub_default_wallet updated)\<rparr>))))))"

definition get_internal_identifier ::
  "('k, 's) env \<Rightarrow> 'p phone_lib \<Rightarrow> internal_principal \<Rightarrow> string \<Rightarrow> string \<Rightarrow> (internal_error, lookup_response) action" where
  "get_internal_identifier env phones caller domain identifier =
     bind_act (lift (require_scope caller SCOPE_BLINK_ACCOUNTS_READ)) (\<lambda>_.
     bind_act (lift (validate_internal_lookup_domain domain)) (\<lambda>domain.
     bind_act (lift (map_err (\<lambda>_. internal_bad_request ''invalid_identifier'') (parse_public_identifier phones identifier))) (\<lambda>parsed.
     bind_act (map_err_act internal_lookup_storage_error
       (db_read env (resolve_recipient_by_identifier domain (pi_canonical parsed)))) (\<lambda>found.
     bind_act (lift (ok_or (NOT_FOUND, ''not_found'') found)) (\<lambda>recipient.
     ret (internal_identifier_lookup_response recipient (pi_wallet parsed)))))))"

section \<open>The mounted router\<close>

datatype internal_request =
    CreateAccountReq create_blink_request
  | UpdateAccountReq string bytes
  | LookupReq string string
  | TransferReq bytes

text \<open>
  \<open>main.rs\<close> nests the internal router before it adds the certificate check with \<open>route_layer\<close>, so
  the certificate check runs first on the internal routes too. \<open>Inl\<close> is a status of a middleware;
  a preflight request that passes both reaches no handler, since none is mounted for it.
\<close>

definition admit_internal ::
  "('c, 'd) token_lib \<Rightarrow> bytes option \<Rightarrow> string set \<Rightarrow> 'd internal_auth_state option \<Rightarrow> bool \<Rightarrow> header_map \<Rightarrow>
   (nat, internal_principal option) action" where
  "admit_internal lib ca_cert crl auth_state is_options headers =
     bind_act (lift (auth lib ca_cert crl is_options headers)) (\<lambda>_.
     internal_auth lib auth_state is_options headers)"

text \<open>Whether a request was served, and the state it leaves.\<close>

fun run_internal ::
  "('c, 'd) token_lib \<Rightarrow> ('k, 's) env \<Rightarrow> 'p phone_lib \<Rightarrow> internal_principal \<Rightarrow> internal_request \<Rightarrow> server \<Rightarrow> bool \<times> server" where
  "run_internal lib env phones p (CreateAccountReq q) w =
     (case create_internal_blink_account env phones p q w of (r, w') \<Rightarrow> (is_ok r, w'))"
| "run_internal lib env phones p (UpdateAccountReq i body) w =
     (case update_internal_blink_account lib env p i body w of (r, w') \<Rightarrow> (is_ok r, w'))"
| "run_internal lib env phones p (LookupReq dn i) w =
     (case get_internal_identifier env phones p dn i w of (r, w') \<Rightarrow> (is_ok r, w'))"
| "run_internal lib env phones p (TransferReq body) w =
     (case transfer_identifier_to_spark lib env phones p body w of (r, w') \<Rightarrow> (is_ok r, w'))"

definition serve_internal ::
  "('c, 'd) token_lib \<Rightarrow> ('k, 's) env \<Rightarrow> 'p phone_lib \<Rightarrow> bytes option \<Rightarrow> string set \<Rightarrow> 'd internal_auth_state option \<Rightarrow>
   header_map \<Rightarrow> internal_request \<Rightarrow> server \<Rightarrow> bool \<times> server" where
  "serve_internal lib env phones ca_cert crl auth_state headers req w =
     (case admit_internal lib ca_cert crl auth_state False headers w of
        (Inr (Some p), w') \<Rightarrow> run_internal lib env phones p req w'
      | (_, w') \<Rightarrow> (False, w'))"

end
