(* ===== verification/Lnurl_Internal_Thms.thy ===== *)
theory Lnurl_Internal_Thms
  imports Lnurl_Internal Lnurl_Account_Routes_Thms Lnurl_Accounts_Thms
begin

text \<open>
  Properties of the internal API: what a request may change and on whose authority, that the
  certificate check shadows it, and what creating an account and moving a name to Spark achieve.
\<close>

section \<open>Authority\<close>

fun op_scope :: "account_op \<Rightarrow> string option" where
  "op_scope (CreateBlink _ _) = Some SCOPE_BLINK_ACCOUNTS_CREATE"
| "op_scope (SetDefaultWallet _ _) = Some SCOPE_BLINK_ACCOUNTS_UPDATE"
| "op_scope (TransferBlink _ _) = Some SCOPE_BLINK_TRANSFERS_WRITE"
| "op_scope (MigrateMode _) = Some SCOPE_BLINK_TRANSFERS_WRITE"
| "op_scope _ = None"

definition scope_allows :: "('k, 's) env \<Rightarrow> string set \<Rightarrow> account_op \<Rightarrow> bool" where
  "scope_allows env scopes op \<longleftrightarrow> ev_blink_enabled env \<and> (\<exists>s \<in> scopes. op_scope op = Some s)"

text \<open>The token of a request grants a set of scopes under a configuration.\<close>

definition token_grants ::
  "('c, 'd) token_lib \<Rightarrow> 'd internal_auth_state option \<Rightarrow> header_map \<Rightarrow> string set \<Rightarrow> bool" where
  "token_grants lib auth_state headers scopes \<longleftrightarrow>
     (\<exists>st token header kid key k claims. auth_state = Some st \<and> bearer_token headers = Inr token \<and>
       tl_decode_header lib token = Some header \<and> jh_alg header = RS256 \<and> jh_kid header = Some kid \<and>
       ia_keys st kid = Some key \<and> tl_decode lib k token key (validation_of st) = Some claims \<and>
       scopes = parse_scopes claims)"

lemma validate_internal_token_run:
  assumes "validate_internal_token lib st token w = (Inr p, w')"
  obtains header kid key claims where "tl_decode_header lib token = Some header" "jh_alg header = RS256"
    "jh_kid header = Some kid" "ia_keys st kid = Some key"
    "tl_decode lib (sv_step w) token key (validation_of st) = Some claims" "pn_scopes p = parse_scopes claims"
    "w' = tick w"
  using assms unfolding validate_internal_token_def by (auto simp: act_iff)

lemma internal_auth_run:
  assumes "internal_auth lib auth_state False headers w = (Inr (Some p), w')"
  shows "token_grants lib auth_state headers (pn_scopes p)" and "w' = tick w"
proof -
  obtain st token where st: "auth_state = Some st" "bearer_token headers = Inr token"
    "validate_internal_token lib st token w = (Inr p, w')"
    using assms unfolding internal_auth_def by (auto simp: act_iff)
  show "token_grants lib auth_state headers (pn_scopes p)" "w' = tick w"
    using st(3) by (rule validate_internal_token_run; use st in \<open>auto simp: token_grants_def\<close>)+
qed

lemma map_commit_snd:
  "snd (commit d (map_sum id snd r)) = (case r of Inl e \<Rightarrow> d | Inr (u, d') \<Rightarrow> d')"
  by (auto simp: commit_def split: sum.splits)

lemma on_backend_case: "on_backend b x y = (case b of Sqlite \<Rightarrow> x | Postgres \<Rightarrow> y)"
  by (cases b) simp_all

lemma writes_default_wallet:
  "P (SetDefaultWallet i wallet) \<Longrightarrow> writes env (op_step env P) (write_default_wallet env i wallet)"
  unfolding write_default_wallet_def op_step_def
proof (rule writes_call)
  fix k d
  assume P: "P (SetDefaultWallet i wallet)"
  have "snd (run_op (ev_backend env) (uint (ev_now env k)) (SetDefaultWallet i wallet) d) =
    snd (case on_backend (ev_backend env) update_blink_default_wallet update_blink_default_wallet_pg
         (uint (ev_now env k)) i wallet d of
         Inl e \<Rightarrow> (Inl e, d) | Inr (u, d') \<Rightarrow> (Inr u, d'))"
    by (cases "ev_backend env") (auto simp: map_commit_snd split: sum.splits)
  with P show "\<exists>op. P op \<and> snd (case on_backend (ev_backend env) update_blink_default_wallet
        update_blink_default_wallet_pg (uint (ev_now env k)) i wallet d of
         Inl e \<Rightarrow> (Inl e, d) | Inr (u, d') \<Rightarrow> (Inr u, d')) = snd (run_op (ev_backend env) (uint (ev_now env k)) op d)"
    by metis
qed

lemma require_scope_ok: "lift (require_scope p s) w = (Inr u, w') \<Longrightarrow> s \<in> pn_scopes p"
  by (auto simp: act_iff require_scope_def split: if_splits)

lemma require_enabled_ok: "lift (require_internal_provider_enabled b) w = (Inr u, w') \<Longrightarrow> b"
  by (auto simp: act_iff require_internal_provider_enabled_def split: if_splits)

lemma internal_writes:
  "writes env (op_step env (scope_allows env (pn_scopes p))) (create_internal_blink_account env phones p q)"
  "writes env (op_step env (scope_allows env (pn_scopes p))) (update_internal_blink_account lib env p i body)"
  "writes env (op_step env (scope_allows env (pn_scopes p))) (transfer_identifier_to_spark lib env phones p body)"
  "writes env (op_step env (scope_allows env (pn_scopes p))) (get_internal_identifier env phones p dn i)"
  unfolding create_internal_blink_account_def update_internal_blink_account_def
    transfer_identifier_to_spark_def get_internal_identifier_def
  by (intro writes_rules writes_default_wallet; drule require_scope_ok, drule require_enabled_ok; simp add: scope_allows_def)+

lemma run_internal_served:
  "served env (op_step env (scope_allows env (pn_scopes p))) (sv_db w) (sv_db (snd (run_internal lib env phones p req w)))"
proof -
  note at = internal_writes [of env p, THEN writesD]
  show ?thesis by (cases req) (simp_all add: split_beta at)
qed

lemma admit_internal_run:
  assumes "admit_internal lib ca_cert crl auth_state False headers w = (Inr (Some p), w')"
  shows "auth lib ca_cert crl False headers = Inr ()" "token_grants lib auth_state headers (pn_scopes p)" "w' = tick w"
proof -
  have a: "auth lib ca_cert crl False headers = Inr ()" "internal_auth lib auth_state False headers w = (Inr (Some p), w')"
    using assms unfolding admit_internal_def by (auto simp: act_iff)
  show "auth lib ca_cert crl False headers = Inr ()" by (rule a(1))
  show "token_grants lib auth_state headers (pn_scopes p)" "w' = tick w" using internal_auth_run [OF a(2)] by blast+
qed

lemma admit_internal_db: "sv_db (snd (admit_internal lib ca_cert crl auth_state opt headers w)) = sv_db w"
proof -
  have "writes env no_step (admit_internal lib ca_cert crl auth_state opt headers)" for env :: "('x, 'y) env"
    unfolding admit_internal_def internal_auth_def validate_internal_token_def by (intro writes_rules)
  then have s: "served env no_step (sv_db w) (sv_db (snd (admit_internal lib ca_cert crl auth_state opt headers w)))"
    for env :: "('x, 'y) env" by (rule writesD)
  show ?thesis using s [of "undefined\<lparr>ev_others := \<lambda>_ d. d\<rparr>"]
    by (induction rule: served.induct) (auto simp: no_step_def)
qed

text \<open>
  C28: an internal request changes the database only on the authority of a token. Whatever else runs
  and whatever calls are lost, each change a request makes is one account operation for which the
  scopes of its token allow it, where the token came as the bearer token of the request, is signed with RS256 under
  the key its header names, and was accepted for the configured issuer and audience; without a
  configured authority it changes nothing. The account invariant is kept.
\<close>

theorem internal_authorised:
  assumes run: "serve_internal lib env phones ca_cert crl auth_state headers req w = (ok, w')"
  shows "(sv_db w' = sv_db w \<and> \<not> ok \<or> (\<exists>scopes. token_grants lib auth_state headers scopes \<and>
      served env (op_step env (scope_allows env scopes)) (sv_db w) (sv_db w'))) \<and>
    ((\<forall>k d. accounts_inv d \<longrightarrow> accounts_inv (ev_others env k d)) \<and> accounts_inv (sv_db w) \<longrightarrow>
      accounts_inv (sv_db w'))"
proof -
  obtain r w1 where a: "admit_internal lib ca_cert crl auth_state False headers w = (r, w1)"
    by (cases "admit_internal lib ca_cert crl auth_state False headers w")
  have db: "sv_db w1 = sv_db w" using admit_internal_db [of lib ca_cert crl auth_state False headers w] a by simp
  show ?thesis
  proof (cases "\<exists>p. r = Inr (Some p)")
    case True
    then obtain p where p: "r = Inr (Some p)" by blast
    have "served env (op_step env (scope_allows env (pn_scopes p))) (sv_db w) (sv_db w')"
      using run_internal_served [of env p w1 lib phones req] run a p db by (simp add: serve_internal_def)
    moreover from this have "accounts_inv (sv_db w')"
      if "\<forall>k d. accounts_inv d \<longrightarrow> accounts_inv (ev_others env k d)" "accounts_inv (sv_db w)"
      by (rule served_invariant) (use that op_step_inv in blast)+
    ultimately show ?thesis using admit_internal_run(2) [OF a [unfolded p]] by blast
  next
    case False
    then have "w' = w1" "\<not> ok" using run a by (auto simp: serve_internal_def split: sum.splits option.splits)
    with db show ?thesis by simp
  qed
qed

section \<open>The certificate check in front\<close>

lemma bearer_token_header:
  assumes "bearer_token headers = Inr token"
  shows "header_str headers ''authorization'' = Some (''Bearer '' @ token)" "token \<noteq> []" "\<forall>c \<in> set token. \<not> is_whitespace c"
proof -
  obtain h where h: "header_str headers ''authorization'' = Some h" "starts_with h ''Bearer ''" "token = drop 7 h"
    "token \<noteq> []" "\<not> list_ex is_whitespace token"
    using assms by (auto simp: bearer_token_def bind_res_Inr_iff Let_def split: if_splits)
  have "h = take 7 h @ drop 7 h" by simp
  also have "take 7 h = ''Bearer ''" using h(2) by (simp add: starts_with_def numeral_eq_Suc)
  finally show "header_str headers ''authorization'' = Some (''Bearer '' @ token)" using h(1,3) by simp
  show "token \<noteq> []" "\<forall>c \<in> set token. \<not> is_whitespace c" using h(4,5) by (auto simp: list_ex_iff)
qed

lemma trim_bearer:
  assumes "\<forall>c \<in> set token. \<not> is_whitespace c"
  shows "trim (trim_start_matches ''Bearer '' (''Bearer '' @ token)) = token"
proof -
  have "\<not> starts_with token ''Bearer ''"
  proof
    assume "starts_with token ''Bearer ''"
    then have "set ''Bearer '' \<subseteq> set token" by (metis set_take_subset starts_with_def)
    then have "CHR '' '' \<in> set token" by simp
    with assms show False by (auto simp: is_whitespace_def)
  qed
  then have "trim_start_matches ''Bearer '' token = token" by (subst trim_start_matches.simps) simp
  moreover have "starts_with (''Bearer '' @ token) ''Bearer ''" by (simp add: starts_with_def)
  ultimately have "trim_start_matches ''Bearer '' (''Bearer '' @ token) = token"
    by (subst trim_start_matches.simps) simp
  with assms show ?thesis by (simp add: trim_no_whitespace)
qed

text \<open>
  C29: with a client certificate authority configured no internal request can succeed. The certificate
  check and the token check read the same header; a web token has a full stop, which the standard
  base64 alphabet does not.
\<close>

theorem internal_shadowed_by_certificates:
  assumes base64: "\<forall>s b. tl_base64_decode lib s = Some b \<longrightarrow> CHR ''.'' \<notin> set s"
    and jwt: "\<forall>t h. tl_decode_header lib t = Some h \<longrightarrow> CHR ''.'' \<in> set t"
    and ca: "ca_cert = Some der"
    and run: "serve_internal lib env phones ca_cert crl auth_state headers req w = (ok, w')"
  shows "\<not> ok \<and> sv_db w' = sv_db w"
proof -
  obtain r w1 where a: "admit_internal lib ca_cert crl auth_state False headers w = (r, w1)"
    by (cases "admit_internal lib ca_cert crl auth_state False headers w")
  have no: "r \<noteq> Inr (Some p)" for p
  proof
    assume "r = Inr (Some p)"
    note run = admit_internal_run [OF a [unfolded this]]
    obtain token h where t: "bearer_token headers = Inr token" "tl_decode_header lib token = Some h"
      using run(2) by (auto simp: token_grants_def)
    note b = bearer_token_header [OF t(1)]
    obtain x where "tl_base64_decode lib (trim (trim_start_matches ''Bearer '' (''Bearer '' @ token))) = Some x"
      using run(1) b(1) by (auto simp: auth_def ca bind_res_Inr_iff)
    with base64 jwt t(2) trim_bearer [OF b(3)] show False by auto
  qed
  then have "w' = w1" "\<not> ok" using run a by (auto simp: serve_internal_def split: sum.splits option.splits)
  with admit_internal_db [of lib ca_cert crl auth_state False headers w] a show ?thesis by simp
qed

section \<open>Creating accounts\<close>

lemma requested_identifiers_ok:
  assumes "requested_identifiers phones dn de seen raws = Inr rows" "raw \<in> set raws"
  obtains parsed n where "parse_public_identifier phones raw = Inr parsed" "pi_wallet parsed = None"
    "n \<in> set (map fst rows)" "ni_domain n = dn" "ni_identifier n = pi_canonical parsed" "ni_description n = de"
  using assms
proof (induction raws arbitrary: seen rows thesis)
  case (Cons x xs)
  obtain parsed rest where p: "parse_public_identifier phones x = Inr parsed" "pi_wallet parsed = None"
    "requested_identifiers phones dn de (insert (dn, pi_canonical parsed) seen) xs = Inr rest"
    "rows = (\<lparr>ni_domain = dn, ni_identifier = pi_canonical parsed, ni_kind = kind_of_identifier (pi_kind parsed),
            ni_description = de\<rparr>, \<lparr>ir_identifier = pi_canonical parsed,
           ir_kind = identifier_kind_as_str (kind_of_identifier (pi_kind parsed)), ir_description = de\<rparr>) # rest"
    using Cons.prems(2) by (auto simp: bind_res_Inr_iff split: if_splits)
  show ?case
  proof (cases "raw = x")
    case True
    show ?thesis by (rule Cons.prems(1) [of parsed "fst (hd rows)"]) (use p True in simp_all)
  next
    case False
    then have "raw \<in> set xs" using Cons.prems(3) by simp
    from Cons.IH [OF _ p(3) this] Cons.prems(1) p(4) show ?thesis by (metis list.set_intros(2) list.simps(9))
  qed
qed simp

text \<open>Inversion up to the writing calls.\<close>

lemmas pure_act_iff = bind_act_iff lift_iff map_err_act_iff if_act_iff fail_iff ret_iff ask_iff db_read_iff

lemma create_internal_run:
  assumes "create_internal_blink_account env phones p q w = (Inr resp, w')"
  obtains dn de rows w1 ba btc usd dw u i where
    "validate_internal_domain (cb_domain q) = Inr dn"
    "requested_identifiers phones dn de {} (cb_identifiers q) = Inr rows"
    "w1 = tick w"
    "db_write env (\<lambda>fresh. CreateBlink fresh \<lparr>nb_account_id = Some i, nb_blink_account_id = ba,
       nb_btc_wallet_id = btc, nb_usd_wallet_id = usd, nb_default_wallet = dw, nb_identifiers = map fst rows\<rparr>) w1 = (Inr u, w')"
    "cr_account_id resp = i" "cr_domain resp = dn" "cr_blink_account_id resp = ba" "cr_btc_wallet_id resp = btc" "cr_usd_wallet_id resp = usd"
    "cr_default_wallet resp = wallet_kind_as_str dw"
  using assms unfolding create_internal_blink_account_def
  by (simp only: pure_act_iff split_paired_Ex case_prod_conv simp_thms ok_or_Inr_iff) (clarify, rule that, (assumption | rule refl | simp)+)

lemma lookup_run:
  assumes quiet: "\<forall>k d. ev_others env k d = d" and healthy: "ev_fault env (sv_step w) = Healthy"
    and scope: "SCOPE_BLINK_ACCOUNTS_READ \<in> pn_scopes p"
    and dn: "validate_internal_lookup_domain domain = Inr dn"
    and parsed: "parse_public_identifier phones raw = Inr parsed"
    and r: "resolve_recipient_by_identifier dn (pi_canonical parsed) (sv_db w) = Inr (Some r)"
  shows "fst (get_internal_identifier env phones p domain raw w) =
    Inr (internal_identifier_lookup_response r (pi_wallet parsed))"
  using assms
  by (simp add: get_internal_identifier_def require_scope_def bind_act_def lift_def map_err_act_def db_read_def db_call_def ret_def Let_def)

text \<open>
  C30: what is created is found. After an internal request created a Blink account, every identifier
  it asked for, in the spelling of the request, is answered by the lookup route with that account,
  its wallets and its default wallet, for any caller allowed to read, as long as nobody else writes
  and the domain has no blanks inside.
\<close>

theorem internal_create_found:
  assumes inv: "accounts_inv (sv_db w)" and quiet: "\<forall>k d. ev_others env k d = d"
    and healthy: "\<forall>k. ev_fault env k = Healthy"
    and created: "create_internal_blink_account env phones p q w = (Inr resp, w')"
    and raw: "raw \<in> set (cb_identifiers q)"
    and reader: "SCOPE_BLINK_ACCOUNTS_READ \<in> pn_scopes reader"
    and blanks: "\<not> list_ex is_whitespace (cr_domain resp)"
  shows "\<exists>l. fst (get_internal_identifier env phones reader (cb_domain q) raw w') = Inr l \<and>
    lr_account_id l = cr_account_id resp \<and> lr_provider l = ''blink'' \<and>
    dr_blink_account_id (lr_provider_details l) = Some (cr_blink_account_id resp) \<and>
    dr_btc_wallet_id (lr_provider_details l) = Some (cr_btc_wallet_id resp) \<and>
    dr_usd_wallet_id (lr_provider_details l) = Some (cr_usd_wallet_id resp) \<and>
    dr_default_wallet (lr_provider_details l) = Some (cr_default_wallet resp)"
proof -
  obtain dn de rows w1 ba btc usd dw u i where c: "validate_internal_domain (cb_domain q) = Inr dn"
    "requested_identifiers phones dn de {} (cb_identifiers q) = Inr rows" "w1 = tick w"
    "db_write env (\<lambda>fresh. CreateBlink fresh \<lparr>nb_account_id = Some i, nb_blink_account_id = ba,
       nb_btc_wallet_id = btc, nb_usd_wallet_id = usd, nb_default_wallet = dw, nb_identifiers = map fst rows\<rparr>) w1 = (Inr u, w')"
    and f: "cr_account_id resp = i" "cr_domain resp = dn" "cr_blink_account_id resp = ba" "cr_btc_wallet_id resp = btc" "cr_usd_wallet_id resp = usd"
    "cr_default_wallet resp = wallet_kind_as_str dw"
    using created by (rule create_internal_run)
  let ?acct = "\<lparr>nb_account_id = Some i, nb_blink_account_id = ba, nb_btc_wallet_id = btc,
    nb_usd_wallet_id = usd, nb_default_wallet = dw, nb_identifiers = map fst rows\<rparr>"
  have w: "create_blink_account (uint (ev_now env (sv_step w1))) (ev_fresh_id env (sv_step w1)) ?acct (sv_db w) = Inr (sv_db w')"
    using c(3,4) quiet by (auto simp: db_write_def db_call_iff commit_def split: sum.splits)
  obtain parsed n where n: "parse_public_identifier phones raw = Inr parsed" "n \<in> set (map fst rows)" "ni_domain n = dn"
    "ni_identifier n = pi_canonical parsed" using c(2) raw by (rule requested_identifiers_ok)
  obtain r where r: "resolve_recipient_by_identifier dn (pi_canonical parsed) (sv_db w') = Inr (Some r)"
    "rr_account_id r = i" "rr_provider r = Blink" "rr_blink_account_id r = Some ba"
    "rr_btc_wallet_id r = Some btc" "rr_usd_wallet_id r = Some usd" "rr_default_wallet r = Some dw"
    using create_blink_lookup [OF inv _ w, of i n] n(2-4) by auto
  have "validate_internal_lookup_domain (cb_domain q) = Inr dn"
    using c(1) blanks f(2) by (auto simp: validate_internal_domain_def validate_internal_lookup_domain_def Let_def split: if_splits)
  from lookup_run [OF quiet _ reader this n(1) r(1)] healthy r(2-) f show ?thesis
    by (simp add: internal_identifier_lookup_response_def)
qed

section \<open>Moving a name to Spark\<close>

lemma migrate_lookup: "lookup_recipient dn j (set_spark_mode_enhanced_if_unset now k d) = lookup_recipient dn j d"
proof -
  have "spark_row i (set_spark_mode_enhanced_if_unset now k d) =
      map_option (\<lambda>s. if sp_pubkey s = k \<and> sp_mode s = None then s\<lparr>sp_mode := Some Enhanced, sp_mode_source := Some Migration,
        sp_mode_updated_at := Some now, sp_updated_at := now\<rparr> else s) (spark_row i d)" for i
    unfolding spark_row_def set_spark_mode_enhanced_if_unset_def by (simp add: fetch_optional_update_same)
  moreover have "identifier_row dn j (set_spark_mode_enhanced_if_unset now k d) = identifier_row dn j d"
    "blink_child_row i (set_spark_mode_enhanced_if_unset now k d) = blink_child_row i d" for i
    by (simp_all add: set_spark_mode_enhanced_if_unset_def identifier_row_def blink_child_row_def)
  ultimately show ?thesis
    by (auto simp: lookup_recipient_def spark_recipient_def split: option.splits)
qed

lemma internal_transfer_run:
  assumes "transfer_identifier_to_spark lib env phones p body w = (Inr resp, w')"
  obtains dn i k de r w1 w2 u v where "ev_fault env (sv_step w) = Healthy"
    "resolve_recipient_by_identifier dn i (ev_others env (sv_step w) (sv_db w)) = Inr (Some r)"
    "rr_provider r = Blink"
    "db_write env (\<lambda>fresh. TransferBlink fresh \<lparr>bt_domain = dn, bt_identifier = i,
       bt_source_account_id = rr_account_id r, bt_destination_spark_pubkey = k,
       bt_description = de\<rparr>) w1 = (Inr u, w2)"
    "w1 = tick (w\<lparr>sv_db := ev_others env (sv_step w) (sv_db w)\<rparr>)"
    "ignore_err (db_write env (\<lambda>_. MigrateMode k)) w2 = (Inr v :: internal_error + unit, w')"
    "xr_domain resp = dn" "xr_identifier resp = i" "xr_spark_pubkey resp = k"
  using assms unfolding transfer_identifier_to_spark_def Let_def
  by (simp only: pure_act_iff split_paired_Ex case_prod_conv simp_thms ok_or_Inr_iff) (clarify, rule that, (assumption | rule refl | simp)+)

text \<open>
  A successful internal transfer takes the name from the Blink account it paid and leaves it
  paying the destination key, with the kind it had, while nobody else writes.
\<close>

theorem internal_transfer_moves:
  assumes inv: "accounts_inv (sv_db w)" and quiet: "\<forall>k d. ev_others env k d = d"
    and moved: "transfer_identifier_to_spark lib env phones p body w = (Inr resp, w')"
  shows "\<exists>r r'. resolve_recipient_by_identifier (xr_domain resp) (xr_identifier resp) (sv_db w) = Inr (Some r) \<and>
    rr_provider r = Blink \<and>
    resolve_recipient_by_identifier (xr_domain resp) (xr_identifier resp) (sv_db w') = Inr (Some r') \<and>
    rr_provider r' = Spark \<and> rr_spark_pubkey r' = Some (xr_spark_pubkey resp) \<and> rr_kind r' = rr_kind r"
proof -
  have o: "ev_others env k d = d" for k d using quiet by simp
  obtain dn i k de r w1 w2 u v where t: "ev_fault env (sv_step w) = Healthy"
    "resolve_recipient_by_identifier dn i (ev_others env (sv_step w) (sv_db w)) = Inr (Some r)" "rr_provider r = Blink"
    "db_write env (\<lambda>fresh. TransferBlink fresh \<lparr>bt_domain = dn, bt_identifier = i,
       bt_source_account_id = rr_account_id r, bt_destination_spark_pubkey = k, bt_description = de\<rparr>) w1 = (Inr u, w2)"
    "w1 = tick (w\<lparr>sv_db := ev_others env (sv_step w) (sv_db w)\<rparr>)"
    "ignore_err (db_write env (\<lambda>_. MigrateMode k)) w2 = (Inr v :: internal_error + unit, w')"
    and f: "xr_domain resp = dn" "xr_identifier resp = i" "xr_spark_pubkey resp = k"
    using moved by (rule internal_transfer_run)
  let ?t = "\<lparr>bt_domain = dn, bt_identifier = i, bt_source_account_id = rr_account_id r,
    bt_destination_spark_pubkey = k, bt_description = de\<rparr>"
  let ?now = "uint (ev_now env (sv_step w1))" and ?fresh = "ev_fresh_id env (sv_step w1)"
  have "transfer_blink_identifier_to_spark ?now ?fresh ?t (sv_db w) = Inr (sv_db w2)"
    using t(4,5) by (cases "ev_backend env") (auto simp: db_write_def db_call_iff o commit_def
        transfer_blink_backends [OF inv] split: sum.splits)
  note m = transfer_blink_moves [OF inv this] and inv2 = transfer_blink_inv [OF inv this]
  have "lookup_recipient dn j (sv_db w') = lookup_recipient dn j (sv_db w2)" for dn j
    using t(6) by (auto simp: ignore_err_def db_write_def db_call_def o Let_def migrate_lookup split: fault.splits)
  moreover have "accounts_inv (sv_db w')"
    using t(6) inv2 run_op_inv [OF inv2, of "ev_backend env" _ "MigrateMode k"]
    by (auto simp: ignore_err_def db_write_def db_call_def o Let_def split: fault.splits)
  ultimately show ?thesis using m t(2,3) by (auto simp: o f resolve_inv inv2)
qed

section \<open>A demonstration run\<close>

definition demo_tokens :: "(bytes, string) token_lib" where
  "demo_tokens = \<lparr>tl_base64_decode = (\<lambda>s. if CHR ''.'' \<in> set s then None else Some (as_bytes s)),
     tl_certificate_from_der = (\<lambda>b. Some b), tl_issuer = (\<lambda>_. as_bytes ''ca''), tl_subject = (\<lambda>c. c),
     tl_verify_signature = (\<lambda>_ _. True), tl_serial = (\<lambda>_. ''1''),
     tl_jwks_from_str = (\<lambda>_. Some [\<lparr>jk_kid = Some ''k1'', jk_decoding_key = Some ''key''\<rparr>]),
     tl_decode_header = (\<lambda>t. if CHR ''.'' \<in> set t then Some \<lparr>jh_alg = RS256, jh_kid = Some ''k1''\<rparr> else None),
     tl_decode = (\<lambda>_ t key v. if key = ''key'' then Some \<lparr>cm_sub = None,
       cm_scope = Some (JString ''blink:accounts:create blink:accounts:read blink:transfers:write''),
       cm_scp = None, cm_scopes = None\<rparr> else None),
     tl_update_from_slice = (\<lambda>_. Some ''btc''),
     tl_transfer_from_slice = (\<lambda>_. Some \<lparr>it_domain = ''x.org'', it_identifier = ''bob'',
       it_destination_spark_pubkey = ''02bb'', it_description = ''hi''\<rparr>)\<rparr>"

definition demo_authority :: "string internal_auth_state" where
  "demo_authority = \<lparr>ia_keys = [''k1'' \<mapsto> ''key''], ia_issuer = ''i'', ia_audience = ''a''\<rparr>"

definition demo_headers :: header_map where
  "demo_headers = [''authorization'' \<mapsto> Text ''Bearer a.b.c'']"

definition demo_principal :: internal_principal where
  "demo_principal = \<lparr>pn_subject = None, pn_scopes = {SCOPE_BLINK_ACCOUNTS_CREATE, SCOPE_BLINK_ACCOUNTS_READ,
     SCOPE_BLINK_TRANSFERS_WRITE}\<rparr>"

definition demo_create :: create_blink_request where
  "demo_create = \<lparr>cb_domain = ''X.org'', cb_blink_account_id = ''b1'', cb_btc_wallet_id = ''wb'', cb_usd_wallet_id = ''wu'',
     cb_default_wallet = ''usd'', cb_description = ''hi'', cb_identifiers = [''Bob'']\<rparr>"

lemma demo_quiet: "\<forall>k d. ev_others demo_env k d = d" "\<forall>k. ev_fault demo_env k = Healthy" "accounts_inv (sv_db demo_server)"
  by (simp_all add: demo_env_def demo_server_def accounts_inv_empty)

abbreviation demo_internal :: "bool \<times> server" where
  "demo_internal \<equiv> serve_internal demo_tokens demo_env demo_phone_lib None {} (Some demo_authority) demo_headers
     (CreateAccountReq demo_create) demo_server"

lemma demo_internal_served: "fst demo_internal"
  by code_simp

theorem internal_authorised_witness:
  "fst demo_internal \<and> accounts_inv (sv_db (snd demo_internal)) \<and>
   (\<exists>scopes. token_grants demo_tokens (Some demo_authority) demo_headers scopes)"
proof -
  have "demo_internal = (fst demo_internal, snd demo_internal)" by simp
  from internal_authorised [OF this] demo_internal_served demo_quiet show ?thesis by auto
qed

abbreviation demo_shadowed :: "bool \<times> server" where
  "demo_shadowed \<equiv> serve_internal demo_tokens demo_env demo_phone_lib (Some (as_bytes ''ca'')) {} (Some demo_authority) demo_headers
     (CreateAccountReq demo_create) demo_server"

theorem internal_shadowed_by_certificates_witness:
  "\<not> fst demo_shadowed \<and> sv_db (snd demo_shadowed) = sv_db demo_server"
proof -
  have "demo_shadowed = (fst demo_shadowed, snd demo_shadowed)" by simp
  moreover have "\<forall>s b. tl_base64_decode demo_tokens s = Some b \<longrightarrow> CHR ''.'' \<notin> set s"
    "\<forall>t h. tl_decode_header demo_tokens t = Some h \<longrightarrow> CHR ''.'' \<in> set t"
    by (simp_all add: demo_tokens_def)
  ultimately show ?thesis using internal_shadowed_by_certificates [OF _ _ refl] by blast
qed

abbreviation demo_created :: "(internal_error + create_blink_response) \<times> server" where
  "demo_created \<equiv> create_internal_blink_account demo_env demo_phone_lib demo_principal demo_create demo_server"

lemma demo_created_ok: "map_sum id cr_domain (fst demo_created) = Inr ''x.org''"
  by code_simp

lemma demo_response: "\<exists>resp. demo_created = (Inr resp, snd demo_created) \<and> cr_domain resp = ''x.org''"
  using demo_created_ok by (cases "fst demo_created") (auto dest: action_result)

theorem internal_create_found_witness:
  "\<exists>l. fst (get_internal_identifier demo_env demo_phone_lib demo_principal ''X.org'' ''Bob'' (snd demo_created)) = Inr l \<and>
     lr_provider l = ''blink''"
proof -
  obtain resp where r: "demo_created = (Inr resp, snd demo_created)" "cr_domain resp = ''x.org''" using demo_response by blast
  have "''Bob'' \<in> set (cb_identifiers demo_create)" "SCOPE_BLINK_ACCOUNTS_READ \<in> pn_scopes demo_principal"
    "\<not> list_ex is_whitespace (cr_domain resp)" "cb_domain demo_create = ''X.org''"
    by (simp_all add: demo_create_def demo_principal_def r(2) is_whitespace_def)
  with internal_create_found [OF demo_quiet(3,1,2) r(1)] show ?thesis by metis
qed

abbreviation demo_moved :: "(internal_error + internal_transfer_response) \<times> server" where
  "demo_moved \<equiv> transfer_identifier_to_spark demo_tokens demo_env demo_phone_lib demo_principal [] (snd demo_created)"

lemma demo_moved_ok:
  "map_sum id (\<lambda>x. (xr_domain x, xr_identifier x, xr_spark_pubkey x)) (fst demo_moved) = Inr (''x.org'', ''bob'', ''02bb'')"
  by code_simp

theorem internal_transfer_moves_witness:
  "\<exists>r'. resolve_recipient_by_identifier ''x.org'' ''bob'' (sv_db (snd demo_moved)) = Inr (Some r') \<and>
     rr_spark_pubkey r' = Some ''02bb''"
proof -
  obtain resp where r: "demo_moved = (Inr resp, snd demo_moved)" "xr_domain resp = ''x.org''"
    "xr_identifier resp = ''bob''" "xr_spark_pubkey resp = ''02bb''"
    using demo_moved_ok by (cases "fst demo_moved") (auto dest: action_result)
  have "accounts_inv (sv_db (snd demo_created))"
  proof -
    have "served demo_env (op_step demo_env (scope_allows demo_env (pn_scopes demo_principal))) (sv_db demo_server) (sv_db (snd demo_created))"
      by (rule writesD [OF internal_writes(1)])
    then show ?thesis by (rule served_invariant) (use demo_quiet op_step_inv in \<open>auto\<close>)
  qed
  from internal_transfer_moves [OF this demo_quiet(1) r(1)] r(2-4) show ?thesis by auto
qed

end
