(* ===== verification/Lnurl_Background.thy ===== *)
theory Lnurl_Background
  imports Lnurl_Zap "HOL-Library.AList"
begin

text \<open>
  The webhook processor (\<open>webhooks/background.rs\<close>), the cache of webhook endpoints
  (\<open>webhooks/config.rs\<close>) and the refresh of the allowed domains (\<open>domains.rs\<close>). The processor's own
  state is a record; its loops are a step relation in which a poll, the end of a delivery task, a
  refresh and a cleanup come in any order, so a delivery task may be held up arbitrarily long. The
  sleeps between rounds are not modelled.
\<close>

section \<open>Endpoints\<close>

text \<open>A \<open>HashMap\<close> by domain, as an association list without repeated keys.\<close>

type_synonym webhook_configs = "(string \<times> webhook_config) list"

definition config_map :: "webhook_config list \<Rightarrow> webhook_configs" where
  "config_map cs = fold (\<lambda>c m. AList.update (wc_domain c) c m) cs []"

definition load_configs :: "('k, 's) env \<Rightarrow> (repository_error, webhook_configs) action" where
  "load_configs env = db_read env (\<lambda>d. Inr (config_map (list_webhook_configs d)))"

definition configs_equal :: "webhook_configs \<Rightarrow> webhook_configs \<Rightarrow> bool" where
  "configs_equal a b \<longleftrightarrow> length a = length b \<and>
     list_all (\<lambda>(k, v). case map_of b k of None \<Rightarrow> False
       | Some bv \<Rightarrow> wc_url bv = wc_url v \<and> wc_secret bv = wc_secret v) a"

definition refresh_configs :: "('k, 's) env \<Rightarrow> webhook_configs \<Rightarrow> server \<Rightarrow> webhook_configs \<times> server" where
  "refresh_configs env cache w =
     (case load_configs env w of
        (Inl _, w') \<Rightarrow> (cache, w')
      | (Inr latest, w') \<Rightarrow> (if configs_equal cache latest then cache else latest, w'))"

section \<open>Allowed domains\<close>

definition refresh_domains :: "('k, 's) env \<Rightarrow> string set \<Rightarrow> server \<Rightarrow> string set \<times> server" where
  "refresh_domains env domains w =
     (case db_read env (\<lambda>d. Inr (list_domains d)) w of
        (Inl _, w') \<Rightarrow> (domains, w')
      | (Inr latest, w') \<Rightarrow> (if domains = set latest then domains else set latest, w'))"

section \<open>One delivery\<close>

definition MAX_ERROR_BODY_LEN :: nat where "MAX_ERROR_BODY_LEN = 512"

text \<open>The longest prefix of at most so many bytes: the slice up to \<open>floor_char_boundary\<close>.\<close>

fun take_bytes :: "nat \<Rightarrow> string \<Rightarrow> string" where
  "take_bytes n [] = []"
| "take_bytes n (c # cs) =
     (if length (utf8_char c) \<le> n then c # take_bytes (n - length (utf8_char c)) cs else [])"

definition truncate_string :: "string \<Rightarrow> nat \<Rightarrow> string" where
  "truncate_string s max_len = (if utf8_len s \<le> max_len then s else take_bytes max_len s @ ''...'')"

record delivery_error =
  de_status_code :: "int option"
  de_body :: "string option"

definition send_webhook ::
  "('k, 's) env \<Rightarrow> string \<Rightarrow> string \<Rightarrow> string \<Rightarrow> (delivery_error, unit) action" where
  "send_webhook env url payload_json secret =
     bind_act (ask (\<lambda>k. pl_post (ev_lib env) k url
       (hex_encode (ev_crypto env) (hmac_sha256 (ev_crypto env) (as_bytes secret) (as_bytes payload_json)))
       payload_json)) (\<lambda>reply.
     case reply of
       PostFailed e \<Rightarrow> fail \<lparr>de_status_code = None, de_body = Some (truncate_string e MAX_ERROR_BODY_LEN)\<rparr>
     | Posted status body \<Rightarrow>
         if 200 \<le> status \<and> status < 300 then ret ()
         else fail \<lparr>de_status_code = Some (int status),
           de_body = map_option (\<lambda>b. truncate_string b MAX_ERROR_BODY_LEN) body\<rparr>)"

text \<open>Failures of the repository are only logged. A retry count is never negative.\<close>

definition process_webhook_delivery ::
  "('k, 's) env \<Rightarrow> webhook_configs \<Rightarrow> webhook_delivery \<Rightarrow> (unit, unit) action" where
  "process_webhook_delivery env configs delivery =
     (case map_of configs (wd_domain delivery) of
        None \<Rightarrow>
          if wd_url delivery \<noteq> None
          then ignore_err (db_exec env (\<lambda>_. park_webhook_delivery (wd_id delivery)))
          else ignore_err (db_exec env (\<lambda>_. delete_webhook_delivery (wd_id delivery)))
      | Some config \<Rightarrow>
          bind_act (read_millis env) (\<lambda>now.
          on_result (send_webhook env (wc_url config) (wd_payload delivery) (wc_secret config))
            (\<lambda>_. ignore_err (db_exec env (\<lambda>_. update_webhook_delivery_success (wd_id delivery) now (wc_url config))))
            (\<lambda>e. let retry_count = i32_saturating_add (wd_retry_count delivery) 1;
                     next_retry_at = i64_saturating_add now (next_retry_delay (nat retry_count)) in
               ignore_err (db_exec env (\<lambda>_. update_webhook_delivery_failure (wd_id delivery) retry_count next_retry_at
                 (de_status_code e) (de_body e) (wc_url config))))))"

section \<open>Polling\<close>

definition MAX_CONCURRENT_PER_DOMAIN :: nat where "MAX_CONCURRENT_PER_DOMAIN = 20"

text \<open>
  The endpoint cache, the free permits of the semaphore of each domain seen, and the spawned tasks
  that hold a permit.
\<close>

record webhook_processor =
  bp_configs :: webhook_configs
  bp_permits :: "string \<rightharpoonup> nat"
  bp_running :: "webhook_delivery list"

definition get_semaphore :: "string \<Rightarrow> webhook_processor \<Rightarrow> webhook_processor" where
  "get_semaphore domain p =
     (if bp_permits p domain = None
      then p\<lparr>bp_permits := (bp_permits p)(domain \<mapsto> MAX_CONCURRENT_PER_DOMAIN)\<rparr> else p)"

text \<open>\<open>try_acquire_owned\<close> and the spawning of the task.\<close>

definition try_spawn :: "webhook_delivery \<Rightarrow> webhook_processor \<Rightarrow> bool \<times> webhook_processor" where
  "try_spawn x p =
     (case bp_permits p (wd_domain x) of
        Some (Suc n) \<Rightarrow> (True, p\<lparr>bp_permits := (bp_permits p)(wd_domain x \<mapsto> n), bp_running := bp_running p @ [x]\<rparr>)
      | _ \<Rightarrow> (False, p))"

text \<open>The loop over the claimed deliveries; the ids are those to unclaim.\<close>

fun dispatch :: "webhook_delivery list \<Rightarrow> webhook_processor \<Rightarrow> int list \<times> webhook_processor" where
  "dispatch [] p = ([], p)"
| "dispatch (x # xs) p =
     (case try_spawn x (get_semaphore (wd_domain x) p) of
        (spawned, p1) \<Rightarrow>
          (case dispatch xs p1 of (ids, p2) \<Rightarrow> (if spawned then ids else wd_id x # ids, p2)))"

definition take_deliveries :: "('k, 's) env \<Rightarrow> (repository_error, webhook_delivery list) action" where
  "take_deliveries env = db_call env (\<lambda>k d.
     case on_backend (ev_backend env) take_pending_webhook_deliveries take_pending_webhook_deliveries_pg
       (pl_now_millis (ev_lib env) k) d of (xs, d') \<Rightarrow> (Inr xs, d'))"

definition process_pending_webhook_deliveries ::
  "('k, 's) env \<Rightarrow> webhook_processor \<Rightarrow> server \<Rightarrow> webhook_processor \<times> server" where
  "process_pending_webhook_deliveries env p w =
     (case take_deliveries env w of
        (Inl _, w') \<Rightarrow> (p, w')
      | (Inr deliveries, w') \<Rightarrow>
          (case dispatch deliveries p of (ids, p') \<Rightarrow>
            (p', if ids = [] then w' else snd (db_exec env (\<lambda>_. unclaim_webhook_deliveries ids) w'))))"

text \<open>A spawned task to its end: it reads the cache, attempts its delivery and gives its permit back.\<close>

definition run_task :: "('k, 's) env \<Rightarrow> nat \<Rightarrow> webhook_processor \<Rightarrow> server \<Rightarrow> webhook_processor \<times> server" where
  "run_task env i p w =
     (let x = bp_running p ! i in
      (p\<lparr>bp_running := take i (bp_running p) @ drop (Suc i) (bp_running p),
         bp_permits := (bp_permits p)(wd_domain x := map_option Suc (bp_permits p (wd_domain x)))\<rparr>,
       snd (process_webhook_delivery env (bp_configs p) x w)))"

section \<open>Cleanup\<close>

definition cleanup_ttl_ms :: "u32 \<Rightarrow> int" where
  "cleanup_ttl_ms webhook_delivery_ttl_days = sat_i64 (uint webhook_delivery_ttl_days * 86400000)"

definition cleanup_old_webhook_deliveries :: "('k, 's) env \<Rightarrow> int \<Rightarrow> ('e, unit) action" where
  "cleanup_old_webhook_deliveries env ttl_ms =
     bind_act (read_millis env) (\<lambda>now.
     ignore_err (db_call env (\<lambda>_ d.
       case delete_webhook_deliveries_older_than (i64_saturating_sub now ttl_ms) d of (n, d') \<Rightarrow> (Inr n, d'))))"

section \<open>The processor as a whole\<close>

inductive processor_step ::
  "('k, 's) env \<Rightarrow> int \<Rightarrow> webhook_processor \<times> server \<Rightarrow> webhook_processor \<times> server \<Rightarrow> bool" for env ttl_ms where
  poll: "process_pending_webhook_deliveries env p w = s \<Longrightarrow> processor_step env ttl_ms (p, w) s"
| finish: "i < length (bp_running p) \<Longrightarrow> run_task env i p w = s \<Longrightarrow> processor_step env ttl_ms (p, w) s"
| refresh: "refresh_configs env (bp_configs p) w = (c, w') \<Longrightarrow>
    processor_step env ttl_ms (p, w) (p\<lparr>bp_configs := c\<rparr>, w')"
| cleanup: "cleanup_old_webhook_deliveries env ttl_ms w = (Inr () :: unit + unit, w') \<Longrightarrow>
    processor_step env ttl_ms (p, w) (p, w')"

inductive_cases processor_stepE: "processor_step env ttl_ms (p, w) s"

definition initial_processor :: "webhook_configs \<Rightarrow> webhook_processor" where
  "initial_processor configs = \<lparr>bp_configs = configs, bp_permits = Map.empty, bp_running = []\<rparr>"

end
