(* ===== verification/Lnurl_Background_Thms.thy ===== *)
theory Lnurl_Background_Thms
  imports Lnurl_Background
begin

text \<open>
  Theorems about the webhook processor: the number of tasks in flight, what an attempt does to the
  queue, that a ready delivery gets through, and that a delivered one is left alone.
\<close>

section \<open>Slots\<close>

definition in_flight :: "string \<Rightarrow> webhook_processor \<Rightarrow> nat" where
  "in_flight dn p = length (filter (\<lambda>x. wd_domain x = dn) (bp_running p))"

definition free_slots :: "string \<Rightarrow> webhook_processor \<Rightarrow> nat" where
  "free_slots dn p = (case bp_permits p dn of None \<Rightarrow> MAX_CONCURRENT_PER_DOMAIN | Some n \<Rightarrow> n)"

definition slots_inv :: "webhook_processor \<Rightarrow> bool" where
  "slots_inv p \<longleftrightarrow> (\<forall>dn. in_flight dn p + free_slots dn p = MAX_CONCURRENT_PER_DOMAIN)"

lemma slots_get_semaphore [simp]:
  "in_flight dn (get_semaphore d p) = in_flight dn p" "free_slots dn (get_semaphore d p) = free_slots dn p"
  "bp_running (get_semaphore d p) = bp_running p" "bp_configs (get_semaphore d p) = bp_configs p"
  by (simp_all add: get_semaphore_def in_flight_def free_slots_def)

lemma slots_inv_get_semaphore [simp]: "slots_inv (get_semaphore d p) = slots_inv p"
  by (simp add: slots_inv_def)

lemma get_semaphore_permit: "bp_permits (get_semaphore d p) d = Some (free_slots d p)"
  by (auto simp: get_semaphore_def free_slots_def split: option.splits)

text \<open>A task is spawned exactly when a slot is free.\<close>

lemma try_spawn_iff:
  "try_spawn x (get_semaphore (wd_domain x) p) =
     (if free_slots (wd_domain x) p = 0 then (False, get_semaphore (wd_domain x) p)
      else (True, (get_semaphore (wd_domain x) p)\<lparr>
        bp_permits := (bp_permits (get_semaphore (wd_domain x) p))(wd_domain x \<mapsto> free_slots (wd_domain x) p - 1),
        bp_running := bp_running p @ [x]\<rparr>))"
  by (simp add: try_spawn_def get_semaphore_permit split: nat.splits)

lemma spawn_slots:
  assumes "try_spawn x (get_semaphore (wd_domain x) p) = (spawned, p1)"
  shows "slots_inv p \<Longrightarrow> slots_inv p1"
    and "free_slots dn p1 = free_slots dn p - (if spawned \<and> dn = wd_domain x then 1 else 0)"
    and "bp_running p1 = bp_running p @ (if spawned then [x] else [])"
    and "spawned \<longleftrightarrow> free_slots (wd_domain x) p \<noteq> 0"
    and "bp_configs p1 = bp_configs p"
proof -
  let ?q = "(get_semaphore (wd_domain x) p)\<lparr>
    bp_permits := (bp_permits (get_semaphore (wd_domain x) p))(wd_domain x \<mapsto> free_slots (wd_domain x) p - 1),
    bp_running := bp_running p @ [x]\<rparr>"
  have q: "in_flight dn ?q = in_flight dn p + (if dn = wd_domain x then 1 else 0)"
    "free_slots dn ?q = (if dn = wd_domain x then free_slots dn p - 1 else free_slots dn p)" for dn
    using slots_get_semaphore(2) [of dn "wd_domain x" p] by (simp_all add: in_flight_def free_slots_def)
  have c: "(spawned, p1) = (if free_slots (wd_domain x) p = 0 then (False, get_semaphore (wd_domain x) p) else (True, ?q))"
    using assms unfolding try_spawn_iff by simp
  show "spawned \<longleftrightarrow> free_slots (wd_domain x) p \<noteq> 0"
    "free_slots dn p1 = free_slots dn p - (if spawned \<and> dn = wd_domain x then 1 else 0)"
    "bp_running p1 = bp_running p @ (if spawned then [x] else [])" "bp_configs p1 = bp_configs p"
    using c q(2) by (simp_all split: if_splits)
  show "slots_inv p1" if "slots_inv p"
  proof (cases "free_slots (wd_domain x) p = 0")
    case False
    with c have p1: "p1 = ?q" by simp
    have "in_flight dn p + free_slots dn p = MAX_CONCURRENT_PER_DOMAIN" for dn using that by (simp add: slots_inv_def)
    then show ?thesis using False unfolding slots_inv_def p1 q by (smt (verit) Suc_pred add.assoc add.commute neq0_conv plus_1_eq_Suc add_0 diff_zero add_0_right)
  qed (use c that in simp)
qed

lemma dispatch_slots:
  assumes "dispatch xs p = (ids, p')"
  shows "slots_inv p \<Longrightarrow> slots_inv p'" and "free_slots dn p' \<le> free_slots dn p"
    and "set (bp_running p') \<subseteq> set (bp_running p) \<union> set xs"
    and "\<exists>ys. bp_running p' = bp_running p @ ys"
    and "x \<in> set xs \<Longrightarrow> x \<in> set (bp_running p') \<or> wd_id x \<in> set ids \<and> free_slots (wd_domain x) p' = 0"
    and "bp_configs p' = bp_configs p"
proof -
  have "(slots_inv p \<longrightarrow> slots_inv p') \<and> (\<forall>dn. free_slots dn p' \<le> free_slots dn p) \<and>
    set (bp_running p') \<subseteq> set (bp_running p) \<union> set xs \<and> (\<exists>ys. bp_running p' = bp_running p @ ys) \<and>
    (\<forall>x \<in> set xs. x \<in> set (bp_running p') \<or> wd_id x \<in> set ids \<and> free_slots (wd_domain x) p' = 0) \<and>
    bp_configs p' = bp_configs p"
    using assms
  proof (induction xs arbitrary: p ids)
    case (Cons x xs)
    obtain spawned p1 where s: "try_spawn x (get_semaphore (wd_domain x) p) = (spawned, p1)"
      by (cases "try_spawn x (get_semaphore (wd_domain x) p)")
    obtain ids1 where d: "dispatch xs p1 = (ids1, p')" and ids: "ids = (if spawned then ids1 else wd_id x # ids1)"
      using Cons.prems s by (auto split: prod.splits if_splits)
    note sp = spawn_slots [OF s]
    note IH = Cons.IH [OF d]
    have 1: "x \<in> set (bp_running p') \<or> wd_id x \<in> set ids \<and> free_slots (wd_domain x) p' = 0"
    proof (cases spawned)
      case True
      then show ?thesis using IH sp(3) by auto
    next
      case False
      then have "free_slots (wd_domain x) p1 = 0" using sp(2,4) by simp
      moreover have "free_slots (wd_domain x) p' \<le> free_slots (wd_domain x) p1" using IH by blast
      ultimately show ?thesis using False ids by simp
    qed
    have 2: "free_slots dn p' \<le> free_slots dn p" for dn
    proof -
      have "free_slots dn p' \<le> free_slots dn p1" using IH by blast
      also have "\<dots> \<le> free_slots dn p" by (simp add: sp(2))
      finally show ?thesis .
    qed
    have 3: "set (bp_running p') \<subseteq> set (bp_running p) \<union> set (x # xs)" using IH sp(3) by auto
    have 4: "\<exists>ys. bp_running p' = bp_running p @ ys" using IH sp(3) by auto
    have 5: "slots_inv p \<longrightarrow> slots_inv p'" "bp_configs p' = bp_configs p" using IH sp(1,5) by simp_all
    have "y \<in> set (bp_running p') \<or> wd_id y \<in> set ids \<and> free_slots (wd_domain y) p' = 0" if "y \<in> set xs" for y
      using IH that ids by (cases spawned) auto
    with 1 2 3 4 5 show ?case by simp
  qed simp
  then show "slots_inv p \<Longrightarrow> slots_inv p'" "free_slots dn p' \<le> free_slots dn p"
    "set (bp_running p') \<subseteq> set (bp_running p) \<union> set xs" "\<exists>ys. bp_running p' = bp_running p @ ys"
    "x \<in> set xs \<Longrightarrow> x \<in> set (bp_running p') \<or> wd_id x \<in> set ids \<and> free_slots (wd_domain x) p' = 0"
    "bp_configs p' = bp_configs p"
    by blast+
qed

lemma finish_slots:
  assumes "i < length (bp_running p)" "slots_inv p" "run_task env i p w = (p', w')"
  shows "slots_inv p'"
proof -
  let ?x = "bp_running p ! i"
  have r: "bp_running p = take i (bp_running p) @ ?x # drop (Suc i) (bp_running p)"
    by (rule id_take_nth_drop [OF assms(1)])
  have p': "bp_running p' = take i (bp_running p) @ drop (Suc i) (bp_running p)"
    "bp_permits p' = (bp_permits p)(wd_domain ?x := map_option Suc (bp_permits p (wd_domain ?x)))"
    using assms(3) by (auto simp: run_task_def Let_def)
  have flight: "in_flight dn p = in_flight dn p' + (if dn = wd_domain ?x then 1 else 0)" for dn
    unfolding in_flight_def p' by (subst r) simp
  have inv: "in_flight dn p + free_slots dn p = MAX_CONCURRENT_PER_DOMAIN" for dn
    using assms(2) by (simp add: slots_inv_def)
  obtain n where n: "bp_permits p (wd_domain ?x) = Some n"
    using inv [of "wd_domain ?x"] flight [of "wd_domain ?x"] by (cases "bp_permits p (wd_domain ?x)") (auto simp: free_slots_def)
  have "free_slots dn p' = free_slots dn p + (if dn = wd_domain ?x then 1 else 0)" for dn
    using n by (simp add: free_slots_def p')
  then have "in_flight dn p' + free_slots dn p' = in_flight dn p + free_slots dn p" for dn
    using flight [of dn] by (cases "dn = wd_domain ?x") simp_all
  then show ?thesis using inv by (simp add: slots_inv_def)
qed

lemma poll_cases:
  assumes "process_pending_webhook_deliveries env p w = (p', w')"
  obtains (lost) e where "take_deliveries env w = (Inl e, w')" "p' = p"
    | (taken) xs w1 ids where "take_deliveries env w = (Inr xs, w1)" "dispatch xs p = (ids, p')"
        "w' = (if ids = [] then w1 else snd (db_exec env (\<lambda>_. unclaim_webhook_deliveries ids) w1))"
  using assms by (auto simp: process_pending_webhook_deliveries_def split: prod.splits sum.splits)

lemma slots_step:
  assumes "processor_step env ttl_ms s s'" "slots_inv (fst s)"
  shows "slots_inv (fst s')"
  using assms
proof cases
  case (poll p w)
  obtain p' w' where s': "s' = (p', w')" by (cases s')
  from poll(2) [unfolded s'] show ?thesis
  proof (cases rule: poll_cases)
    case (taken xs w1 ids)
    with dispatch_slots(1) [OF taken(2)] assms(2) poll(1) s' show ?thesis by simp
  qed (use assms(2) poll(1) s' in simp)
next
  case (finish i p w)
  obtain p' w' where s': "s' = (p', w')" by (cases s')
  show ?thesis using finish_slots [OF finish(2) _ finish(3) [unfolded s']] assms(2) finish(1) s' by simp
next
  case (refresh p w c w')
  then show ?thesis using assms(2) by (simp add: slots_inv_def in_flight_def free_slots_def)
next
  case (cleanup w w' p)
  then show ?thesis using assms(2) by simp
qed

lemma slots_reachable:
  assumes "(processor_step env ttl_ms)\<^sup>*\<^sup>* (initial_processor cs, w0) s"
  shows "slots_inv (fst s)"
  using assms
proof (induction rule: rtranclp_induct)
  case base
  show ?case by (simp add: slots_inv_def in_flight_def free_slots_def initial_processor_def)
next
  case (step s s')
  then show ?case using slots_step by blast
qed


definition slow_delivery :: "int \<Rightarrow> webhook_delivery" where
  "slow_delivery i = new_delivery_row i 500 \<lparr>nd_identifier = [], nd_domain = ''x.org'', nd_payload = ''{}''\<rparr>"

definition webhook_server :: server where
  "webhook_server = \<lparr>sv_db = empty_db\<lparr>webhook_deliveries := [slow_delivery 1, slow_delivery 2]\<rparr>,
     sv_ip_rate_limiter = limiter_new 10 60 100 True, sv_country_lookup_budget = budget_new 10 60 0,
     sv_legacy_verifies = replicate 7 0, sv_spawned = [], sv_usd_min_sendable_cache = None,
     sv_invoice_paid_triggers = 0, sv_step = 0\<rparr>"


section \<open>Delivered once\<close>

text \<open>The delivery has been accepted by its endpoint, or its row is gone.\<close>

definition settled_delivery :: "int \<Rightarrow> db \<Rightarrow> bool" where
  "settled_delivery i d \<longleftrightarrow> (\<forall>r \<in> set (webhook_deliveries d). wd_id r = i \<longrightarrow> wd_succeeded_at r \<noteq> None)"

definition keeps_settled :: "int \<Rightarrow> nat \<Rightarrow> db \<Rightarrow> db \<Rightarrow> bool" where
  "keeps_settled i k d d' \<longleftrightarrow> (settled_delivery i d \<longrightarrow> settled_delivery i d')"

lemma webhook_deliveries_update: "webhook_deliveries (d\<lparr>webhook_deliveries := t\<rparr>) = t"
  by simp

lemma settled_update:
  assumes "\<And>r. wd_id (f r) = wd_id r" "\<And>r. wd_succeeded_at r \<noteq> None \<Longrightarrow> wd_succeeded_at (f r) \<noteq> None"
  shows "keeps_settled i k d (d\<lparr>webhook_deliveries := update_where P f (webhook_deliveries d)\<rparr>)"
proof (unfold keeps_settled_def settled_delivery_def, intro impI ballI)
  fix r
  assume d: "\<forall>r \<in> set (webhook_deliveries d). wd_id r = i \<longrightarrow> wd_succeeded_at r \<noteq> None"
    and "r \<in> set (webhook_deliveries (d\<lparr>webhook_deliveries := update_where P f (webhook_deliveries d)\<rparr>))" "wd_id r = i"
  then consider "r \<in> set (webhook_deliveries d)" | r0 where "r0 \<in> set (webhook_deliveries d)" "r = f r0"
    unfolding webhook_deliveries_update set_update_where by blast
  then show "wd_succeeded_at r \<noteq> None"
    using d \<open>wd_id r = i\<close> assms by cases auto
qed

lemma settled_delete:
  "keeps_settled i k d (d\<lparr>webhook_deliveries := delete_where P (webhook_deliveries d)\<rparr>)"
  by (simp add: keeps_settled_def settled_delivery_def table_simps)

lemma webhook_ops_keep_settled:
  "keeps_settled i k d (snd (take_pending_webhook_deliveries now d))"
  "keeps_settled i k d (update_webhook_delivery_success j now url d)"
  "keeps_settled i k d (update_webhook_delivery_failure j n t status body url d)"
  "keeps_settled i k d (unclaim_webhook_deliveries ids d)"
  "keeps_settled i k d (delete_webhook_delivery j d)"
  "keeps_settled i k d (park_webhook_delivery j d)"
  "keeps_settled i k d (snd (delete_webhook_deliveries_older_than before d))"
proof -
  have "keeps_settled i k d d" by (simp add: keeps_settled_def)
  then show "keeps_settled i k d (unclaim_webhook_deliveries ids d)"
    using settled_update [of "\<lambda>r. r\<lparr>wd_claimed_at := None\<rparr>"] by (simp add: unclaim_webhook_deliveries_def)
qed (auto simp: take_pending_webhook_deliveries_eq claim_delivery_def update_webhook_delivery_success_def
    update_webhook_delivery_failure_def delete_webhook_delivery_def park_webhook_delivery_def
    delete_webhook_deliveries_older_than_def intro!: settled_update settled_delete)

lemma writes_send_webhook: "writes env G (send_webhook env url payload secret)"
  unfolding send_webhook_def
  by (intro writes_rules writes_same_db) (auto simp: ask_def ret_def fail_def split: post_reply.splits)

lemma writes_attempt: "writes env (keeps_settled i) (process_webhook_delivery env configs x)"
  unfolding process_webhook_delivery_def Let_def
  by (intro writes_rules writes_on_result writes_exec writes_send_webhook webhook_ops_keep_settled)

lemma take_on_backend:
  "on_backend b take_pending_webhook_deliveries take_pending_webhook_deliveries_pg = take_pending_webhook_deliveries"
  by (cases b) (simp_all add: fun_eq_iff take_deliveries_backends)

lemma writes_take: "writes env (keeps_settled i) (take_deliveries env)"
  unfolding take_deliveries_def
  by (rule writes_call) (simp add: take_on_backend split_beta webhook_ops_keep_settled(1))

lemma writes_cleanup: "writes env (keeps_settled i) (cleanup_old_webhook_deliveries env ttl_ms)"
  unfolding cleanup_old_webhook_deliveries_def
  by (intro writes_rules writes_call) (simp add: webhook_ops_keep_settled(7) split_beta)

lemma settled_served:
  assumes "served env (keeps_settled i) d d'" "settled_delivery i d"
    and "\<And>k d. settled_delivery i d \<Longrightarrow> settled_delivery i (ev_others env k d)"
  shows "settled_delivery i d'"
  by (rule served_invariant [where I = "settled_delivery i", OF assms(1,2)])
    (rule assms(3), assumption, simp add: keeps_settled_def)

text \<open>What a poll takes is not settled.\<close>

lemma taken_unsettled:
  assumes "take_deliveries env w = (Inr xs, w1)" "x \<in> set xs"
  shows "\<not> settled_delivery (wd_id x) (ev_others env (sv_step w) (sv_db w))"
proof -
  let ?d = "ev_others env (sv_step w) (sv_db w)" and ?now = "pl_now_millis (ev_lib env) (sv_step w)"
  have "xs = fst (take_pending_webhook_deliveries ?now ?d)"
    using assms(1) by (simp add: take_deliveries_def db_call_iff take_on_backend split_beta)
  then have "wd_id x \<in> delivery_keys ?now ?d" using assms(2) by (simp add: take_pending_webhook_deliveries_eq)
  then obtain r where "r \<in> set (webhook_deliveries ?d)" "wd_id r = wd_id x" "delivery_ready ?now r"
    using delivery_keys_ready by blast
  then show ?thesis by (auto simp: settled_delivery_def delivery_ready_def)
qed

definition tasks_of :: "int \<Rightarrow> webhook_processor \<Rightarrow> nat" where
  "tasks_of i p = length (filter (\<lambda>x. wd_id x = i) (bp_running p))"

lemma dispatch_tasks:
  assumes "dispatch xs p = (ids, p')" "\<forall>x \<in> set xs. wd_id x \<noteq> i"
  shows "tasks_of i p' = tasks_of i p"
  using assms
proof (induction xs arbitrary: p ids)
  case (Cons x xs)
  obtain spawned p1 where s: "try_spawn x (get_semaphore (wd_domain x) p) = (spawned, p1)"
    by (cases "try_spawn x (get_semaphore (wd_domain x) p)")
  obtain ids1 where d: "dispatch xs p1 = (ids1, p')"
    using Cons.prems s by (auto split: prod.splits if_splits)
  have "tasks_of i p1 = tasks_of i p" using spawn_slots(3) [OF s] Cons.prems(2) by (simp add: tasks_of_def)
  with Cons.IH [OF d] Cons.prems(2) show ?case by simp
qed simp

lemma finish_tasks:
  assumes "i < length (bp_running p)" "run_task env i p w = (p', w')"
  shows "tasks_of j p' \<le> tasks_of j p"
proof -
  have "bp_running p' = take i (bp_running p) @ drop (Suc i) (bp_running p)"
    using assms(2) by (auto simp: run_task_def Let_def)
  moreover have "bp_running p = take i (bp_running p) @ bp_running p ! i # drop (Suc i) (bp_running p)"
    by (rule id_take_nth_drop [OF assms(1)])
  then have "filter (\<lambda>x. wd_id x = j) (bp_running p) =
      filter (\<lambda>x. wd_id x = j) (take i (bp_running p) @ bp_running p ! i # drop (Suc i) (bp_running p))" by simp
  ultimately show ?thesis by (simp add: tasks_of_def)
qed

lemma settled_step:
  assumes step: "processor_step env ttl_ms (p, w) (p', w')" and s: "settled_delivery i (sv_db w)"
    and others: "\<And>k d. settled_delivery i d \<Longrightarrow> settled_delivery i (ev_others env k d)"
  shows "settled_delivery i (sv_db w') \<and> tasks_of i p' \<le> tasks_of i p"
  using step
proof cases
  case poll
  have after: "settled_delivery i (sv_db (snd (m w1)))" if "writes env (keeps_settled i) m" "settled_delivery i (sv_db w1)"
    for m :: "(repository_error, 'x) action" and w1
    by (rule settled_served [OF writesD [OF that(1)] that(2) others])
  from poll show ?thesis
  proof (cases rule: poll_cases)
    case (lost e)
    then show ?thesis using after [OF writes_take s] by simp
  next
    case (taken xs w1 ids)
    have w1: "settled_delivery i (sv_db w1)" using after [OF writes_take s] taken(1) by simp
    have "writes env (keeps_settled i) (db_exec env (\<lambda>_. unclaim_webhook_deliveries ids))"
      by (intro writes_exec webhook_ops_keep_settled)
    from after [OF this w1] have "settled_delivery i (sv_db w')" using w1 taken(3) by simp
    moreover have "\<forall>x \<in> set xs. wd_id x \<noteq> i" using taken_unsettled [OF taken(1)] others [OF s] by blast
    ultimately show ?thesis using dispatch_tasks [OF taken(2)] by simp
  qed
next
  case (finish j)
  have "w' = snd (process_webhook_delivery env (bp_configs p) (bp_running p ! j) w)"
    using finish(2) by (simp add: run_task_def Let_def)
  then show ?thesis
    using settled_served [OF writesD [OF writes_attempt] s others] finish_tasks [OF finish] by simp
next
  case (refresh c)
  have "settled_delivery i (sv_db w')"
    using refresh others [OF s] s
    by (auto simp: refresh_configs_def load_configs_def db_read_def db_call_def Let_def split: prod.splits sum.splits fault.splits)
  then show ?thesis using refresh by (simp add: tasks_of_def)
next
  case cleanup
  have "settled_delivery i (sv_db (snd (cleanup_old_webhook_deliveries env ttl_ms w :: (unit + unit) \<times> server)))"
    by (rule settled_served [OF writesD [OF writes_cleanup] s others])
  then show ?thesis using cleanup by simp
qed

text \<open>
  C34: once an endpoint has accepted a delivery, or its row has been removed, no further task is ever
  spawned for it, and no retry, parking or unclaim undoes it, even if another task was still running
  for it. What others do to the queue is arbitrary, except that they do not put the delivery back.
\<close>

theorem delivered_once:
  assumes "(processor_step env ttl_ms)\<^sup>*\<^sup>* (p, w) (p', w')" and "settled_delivery i (sv_db w)"
    and "\<forall>k d. settled_delivery i d \<longrightarrow> settled_delivery i (ev_others env k d)"
  shows "settled_delivery i (sv_db w') \<and> tasks_of i p' \<le> tasks_of i p"
proof -
  have "settled_delivery i (sv_db (snd s')) \<and> tasks_of i (fst s') \<le> tasks_of i p"
    if "(processor_step env ttl_ms)\<^sup>*\<^sup>* (p, w) s'" for s'
    using that
  proof (induction rule: rtranclp_induct)
    case (step s s')
    have "processor_step env ttl_ms (fst s, snd s) (fst s', snd s')" using step.hyps(2) by simp
    from settled_step [OF this, of i] step.IH assms(3) show ?case by fastforce
  qed (use assms(2) in simp)
  from this [OF assms(1)] show ?thesis by simp
qed

definition busy_env :: "(bytes, bytes) env" where
  "busy_env = demo_env\<lparr>ev_lib := demo_lib\<lparr>pl_post := (\<lambda>_ _ _ _. Posted 503 (Some ''busy''))\<rparr>\<rparr>"

definition stale_server :: server where
  "stale_server = webhook_server\<lparr>sv_db := empty_db\<lparr>
     webhook_deliveries := [(slow_delivery 1)\<lparr>wd_succeeded_at := Some 600\<rparr>, slow_delivery 2]\<rparr>\<rparr>"

text \<open>A second task for a delivery that has gone through meanwhile: it fails, and changes nothing.\<close>

definition stale_processor :: webhook_processor where
  "stale_processor = \<lparr>bp_configs = [(''x.org'', \<lparr>wc_domain = ''x.org'', wc_url = ''u'', wc_secret = ''s''\<rparr>)],
     bp_permits = [''x.org'' \<mapsto> 19], bp_running = [slow_delivery 1]\<rparr>"

theorem delivered_once_witness:
  "settled_delivery 1 (sv_db (snd (run_task busy_env 0 stale_processor stale_server))) \<and>
   tasks_of 1 (fst (run_task busy_env 0 stale_processor stale_server)) \<le> 1"
proof -
  let ?s = "run_task busy_env 0 stale_processor stale_server"
  have "processor_step busy_env 0 (stale_processor, stale_server) (fst ?s, snd ?s)"
    by (rule processor_step.finish [of 0]) (simp_all add: stale_processor_def)
  then have "(processor_step busy_env 0)\<^sup>*\<^sup>* (stale_processor, stale_server) (fst ?s, snd ?s)"
    by (rule r_into_rtranclp)
  moreover have "settled_delivery 1 (sv_db stale_server)"
    by (simp add: settled_delivery_def stale_server_def slow_delivery_def new_delivery_row_def)
  ultimately have "settled_delivery 1 (sv_db (snd ?s)) \<and> tasks_of 1 (fst ?s) \<le> tasks_of 1 stale_processor"
    by (rule delivered_once) (simp add: busy_env_def demo_env_def)
  moreover have "tasks_of 1 stale_processor = 1"
    by (simp add: tasks_of_def stale_processor_def slow_delivery_def new_delivery_row_def)
  ultimately show ?thesis by simp
qed

section \<open>An attempt, abstractly\<close>

text \<open>The queue as it is specified: what is known of each delivery.\<close>

datatype delivery_state = Absent | Delivered | Parked | Waiting (retries: int) (next_at: int)

datatype attempt_outcome = NoEndpoint | Accepted | Rejected int

definition waiting :: "int \<Rightarrow> int \<Rightarrow> delivery_state" where
  "waiting n t = (if t = i64_max then Parked else Waiting n t)"

text \<open>
  Without an endpoint a delivery that was attempted before is parked and another is dropped; a
  rejected one waits for its next turn.
\<close>

fun attempt :: "attempt_outcome \<Rightarrow> bool \<Rightarrow> int \<Rightarrow> delivery_state" where
  "attempt NoEndpoint attempted n = (if attempted then Parked else Absent)"
| "attempt Accepted attempted n = Delivered"
| "attempt (Rejected now) attempted n =
     (let c = i32_saturating_add n 1 in waiting c (i64_saturating_add now (next_retry_delay (nat c))))"

definition row_state :: "webhook_delivery \<Rightarrow> delivery_state" where
  "row_state r = (if wd_succeeded_at r \<noteq> None then Delivered else waiting (wd_retry_count r) (wd_next_retry_at r))"

definition queue_of :: "db \<Rightarrow> int \<Rightarrow> delivery_state" where
  "queue_of d i = (case find (\<lambda>r. wd_id r = i) (webhook_deliveries d) of None \<Rightarrow> Absent | Some r \<Rightarrow> row_state r)"

definition post_outcome :: "int \<Rightarrow> post_reply \<Rightarrow> attempt_outcome" where
  "post_outcome now reply =
     (case reply of PostFailed _ \<Rightarrow> Rejected now | Posted status _ \<Rightarrow> if status \<in> {200..<300} then Accepted else Rejected now)"

definition webhook_reply :: "('k, 's) env \<Rightarrow> nat \<Rightarrow> string \<Rightarrow> string \<Rightarrow> string \<Rightarrow> post_reply" where
  "webhook_reply env k url payload secret = pl_post (ev_lib env) k url
     (hex_encode (ev_crypto env) (hmac_sha256 (ev_crypto env) (as_bytes secret) (as_bytes payload))) payload"

definition outcome_of :: "('k, 's) env \<Rightarrow> webhook_configs \<Rightarrow> nat \<Rightarrow> webhook_delivery \<Rightarrow> attempt_outcome" where
  "outcome_of env configs k x =
     (case map_of configs (wd_domain x) of
        None \<Rightarrow> NoEndpoint
      | Some c \<Rightarrow> post_outcome (pl_now_millis (ev_lib env) k)
          (webhook_reply env (Suc k) (wc_url c) (wd_payload x) (wc_secret c)))"

lemma find_update_where:
  assumes "\<And>r. wd_id (f r) = wd_id r"
  shows "find (\<lambda>r. wd_id r = j) (update_where (\<lambda>r. wd_id r = i) f t) =
    map_option (if j = i then f else id) (find (\<lambda>r. wd_id r = j) t)"
  by (induction t) (auto simp: update_where_def assms)

lemma find_delete_where:
  "find (\<lambda>r. wd_id r = j) (delete_where (\<lambda>r. wd_id r = i) t) = (if j = i then None else find (\<lambda>r. wd_id r = j) t)"
  by (induction t) (auto simp: delete_where_def)

lemma queue_of_update:
  assumes "\<And>r. wd_id (f r) = wd_id r"
    and "\<And>r. find (\<lambda>r. wd_id r = i) (webhook_deliveries d) = Some r \<Longrightarrow> row_state (f r) = q" and "queue_of d i \<noteq> Absent"
  shows "queue_of (d\<lparr>webhook_deliveries := update_where (\<lambda>r. wd_id r = i) f (webhook_deliveries d)\<rparr>) = (queue_of d)(i := q)"
proof
  fix j
  show "queue_of (d\<lparr>webhook_deliveries := update_where (\<lambda>r. wd_id r = i) f (webhook_deliveries d)\<rparr>) j = ((queue_of d)(i := q)) j"
    using assms(2,3) by (cases "find (\<lambda>r. wd_id r = j) (webhook_deliveries d)")
      (auto simp: queue_of_def find_update_where [of f, OF assms(1)])
qed

lemma queue_of_pending:
  assumes "queue_of d i \<notin> {Absent, Delivered}" "find (\<lambda>r. wd_id r = i) (webhook_deliveries d) = Some r"
  shows "wd_succeeded_at r = None"
  using assms by (auto simp: queue_of_def row_state_def split: if_splits)

lemma queue_of_attempt:
  assumes p: "queue_of d i \<notin> {Absent, Delivered}"
  shows "queue_of (park_webhook_delivery i d) = (queue_of d)(i := Parked)"
    and "queue_of (delete_webhook_delivery i d) = (queue_of d)(i := Absent)"
    and "queue_of (update_webhook_delivery_success i now url d) = (queue_of d)(i := Delivered)"
    and "queue_of (update_webhook_delivery_failure i n t status body url d) = (queue_of d)(i := waiting n t)"
proof -
  have a: "queue_of d i \<noteq> Absent" using p by blast
  note s = queue_of_pending [OF p]
  show "queue_of (park_webhook_delivery i d) = (queue_of d)(i := Parked)"
    unfolding park_webhook_delivery_def
    by (rule queue_of_update [OF _ _ a]) (use s in \<open>auto simp: row_state_def waiting_def\<close>)
  show "queue_of (update_webhook_delivery_success i now url d) = (queue_of d)(i := Delivered)"
    unfolding update_webhook_delivery_success_def
    by (rule queue_of_update [OF _ _ a]) (auto simp: row_state_def)
  show "queue_of (update_webhook_delivery_failure i n t status body url d) = (queue_of d)(i := waiting n t)"
    unfolding update_webhook_delivery_failure_def
    by (rule queue_of_update [OF _ _ a]) (use s in \<open>auto simp: row_state_def\<close>)
  show "queue_of (delete_webhook_delivery i d) = (queue_of d)(i := Absent)"
    by (rule ext) (simp add: queue_of_def delete_webhook_delivery_def find_delete_where)
qed

lemma exec_db:
  assumes "ev_others env (sv_step w) (sv_db w) = sv_db w" "ev_fault env (sv_step w) \<noteq> LostRequest"
  shows "sv_db (snd (db_exec env f w)) = f (sv_step w) (sv_db w)"
  using assms by (cases "ev_fault env (sv_step w)") (simp_all add: db_exec_def db_call_def Let_def)

lemma snd_ignore_err [simp]: "snd (ignore_err m w) = snd (m w)"
  by (simp add: ignore_err_def)

text \<open>A delivery is posted once, at the second step of its attempt.\<close>

lemma send_webhook_result:
  obtains (accepted) "send_webhook env url payload secret w = (Inr (), tick w)"
      "post_outcome now (webhook_reply env (sv_step w) url payload secret) = Accepted"
    | (rejected) e where "send_webhook env url payload secret w = (Inl e, tick w)"
      "post_outcome now (webhook_reply env (sv_step w) url payload secret) = Rejected now"
proof (cases "webhook_reply env (sv_step w) url payload secret")
  case (PostFailed e)
  then show thesis using that(2)
    by (auto simp: send_webhook_def bind_act_def ask_def fail_def post_outcome_def webhook_reply_def)
next
  case (Posted status body)
  then show thesis using that
    by (cases "200 \<le> status \<and> status < 300")
      (auto simp: send_webhook_def bind_act_def ask_def fail_def ret_def post_outcome_def webhook_reply_def)
qed

lemma attempt_refines:
  assumes quiet: "\<forall>k d. ev_others env k d = d" and fault: "\<forall>k. ev_fault env k \<noteq> LostRequest"
    and p: "queue_of (sv_db w) (wd_id x) \<notin> {Absent, Delivered}"
  shows "queue_of (sv_db (snd (process_webhook_delivery env configs x w))) = (queue_of (sv_db w))(wd_id x :=
    attempt (outcome_of env configs (sv_step w) x) (wd_url x \<noteq> None) (wd_retry_count x))"
proof -
  have db: "sv_db (snd (db_exec env f w')) = f (sv_step w') (sv_db w')" for f w'
    using exec_db quiet fault by blast
  show ?thesis
  proof (cases "map_of configs (wd_domain x)")
    case None
    then show ?thesis
      using queue_of_attempt [OF p] by (simp add: process_webhook_delivery_def outcome_of_def db)
  next
    case (Some c)
    show ?thesis
      by (cases rule: send_webhook_result [of env "wc_url c" "wd_payload x" "wc_secret c" "tick w"
            "pl_now_millis (ev_lib env) (sv_step w)"])
        (use Some queue_of_attempt [OF p] in \<open>simp_all add: process_webhook_delivery_def outcome_of_def bind_act_def
          read_millis_def on_result_def db Let_def\<close>)
  qed
qed

text \<open>Claims are not part of the specification.\<close>

lemma queue_of_claims:
  assumes "\<And>r. wd_id (f r) = wd_id r" "\<And>r. row_state (f r) = row_state r"
  shows "queue_of (d\<lparr>webhook_deliveries := update_where P f (webhook_deliveries d)\<rparr>) = queue_of d"
proof
  fix i
  have "map_option row_state (find (\<lambda>r. wd_id r = i) (update_where P f t)) = map_option row_state (find (\<lambda>r. wd_id r = i) t)" for t
    by (induction t) (auto simp: update_where_def assms)
  from this [of "webhook_deliveries d"]
  show "queue_of (d\<lparr>webhook_deliveries := update_where P f (webhook_deliveries d)\<rparr>) i = queue_of d i"
    by (auto simp: queue_of_def split: option.splits)
qed

lemma poll_stutters:
  assumes quiet: "\<forall>k d. ev_others env k d = d"
  shows "queue_of (sv_db (snd (process_pending_webhook_deliveries env p w))) = queue_of (sv_db w)"
proof -
  have take: "queue_of (snd (take_pending_webhook_deliveries now d)) = queue_of d" for now d
    unfolding take_pending_webhook_deliveries_eq snd_conv
    by (rule queue_of_claims) (simp_all add: claim_delivery_def row_state_def)
  have unclaim: "queue_of (unclaim_webhook_deliveries ids d) = queue_of d" for ids d
    unfolding unclaim_webhook_deliveries_def by (auto intro!: queue_of_claims simp: row_state_def)
  have 1: "queue_of (sv_db (snd (take_deliveries env w))) = queue_of (sv_db w)"
    using quiet by (simp add: take_deliveries_def db_call_def Let_def take_on_backend split_beta take split: fault.splits)
  have 2: "queue_of (sv_db (snd (db_exec env (\<lambda>_. unclaim_webhook_deliveries ids) w1))) = queue_of (sv_db w1)" for ids w1
    using quiet by (simp add: db_exec_def db_call_def Let_def unclaim split: fault.splits)
  obtain p' w' where s: "process_pending_webhook_deliveries env p w = (p', w')"
    by (cases "process_pending_webhook_deliveries env p w")
  then have "queue_of (sv_db w') = queue_of (sv_db w)"
  proof (cases rule: poll_cases)
    case (taken xs w1 ids)
    then have "queue_of (sv_db w1) = queue_of (sv_db w)" using 1 by simp
    with taken(3) 2 show ?thesis by simp
  qed (use 1 in simp)
  with s show ?thesis by simp
qed

text \<open>
  C32: the processor implements its specification. A poll is invisible to it; the end of a task
  changes exactly its own delivery, as the answer of the endpoint prescribes: delivered, parked,
  dropped, or waiting for a time that the backoff sets.
\<close>

theorem delivery_refines:
  assumes "\<forall>k d. ev_others env k d = d" and "\<forall>k. ev_fault env k \<noteq> LostRequest"
    and "i < length (bp_running p)" and "x = bp_running p ! i" and "queue_of (sv_db w) (wd_id x) \<notin> {Absent, Delivered}"
  shows "queue_of (sv_db (snd (process_pending_webhook_deliveries env p w))) = queue_of (sv_db w) \<and>
    queue_of (sv_db (snd (run_task env i p w))) = (queue_of (sv_db w))(wd_id x :=
      attempt (outcome_of env (bp_configs p) (sv_step w) x) (wd_url x \<noteq> None) (wd_retry_count x))"
  using poll_stutters [OF assms(1)] attempt_refines [OF assms(1,2,5)] assms(4) by (simp add: run_task_def Let_def)

theorem delivery_refines_witness:
  "queue_of (sv_db (snd (run_task busy_env 0 stale_processor webhook_server))) 1 = Waiting 1 1045000"
proof -
  have "queue_of (sv_db (snd (process_pending_webhook_deliveries busy_env stale_processor webhook_server))) =
      queue_of (sv_db webhook_server) \<and>
    queue_of (sv_db (snd (run_task busy_env 0 stale_processor webhook_server))) =
      (queue_of (sv_db webhook_server))(wd_id (slow_delivery 1) :=
        attempt (outcome_of busy_env (bp_configs stale_processor) (sv_step webhook_server) (slow_delivery 1))
          (wd_url (slow_delivery 1) \<noteq> None) (wd_retry_count (slow_delivery 1)))"
    by (rule delivery_refines) (simp_all add: busy_env_def demo_env_def stale_processor_def webhook_server_def
      slow_delivery_def new_delivery_row_def queue_of_def row_state_def waiting_def)
  moreover have "attempt (outcome_of busy_env (bp_configs stale_processor) (sv_step webhook_server) (slow_delivery 1))
      (wd_url (slow_delivery 1) \<noteq> None) (wd_retry_count (slow_delivery 1)) = Waiting 1 1045000"
    by code_simp
  moreover have "wd_id (slow_delivery 1) = 1" by (simp add: slow_delivery_def)
  ultimately show ?thesis by simp
qed

section \<open>A ready delivery gets through\<close>

lemma queue_of_row:
  assumes "unique_by wd_id (webhook_deliveries d)" "r \<in> set (webhook_deliveries d)"
  shows "queue_of d (wd_id r) = row_state r"
proof -
  obtain r' where r': "find (\<lambda>s. wd_id s = wd_id r) (webhook_deliveries d) = Some r'"
    using assms(2) by (cases "find (\<lambda>s. wd_id s = wd_id r) (webhook_deliveries d)") (auto simp: find_None_iff)
  then have "r' \<in> set (webhook_deliveries d)" "wd_id r' = wd_id r" by (auto simp: find_Some_iff)
  then have "r' = r" using unique_byD [OF assms(1)] assms(2) by blast
  with r' show ?thesis by (simp add: queue_of_def)
qed

lemma dispatch_spawns:
  assumes "dispatch xs p = (ids, p')" "distinct (map wd_domain xs)" "x \<in> set xs" "free_slots (wd_domain x) p \<noteq> 0"
  shows "x \<in> set (bp_running p')"
  using assms
proof (induction xs arbitrary: p ids)
  case (Cons y ys)
  obtain spawned p1 where s: "try_spawn y (get_semaphore (wd_domain y) p) = (spawned, p1)"
    by (cases "try_spawn y (get_semaphore (wd_domain y) p)")
  obtain ids1 where d: "dispatch ys p1 = (ids1, p')"
    using Cons.prems(1) s by (auto split: prod.splits if_splits)
  show ?case
  proof (cases "x = y")
    case True
    then have "x \<in> set (bp_running p1)" using spawn_slots(3,4) [OF s] Cons.prems(4) by simp
    with dispatch_slots(4) [OF d] show ?thesis by auto
  next
    case False
    then have x: "x \<in> set ys" "wd_domain x \<noteq> wd_domain y" using Cons.prems(2,3) by (auto simp: image_iff)
    then have "free_slots (wd_domain x) p1 = free_slots (wd_domain x) p" using spawn_slots(2) [OF s] by simp
    with Cons.IH [OF d _ x(1)] Cons.prems(2,4) show ?thesis by simp
  qed
qed simp

text \<open>
  C33: nothing holds a delivery back for ever. When the earliest ready delivery of a domain has a free
  slot and an endpoint that accepts it, the next poll starts a task for it, and whenever that task
  ends the delivery is delivered.
\<close>

theorem ready_delivery_delivered:
  assumes quiet: "\<forall>k d. ev_others env k d = d" and healthy: "\<forall>k. ev_fault env k = Healthy"
    and u: "unique_by wd_id (webhook_deliveries (sv_db w))" and r: "r \<in> set (webhook_deliveries (sv_db w))"
    and first: "first_of_domain (pl_now_millis (ev_lib env) (sv_step w)) (wd_domain r) (webhook_deliveries (sv_db w)) = Some (wd_id r)"
    and slot: "free_slots (wd_domain r) p \<noteq> 0" and c: "map_of (bp_configs p) (wd_domain r) = Some c"
    and accepts: "\<forall>k now. post_outcome now (webhook_reply env k (wc_url c) (wd_payload r) (wc_secret c)) = Accepted"
    and poll: "process_pending_webhook_deliveries env p w = (p1, w1)"
  shows "\<exists>i < length (bp_running p1). wd_id (bp_running p1 ! i) = wd_id r \<and>
    (\<forall>w2. queue_of (sv_db w2) (wd_id r) = queue_of (sv_db w1) (wd_id r) \<longrightarrow>
      queue_of (sv_db (snd (run_task env i p1 w2))) (wd_id r) = Delivered)"
proof -
  let ?now = "pl_now_millis (ev_lib env) (sv_step w)"
  let ?x = "claim_delivery ?now r"
  obtain r0 where r0: "r0 \<in> set (webhook_deliveries (sv_db w))" "wd_id r0 = wd_id r" "delivery_ready ?now r0"
    using first_of_domain_Some [OF first] .
  then have ready: "delivery_ready ?now r" using unique_byD [OF u _ r] by blast
  have k: "wd_id r \<in> delivery_keys ?now (sv_db w)" using first by (auto simp: delivery_keys_def)
  have taken: "fst (take_deliveries env w) = Inr (fst (take_pending_webhook_deliveries ?now (sv_db w)))"
    using quiet healthy by (simp add: take_deliveries_def db_call_def Let_def take_on_backend split_beta)
  obtain xs wa ids where t: "take_deliveries env w = (Inr xs, wa)" "dispatch xs p = (ids, p1)"
    using poll taken by (cases rule: poll_cases) auto
  have xs: "xs = fst (take_pending_webhook_deliveries ?now (sv_db w))" using t(1) taken by simp
  have x: "?x \<in> set xs"
    unfolding xs take_pending_webhook_deliveries_eq using r k by (auto simp: table_simps)
  have "distinct (map wd_domain xs)" using take_one_per_domain [OF u] xs by simp
  then have "?x \<in> set (bp_running p1)" using dispatch_spawns [OF t(2) _ x] slot by simp
  then obtain i where i: "i < length (bp_running p1)" "bp_running p1 ! i = ?x" by (auto simp: in_set_conv_nth)
  have cfg: "map_of (bp_configs p1) (wd_domain r) = Some c" using dispatch_slots(6) [OF t(2)] c by simp
  have q: "queue_of (sv_db w1) (wd_id r) \<notin> {Absent, Delivered}"
    using poll_stutters [OF quiet, of p w] poll queue_of_row [OF u r] ready
    by (simp add: row_state_def waiting_def delivery_ready_def)
  have "queue_of (sv_db (snd (run_task env i p1 w2))) (wd_id r) = Delivered"
    if "queue_of (sv_db w2) (wd_id r) = queue_of (sv_db w1) (wd_id r)" for w2
  proof -
    have "outcome_of env (bp_configs p1) (sv_step w2) ?x = Accepted"
      using cfg accepts by (simp add: outcome_of_def claim_delivery_def)
    then show ?thesis
      using attempt_refines [OF quiet _, of w2 ?x "bp_configs p1"] that q healthy i(2) by (simp add: run_task_def Let_def)
  qed
  with i show ?thesis by (intro exI [of _ i]) simp
qed

theorem ready_delivery_delivered_witness:
  "\<exists>i < length (bp_running (fst (process_pending_webhook_deliveries demo_env (stale_processor\<lparr>bp_running := []\<rparr>) webhook_server))).
     wd_id (bp_running (fst (process_pending_webhook_deliveries demo_env (stale_processor\<lparr>bp_running := []\<rparr>) webhook_server)) ! i) = 1"
proof -
  let ?p = "stale_processor\<lparr>bp_running := []\<rparr>"
  let ?s = "process_pending_webhook_deliveries demo_env ?p webhook_server"
  have "first_of_domain 1000000 ''x.org'' [slow_delivery 1, slow_delivery 2] = Some 1" by code_simp
  then have "\<exists>i < length (bp_running (fst ?s)). wd_id (bp_running (fst ?s) ! i) = wd_id (slow_delivery 1) \<and>
    (\<forall>w2. queue_of (sv_db w2) (wd_id (slow_delivery 1)) = queue_of (sv_db (snd ?s)) (wd_id (slow_delivery 1)) \<longrightarrow>
      queue_of (sv_db (snd (run_task demo_env i (fst ?s) w2))) (wd_id (slow_delivery 1)) = Delivered)"
    by (intro ready_delivery_delivered [where w = webhook_server and p = ?p and
          c = "\<lparr>wc_domain = ''x.org'', wc_url = ''u'', wc_secret = ''s''\<rparr>"])
      (simp_all add: demo_env_def demo_lib_def webhook_server_def stale_processor_def slow_delivery_def
        new_delivery_row_def unique_by_def free_slots_def post_outcome_def webhook_reply_def)
  then show ?thesis by (auto simp: slow_delivery_def)
qed

section \<open>Error bodies\<close>

text \<open>What is stored of an error body: all of it, or the longest prefix of whole characters in 512 bytes.\<close>

lemma utf8_len_simps [simp]:
  "utf8_len [] = 0" "utf8_len (c # s) = length (utf8_char c) + utf8_len s" "utf8_len (a @ b) = utf8_len a + utf8_len b"
  by (simp_all add: utf8_len_def as_bytes_def)

lemma take_bytes_spec:
  "\<exists>t. s = take_bytes n s @ t \<and> utf8_len (take_bytes n s) \<le> n \<and> (t = [] \<or> n < utf8_len (take_bytes n s @ [hd t]))"
proof (induction n s rule: take_bytes.induct)
  case (2 n c cs)
  show ?case
  proof (cases "length (utf8_char c) \<le> n")
    case True
    from 2 [OF this] obtain t where "cs = take_bytes (n - length (utf8_char c)) cs @ t"
      "utf8_len (take_bytes (n - length (utf8_char c)) cs) \<le> n - length (utf8_char c)"
      "t = [] \<or> n - length (utf8_char c) < utf8_len (take_bytes (n - length (utf8_char c)) cs @ [hd t])" by blast
    with True show ?thesis by (intro exI [of _ t]) auto
  qed simp
qed simp

text \<open>
  The body of an error is stored whole when it has at most so many bytes, and otherwise as its
  longest prefix of whole characters in that many bytes, marked by three dots.
\<close>

theorem error_body_truncated:
  "\<exists>a t. s = a @ t \<and> truncate_string s n = a @ (if t = [] then [] else ''...'') \<and> utf8_len a \<le> n \<and>
     (t = [] \<or> n < utf8_len (a @ [hd t])) \<and> utf8_len (truncate_string s n) \<le> n + 3"
proof (cases "utf8_len s \<le> n")
  case True
  then show ?thesis by (intro exI [of _ s] exI [of _ "[]"]) (simp add: truncate_string_def)
next
  case False
  obtain t where t: "s = take_bytes n s @ t" "utf8_len (take_bytes n s) \<le> n"
    "t = [] \<or> n < utf8_len (take_bytes n s @ [hd t])" using take_bytes_spec by blast
  have "t \<noteq> []"
  proof
    assume "t = []"
    then have "s = take_bytes n s" using t(1) by simp
    with t(2) False show False by simp
  qed
  moreover have "utf8_len ''...'' = 3" by (simp add: utf8_char_def)
  ultimately show ?thesis
    using t False by (intro exI [of _ "take_bytes n s"] exI [of _ t]) (simp add: truncate_string_def)
qed

end
