(* ===== verification/Lnurl_Startup.thy ===== *)
theory Lnurl_Startup
  imports Lnurl_Background Lnurl_Internal
begin

text \<open>
  The startup of \<open>main.rs\<close>: from the merged arguments, through the checks that can refuse to start,
  to the settings and the state the routes and processors of the other theories run with. The
  parsing of the arguments, the migrations and the binding of the listener are not modelled. The
  random values, what is fetched or read and the answers of the Spark service are fields of
  \<open>startup_lib\<close>, the pools and the migrations of \<open>sqlx\<close> those of \<open>database_lib\<close>.
\<close>

section \<open>Arguments\<close>

text \<open>The network names of the Spark wallet library are values of a type \<^typ>\<open>'n\<close>.\<close>

record 'n args =
  ar_auto_migrate :: bool
  ar_migrate_only :: bool
  ar_db_url :: string
  ar_spark_network :: "'n option"
  ar_spark_enabled :: bool
  ar_blink_enabled :: bool
  ar_scheme :: string
  ar_callback_domain :: "string option"
  ar_min_sendable :: u64
  ar_max_sendable :: u64
  ar_domains :: string
  ar_nsec :: "string option"
  ar_ca_cert :: "string option"
  ar_crl_url :: "string option"
  ar_webhook_domain :: "string option"
  ar_ssp_auth_seed :: "string option"
  ar_webhook_delivery_ttl_days :: u32
  ar_blink_graphql_endpoint :: "string option"
  ar_internal_jwks_url :: "string option"
  ar_internal_jwks_path :: "string option"
  ar_internal_jwt_issuer :: "string option"
  ar_internal_jwt_audience :: "string option"
  ar_proxycheck_api_key :: "string option"
  ar_proxycheck_url :: string
  ar_mode_requests_per_ip_per_minute :: u32
  ar_country_lookups_per_day :: u32

text \<open>
  Functions whose first argument is a number are what a service answers at that call;
  \<open>su_http_client\<close> says whether the client with a timeout can be built.
\<close>

record ('c, 'n) startup_lib =
  su_mainnet :: 'n
  su_regtest :: 'n
  su_random_seed :: bytes
  su_random_secret :: bytes
  su_spark_client :: "nat \<Rightarrow> 'n \<Rightarrow> bytes \<Rightarrow> bool"
  su_fetch :: "nat \<Rightarrow> string \<Rightarrow> string option"
  su_read_file :: "string \<Rightarrow> string option"
  su_cert_raw :: "'c \<Rightarrow> bytes"
  su_nostr_keys :: "string \<Rightarrow> nostr_keys option"
  su_http_client :: bool

text \<open>
  \<open>dl_connect\<close> opens a pool for a URL, with a bound on its connections when one is set;
  \<open>dl_migrate\<close> is \<open>run_migrations\<close> of a backend.
\<close>

record database_lib =
  dl_connect :: "nat \<Rightarrow> backend \<Rightarrow> u32 option \<Rightarrow> string \<Rightarrow> bool"
  dl_migrate :: "nat \<Rightarrow> backend \<Rightarrow> db \<Rightarrow> (repository_error + unit) \<times> db"

record 'n runtime_config =
  rc_spark_network :: 'n
  rc_blink_network :: string
  rc_blink_graphql_endpoint :: "string option"
  rc_local_env :: bool

datatype startup_error =
    ConnectionPoolFailed
  | MissingRuntimeConfig
  | BlinkEndpointRequired
  | UnsupportedDeploymentEnv string
  | WebhookDomainRequired
  | SparkClientFailed
  | StartupRepository repository_error
  | InvalidCaCert
  | CrlUnavailable
  | InvalidNsec
  | HttpClientFailed

section \<open>Runtime configuration\<close>

abbreviation PRODUCTION_GRAPHQL_ENDPOINT :: string where
  "PRODUCTION_GRAPHQL_ENDPOINT \<equiv> ''https://api.blink.sv/graphql''"
abbreviation STAGING_GRAPHQL_ENDPOINT :: string where
  "STAGING_GRAPHQL_ENDPOINT \<equiv> ''https://api.staging.blink.sv/graphql''"

text \<open>\<open>.map(str::trim).filter(|value| !value.is_empty())\<close>.\<close>

definition trimmed :: "string option \<Rightarrow> string option" where
  "trimmed v = (case v of None \<Rightarrow> None | Some s \<Rightarrow> if trim s = [] then None else Some (trim s))"

text \<open>The defaults of a deployment environment: Spark network, Blink network, Blink endpoint.\<close>

definition deployment_defaults ::
  "('c, 'n) startup_lib \<Rightarrow> string \<Rightarrow> string option \<Rightarrow> bool \<Rightarrow> startup_error + ('n \<times> string \<times> string option)" where
  "deployment_defaults lib deployment_env endpoint blink_enabled =
     (if deployment_env = ''production'' then Inr (su_mainnet lib, ''mainnet'', Some PRODUCTION_GRAPHQL_ENDPOINT)
      else if deployment_env = ''staging'' then Inr (su_regtest lib, ''signet'', Some STAGING_GRAPHQL_ENDPOINT)
      else if deployment_env = ''local'' then
        (if blink_enabled
         then bind_res (ok_or BlinkEndpointRequired endpoint) (\<lambda>e. Inr (su_regtest lib, ''regtest'', Some e))
         else Inr (su_regtest lib, ''regtest'', None))
      else Inl (UnsupportedDeploymentEnv deployment_env))"

definition resolve_runtime_config ::
  "('c, 'n) startup_lib \<Rightarrow> string option \<Rightarrow> 'n option \<Rightarrow> string option \<Rightarrow> bool \<Rightarrow> startup_error + 'n runtime_config" where
  "resolve_runtime_config lib deployment_env configured_network configured_endpoint blink_enabled =
     (let deployment_env = (case trimmed deployment_env of None \<Rightarrow> ''production'' | Some e \<Rightarrow> e);
          configured_endpoint = trimmed configured_endpoint in
      bind_res (deployment_defaults lib deployment_env configured_endpoint blink_enabled) (\<lambda>(network, blink_network, endpoint).
      Inr \<lparr>rc_spark_network = (case configured_network of None \<Rightarrow> network | Some n \<Rightarrow> n),
        rc_blink_network = blink_network,
        rc_blink_graphql_endpoint =
          (if deployment_env = ''local'' then endpoint
           else case configured_endpoint of Some e \<Rightarrow> Some e | None \<Rightarrow> endpoint),
        rc_local_env = (deployment_env = ''local'')\<rparr>))"

definition resolve_startup_runtime_config ::
  "('c, 'n) startup_lib \<Rightarrow> 'n args \<Rightarrow> string option \<Rightarrow> startup_error + 'n runtime_config option" where
  "resolve_startup_runtime_config lib args deployment_env =
     (if ar_migrate_only args then Inr None
      else bind_res (resolve_runtime_config lib deployment_env (ar_spark_network args)
        (ar_blink_graphql_endpoint args) (ar_blink_enabled args)) (\<lambda>rc. Inr (Some rc)))"

section \<open>Settings read at startup\<close>

definition parse_auth_seed :: "('k, 's) env \<Rightarrow> ('c, 'n) startup_lib \<Rightarrow> string option \<Rightarrow> bytes" where
  "parse_auth_seed env lib hex_str =
     (case hex_str of
        None \<Rightarrow> su_random_seed lib
      | Some h \<Rightarrow>
          (case hex_decode (ev_crypto env) h of
             None \<Rightarrow> su_random_seed lib
           | Some b \<Rightarrow> if length b = 32 then b else su_random_seed lib))"

definition build_blink_webhook_url :: "'n args \<Rightarrow> startup_error + string" where
  "build_blink_webhook_url args =
     (case ar_webhook_domain args of
        None \<Rightarrow> Inl WebhookDomainRequired
      | Some webhook_domain \<Rightarrow> Inr (ar_scheme args @ ''://'' @ webhook_domain @ ''/webhook/blink''))"

text \<open>\<open>str::split\<close> with a character: always at least one piece.\<close>

fun split_char :: "char \<Rightarrow> string \<Rightarrow> string list" where
  "split_char c [] = [[]]"
| "split_char c (x # xs) =
     (if x = c then [] # split_char c xs
      else case split_char c xs of [] \<Rightarrow> [[x]] | p # ps \<Rightarrow> (x # p) # ps)"

definition config_domains :: "'n args \<Rightarrow> string list" where
  "config_domains args =
     filter (\<lambda>d. d \<noteq> []) (map (\<lambda>d. to_lowercase (trim d)) (split_char (CHR '','') (ar_domains args)))"

definition decode_ca_cert ::
  "('c, 'd) token_lib \<Rightarrow> ('c, 'n) startup_lib \<Rightarrow> string option \<Rightarrow> startup_error + bytes option" where
  "decode_ca_cert tokens lib ca_cert =
     (case ca_cert of
        None \<Rightarrow> Inr None
      | Some s \<Rightarrow>
          bind_res (ok_or InvalidCaCert (tl_base64_decode tokens (trim s))) (\<lambda>raw.
          bind_res (ok_or InvalidCaCert (tl_certificate_from_der tokens raw)) (\<lambda>cert.
          Inr (Some (su_cert_raw lib cert)))))"

definition crl_of_body :: "string \<Rightarrow> string set" where
  "crl_of_body body = set (split_char (CHR '','') body)"

definition load_crl :: "('c, 'n) startup_lib \<Rightarrow> string option \<Rightarrow> (startup_error, string set) action" where
  "load_crl lib crl_url =
     (case crl_url of
        None \<Rightarrow> ret {}
      | Some url \<Rightarrow>
          bind_act (ask (\<lambda>k. su_fetch lib k url)) (\<lambda>reply.
          bind_act (lift (ok_or CrlUnavailable reply)) (\<lambda>body. ret (crl_of_body body))))"

definition load_internal_auth_state ::
  "('c, 'd) token_lib \<Rightarrow> ('c, 'n) startup_lib \<Rightarrow> 'n args \<Rightarrow> ('e, 'd internal_auth_state option) action" where
  "load_internal_auth_state tokens lib args =
     (case (ar_internal_jwt_issuer args, ar_internal_jwt_audience args) of
        (Some issuer, Some audience) \<Rightarrow>
          bind_act
            (case ar_internal_jwks_path args of
               Some path \<Rightarrow> ret (su_read_file lib path)
             | None \<Rightarrow>
                 (case ar_internal_jwks_url args of
                    Some url \<Rightarrow> ask (\<lambda>k. su_fetch lib k url)
                  | None \<Rightarrow> ret None)) (\<lambda>jwks_json.
          ret (case jwks_json of
             None \<Rightarrow> None
           | Some json \<Rightarrow>
               (case from_jwks_json tokens json issuer audience of Inl _ \<Rightarrow> None | Inr st \<Rightarrow> Some st)))
      | _ \<Rightarrow> ret None)"

definition resolver_of_args :: "('c, 'n) startup_lib \<Rightarrow> 'n args \<Rightarrow> startup_error + country_resolver" where
  "resolver_of_args lib args =
     (case trimmed (ar_proxycheck_api_key args) of
        Some api_key \<Rightarrow>
          if su_http_client lib then Inr (resolver_new (ar_proxycheck_url args) (Some api_key)) else Inl HttpClientFailed
      | None \<Rightarrow> Inr \<lparr>cr_base_url = None, cr_api_key = None\<rparr>)"

section \<open>Starting the server\<close>

definition RATE_LIMIT_TRACKED_IPS :: nat where "RATE_LIMIT_TRACKED_IPS = 100000"

text \<open>
  What is built at startup besides the server's mutable state: the settings of \<open>State\<close>, the initial
  endpoint cache of the webhook processor, and the webhook to register with the Spark service.
\<close>

record 'd app =
  ap_config :: pay_config
  ap_domains :: "string list"
  ap_spark_enabled :: bool
  ap_blink_enabled :: bool
  ap_blink_graphql_endpoint :: "string option"
  ap_internal_auth :: "'d internal_auth_state option"
  ap_ca_cert :: "bytes option"
  ap_crl :: "string set"
  ap_resolver :: country_resolver
  ap_processor :: webhook_processor
  ap_delivery_ttl_ms :: int
  ap_registration :: "(string \<times> string) option"

fun ensure_domains :: "('k, 's) env \<Rightarrow> string list \<Rightarrow> (startup_error, unit) action" where
  "ensure_domains env [] = ret ()"
| "ensure_domains env (d # ds) =
     bind_act (map_err_act StartupRepository (db_exec env (\<lambda>_. add_domain d))) (\<lambda>_. ensure_domains env ds)"

definition webhook_secret_of :: "('k, 's) env \<Rightarrow> string \<Rightarrow> (startup_error, string) action" where
  "webhook_secret_of env default_secret = map_err_act StartupRepository (db_call env (\<lambda>_.
     on_backend (ev_backend env) get_or_create_setting get_or_create_setting_pg ''webhook_secret'' default_secret))"

text \<open>The in-memory state at the start; the window of the daily budget opens at the given instant.\<close>

definition fresh_server :: "'n args \<Rightarrow> bool \<Rightarrow> nat \<Rightarrow> server \<Rightarrow> server" where
  "fresh_server args local_env now w =
     \<lparr>sv_db = sv_db w,
      sv_ip_rate_limiter = limiter_new (ar_mode_requests_per_ip_per_minute args) 60000000000 RATE_LIMIT_TRACKED_IPS local_env,
      sv_country_lookup_budget = budget_new (ar_country_lookups_per_day args) 86400000000000 now,
      sv_legacy_verifies = replicate 7 0, sv_spawned = [], sv_usd_min_sendable_cache = None,
      sv_invoice_paid_triggers = 0, sv_step = sv_step w\<rparr>"

definition run_server ::
  "('k, 's) env \<Rightarrow> ('c, 'd) token_lib \<Rightarrow> ('c, 'n) startup_lib \<Rightarrow> 'n args \<Rightarrow> 'n runtime_config \<Rightarrow>
   (startup_error, 'd app) action" where
  "run_server env tokens lib args rc =
     bind_act (lift (build_blink_webhook_url args)) (\<lambda>blink_webhook_url.
     bind_act (ask (\<lambda>k. su_spark_client lib k (rc_spark_network rc) (parse_auth_seed env lib (ar_ssp_auth_seed args)))) (\<lambda>connected.
     if \<not> connected then fail SparkClientFailed
     else
     bind_act (ensure_domains env (config_domains args)) (\<lambda>_.
     bind_act (map_err_act StartupRepository (db_read env (\<lambda>d. Inr (list_domains d)))) (\<lambda>domains.
     bind_act (load_internal_auth_state tokens lib args) (\<lambda>internal_auth.
     bind_act (lift (decode_ca_cert tokens lib (ar_ca_cert args))) (\<lambda>ca_cert.
     bind_act (load_crl lib (ar_crl_url args)) (\<lambda>crl.
     bind_act (lift (case ar_nsec args of None \<Rightarrow> Inr None
       | Some nsec \<Rightarrow> bind_res (ok_or InvalidNsec (su_nostr_keys lib nsec)) (\<lambda>k. Inr (Some k)))) (\<lambda>nostr_keys.
     bind_act (map_err_act StartupRepository (load_configs env)) (\<lambda>configs.
     bind_act (webhook_secret_of env (hex_encode (ev_crypto env) (su_random_secret lib))) (\<lambda>webhook_secret.
     bind_act (lift (resolver_of_args lib args)) (\<lambda>resolver.
     bind_act (read_instant env) (\<lambda>now w.
     (Inr \<lparr>ap_config = \<lparr>pc_scheme = ar_scheme args, pc_callback_domain = ar_callback_domain args,
         pc_min_sendable = ar_min_sendable args, pc_max_sendable = ar_max_sendable args,
         pc_include_spark_address = False, pc_nostr_keys = nostr_keys, pc_webhook_secret = webhook_secret,
         pc_blink_webhook_url = Some blink_webhook_url,
         pc_blink_status_enabled = (rc_blink_graphql_endpoint rc \<noteq> None)\<rparr>,
       ap_domains = domains, ap_spark_enabled = ar_spark_enabled args, ap_blink_enabled = ar_blink_enabled args,
       ap_blink_graphql_endpoint = rc_blink_graphql_endpoint rc, ap_internal_auth = internal_auth,
       ap_ca_cert = ca_cert, ap_crl = crl, ap_resolver = resolver,
       ap_processor = initial_processor configs,
       ap_delivery_ttl_ms = cleanup_ttl_ms (ar_webhook_delivery_ttl_days args),
       ap_registration = map_option (\<lambda>d. (ar_scheme args @ ''://'' @ d @ ''/webhook'', webhook_secret))
         (ar_webhook_domain args)\<rparr>,
      fresh_server args (rc_local_env rc) now w)))))))))))))"

text \<open>The environment the routes run in.\<close>

definition started_env :: "('k, 's) env \<Rightarrow> 'd app \<Rightarrow> ('k, 's) env" where
  "started_env env app = env\<lparr>ev_config := ap_config app, ev_domains := ap_domains app, ev_resolver := ap_resolver app,
     ev_spark_enabled := ap_spark_enabled app, ev_blink_enabled := ap_blink_enabled app\<rparr>"

section \<open>The program\<close>

fun str_contains :: "string \<Rightarrow> string \<Rightarrow> bool" where
  "str_contains [] p = (p = [])"
| "str_contains (c # s) p = (starts_with (c # s) p \<or> str_contains s p)"

definition database_backend :: "string \<Rightarrow> backend" where
  "database_backend db_url = (if starts_with (to_lowercase (trim db_url)) ''postgres'' then Postgres else Sqlite)"

text \<open>Every connection to \<open>:memory:\<close> would be a database of its own, so there is only one.\<close>

definition max_connections :: "string \<Rightarrow> u32 option" where
  "max_connections db_url =
     (if database_backend db_url = Sqlite \<and> str_contains db_url '':memory:'' then Some 1 else None)"

definition open_database ::
  "('k, 's) env \<Rightarrow> database_lib \<Rightarrow> 'n args \<Rightarrow> (startup_error, unit) action" where
  "open_database env dbs args =
     (let b = database_backend (ar_db_url args) in
      bind_act (ask (\<lambda>k. dl_connect dbs k b (max_connections (ar_db_url args)) (ar_db_url args))) (\<lambda>connected.
      if \<not> connected then fail ConnectionPoolFailed
      else if ar_auto_migrate args \<or> ar_migrate_only args
      then map_err_act StartupRepository (db_call env (\<lambda>k. dl_migrate dbs k b))
      else ret ()))"

text \<open>
  \<open>main\<close> from the merged arguments on: nothing when only the migrations were asked for, else what is
  served. The \<open>expect\<close> on the runtime configuration would panic with \<open>MissingRuntimeConfig\<close>.
\<close>

definition main_env :: "('k, 's) env \<Rightarrow> 'n args \<Rightarrow> ('k, 's) env" where
  "main_env env args = env\<lparr>ev_backend := database_backend (ar_db_url args)\<rparr>"

definition server_main ::
  "('k, 's) env \<Rightarrow> ('c, 'd) token_lib \<Rightarrow> ('c, 'n) startup_lib \<Rightarrow> database_lib \<Rightarrow> 'n args \<Rightarrow> string option \<Rightarrow>
   (startup_error, 'd app option) action" where
  "server_main env tokens lib dbs args deployment_env =
     bind_act (lift (resolve_startup_runtime_config lib args deployment_env)) (\<lambda>runtime_config.
     bind_act (open_database (main_env env args) dbs args) (\<lambda>_.
     if ar_migrate_only args then ret None
     else
     bind_act (lift (ok_or MissingRuntimeConfig runtime_config)) (\<lambda>rc.
     bind_act (run_server (main_env env args) tokens lib args rc) (\<lambda>app. ret (Some app)))))"

section \<open>Registering the webhook\<close>

text \<open>
  The loop that registers the webhook with the Spark service until that succeeds: the delays slept,
  in seconds, when the first attempt is made at call \<open>k\<close> and the next delay is \<open>delay\<close>.
\<close>

partial_function (option) register_webhook :: "(nat \<Rightarrow> bool) \<Rightarrow> nat \<Rightarrow> nat \<Rightarrow> nat list option" where
  "register_webhook accepts k delay =
     (if accepts k then Some []
      else Option.bind (register_webhook accepts (Suc k) (min (2 * delay) 60)) (\<lambda>slept. Some (delay # slept)))"

end
