(* ===== verification/Lnurl_Startup_Thms.thy ===== *)
theory Lnurl_Startup_Thms
  imports Lnurl_Startup
begin

text \<open>
  Theorems about startup: what a server that has started serves, that replicas on one database
  share their webhook secret, and that the registration of the webhook is tried until it succeeds.
\<close>

section \<open>What startup keeps and writes\<close>

definition setting :: "string \<Rightarrow> db \<Rightarrow> string option" where
  "setting key d = map_of (settings d) key"

text \<open>A change that drops no allowed domain and keeps the value of a setting.\<close>

definition keeps_setup :: "string \<Rightarrow> nat \<Rightarrow> db \<Rightarrow> db \<Rightarrow> bool" where
  "keeps_setup key k d d' \<longleftrightarrow> set (allowed_domains d) \<subseteq> set (allowed_domains d') \<and>
     (\<forall>v. setting key d = Some v \<longrightarrow> setting key d' = Some v)"

lemma keeps_setup_refl [simp]: "keeps_setup key k d d"
  by (simp add: keeps_setup_def)

lemma keeps_setup_trans: "keeps_setup key k d0 d1 \<Longrightarrow> keeps_setup key k' d1 d2 \<Longrightarrow> keeps_setup key k'' d0 d2"
  unfolding keeps_setup_def by blast

lemma keeps_setup_served:
  assumes "served env (keeps_setup key) d d'" "\<forall>k d. keeps_setup key k d (ev_others env k d)"
  shows "keeps_setup key k d d'"
  using assms(1)
proof (induction rule: served.induct)
  case (served_others d d1 k')
  then show ?case using assms(2) keeps_setup_trans by blast
next
  case (served_own d d1 k' d2)
  then show ?case using keeps_setup_trans by blast
qed simp

lemma add_domain_setup:
  "keeps_setup key k d (add_domain dn d)" "set (allowed_domains (add_domain dn d)) = insert dn (set (allowed_domains d))"
  by (auto simp: keeps_setup_def add_domain_def insert_ignore_def setting_def)

lemma fetch_setting: "fetch_optional (\<lambda>kv. fst kv = key) t = map_option (Pair key) (map_of t key)"
  by (induction t) (auto simp: fetch_optional_def)

lemma exists_setting: "exists_where (\<lambda>r. fst r = key) t \<longleftrightarrow> map_of t key \<noteq> None"
  by (induction t) auto

lemma update_where_same: "update_where P (\<lambda>r. r) t = t"
  by (simp add: update_where_def)

lemma setting_backends: "on_backend b get_or_create_setting get_or_create_setting_pg = get_or_create_setting"
  by (cases b) (simp_all add: fun_eq_iff get_or_create_setting_def get_or_create_setting_pg_def upsert_on_def
    insert_ignore_def update_where_same)

text \<open>The first value wins.\<close>

lemma get_or_create_result:
  "get_or_create_setting key v d = (Inr (case setting key d of None \<Rightarrow> v | Some u \<Rightarrow> u),
     d\<lparr>settings := if setting key d = None then settings d @ [(key, v)] else settings d\<rparr>)"
  by (auto simp: get_or_create_setting_def insert_ignore_def exists_setting fetch_setting setting_def
      map_add_def simp del: exists_where_iff split: option.splits)

lemma get_or_create_setup:
  "keeps_setup key k d (snd (get_or_create_setting key' v d))"
  "setting key (snd (get_or_create_setting key v d)) = Some (case setting key d of None \<Rightarrow> v | Some u \<Rightarrow> u)"
  by (auto simp: get_or_create_result keeps_setup_def setting_def map_add_def split: option.splits)

lemma writes_startup [writes_rules]:
  "writes env (keeps_setup key) (ensure_domains env ds)"
  "writes env (keeps_setup key) (webhook_secret_of env v)"
  "writes env G (load_internal_auth_state tokens lib args)"
  "writes env G (load_crl lib url)" "writes env G (load_configs env)"
proof -
  show "writes env (keeps_setup key) (ensure_domains env ds)"
    by (induction ds) (auto intro!: writes_rules writes_exec add_domain_setup(1))
  show "writes env (keeps_setup key) (webhook_secret_of env v)"
    unfolding webhook_secret_of_def setting_backends
    by (intro writes_rules writes_call get_or_create_setup(1))
  show "writes env G (load_internal_auth_state tokens lib args)"
    unfolding load_internal_auth_state_def by (intro writes_rules)
  show "writes env G (load_crl lib url)"
    unfolding load_crl_def by (intro writes_rules)
  show "writes env G (load_configs env)"
    unfolding load_configs_def by (intro writes_rules)
qed

lemma run_server_run:
  assumes "run_server env tokens lib args rc w = (Inr app, w')"
  obtains b w2 w3 w4 w5 w6 w7 domains ia ca crl configs secret where
    "build_blink_webhook_url args = Inr b"
    "ensure_domains env (config_domains args) (tick w) = (Inr (), w2)"
    "map_err_act StartupRepository (db_read env (\<lambda>d. Inr (list_domains d))) w2 = (Inr domains, w3)"
    "load_internal_auth_state tokens lib args w3 = (Inr ia :: startup_error + 'c internal_auth_state option, w4)"
    "decode_ca_cert tokens lib (ar_ca_cert args) = Inr ca"
    "load_crl lib (ar_crl_url args) w4 = (Inr crl, w5)"
    "map_err_act StartupRepository (load_configs env) w5 = (Inr configs, w6)"
    "webhook_secret_of env (hex_encode (ev_crypto env) (su_random_secret lib)) w6 = (Inr secret, w7)"
    "sv_db w' = sv_db w7" "ap_domains app = domains" "pc_webhook_secret (ap_config app) = secret"
    "pc_blink_webhook_url (ap_config app) = Some b"
    "ap_registration app = map_option (\<lambda>d. (ar_scheme args @ ''://'' @ d @ ''/webhook'', secret)) (ar_webhook_domain args)"
  using assms unfolding run_server_def
  apply (simp only: bind_act_iff lift_iff ask_iff read_instant_iff fail_iff if_act_iff split_paired_Ex simp_thms prod.inject sum.inject)
  apply clarify
  apply (rule that, (assumption | rule refl | simp add: fresh_server_def)+)
  done

lemma keeps_setup_run:
  assumes "writes env (keeps_setup key) m" "\<forall>k d. keeps_setup key k d (ev_others env k d)" "m w = (r, w')"
  shows "keeps_setup key 0 (sv_db w) (sv_db w')"
  using keeps_setup_served [OF writesD [OF assms(1), of w] assms(2), of 0] assms(3) by simp

lemma ensure_domains_listed:
  assumes "ensure_domains env ds w = (Inr u, w')" "\<forall>k d. keeps_setup key k d (ev_others env k d)"
  shows "set ds \<subseteq> set (allowed_domains (sv_db w'))"
  using assms(1)
proof (induction ds arbitrary: w)
  case (Cons dn ds)
  let ?d = "ev_others env (sv_step w) (sv_db w)"
  obtain w1 where w1: "ensure_domains env ds w1 = (Inr u, w')" "sv_db w1 = add_domain dn ?d"
    using Cons.prems by (auto simp: bind_act_iff map_err_act_iff db_exec_iff)
  have "keeps_setup key 0 (sv_db w1) (sv_db w')"
    by (rule keeps_setup_run [OF writes_startup(1) assms(2) w1(1)])
  then have "dn \<in> set (allowed_domains (sv_db w'))"
    unfolding w1(2) keeps_setup_def add_domain_setup(2) by blast
  with Cons.IH [OF w1(1)] show ?case by simp
qed simp

lemma webhook_secret_result:
  assumes "webhook_secret_of env v w = (Inr s, w')"
  shows "s = (case setting ''webhook_secret'' (ev_others env (sv_step w) (sv_db w)) of None \<Rightarrow> v | Some u \<Rightarrow> u)"
    and "setting ''webhook_secret'' (sv_db w') = Some s"
proof -
  let ?d = "ev_others env (sv_step w) (sv_db w)"
  have r: "get_or_create_setting ''webhook_secret'' v ?d = (Inr s, sv_db w')"
    using assms by (auto simp: webhook_secret_of_def setting_backends map_err_act_iff db_call_iff)
  then show s: "s = (case setting ''webhook_secret'' ?d of None \<Rightarrow> v | Some u \<Rightarrow> u)"
    by (simp add: get_or_create_result)
  show "setting ''webhook_secret'' (sv_db w') = Some s"
    using get_or_create_setup(2) [of "''webhook_secret''" v ?d] r s by simp
qed

text \<open>The secret of a started server is the one in the database, before and after.\<close>

lemma secret_stored:
  fixes tokens :: "('c, 'd) token_lib"
  assumes run: "run_server env tokens lib args rc w = (Inr app, w')"
    and others: "\<forall>k d. keeps_setup ''webhook_secret'' k d (ev_others env k d)"
  shows "setting ''webhook_secret'' (sv_db w') = Some (pc_webhook_secret (ap_config app))"
    and "setting ''webhook_secret'' (sv_db w) = Some s \<Longrightarrow> pc_webhook_secret (ap_config app) = s"
    and "set (config_domains args) \<subseteq> set (ap_domains app)"
    and "ap_registration app = map_option (\<lambda>d. (ar_scheme args @ ''://'' @ d @ ''/webhook'', pc_webhook_secret (ap_config app)))
      (ar_webhook_domain args)"
    and "\<exists>d. ar_webhook_domain args = Some d \<and>
      pc_blink_webhook_url (ap_config app) = Some (ar_scheme args @ ''://'' @ d @ ''/webhook/blink'')"
proof -
  obtain b w2 w3 w4 w5 w6 w7 domains ia ca crl configs secret where r:
    "build_blink_webhook_url args = Inr b"
    "ensure_domains env (config_domains args) (tick w) = (Inr (), w2)"
    "map_err_act StartupRepository (db_read env (\<lambda>d. Inr (list_domains d))) w2 = (Inr domains, w3)"
    "load_internal_auth_state tokens lib args w3 = (Inr ia :: startup_error + 'd internal_auth_state option, w4)"
    "decode_ca_cert tokens lib (ar_ca_cert args) = Inr ca"
    "load_crl lib (ar_crl_url args) w4 = (Inr crl, w5)"
    "map_err_act StartupRepository (load_configs env) w5 = (Inr configs, w6)"
    "webhook_secret_of env (hex_encode (ev_crypto env) (su_random_secret lib)) w6 = (Inr secret, w7)"
    "sv_db w' = sv_db w7" "ap_domains app = domains" "pc_webhook_secret (ap_config app) = secret"
    "pc_blink_webhook_url (ap_config app) = Some b"
    "ap_registration app = map_option (\<lambda>d. (ar_scheme args @ ''://'' @ d @ ''/webhook'', secret)) (ar_webhook_domain args)"
    by (rule run_server_run [OF run])
  let ?K = "keeps_setup ''webhook_secret'' 0"
  note k = keeps_setup_run [OF _ others]
  have "?K (sv_db w) (sv_db w6)"
  proof -
    have "?K (sv_db w) (sv_db w2)" using k [OF writes_startup(1) r(2)] by simp
    moreover have "?K (sv_db w2) (sv_db w3)" by (rule k [OF writes_map_err [OF writes_read] r(3)])
    moreover have "?K (sv_db w3) (sv_db w4)" by (rule k [OF writes_startup(3) r(4)])
    moreover have "?K (sv_db w4) (sv_db w5)" by (rule k [OF writes_startup(4) r(6)])
    moreover have "?K (sv_db w5) (sv_db w6)" by (rule k [OF writes_map_err [OF writes_startup(5)] r(7)])
    ultimately show ?thesis unfolding keeps_setup_def by blast
  qed
  then have before: "setting ''webhook_secret'' (sv_db w) = Some s \<Longrightarrow>
      setting ''webhook_secret'' (ev_others env (sv_step w6) (sv_db w6)) = Some s"
    using others unfolding keeps_setup_def by blast
  note s = webhook_secret_result [OF r(8)]
  show "setting ''webhook_secret'' (sv_db w') = Some (pc_webhook_secret (ap_config app))"
    using s(2) r(9,11) by simp
  show "setting ''webhook_secret'' (sv_db w) = Some s \<Longrightarrow> pc_webhook_secret (ap_config app) = s"
    using before s(1) r(11) by simp
  show "set (config_domains args) \<subseteq> set (ap_domains app)"
  proof -
    have "domains = allowed_domains (ev_others env (sv_step w2) (sv_db w2))"
      using r(3) by (simp add: map_err_act_iff db_read_iff list_domains_def)
    moreover have "set (allowed_domains (sv_db w2)) \<subseteq> set (allowed_domains (ev_others env (sv_step w2) (sv_db w2)))"
      using others by (simp add: keeps_setup_def)
    ultimately show ?thesis
      using subset_trans [OF ensure_domains_listed [OF r(2) others]] r(10) by simp
  qed
  show "ap_registration app = map_option (\<lambda>d. (ar_scheme args @ ''://'' @ d @ ''/webhook'', pc_webhook_secret (ap_config app)))
      (ar_webhook_domain args)" using r(11,13) by simp
  show "\<exists>d. ar_webhook_domain args = Some d \<and>
      pc_blink_webhook_url (ap_config app) = Some (ar_scheme args @ ''://'' @ d @ ''/webhook/blink'')"
    using r(1,12) by (auto simp: build_blink_webhook_url_def split: option.splits)
qed

text \<open>
  A server that has started serves what it was configured for. Whatever other replicas do
  meanwhile short of dropping domains or settings, every configured domain is accepted by the
  routes; with one configured, a host that is not in the table of domains is refused; and the
  webhooks it registers name its configured domain and the secret it checks them with.
\<close>

theorem startup_serves:
  assumes "run_server env tokens lib args rc w = (Inr app, w')"
    and "\<forall>k d. keeps_setup ''webhook_secret'' k d (ev_others env k d)"
  shows "(\<forall>p \<in> set (split_char (CHR '','') (ar_domains args)). to_lowercase (trim p) \<noteq> [] \<longrightarrow>
      sanitize_domain (started_env env app) p = Inr (to_lowercase (trim p))) \<and>
    (config_domains args \<noteq> [] \<longrightarrow> (\<forall>host. to_lowercase (trim host) \<notin> set (ap_domains app) \<longrightarrow>
      sanitize_domain (started_env env app) host = Inl (NOT_FOUND, JString []))) \<and>
    (\<exists>d. ar_webhook_domain args = Some d \<and>
      pc_blink_webhook_url (ap_config app) = Some (ar_scheme args @ ''://'' @ d @ ''/webhook/blink'') \<and>
      ap_registration app = Some (ar_scheme args @ ''://'' @ d @ ''/webhook'', pc_webhook_secret (ap_config app)))"
proof (intro conjI)
  note s = secret_stored [OF assms]
  show "\<forall>p \<in> set (split_char (CHR '','') (ar_domains args)). to_lowercase (trim p) \<noteq> [] \<longrightarrow>
      sanitize_domain (started_env env app) p = Inr (to_lowercase (trim p))"
    using s(3) by (auto simp: sanitize_domain_def started_env_def config_domains_def)
  show "config_domains args \<noteq> [] \<longrightarrow> (\<forall>host. to_lowercase (trim host) \<notin> set (ap_domains app) \<longrightarrow>
      sanitize_domain (started_env env app) host = Inl (NOT_FOUND, JString []))"
    using s(3) by (auto simp: sanitize_domain_def started_env_def)
  show "\<exists>d. ar_webhook_domain args = Some d \<and>
      pc_blink_webhook_url (ap_config app) = Some (ar_scheme args @ ''://'' @ d @ ''/webhook/blink'') \<and>
      ap_registration app = Some (ar_scheme args @ ''://'' @ d @ ''/webhook'', pc_webhook_secret (ap_config app))"
    using s(4,5) by auto
qed

text \<open>
  C36: replicas that start on one database, whatever their order and their random values, use the
  same webhook secret, so a notification signed for one is accepted by the other.
\<close>

theorem replicas_share_secret:
  assumes "run_server env tokens lib args rc w = (Inr app, w1)"
    and "run_server env' tokens' lib' args' rc' w2 = (Inr app', w3)"
    and "\<forall>k d. keeps_setup ''webhook_secret'' k d (ev_others env k d)"
    and "\<forall>k d. keeps_setup ''webhook_secret'' k d (ev_others env' k d)"
    and "keeps_setup ''webhook_secret'' 0 (sv_db w1) (sv_db w2)"
  shows "pc_webhook_secret (ap_config app') = pc_webhook_secret (ap_config app)"
proof -
  have "setting ''webhook_secret'' (sv_db w2) = Some (pc_webhook_secret (ap_config app))"
    using secret_stored(1) [OF assms(1,3)] assms(5) by (simp add: keeps_setup_def)
  then show ?thesis by (rule secret_stored(2) [OF assms(2,4)])
qed

section \<open>The program\<close>

text \<open>An action that never fails with a given error.\<close>

definition never :: "'e \<Rightarrow> ('e, 'a) action \<Rightarrow> bool" where
  "never e m \<longleftrightarrow> (\<forall>w. fst (m w) \<noteq> Inl e)"

named_theorems never_rules \<open>errors that cannot come from an action\<close>

lemma never_bind [never_rules]:
  assumes "never e m" "\<And>x. never e (f x)"
  shows "never e (bind_act m f)"
  unfolding never_def
proof
  fix w
  obtain r w1 where m: "m w = (r, w1)" by (cases "m w")
  have "r \<noteq> Inl e" using assms(1) m unfolding never_def by (metis fst_conv)
  then show "fst (bind_act m f w) \<noteq> Inl e"
    using assms(2) by (cases r) (simp_all add: bind_act_def m never_def)
qed

lemma never_simple [never_rules]:
  "never e (ret x)" "never e (ask f)" "e' \<noteq> e \<Longrightarrow> never e (fail e')"
  "r \<noteq> Inl e \<Longrightarrow> never e (lift r)" "(\<And>y. g y \<noteq> e) \<Longrightarrow> never e (map_err_act g inner)"
  "(c \<Longrightarrow> never e m) \<Longrightarrow> (\<not> c \<Longrightarrow> never e m') \<Longrightarrow> never e (if c then m else m')"
  by (auto simp: never_def ret_def ask_def fail_def lift_def map_err_act_def map_err_def
      split: prod.splits sum.splits)

lemma never_lift:
  "never e (bind_act (lift (Inl e')) f) \<longleftrightarrow> e' \<noteq> e" "never e (bind_act (lift (Inr x)) f) \<longleftrightarrow> never e (f x)"
  by (simp_all add: never_def bind_act_def lift_def)

lemma never_run_server: "never MissingRuntimeConfig (run_server env tokens lib args rc)"
proof -
  have ensure: "never MissingRuntimeConfig (ensure_domains env ds)" for ds
    by (induction ds) (auto intro!: never_rules)
  have auth_state: "never MissingRuntimeConfig (load_internal_auth_state tokens lib args)"
    unfolding load_internal_auth_state_def by (auto split: option.splits intro!: never_rules)
  have crl: "never MissingRuntimeConfig (load_crl lib url)" for url
    unfolding load_crl_def by (auto split: option.splits intro!: never_rules simp: ok_or_def)
  have rest: "build_blink_webhook_url args \<noteq> Inl MissingRuntimeConfig" "decode_ca_cert tokens lib c \<noteq> Inl MissingRuntimeConfig"
    "resolver_of_args lib args \<noteq> Inl MissingRuntimeConfig"
    "(case n of None \<Rightarrow> Inr None | Some nsec \<Rightarrow> bind_res (ok_or InvalidNsec (su_nostr_keys lib nsec)) (\<lambda>k. Inr (Some k))) \<noteq>
      Inl MissingRuntimeConfig" for c n
    by (auto simp: build_blink_webhook_url_def decode_ca_cert_def resolver_of_args_def ok_or_def bind_res_def split: option.splits)
  show ?thesis
    unfolding run_server_def webhook_secret_of_def read_instant_def
    by (intro never_rules ensure auth_state crl rest) (simp_all add: never_def)
qed

lemma resolve_startup_cases:
  assumes "resolve_startup_runtime_config lib args deployment_env = Inr r"
  shows "r = None \<longleftrightarrow> ar_migrate_only args"
  using assms by (auto simp: resolve_startup_runtime_config_def bind_res_Inr_iff split: if_splits)

lemma never_main: "never MissingRuntimeConfig (server_main env tokens lib dbs args deployment_env)"
proof -
  have "resolve_startup_runtime_config lib args deployment_env \<noteq> Inl MissingRuntimeConfig"
    by (auto simp: resolve_startup_runtime_config_def resolve_runtime_config_def deployment_defaults_def Let_def
        ok_or_def bind_res_def split: if_splits option.splits sum.splits)
  moreover have "never MissingRuntimeConfig (open_database (main_env env args) dbs args)"
    unfolding open_database_def Let_def by (intro never_rules) simp_all
  moreover have "never MissingRuntimeConfig
      (if ar_migrate_only args then ret None
       else bind_act (lift (ok_or MissingRuntimeConfig rc)) (\<lambda>rc.
         bind_act (run_server (main_env env args) tokens lib args rc) (\<lambda>app. ret (Some app))))"
    if "resolve_startup_runtime_config lib args deployment_env = Inr rc" for rc
    using resolve_startup_cases [OF that]
    by (cases rc) (auto simp: ok_or_def intro!: never_rules never_run_server)
  ultimately show ?thesis
    unfolding server_main_def
    by (cases "resolve_startup_runtime_config lib args deployment_env")
      (auto simp: never_lift intro: never_bind never_rules)
qed

text \<open>The migrations are the only change \<open>open_database\<close> makes.\<close>

definition migrates :: "database_lib \<Rightarrow> backend \<Rightarrow> nat \<Rightarrow> db \<Rightarrow> db \<Rightarrow> bool" where
  "migrates dbs b k d d' \<longleftrightarrow> d' = snd (dl_migrate dbs k b d)"

lemma open_database_writes: "writes env (migrates dbs (database_backend (ar_db_url args))) (open_database env dbs args)"
  unfolding open_database_def Let_def by (intro writes_rules writes_call) (simp_all add: migrates_def)

lemma main_run:
  assumes "server_main env tokens lib dbs args deployment_env w = (Inr r, w')"
  shows "(r = None \<and> ar_migrate_only args \<and> (\<exists>u. open_database (main_env env args) dbs args w = (Inr u, w'))) \<or>
    (\<exists>app rc w1. r = Some app \<and> \<not> ar_migrate_only args \<and>
       resolve_startup_runtime_config lib args deployment_env = Inr (Some rc) \<and>
       run_server (main_env env args) tokens lib args rc w1 = (Inr app, w'))"
  using assms unfolding server_main_def
  by (auto simp: bind_act_iff lift_iff ret_iff if_act_iff ok_or_Inr_iff)

text \<open>C35: a start of the whole program. It never reaches the \<open>expect\<close> without a runtime configuration. When it
  only migrates, it changes the database by the migrations of the backend its URL names and by nothing else,
  and serves nothing. Otherwise the server it starts accepts every configured domain, refuses other
  hosts when a domain is configured, and registers webhooks that name its domain and its secret.\<close>

theorem main_serves:
  assumes others: "\<forall>k d. keeps_setup ''webhook_secret'' k d (ev_others env k d)"
  shows "fst (server_main env tokens lib dbs args deployment_env w) \<noteq> Inl MissingRuntimeConfig \<and>
    (\<forall>w'. server_main env tokens lib dbs args deployment_env w = (Inr None, w') \<longrightarrow> ar_migrate_only args \<and>
       served (main_env env args) (migrates dbs (database_backend (ar_db_url args))) (sv_db w) (sv_db w')) \<and>
    (\<forall>app w'. server_main env tokens lib dbs args deployment_env w = (Inr (Some app), w') \<longrightarrow> \<not> ar_migrate_only args \<and>
       (\<forall>p \<in> set (split_char (CHR '','') (ar_domains args)). to_lowercase (trim p) \<noteq> [] \<longrightarrow>
          sanitize_domain (started_env (main_env env args) app) p = Inr (to_lowercase (trim p))) \<and>
       (config_domains args \<noteq> [] \<longrightarrow> (\<forall>host. to_lowercase (trim host) \<notin> set (ap_domains app) \<longrightarrow>
          sanitize_domain (started_env (main_env env args) app) host = Inl (NOT_FOUND, JString []))) \<and>
       (\<exists>d. ar_webhook_domain args = Some d \<and>
          pc_blink_webhook_url (ap_config app) = Some (ar_scheme args @ ''://'' @ d @ ''/webhook/blink'') \<and>
          ap_registration app = Some (ar_scheme args @ ''://'' @ d @ ''/webhook'', pc_webhook_secret (ap_config app))))"
proof (intro conjI allI impI)
  show "fst (server_main env tokens lib dbs args deployment_env w) \<noteq> Inl MissingRuntimeConfig"
    using never_main [of env tokens lib dbs args deployment_env] unfolding never_def by blast
next
  fix w'
  assume "server_main env tokens lib dbs args deployment_env w = (Inr None, w')"
  from main_run [OF this] obtain u where "ar_migrate_only args" and
    u: "open_database (main_env env args) dbs args w = (Inr u, w')" by auto
  show "ar_migrate_only args" by fact
  show "served (main_env env args) (migrates dbs (database_backend (ar_db_url args))) (sv_db w) (sv_db w')"
    using writesD [OF open_database_writes [of "main_env env args" dbs args], of w] u by simp
next
  fix app w'
  assume "server_main env tokens lib dbs args deployment_env w = (Inr (Some app), w')"
  from main_run [OF this] obtain rc w1 where mo: "\<not> ar_migrate_only args" and
    run: "run_server (main_env env args) tokens lib args rc w1 = (Inr app, w')" by auto
  have keep: "\<forall>k d. keeps_setup ''webhook_secret'' k d (ev_others (main_env env args) k d)"
    using others by (simp add: main_env_def)
  show "\<not> ar_migrate_only args" by fact
  note s = startup_serves [OF run keep]
  show "\<forall>p \<in> set (split_char (CHR '','') (ar_domains args)). to_lowercase (trim p) \<noteq> [] \<longrightarrow>
      sanitize_domain (started_env (main_env env args) app) p = Inr (to_lowercase (trim p))"
    using s by blast
  show "\<exists>d. ar_webhook_domain args = Some d \<and>
      pc_blink_webhook_url (ap_config app) = Some (ar_scheme args @ ''://'' @ d @ ''/webhook/blink'') \<and>
      ap_registration app = Some (ar_scheme args @ ''://'' @ d @ ''/webhook'', pc_webhook_secret (ap_config app))"
    using s by blast
  fix host
  assume "config_domains args \<noteq> []" "to_lowercase (trim host) \<notin> set (ap_domains app)"
  then show "sanitize_domain (started_env (main_env env args) app) host = Inl (NOT_FOUND, JString [])"
    using s by blast
qed

section \<open>Registering the webhook\<close>

text \<open>
  The registration is tried until it is accepted. If the service accepts the attempt after \<open>n\<close>
  refusals, the loop returns having slept \<open>n\<close> times, the delays doubling from one second up to a
  minute; it returns only then.
\<close>

theorem registration_returns:
  "(accepts (k + n) \<and> (\<forall>i < n. \<not> accepts (k + i)) \<longrightarrow>
     register_webhook accepts k 1 = Some (map (\<lambda>i. min (2 ^ i) 60) [0..<n])) \<and>
   (register_webhook accepts k 1 \<noteq> None \<longrightarrow> (\<exists>j \<ge> k. accepts j))"
proof -
  have fwd: "register_webhook accepts k (min (2 ^ m) 60) = Some (map (\<lambda>i. min (2 ^ i) 60) [m..<m + n])"
    if "accepts (k + n)" "\<forall>i < n. \<not> accepts (k + i)" for k n m
    using that
  proof (induction n arbitrary: k m)
    case 0
    then show ?case by (subst register_webhook.simps) simp
  next
    case (Suc n)
    have d: "min (2 * min (2 ^ m) 60) 60 = min (2 ^ Suc m) (60::nat)" by (simp add: min_def)
    have a: "accepts (Suc k + n)" "\<forall>i < n. \<not> accepts (Suc k + i)" "\<not> accepts k"
      using Suc.prems by (simp_all, metis Suc_less_eq add_Suc_right, metis add_0_right zero_less_Suc)
    have "register_webhook accepts (Suc k) (min (2 ^ Suc m) 60) = Some (map (\<lambda>i. min (2 ^ i) 60) [Suc m..<Suc m + n])"
      by (rule Suc.IH [OF a(1,2)])
    with a(3) d show ?case by (subst register_webhook.simps) (simp add: upt_conv_Cons del: upt_Suc)
  qed
  have bwd: "\<exists>j \<ge> k. accepts j" if "register_webhook accepts k delay = Some ds" for k delay ds
    using that
  proof (induction ds arbitrary: k delay)
    case Nil
    then show ?case by (subst (asm) register_webhook.simps) (auto split: if_splits Option.bind_splits)
  next
    case (Cons d ds)
    then have "accepts k \<or> (\<exists>dl. register_webhook accepts (Suc k) dl = Some ds)"
      by (subst (asm) register_webhook.simps) (auto split: if_splits Option.bind_splits)
    with Cons.IH show ?case using Suc_leD by blast
  qed
  show ?thesis using fwd [of k n 0] bwd [of k 1] by auto
qed

theorem registration_returns_witness:
  "register_webhook (\<lambda>k. k = 9) 2 1 = Some [1, 2, 4, 8, 16, 32, 60]"
proof -
  have "\<forall>i < 7. (2::nat) + i \<noteq> 9" by auto
  then have "register_webhook (\<lambda>k. k = 9) 2 1 = Some (map (\<lambda>i. min (2 ^ i) 60) [0..<7])"
    using registration_returns [of "\<lambda>k. k = 9" 2 7] by simp
  moreover have "map (\<lambda>i. min (2 ^ i) 60) [0..<7] = [1, 2, 4, 8, 16, 32, 60 :: nat]"
    by (simp add: upt_rec)
  ultimately show ?thesis by simp
qed

section \<open>The revocation list\<close>

lemma split_char_none: "c \<notin> set s \<Longrightarrow> split_char c s = [s]"
  by (induction s) auto

text \<open>
  The pieces of the fetched list are not trimmed. A serial number that is followed by a line break,
  as the last one of a text file is, is not recognised, and the revoked certificate is accepted.
\<close>

theorem revoked_last_line_accepted:
  assumes s: "CHR '','' \<notin> set serial" and ca: "tl_certificate_from_der tokens ca_der = Some ca"
    and h: "header_str headers ''authorization'' = Some h"
    and cert: "tl_base64_decode tokens (trim (trim_start_matches ''Bearer '' h)) = Some der"
      "tl_certificate_from_der tokens der = Some cert" "tl_issuer tokens cert = tl_subject tokens ca"
      "tl_verify_signature tokens cert ca" "tl_serial tokens cert = serial"
  shows "auth tokens (Some ca_der) (crl_of_body (serial @ ''\<newline>'')) False headers = Inr ()"
proof -
  have "crl_of_body (serial @ ''\<newline>'') = {serial @ ''\<newline>''}"
    using s by (simp add: crl_of_body_def split_char_none)
  then show ?thesis using assms by (simp add: auth_def verify_cert_against_ca_def)
qed

section \<open>A concrete start\<close>

definition start_tokens :: "(bytes, string) token_lib" where
  "start_tokens = \<lparr>tl_base64_decode = (\<lambda>s. Some (as_bytes s)), tl_certificate_from_der = (\<lambda>b. Some b),
     tl_issuer = (\<lambda>c. c), tl_subject = (\<lambda>c. c), tl_verify_signature = (\<lambda>_ _. True), tl_serial = (\<lambda>_. ''1''),
     tl_jwks_from_str = (\<lambda>_. None), tl_decode_header = (\<lambda>_. None), tl_decode = (\<lambda>_ _ _ _. None),
     tl_update_from_slice = (\<lambda>_. None), tl_transfer_from_slice = (\<lambda>_. None)\<rparr>"

definition start_lib :: "string \<Rightarrow> (bytes, string) startup_lib" where
  "start_lib secret = \<lparr>su_mainnet = ''mainnet'', su_regtest = ''regtest'', su_random_seed = [], su_random_secret = as_bytes secret,
     su_spark_client = (\<lambda>_ _ _. True), su_fetch = (\<lambda>_ _. None), su_read_file = (\<lambda>_. None), su_cert_raw = (\<lambda>c. c),
     su_nostr_keys = (\<lambda>_. None), su_http_client = True\<rparr>"

definition start_args :: "string args" where
  "start_args = \<lparr>ar_auto_migrate = True, ar_migrate_only = False, ar_db_url = '' Postgres://db/lnurl'', ar_spark_network = None, ar_spark_enabled = True, ar_blink_enabled = True,
     ar_scheme = ''https'', ar_callback_domain = None, ar_min_sendable = 1000, ar_max_sendable = 4000000000,
     ar_domains = ''X.org, y.org'', ar_nsec = None, ar_ca_cert = None, ar_crl_url = None, ar_webhook_domain = Some ''h'',
     ar_ssp_auth_seed = None, ar_webhook_delivery_ttl_days = 90, ar_blink_graphql_endpoint = None,
     ar_internal_jwks_url = None, ar_internal_jwks_path = None, ar_internal_jwt_issuer = None,
     ar_internal_jwt_audience = None, ar_proxycheck_api_key = None, ar_proxycheck_url = ''u'',
     ar_mode_requests_per_ip_per_minute = 10, ar_country_lookups_per_day = 5000\<rparr>"

definition start_runtime :: "string runtime_config" where
  "start_runtime = \<lparr>rc_spark_network = ''mainnet'', rc_blink_network = ''mainnet'',
     rc_blink_graphql_endpoint = Some PRODUCTION_GRAPHQL_ENDPOINT, rc_local_env = False\<rparr>"

definition start_server :: server where
  "start_server = fresh_server start_args False 0 \<lparr>sv_db = empty_db, sv_ip_rate_limiter = limiter_new 0 0 0 False,
     sv_country_lookup_budget = budget_new 0 0 0, sv_legacy_verifies = [], sv_spawned = [],
     sv_usd_min_sendable_cache = None, sv_invoice_paid_triggers = 0, sv_step = 0\<rparr>"

text \<open>Two replicas start one after the other, with different random values.\<close>

definition first_start :: "(startup_error + string app) \<times> server" where
  "first_start = run_server demo_env start_tokens (start_lib ''a'') start_args start_runtime start_server"

definition second_start :: "(startup_error + string app) \<times> server" where
  "second_start = run_server demo_env start_tokens (start_lib ''b'') start_args start_runtime (snd first_start)"

lemma start_domains: "config_domains start_args = [''x.org'', ''y.org'']"
  by code_simp

text \<open>On a healthy database nothing in these arguments can fail.\<close>

lemma start_succeeds: "\<not> isl (fst (run_server demo_env start_tokens (start_lib secret) start_args start_runtime w))"
  unfolding run_server_def start_domains
  by (simp add: start_args_def start_lib_def start_tokens_def demo_env_def build_blink_webhook_url_def bind_act_def
    lift_def ask_def ret_def map_err_act_def db_exec_def db_read_def db_call_def load_internal_auth_state_def
    decode_ca_cert_def load_crl_def load_configs_def webhook_secret_of_def setting_backends get_or_create_result
    resolver_of_args_def trimmed_def read_instant_def Let_def)

lemma starts_succeed: "\<not> isl (fst first_start)" "\<not> isl (fst second_start)"
  unfolding first_start_def second_start_def by (rule start_succeeds)+

lemma demo_env_keeps: "\<forall>k d. keeps_setup key k d (ev_others demo_env k d)"
  by (simp add: demo_env_def)

theorem startup_serves_witness:
  "\<exists>app. fst first_start = Inr app \<and> sanitize_domain (started_env demo_env app) ''X.org'' = Inr ''x.org''"
proof -
  obtain app w where r: "first_start = (Inr app, w)"
    using not_isl_result [OF starts_succeed(1)] by blast
  have "''X.org'' \<in> set (split_char (CHR '','') (ar_domains start_args))" by (simp add: start_args_def)
  moreover have "to_lowercase (trim ''X.org'') = ''x.org''" by code_simp
  ultimately have "sanitize_domain (started_env demo_env app) ''X.org'' = Inr ''x.org''"
    using startup_serves [OF r [unfolded first_start_def] demo_env_keeps] by (elim conjE) (drule (1) bspec, simp)
  moreover have "fst first_start = Inr app" unfolding r fst_conv ..
  ultimately show ?thesis by blast
qed

definition start_dbs :: database_lib where
  "start_dbs = \<lparr>dl_connect = (\<lambda>_ _ _ _. True), dl_migrate = (\<lambda>_ _ d. (Inr (), d))\<rparr>"

lemma main_start_succeeds: "\<not> isl (fst (server_main demo_env start_tokens (start_lib secret) start_dbs start_args None w))"
proof -
  have rc: "resolve_startup_runtime_config (start_lib secret) start_args None = Inr (Some start_runtime)"
    by (simp add: resolve_startup_runtime_config_def resolve_runtime_config_def start_args_def start_lib_def
        start_runtime_def trimmed_def deployment_defaults_def bind_res_def Let_def)
  have run: "\<not> isl (fst (run_server (main_env demo_env start_args) start_tokens (start_lib secret) start_args start_runtime w))" for w
    unfolding run_server_def start_domains
    by (simp add: start_args_def start_lib_def start_tokens_def demo_env_def build_blink_webhook_url_def bind_act_def
      lift_def ask_def ret_def map_err_act_def db_exec_def db_read_def db_call_def load_internal_auth_state_def
      decode_ca_cert_def load_crl_def load_configs_def webhook_secret_of_def setting_backends get_or_create_result
      resolver_of_args_def trimmed_def read_instant_def main_env_def Let_def)
  obtain w1 where o: "open_database (main_env demo_env start_args) start_dbs start_args w = (Inr (), w1)"
    by (simp add: open_database_def start_dbs_def start_args_def bind_act_def ask_def map_err_act_def map_err_def
        db_call_def main_env_def demo_env_def Let_def)
  obtain app w2 where "run_server (main_env demo_env start_args) start_tokens (start_lib secret) start_args start_runtime w1 = (Inr app, w2)"
    using not_isl_result [OF run] by blast
  moreover have "\<not> ar_migrate_only start_args" by (simp add: start_args_def)
  ultimately show ?thesis
    by (simp add: server_main_def rc o bind_act_def lift_def ret_def ok_or_def)
qed

theorem main_serves_witness:
  "\<exists>app. fst (server_main demo_env start_tokens (start_lib ''a'') start_dbs start_args None start_server) = Inr (Some app) \<and>
     sanitize_domain (started_env (main_env demo_env start_args) app) ''X.org'' = Inr ''x.org''"
proof -
  obtain r w where r: "server_main demo_env start_tokens (start_lib ''a'') start_dbs start_args None start_server = (Inr r, w)"
    using not_isl_result [OF main_start_succeeds] by blast
  note s = main_serves [OF demo_env_keeps, of start_tokens "start_lib ''a''" start_dbs start_args None start_server]
  have "\<not> ar_migrate_only start_args" by (simp add: start_args_def)
  with s r obtain app where app: "r = Some app" by (cases r) auto
  have p: "''X.org'' \<in> set (split_char (CHR '','') (ar_domains start_args))" by (simp add: start_args_def)
  have "to_lowercase (trim ''X.org'') = ''x.org''" by code_simp
  then have "sanitize_domain (started_env (main_env demo_env start_args) app) ''X.org'' = Inr ''x.org''"
    using s r [unfolded app] p by (metis list.distinct(1))
  then show ?thesis using r app by auto
qed

theorem replicas_share_secret_witness:
  "\<exists>app app'. fst first_start = Inr app \<and> fst second_start = Inr app' \<and>
     pc_webhook_secret (ap_config app') = pc_webhook_secret (ap_config app)"
proof -
  obtain app w where r: "first_start = (Inr app, w)"
    using not_isl_result [OF starts_succeed(1)] by blast
  obtain app' w' where r': "second_start = (Inr app', w')"
    using not_isl_result [OF starts_succeed(2)] by blast
  have "pc_webhook_secret (ap_config app') = pc_webhook_secret (ap_config app)"
  proof (rule replicas_share_secret [OF _ _ demo_env_keeps demo_env_keeps keeps_setup_refl])
    show "run_server demo_env start_tokens (start_lib ''a'') start_args start_runtime start_server = (Inr app, w)"
      using r by (simp add: first_start_def)
    show "run_server demo_env start_tokens (start_lib ''b'') start_args start_runtime w = (Inr app', w')"
      using r' unfolding second_start_def r snd_conv .
  qed
  moreover have "fst first_start = Inr app" "fst second_start = Inr app'" unfolding r r' fst_conv by (rule refl)+
  ultimately show ?thesis by blast
qed

theorem revoked_last_line_accepted_witness:
  "auth start_tokens (Some []) (crl_of_body ''1\<newline>'') False [''authorization'' \<mapsto> Text ''Bearer ''] = Inr ()"
proof -
  have "header_str [''authorization'' \<mapsto> Text ''Bearer ''] ''authorization'' = Some ''Bearer ''" by code_simp
  moreover have "as_bytes (trim (trim_start_matches ''Bearer '' ''Bearer '')) = []" by code_simp
  ultimately show ?thesis
    using revoked_last_line_accepted [of "''1''" start_tokens "[]" "[]" _ "''Bearer ''" "[]" "[]"]
    by (simp add: start_tokens_def)
qed

end
