(* ===== verification/Lnurl_Postgres.thy ===== *)
theory Lnurl_Postgres
  imports Lnurl_Accounts
begin

text \<open>
  The transactions of \<open>postgresql/repository.rs\<close> statement by statement. The connections run at
  PostgreSQL's default level \<open>READ COMMITTED\<close>: a statement sees what is committed when it starts and
  what its own transaction has written. Between two statements others may commit. Their effect
  before statement \<open>k\<close> is \<open>others k\<close>; a change that would need a row the transaction has written waits
  for its end, and so does not occur there.
\<close>

section \<open>Transactions\<close>

text \<open>
  What is committed, and what the transaction sees: the same with its own writes. A transaction that
  is rolled back leaves the former.
\<close>

record tx_state =
  tx_stmt :: nat
  tx_committed :: db
  tx_view :: db

type_synonym 'a tx = "(nat \<Rightarrow> db \<Rightarrow> db) \<Rightarrow> tx_state \<Rightarrow> (repository_error + 'a) \<times> tx_state"

definition ret_tx :: "'a \<Rightarrow> 'a tx" where
  "ret_tx x others s = (Inr x, s)"

definition lift_tx :: "repository_error + 'a \<Rightarrow> 'a tx" where
  "lift_tx r others s = (r, s)"

definition fail_tx :: "repository_error \<Rightarrow> 'a tx" where
  "fail_tx e others s = (Inl e, s)"

definition bind_tx :: "'a tx \<Rightarrow> ('a \<Rightarrow> 'b tx) \<Rightarrow> 'b tx" where
  "bind_tx m f others s = (case m others s of (Inl e, s') \<Rightarrow> (Inl e, s') | (Inr x, s') \<Rightarrow> f x others s')"

definition run_stmt :: "(db \<Rightarrow> repository_error + 'a \<times> db) \<Rightarrow> 'a tx" where
  "run_stmt f others s =
     (let v = others (tx_stmt s) (tx_view s);
          c = others (tx_stmt s) (tx_committed s)
      in case f v of
           Inl e \<Rightarrow> (Inl e, \<lparr>tx_stmt = tx_stmt s + 1, tx_committed = c, tx_view = v\<rparr>)
         | Inr (x, v') \<Rightarrow> (Inr x, \<lparr>tx_stmt = tx_stmt s + 1, tx_committed = c, tx_view = v'\<rparr>))"

definition query_tx :: "(db \<Rightarrow> 'a) \<Rightarrow> 'a tx" where
  "query_tx f = run_stmt (\<lambda>d. Inr (f d, d))"

definition exec_tx :: "(db \<Rightarrow> db) \<Rightarrow> unit tx" where
  "exec_tx f = run_stmt (\<lambda>d. Inr ((), f d))"

definition transact :: "'a tx \<Rightarrow> (nat \<Rightarrow> db \<Rightarrow> db) \<Rightarrow> db \<Rightarrow> (repository_error + 'a) \<times> db" where
  "transact t others d =
     (case t others \<lparr>tx_stmt = 0, tx_committed = d, tx_view = d\<rparr> of
        (Inl e, s) \<Rightarrow> (Inl e, tx_committed s)
      | (Inr x, s) \<Rightarrow> (Inr x, tx_view s))"

definition check_tx :: "bool \<Rightarrow> repository_error \<Rightarrow> unit tx" where
  "check_tx c e = (if c then ret_tx () else fail_tx e)"

section \<open>Statements\<close>

text \<open>\<open>INSERT INTO used_signed_messages ... ON CONFLICT DO NOTHING\<close>, and the refusal of a claim that is taken.\<close>

definition insert_statement_claim_pg :: "int \<Rightarrow> statement_claim \<Rightarrow> bool tx" where
  "insert_statement_claim_pg now claim = run_stmt (\<lambda>d. Inr (insert_statement_claim now claim d))"

definition claim_tx :: "int \<Rightarrow> statement_claim option \<Rightarrow> unit tx" where
  "claim_tx now claim =
     (case claim of
        None \<Rightarrow> ret_tx ()
      | Some c \<Rightarrow> bind_tx (insert_statement_claim_pg now c) (\<lambda>inserted. check_tx inserted StatementAlreadyUsed))"

text \<open>Upserts on the primary key; another unique index of the table may still refuse the row.\<close>

definition upsert_account_row :: "string \<Rightarrow> int \<Rightarrow> unit tx" where
  "upsert_account_row account_id now =
     exec_tx (\<lambda>d. d\<lparr>accounts := upsert_on acc_id merge_account (new_account_row account_id Spark now) (accounts d)\<rparr>)"

definition upsert_spark_row :: "string \<Rightarrow> string \<Rightarrow> int \<Rightarrow> unit tx" where
  "upsert_spark_row account_id pubkey now = run_stmt (\<lambda>d.
     if exists_where (\<lambda>s. sp_pubkey s = pubkey \<and> sp_account_id s \<noteq> account_id) (spark_accounts d)
     then Inl (from_sqlx_error (UniqueViolation (Some ''spark_accounts_pubkey_key'')))
     else Inr ((), d\<lparr>spark_accounts :=
       upsert_on sp_account_id merge_spark (new_spark_row account_id pubkey now) (spark_accounts d)\<rparr>))"

definition upsert_identifier_row :: "string \<Rightarrow> new_account_identifier \<Rightarrow> int \<Rightarrow> unit tx" where
  "upsert_identifier_row account_id n now = run_stmt (\<lambda>d.
     if exists_where (\<lambda>ai. ai_domain ai = ni_domain n \<and> ai_identifier ai = ni_identifier n \<and>
          ai_account_id ai \<noteq> account_id) (account_identifiers d)
     then Inl (from_sqlx_error (UniqueViolation (Some ''account_identifiers_domain_identifier_key'')))
     else Inr ((), d\<lparr>account_identifiers :=
       upsert_on ident_pk merge_identifier (new_identifier_row account_id n now) (account_identifiers d)\<rparr>))"

text \<open>Plain inserts; the primary key is checked first.\<close>

definition insert_account_row :: "account \<Rightarrow> unit tx" where
  "insert_account_row a = run_stmt (\<lambda>d. bind_res (insert_account a d) (\<lambda>d'. Inr ((), d')))"

definition insert_spark_row :: "spark_account \<Rightarrow> unit tx" where
  "insert_spark_row s = run_stmt (\<lambda>d. bind_res (insert_spark_account s d) (\<lambda>d'. Inr ((), d')))"

definition insert_blink_row :: "blink_account \<Rightarrow> unit tx" where
  "insert_blink_row b = run_stmt (\<lambda>d.
     if exists_where (\<lambda>r. bl_account_id r = bl_account_id b) (blink_accounts d)
     then Inl (from_sqlx_error (UniqueViolation (Some ''blink_accounts_pkey'')))
     else if exists_where (\<lambda>r. bl_blink_account_id r = bl_blink_account_id b) (blink_accounts d)
     then Inl (from_sqlx_error (UniqueViolation (Some ''blink_accounts_blink_account_id_key'')))
     else Inr ((), d\<lparr>blink_accounts := blink_accounts d @ [b]\<rparr>))"

definition insert_identifier_row :: "account_identifier \<Rightarrow> unit tx" where
  "insert_identifier_row ai = run_stmt (\<lambda>d.
     if exists_where (\<lambda>r. ident_pk r = ident_pk ai) (account_identifiers d)
     then Inl (from_sqlx_error (UniqueViolation (Some ''account_identifiers_pkey'')))
     else if exists_where (\<lambda>r. ident_key r = ident_key ai) (account_identifiers d)
     then Inl (from_sqlx_error (UniqueViolation (Some ''account_identifiers_domain_identifier_key'')))
     else Inr ((), d\<lparr>account_identifiers := account_identifiers d @ [ai]\<rparr>))"

section \<open>Registration and deletion\<close>

definition registration_account_tx :: "string \<Rightarrow> new_spark_registration \<Rightarrow> string tx" where
  "registration_account_tx fresh reg =
     (case nr_account_id reg of
        Some account_id \<Rightarrow> ret_tx account_id
      | None \<Rightarrow> bind_tx (query_tx (spark_by_pubkey (nr_pubkey reg))) (\<lambda>s.
          ret_tx (case s of Some s \<Rightarrow> sp_account_id s | None \<Rightarrow> fresh)))"

text \<open>The provider of the account, the owner of the name and the owner of the key.\<close>

definition registration_guards_tx :: "string \<Rightarrow> new_spark_registration \<Rightarrow> unit tx" where
  "registration_guards_tx account_id reg =
     bind_tx (query_tx (get_account_by_id account_id)) (\<lambda>a.
     bind_tx (check_tx (case a of Some a \<Rightarrow> acc_provider a = Spark | None \<Rightarrow> True) InvalidProvider) (\<lambda>_.
     bind_tx (query_tx (identifier_row (ni_domain (nr_identifier reg)) (ni_identifier (nr_identifier reg)))) (\<lambda>ai.
     bind_tx (check_tx (case ai of Some ai \<Rightarrow> ai_account_id ai = account_id | None \<Rightarrow> True) IdentifierConflict) (\<lambda>_.
     bind_tx (query_tx (spark_by_pubkey (nr_pubkey reg))) (\<lambda>s.
     check_tx (case s of Some s \<Rightarrow> sp_account_id s = account_id | None \<Rightarrow> True) InvalidOwnership)))))"

definition write_registration_tx :: "int \<Rightarrow> string \<Rightarrow> new_spark_registration \<Rightarrow> unit tx" where
  "write_registration_tx now account_id reg =
     bind_tx (exec_tx (drop_other_usernames account_id (ni_domain (nr_identifier reg))
       (ni_identifier (nr_identifier reg)))) (\<lambda>_.
     bind_tx (upsert_account_row account_id now) (\<lambda>_.
     bind_tx (upsert_spark_row account_id (nr_pubkey reg) now) (\<lambda>_.
     upsert_identifier_row account_id (nr_identifier reg) now)))"

definition upsert_spark_registration_tx :: "int \<Rightarrow> string \<Rightarrow> new_spark_registration \<Rightarrow> unit tx" where
  "upsert_spark_registration_tx now fresh reg =
     bind_tx (lift_tx (validate_registration reg)) (\<lambda>_.
     bind_tx (claim_tx now (nr_claim reg)) (\<lambda>_.
     bind_tx (registration_account_tx fresh reg) (\<lambda>account_id.
     bind_tx (registration_guards_tx account_id reg) (\<lambda>_.
     write_registration_tx now account_id reg))))"

definition delete_spark_registration_tx ::
  "int \<Rightarrow> string \<Rightarrow> string \<Rightarrow> string \<Rightarrow> statement_claim option \<Rightarrow> unit tx" where
  "delete_spark_registration_tx now domain pubkey identifier claim =
     bind_tx (claim_tx now claim) (\<lambda>_.
     bind_tx (query_tx (spark_by_pubkey pubkey)) (\<lambda>s.
     case s of
       None \<Rightarrow> fail_tx SourceNotOwner
     | Some s \<Rightarrow>
         let P = (\<lambda>ai. ai_account_id ai = sp_account_id s \<and> ai_domain ai = domain \<and> ai_identifier ai = identifier) in
         bind_tx (run_stmt (\<lambda>d. Inr (rows_affected P (account_identifiers d),
           d\<lparr>account_identifiers := delete_where P (account_identifiers d)\<rparr>))) (\<lambda>n.
         check_tx (n \<noteq> 0) SourceNotOwner)))"

section \<open>Transfers\<close>

text \<open>The join of \<open>spark_accounts\<close> and \<open>accounts\<close> by public key: the account id and its provider.\<close>

definition destination_row :: "string \<Rightarrow> db \<Rightarrow> (string \<times> account_provider) option" where
  "destination_row pubkey d =
     (case spark_by_pubkey pubkey d of
        None \<Rightarrow> None
      | Some s \<Rightarrow> map_option (\<lambda>a. (sp_account_id s, acc_provider a)) (get_account_by_id (sp_account_id s) d))"

definition destination_account_tx :: "int \<Rightarrow> string \<Rightarrow> string \<Rightarrow> string tx" where
  "destination_account_tx now fresh pubkey =
     bind_tx (query_tx (destination_row pubkey)) (\<lambda>found.
     case found of
       Some (account_id, provider) \<Rightarrow>
         bind_tx (check_tx (provider = Spark) InvalidProvider) (\<lambda>_. ret_tx account_id)
     | None \<Rightarrow>
         bind_tx (insert_account_row (new_account_row fresh Spark now)) (\<lambda>_.
         bind_tx (insert_spark_row (new_spark_row fresh pubkey now)) (\<lambda>_. ret_tx fresh)))"

definition move_identifier_tx :: "int \<Rightarrow> string \<Rightarrow> string \<Rightarrow> string \<Rightarrow> string \<Rightarrow> string \<Rightarrow> unit tx" where
  "move_identifier_tx now domain identifier source destination description =
     (let P = (\<lambda>ai. ai_domain ai = domain \<and> ai_identifier ai = identifier \<and> ai_account_id ai = source) in
      bind_tx (query_tx (spark_child destination)) (\<lambda>child.
      bind_tx (check_tx child InvalidProvider) (\<lambda>_.
      bind_tx (run_stmt (\<lambda>d. Inr (rows_affected P (account_identifiers d),
        d\<lparr>account_identifiers := update_where P (\<lambda>ai. ai\<lparr>ai_account_id := destination,
          ai_description := description, ai_updated_at := now\<rparr>) (account_identifiers d)\<rparr>))) (\<lambda>n.
      bind_tx (check_tx (n = 1) SourceNotOwner) (\<lambda>_.
      exec_tx (drop_other_usernames destination domain identifier))))))"

definition transfer_identifier_tx :: "int \<Rightarrow> string \<Rightarrow> identifier_transfer \<Rightarrow> unit tx" where
  "transfer_identifier_tx now fresh t =
     bind_tx (claim_tx now (tr_claim t)) (\<lambda>_.
     bind_tx (query_tx (owned_by (tr_domain t) (tr_identifier t) (tr_source_account_id t))) (\<lambda>owned.
     bind_tx (check_tx owned SourceNotOwner) (\<lambda>_.
     bind_tx (query_tx (spark_child (tr_source_account_id t))) (\<lambda>child.
     bind_tx (check_tx child InvalidOwnership) (\<lambda>_.
     bind_tx (destination_account_tx now fresh (tr_destination_spark_pubkey t)) (\<lambda>destination.
     move_identifier_tx now (tr_domain t) (tr_identifier t) (tr_source_account_id t) destination (tr_description t)))))))"

definition transfer_blink_identifier_to_spark_tx :: "int \<Rightarrow> string \<Rightarrow> blink_to_spark_transfer \<Rightarrow> unit tx" where
  "transfer_blink_identifier_to_spark_tx now fresh t =
     bind_tx (query_tx (owned_by (bt_domain t) (bt_identifier t) (bt_source_account_id t))) (\<lambda>owned.
     bind_tx (check_tx owned SourceNotOwner) (\<lambda>_.
     bind_tx (query_tx (blink_child (bt_source_account_id t))) (\<lambda>child.
     bind_tx (check_tx child InvalidOwnership) (\<lambda>_.
     bind_tx (destination_account_tx now fresh (bt_destination_spark_pubkey t)) (\<lambda>destination.
     move_identifier_tx now (bt_domain t) (bt_identifier t) (bt_source_account_id t) destination (bt_description t))))))"

section \<open>Blink accounts\<close>

text \<open>One \<open>SELECT COUNT(*)\<close> per requested identifier, then one insert per identifier.\<close>

fun check_identifiers :: "new_account_identifier list \<Rightarrow> unit tx" where
  "check_identifiers [] = ret_tx ()"
| "check_identifiers (i # is) =
     bind_tx (query_tx (\<lambda>d. exists_where (\<lambda>ai. ai_domain ai = ni_domain i \<and> ai_identifier ai = ni_identifier i)
       (account_identifiers d))) (\<lambda>taken.
     bind_tx (check_tx (\<not> taken) IdentifierConflict) (\<lambda>_. check_identifiers is))"

fun insert_identifier_rows :: "account_identifier list \<Rightarrow> unit tx" where
  "insert_identifier_rows [] = ret_tx ()"
| "insert_identifier_rows (ai # ais) = bind_tx (insert_identifier_row ai) (\<lambda>_. insert_identifier_rows ais)"

text \<open>What an account that exists already is refused with.\<close>

definition refuse_existing :: "string \<Rightarrow> new_blink_account \<Rightarrow> account \<Rightarrow> unit tx" where
  "refuse_existing account_id acct a =
     bind_tx (check_tx (acc_provider a = Blink) InvalidProvider) (\<lambda>_.
     bind_tx (query_tx (\<lambda>d. fetch_optional (\<lambda>b. bl_account_id b = account_id) (blink_accounts d))) (\<lambda>existing.
     case existing of
       None \<Rightarrow> fail_tx InvalidOwnership
     | Some b \<Rightarrow>
         bind_tx (check_tx (bl_blink_account_id b = nb_blink_account_id acct \<and> bl_btc_wallet_id b = nb_btc_wallet_id acct \<and>
           bl_usd_wallet_id b = nb_usd_wallet_id acct \<and> bl_default_wallet b = nb_default_wallet acct) InvalidOwnership) (\<lambda>_.
         fail_tx BlinkAccountExists)))"

definition insert_blink_rows_tx :: "int \<Rightarrow> string \<Rightarrow> new_blink_account \<Rightarrow> unit tx" where
  "insert_blink_rows_tx now account_id acct =
     bind_tx (insert_account_row (new_account_row account_id Blink now)) (\<lambda>_.
     bind_tx (insert_blink_row (blink_row account_id acct now)) (\<lambda>_.
     insert_identifier_rows (map (\<lambda>i. new_identifier_row account_id i now) (nb_identifiers acct))))"

definition create_blink_account_tx :: "int \<Rightarrow> string \<Rightarrow> new_blink_account \<Rightarrow> unit tx" where
  "create_blink_account_tx now fresh acct =
     (let account_id = (case nb_account_id acct of Some i \<Rightarrow> i | None \<Rightarrow> fresh) in
      bind_tx (query_tx (get_account_by_id account_id)) (\<lambda>a.
      case a of
        Some a \<Rightarrow> refuse_existing account_id acct a
      | None \<Rightarrow>
          bind_tx (query_tx (\<lambda>d. exists_where (\<lambda>b. bl_blink_account_id b = nb_blink_account_id acct) (blink_accounts d))) (\<lambda>taken.
          bind_tx (check_tx (\<not> taken) BlinkAccountExists) (\<lambda>_.
          bind_tx (check_identifiers (nb_identifiers acct)) (\<lambda>_.
          insert_blink_rows_tx now account_id acct)))))"

section \<open>First contact\<close>

text \<open>The transaction of \<open>ensure_spark_account\<close>; \<open>False\<close> rolls it back, since another request won.\<close>

definition ensure_spark_account_rows :: "int \<Rightarrow> string \<Rightarrow> string \<Rightarrow> bool tx" where
  "ensure_spark_account_rows now fresh pubkey =
     bind_tx (insert_account_row (new_account_row fresh Spark now)) (\<lambda>_.
     run_stmt (\<lambda>d.
       if exists_where (\<lambda>s. sp_account_id s = fresh) (spark_accounts d)
       then Inl (from_sqlx_error (UniqueViolation (Some ''spark_accounts_pkey'')))
       else if exists_where (\<lambda>s. sp_pubkey s = pubkey) (spark_accounts d) then Inr (False, d)
       else Inr (True, d\<lparr>spark_accounts := spark_accounts d @ [new_spark_row fresh pubkey now]\<rparr>)))"

text \<open>The database after a session that found no account: a rolled back transaction leaves what others committed.\<close>

definition ensure_spark_account_pg ::
  "int \<Rightarrow> string \<Rightarrow> string \<Rightarrow> (nat \<Rightarrow> db \<Rightarrow> db) \<Rightarrow> db \<Rightarrow> (repository_error + unit) \<times> db" where
  "ensure_spark_account_pg now fresh pubkey others d =
     (if exists_where (\<lambda>s. sp_pubkey s = pubkey) (spark_accounts d) then (Inr (), d)
      else case ensure_spark_account_rows now fresh pubkey others \<lparr>tx_stmt = 0, tx_committed = d, tx_view = d\<rparr> of
        (Inl e, s) \<Rightarrow> (Inl e, tx_committed s)
      | (Inr inserted, s) \<Rightarrow> (Inr (), if inserted then tx_view s else tx_committed s))"

section \<open>Account mode\<close>

text \<open>The two statements of the transaction above are 0 and 1, the \<open>UPDATE\<close> is 2 and the read that classifies a refusal 3.\<close>

definition upsert_spark_mode_pg ::
  "int \<Rightarrow> string \<Rightarrow> spark_mode_update \<Rightarrow> (nat \<Rightarrow> db \<Rightarrow> db) \<Rightarrow> db \<Rightarrow> (repository_error + unit) \<times> db" where
  "upsert_spark_mode_pg now fresh u others d =
     (case ensure_spark_account_pg now fresh (mu_pubkey u) others d of
        (Inl e, d1) \<Rightarrow> (Inl e, d1)
      | (Inr _, d1) \<Rightarrow>
          let d2 = others 2 d1 in
          if rows_affected (mode_write_applies u) (spark_accounts d2) = 0
          then let d3 = others 3 d2 in (classify_refused_mode_write (get_spark_account_mode (mu_pubkey u) d3) u, d3)
          else (Inr (), d2\<lparr>spark_accounts :=
            update_where (mode_write_applies u) (mode_write now u) (spark_accounts d2)\<rparr>))"

end
