(* ===== verification/Lnurl_Postgres_Thms.thy ===== *)
theory Lnurl_Postgres_Thms
  imports Lnurl_Postgres Lnurl_Accounts_Thms
begin

text \<open>
  The PostgreSQL transactions of \<open>Lnurl_Postgres\<close>, run alone, are the atomic functions of
  \<open>Lnurl_Accounts\<close>; with other transactions between their statements a registration still keeps
  the unique indexes and gives the name to the requested key (a rely condition states what the
  others may do), but not the one username per domain.
\<close>

section \<open>Transactions that run alone\<close>

definition undisturbed :: "nat \<Rightarrow> db \<Rightarrow> db" where
  "undisturbed k d = d"

text \<open>Without others between its statements the transaction computes \<open>f\<close> on what it sees.\<close>

definition alone :: "'a tx \<Rightarrow> (db \<Rightarrow> repository_error + 'a \<times> db) \<Rightarrow> bool" where
  "alone t f \<longleftrightarrow> (\<forall>s. tx_committed (snd (t undisturbed s)) = tx_committed s \<and>
     map_sum id (\<lambda>x. (x, tx_view (snd (t undisturbed s)))) (fst (t undisturbed s)) = f (tx_view s))"

named_theorems alone_rules

lemma alone_ret [alone_rules]: "alone (ret_tx x) (\<lambda>d. Inr (x, d))"
  by (simp add: alone_def ret_tx_def)

lemma alone_lift [alone_rules]: "alone (lift_tx r) (\<lambda>d. map_sum id (\<lambda>x. (x, d)) r)"
  by (simp add: alone_def lift_tx_def)

lemma alone_fail [alone_rules]: "alone (fail_tx e) (\<lambda>d. Inl e)"
  by (simp add: alone_def fail_tx_def)

lemma alone_stmt [alone_rules]: "alone (run_stmt f) f"
  by (auto simp: alone_def run_stmt_def undisturbed_def Let_def split: sum.splits prod.splits)

lemma alone_query [alone_rules]: "alone (query_tx f) (\<lambda>d. Inr (f d, d))"
  unfolding query_tx_def by (rule alone_stmt)

lemma alone_exec [alone_rules]: "alone (exec_tx f) (\<lambda>d. Inr ((), f d))"
  unfolding exec_tx_def by (rule alone_stmt)

lemma alone_check [alone_rules]: "alone (check_tx c e) (\<lambda>d. if c then Inr ((), d) else Inl e)"
  by (simp add: alone_def check_tx_def ret_tx_def fail_tx_def)

lemma alone_bind [alone_rules]:
  assumes "alone m f" "\<And>x. alone (g x) (h x)"
  shows "alone (bind_tx m g) (\<lambda>d. bind_res (f d) (\<lambda>(x, d'). h x d'))"
  unfolding alone_def
proof (intro allI)
  fix s
  obtain r s' where m: "m undisturbed s = (r, s')" by (cases "m undisturbed s") auto
  from assms(1) have c: "tx_committed s' = tx_committed s" and r: "map_sum id (\<lambda>x. (x, tx_view s')) r = f (tx_view s)"
    using m by (auto simp: alone_def dest: spec [of _ s])
  show "tx_committed (snd (bind_tx m g undisturbed s)) = tx_committed s \<and>
    map_sum id (\<lambda>x. (x, tx_view (snd (bind_tx m g undisturbed s)))) (fst (bind_tx m g undisturbed s)) =
    bind_res (f (tx_view s)) (\<lambda>(x, d'). h x d')"
    using assms(2) c r [symmetric] by (cases r) (simp_all add: bind_tx_def m alone_def)
qed

lemma alone_option [alone_rules]:
  "alone t f \<Longrightarrow> (\<And>x. alone (u x) (g x)) \<Longrightarrow>
    alone (case v of None \<Rightarrow> t | Some x \<Rightarrow> u x) (\<lambda>d. case v of None \<Rightarrow> f d | Some x \<Rightarrow> g x d)"
  by (cases v) simp_all

lemma alone_pair [alone_rules]:
  "(\<And>x y. alone (u x y) (g x y)) \<Longrightarrow> alone (case v of (x, y) \<Rightarrow> u x y) (\<lambda>d. case v of (x, y) \<Rightarrow> g x y d)"
  by (cases v) simp

lemma alone_cong: "alone t f \<Longrightarrow> (\<And>d. f d = g d) \<Longrightarrow> alone t g"
  by (simp add: alone_def)

text \<open>The outcome of an atomic method in the shape of \<open>transact\<close>.\<close>

definition unit_result :: "repository_error + db \<Rightarrow> repository_error + unit \<times> db" where
  "unit_result r = map_sum id (Pair ()) r"

lemma unit_result_simps [simp]:
  "unit_result (Inl e) = Inl e" "unit_result (Inr d) = Inr ((), d)"
  by (simp_all add: unit_result_def)

lemma transact_alone:
  assumes "alone t f" "f d = unit_result r"
  shows "transact t undisturbed d = commit d r"
proof -
  let ?s = "\<lparr>tx_stmt = 0, tx_committed = d, tx_view = d\<rparr>"
  obtain q s' where t: "t undisturbed ?s = (q, s')" by (cases "t undisturbed ?s") auto
  from assms(1) have "tx_committed s' = d \<and> map_sum id (\<lambda>x. (x, tx_view s')) q = f d"
    using t by (auto simp: alone_def dest: spec [of _ ?s])
  with assms(2) show ?thesis by (cases q; cases r) (simp_all add: transact_def t commit_def)
qed

lemma alone_claim [alone_rules]:
  "alone (claim_tx now c) (\<lambda>d. unit_result (claim_or_refuse now c d))"
proof (cases c)
  case None
  then show ?thesis by (simp add: claim_tx_def alone_ret)
next
  case (Some x)
  have "alone (claim_tx now c) (\<lambda>d. bind_res (Inr (insert_statement_claim now x d))
      (\<lambda>(y, d'). if y then Inr ((), d') else Inl StatementAlreadyUsed))"
    unfolding claim_tx_def Some option.case insert_statement_claim_pg_def by (intro alone_rules)
  then show ?thesis
    by (rule alone_cong) (simp add: Some claim_or_refuse_def split: prod.splits bool.splits)
qed


section \<open>The atomic methods\<close>

lemmas statement_defs = upsert_account_row_def upsert_spark_row_def upsert_identifier_row_def
  insert_account_row_def insert_spark_row_def insert_blink_row_def insert_identifier_row_def

lemma get_account_by_id_claims [simp]: "get_account_by_id i (d\<lparr>used_signed_messages := u\<rparr>) = get_account_by_id i d"
  by (simp add: get_account_by_id_def)

lemma spark_by_pubkey_claims [simp]: "spark_by_pubkey k (d\<lparr>used_signed_messages := u\<rparr>) = spark_by_pubkey k d"
  by (simp add: spark_by_pubkey_def)

lemma identifier_row_claims [simp]: "identifier_row m i (d\<lparr>used_signed_messages := u\<rparr>) = identifier_row m i d"
  by (simp add: identifier_row_def)

text \<open>The guards leave nothing for the unique indexes to refuse.\<close>

lemma spark_guard:
  assumes "accounts_inv d" "\<And>s. spark_by_pubkey k d = Some s \<Longrightarrow> sp_account_id s = i"
  shows "\<not> exists_where (\<lambda>s. sp_pubkey s = k \<and> sp_account_id s \<noteq> i) (spark_accounts d)"
  using assms(2) spark_by_pubkeyI [OF assms(1)] by auto

lemma identifier_guard:
  assumes "accounts_inv d" "\<And>ai. identifier_row m n d = Some ai \<Longrightarrow> ai_account_id ai = i"
  shows "\<not> exists_where (\<lambda>ai. ai_domain ai = m \<and> ai_identifier ai = n \<and> ai_account_id ai \<noteq> i) (account_identifiers d)"
  using assms(2) identifier_rowI [OF assms(1)] by auto

lemma alone_registration_account [alone_rules]:
  "alone (registration_account_tx fresh reg) (\<lambda>d. Inr (registration_account_id fresh reg d, d))"
proof (cases "nr_account_id reg")
  case (Some i)
  then show ?thesis by (simp add: registration_account_tx_def registration_account_id_def alone_ret)
next
  case None
  have "alone (registration_account_tx fresh reg)
      (\<lambda>d. bind_res (Inr (spark_by_pubkey (nr_pubkey reg) d, d))
        (\<lambda>(s, d'). Inr (case s of Some s \<Rightarrow> sp_account_id s | None \<Rightarrow> fresh, d')))"
    unfolding registration_account_tx_def None option.case by (intro alone_rules)
  then show ?thesis by (rule alone_cong) (simp add: registration_account_id_def None)
qed

definition registration_guards :: "string \<Rightarrow> new_spark_registration \<Rightarrow> db \<Rightarrow> repository_error + unit" where
  "registration_guards i reg d =
     (if \<exists>a. get_account_by_id i d = Some a \<and> acc_provider a \<noteq> Spark then Inl InvalidProvider
      else if \<exists>ai. identifier_row (ni_domain (nr_identifier reg)) (ni_identifier (nr_identifier reg)) d = Some ai \<and>
          ai_account_id ai \<noteq> i then Inl IdentifierConflict
      else if \<exists>s. spark_by_pubkey (nr_pubkey reg) d = Some s \<and> sp_account_id s \<noteq> i then Inl InvalidOwnership
      else Inr ())"

lemma alone_registration_guards [alone_rules]:
  "alone (registration_guards_tx i reg) (\<lambda>d. map_sum id (\<lambda>u. (u, d)) (registration_guards i reg d))"
  unfolding registration_guards_tx_def
  by (rule alone_cong, (rule alone_rules)+) (simp add: registration_guards_def split: option.splits)

definition write_outcome :: "int \<Rightarrow> string \<Rightarrow> new_spark_registration \<Rightarrow> db \<Rightarrow> repository_error + unit \<times> db" where
  "write_outcome now i reg d =
     (if exists_where (\<lambda>s. sp_pubkey s = nr_pubkey reg \<and> sp_account_id s \<noteq> i) (spark_accounts d)
      then Inl (from_sqlx_error (UniqueViolation (Some ''spark_accounts_pubkey_key'')))
      else if exists_where (\<lambda>ai. ai_domain ai = ni_domain (nr_identifier reg) \<and>
        ai_identifier ai = ni_identifier (nr_identifier reg) \<and> ai_account_id ai \<noteq> i) (account_identifiers d)
      then Inl (from_sqlx_error (UniqueViolation (Some ''account_identifiers_domain_identifier_key'')))
      else Inr ((), write_registration now i reg d))"

lemma alone_write_registration [alone_rules]: "alone (write_registration_tx now i reg) (write_outcome now i reg)"
  unfolding write_registration_tx_def statement_defs
  by (rule alone_cong, (rule alone_rules)+)
    (auto simp: write_outcome_def drop_other_usernames_def write_registration_def)

lemma write_outcome_ok:
  assumes "accounts_inv d" "registration_guards i reg d = Inr u"
  shows "write_outcome now i reg d = Inr ((), write_registration now i reg d)"
proof -
  have "\<not> exists_where (\<lambda>s. sp_pubkey s = nr_pubkey reg \<and> sp_account_id s \<noteq> i) (spark_accounts d)"
    using assms(2) by (intro spark_guard [OF assms(1)]) (auto simp: registration_guards_def split: if_splits)
  moreover have "\<not> exists_where (\<lambda>ai. ai_domain ai = ni_domain (nr_identifier reg) \<and>
      ai_identifier ai = ni_identifier (nr_identifier reg) \<and> ai_account_id ai \<noteq> i) (account_identifiers d)"
    using assms(2) by (intro identifier_guard [OF assms(1)]) (auto simp: registration_guards_def split: if_splits)
  ultimately show ?thesis by (simp only: write_outcome_def if_False)
qed

lemma no_child_rows:
  assumes "accounts_inv d" "\<not> exists_where (\<lambda>a. acc_id a = i) (accounts d)"
  shows "\<not> exists_where (\<lambda>s. sp_account_id s = i) (spark_accounts d) \<and>
    \<not> exists_where (\<lambda>b. bl_account_id b = i) (blink_accounts d)"
  using assms not_child_of_missing [of i "accounts d"] unfolding in_column accounts_inv_def by blast

lemma upsert_spark_registration_atomic:
  "upsert_spark_registration now fresh reg d =
     bind_res (validate_registration reg) (\<lambda>_. bind_res (claim_or_refuse now (nr_claim reg) d) (\<lambda>d1.
       let i = registration_account_id fresh reg d1 in
       bind_res (registration_guards i reg d1) (\<lambda>_. Inr (write_registration now i reg d1))))"
  unfolding upsert_spark_registration_def registration_guards_def Let_def
  by (intro arg_cong2 [where f = bind_res] refl ext) (simp split: option.splits)

lemma upsert_spark_registration_alone:
  assumes inv: "accounts_inv d"
  shows "transact (upsert_spark_registration_tx now fresh reg) undisturbed d =
    commit d (upsert_spark_registration now fresh reg d)"
  unfolding upsert_spark_registration_tx_def
  apply (rule transact_alone, (rule alone_rules)+)
  subgoal
  proof (cases "claim_or_refuse now (nr_claim reg) d")
    case (Inl e)
    then show ?thesis by (cases "validate_registration reg") (simp_all add: upsert_spark_registration_atomic)
  next
    case (Inr d1)
    note outcome = write_outcome_ok [OF claim_or_refuse_inv [OF Inr inv]]
    show ?thesis
      by (cases "validate_registration reg"; cases "registration_guards (registration_account_id fresh reg d1) reg d1")
        (simp_all add: upsert_spark_registration_atomic Inr outcome)
  qed
  done

lemma delete_spark_registration_alone:
  "transact (delete_spark_registration_tx now domain pubkey identifier claim) undisturbed d =
    commit d (delete_spark_registration now domain pubkey identifier claim d)"
  unfolding delete_spark_registration_tx_def Let_def
  apply (rule transact_alone, (rule alone_rules)+)
  apply (cases "claim_or_refuse now claim d")
   apply (simp_all add: delete_spark_registration_def del: rows_affected_0 split: option.splits)
  done

lemma alone_destination [alone_rules]:
  "alone (destination_account_tx now fresh k) (destination_account now fresh k)"
  unfolding destination_account_tx_def statement_defs
  apply (rule alone_cong, (rule alone_rules)+)
  apply (auto simp: destination_account_def destination_row_def bind_res_def split: option.splits sum.splits)
  done

lemma alone_move [alone_rules]:
  "alone (move_identifier_tx now domain identifier source i description)
     (\<lambda>d. if spark_child i d then unit_result (move_identifier now domain identifier source i description d)
          else Inl InvalidProvider)"
  unfolding move_identifier_tx_def Let_def
  by (rule alone_cong, (rule alone_rules)+) (simp add: move_identifier_def)

lemma transfer_identifier_alone:
  "transact (transfer_identifier_tx now fresh t) undisturbed d = commit d (transfer_identifier_pg now fresh t d)"
  unfolding transfer_identifier_tx_def
  apply (rule transact_alone, (rule alone_rules)+)
  apply (cases "claim_or_refuse now (tr_claim t) d")
   apply (auto simp: transfer_identifier_pg_def bind_res_def split: sum.splits)
  done

lemma transfer_blink_alone:
  "transact (transfer_blink_identifier_to_spark_tx now fresh t) undisturbed d =
    commit d (transfer_blink_identifier_to_spark_pg now fresh t d)"
  unfolding transfer_blink_identifier_to_spark_tx_def
  apply (rule transact_alone, (rule alone_rules)+)
  apply (auto simp: transfer_blink_identifier_to_spark_pg_def bind_res_def split: sum.splits)
  done

section \<open>Blink accounts\<close>

lemma alone_check_identifiers [alone_rules]:
  "alone (check_identifiers is) (\<lambda>d.
     if list_ex (\<lambda>i. exists_where (\<lambda>ai. ai_domain ai = ni_domain i \<and> ai_identifier ai = ni_identifier i)
       (account_identifiers d)) is then Inl IdentifierConflict else Inr ((), d))"
proof (induction "is")
  case (Cons i "is")
  show ?case
    unfolding check_identifiers.simps
    by (rule alone_cong, (rule alone_rules Cons.IH)+) (simp del: exists_where_iff)
qed (simp add: alone_ret)

fun insert_rows :: "account_identifier list \<Rightarrow> db \<Rightarrow> repository_error + unit \<times> db" where
  "insert_rows [] d = Inr ((), d)"
| "insert_rows (ai # ais) d =
     (if exists_where (\<lambda>r. ident_pk r = ident_pk ai) (account_identifiers d)
      then Inl (from_sqlx_error (UniqueViolation (Some ''account_identifiers_pkey'')))
      else if exists_where (\<lambda>r. ident_key r = ident_key ai) (account_identifiers d)
      then Inl (from_sqlx_error (UniqueViolation (Some ''account_identifiers_domain_identifier_key'')))
      else insert_rows ais (d\<lparr>account_identifiers := account_identifiers d @ [ai]\<rparr>))"

lemma alone_insert_rows [alone_rules]: "alone (insert_identifier_rows ais) (insert_rows ais)"
proof (induction ais)
  case (Cons ai ais)
  show ?case
    unfolding insert_identifier_rows.simps insert_identifier_row_def
    by (rule alone_cong, (rule alone_rules Cons.IH)+) simp
qed (simp add: alone_def ret_tx_def)

text \<open>A name that is taken when the rows are inserted is one the list names twice.\<close>

lemma insert_rows_atomic:
  assumes "\<And>ai. ai \<in> set ais \<Longrightarrow> ai_account_id ai = i"
    and "\<And>r ai. r \<in> set (account_identifiers d) \<Longrightarrow> ai \<in> set ais \<Longrightarrow> ident_key r = ident_key ai \<Longrightarrow> ai_account_id r = i"
  shows "insert_rows ais d = unit_result (insert_identifiers ais d)"
  using assms
proof (induction ais arbitrary: d)
  case (Cons ai ais)
  have same: "exists_where (\<lambda>r. ident_pk r = ident_pk ai) (account_identifiers d) \<longleftrightarrow>
      exists_where (\<lambda>r. ident_key r = ident_key ai) (account_identifiers d)"
    using Cons.prems(1) [of ai] Cons.prems(2) [of _ ai] by (auto simp: ident_pk_def ident_key_def)
  let ?d = "d\<lparr>account_identifiers := account_identifiers d @ [ai]\<rparr>"
  have "insert_rows ais ?d = unit_result (insert_identifiers ais ?d)"
    using Cons.prems by (intro Cons.IH) auto
  then show ?case
    by (simp add: same insert_identifier_def from_sqlx_error_def del: exists_where_iff)
qed simp

lemma alone_refuse [alone_rules]:
  "alone (refuse_existing i acct a) (\<lambda>d. Inl
     (if acc_provider a \<noteq> Blink then InvalidProvider
      else case fetch_optional (\<lambda>b. bl_account_id b = i) (blink_accounts d) of
        None \<Rightarrow> InvalidOwnership
      | Some b \<Rightarrow> if bl_blink_account_id b \<noteq> nb_blink_account_id acct \<or> bl_btc_wallet_id b \<noteq> nb_btc_wallet_id acct \<or>
          bl_usd_wallet_id b \<noteq> nb_usd_wallet_id acct \<or> bl_default_wallet b \<noteq> nb_default_wallet acct
          then InvalidOwnership else BlinkAccountExists))"
  unfolding refuse_existing_def
  by (rule alone_cong, (rule alone_rules)+) (simp split: option.splits)

definition blink_rows_outcome :: "int \<Rightarrow> string \<Rightarrow> new_blink_account \<Rightarrow> db \<Rightarrow> repository_error + unit \<times> db" where
  "blink_rows_outcome now i acct d =
     (if exists_where (\<lambda>a. acc_id a = i) (accounts d) then Inl (from_sqlx_error (UniqueViolation None))
      else if exists_where (\<lambda>b. bl_account_id b = i) (blink_accounts d)
      then Inl (from_sqlx_error (UniqueViolation (Some ''blink_accounts_pkey'')))
      else if exists_where (\<lambda>b. bl_blink_account_id b = nb_blink_account_id acct) (blink_accounts d)
      then Inl (from_sqlx_error (UniqueViolation (Some ''blink_accounts_blink_account_id_key'')))
      else insert_rows (map (\<lambda>n. new_identifier_row i n now) (nb_identifiers acct))
        (d\<lparr>accounts := accounts d @ [new_account_row i Blink now],
           blink_accounts := blink_accounts d @ [blink_row i acct now]\<rparr>))"

lemma alone_blink_rows [alone_rules]: "alone (insert_blink_rows_tx now i acct) (blink_rows_outcome now i acct)"
  unfolding insert_blink_rows_tx_def insert_account_row_def insert_blink_row_def
  by (rule alone_cong, (rule alone_rules)+)
    (simp add: blink_rows_outcome_def insert_account_def blink_row_def del: exists_where_iff)

lemma blink_rows_outcome_ok:
  assumes inv: "accounts_inv d" and new: "get_account_by_id i d = None"
    and unused: "\<not> exists_where (\<lambda>b. bl_blink_account_id b = nb_blink_account_id acct) (blink_accounts d)"
    and free: "\<not> list_ex (\<lambda>n. exists_where (\<lambda>ai. ai_domain ai = ni_domain n \<and> ai_identifier ai = ni_identifier n)
      (account_identifiers d)) (nb_identifiers acct)"
  shows "blink_rows_outcome now i acct d = unit_result
    (bind_res (insert_account (new_account_row i Blink now) d) (\<lambda>d1.
     bind_res (insert_blink_account (blink_row i acct now) d1) (\<lambda>d2.
     insert_identifiers (map (\<lambda>n. new_identifier_row i n now) (nb_identifiers acct)) d2)))"
proof -
  have acc: "\<not> exists_where (\<lambda>a. acc_id a = i) (accounts d)"
    using new by (auto simp: get_account_by_id_None)
  have child: "\<not> exists_where (\<lambda>b. bl_account_id b = i) (blink_accounts d)"
    using no_child_rows [OF inv acc] by simp
  have rows: "insert_rows (map (\<lambda>n. new_identifier_row i n now) (nb_identifiers acct)) d' =
      unit_result (insert_identifiers (map (\<lambda>n. new_identifier_row i n now) (nb_identifiers acct)) d')"
    if "account_identifiers d' = account_identifiers d" for d'
    using free that
    by (intro insert_rows_atomic [of _ i]) (auto simp: new_identifier_row_def ident_key_def list_ex_iff)
  show ?thesis
    using acc child unused
    by (simp add: blink_rows_outcome_def insert_account_def insert_blink_account_def blink_row_def rows)
qed

lemma create_blink_account_alone:
  assumes inv: "accounts_inv d"
  shows "transact (create_blink_account_tx now fresh acct) undisturbed d =
    commit d (create_blink_account now fresh acct d)"
  unfolding create_blink_account_tx_def Let_def
  by (rule transact_alone, (rule alone_rules)+)
    (simp add: create_blink_account_def Let_def blink_rows_outcome_ok [OF inv] split: option.splits
      del: exists_where_iff)

section \<open>First contact\<close>

lemma ensure_spark_account_alone:
  assumes inv: "accounts_inv d"
  shows "ensure_spark_account_pg now fresh k undisturbed d = commit d (ensure_spark_account now fresh k d)"
proof (cases "exists_where (\<lambda>a. acc_id a = fresh) (accounts d)")
  case True
  then show ?thesis
    by (simp add: ensure_spark_account_pg_def ensure_spark_account_rows_def ensure_spark_account_def
      ensure_spark_account_tx_def bind_tx_def insert_account_row_def run_stmt_def undisturbed_def
      insert_account_def new_account_row_def commit_def del: exists_where_iff)
next
  case False
  have "\<not> exists_where (\<lambda>s. sp_account_id s = fresh) (spark_accounts d)"
    using no_child_rows [OF inv False] by simp
  with False show ?thesis
    by (simp add: ensure_spark_account_pg_def ensure_spark_account_rows_def ensure_spark_account_def
      ensure_spark_account_tx_def bind_tx_def insert_account_row_def run_stmt_def undisturbed_def
      insert_account_def insert_spark_account_def new_account_row_def new_spark_row_def commit_def)
qed

lemma upsert_spark_mode_alone:
  assumes inv: "accounts_inv d"
  shows "upsert_spark_mode_pg now fresh u undisturbed d = upsert_spark_mode now fresh u d"
  by (cases "ensure_spark_account now fresh (mu_pubkey u) d")
    (simp_all add: upsert_spark_mode_pg_def upsert_spark_mode_def ensure_spark_account_alone [OF inv] commit_def
      undisturbed_def Let_def)

section \<open>The methods of the PostgreSQL repository\<close>

text \<open>The methods of \<open>account_op\<close>; those that are a single statement see no other transaction.\<close>

fun run_pg :: "int \<Rightarrow> account_op \<Rightarrow> (nat \<Rightarrow> db \<Rightarrow> db) \<Rightarrow> db \<Rightarrow> (repository_error + unit) \<times> db" where
  "run_pg now (Register fresh reg) others d = transact (upsert_spark_registration_tx now fresh reg) others d"
| "run_pg now (Unregister m k i cl) others d = transact (delete_spark_registration_tx now m k i cl) others d"
| "run_pg now (Transfer fresh t) others d = transact (transfer_identifier_tx now fresh t) others d"
| "run_pg now (TransferBlink fresh t) others d = transact (transfer_blink_identifier_to_spark_tx now fresh t) others d"
| "run_pg now (CreateBlink fresh acct) others d = transact (create_blink_account_tx now fresh acct) others d"
| "run_pg now (SetMode fresh u) others d = upsert_spark_mode_pg now fresh u others d"
| "run_pg now (SetDefaultWallet i w) others d = run_op Postgres now (SetDefaultWallet i w) d"
| "run_pg now (RefreshCountry k c) others d = run_op Postgres now (RefreshCountry k c) d"
| "run_pg now (MigrateMode k) others d = run_op Postgres now (MigrateMode k) d"
| "run_pg now PruneClaims others d = run_op Postgres now PruneClaims d"

text \<open>C9: run alone, the statements of every method of the PostgreSQL repository give the result and the
  database of the atomic method the rest of the development uses; no unique index refuses what the
  guards have let through.\<close>

theorem postgres_alone_atomic:
  assumes "accounts_inv d"
  shows "run_pg now x undisturbed d = run_op Postgres now x d"
  using assms
  by (cases x) (simp_all add: upsert_spark_registration_alone delete_spark_registration_alone transfer_identifier_alone
    transfer_blink_alone create_blink_account_alone upsert_spark_mode_alone)

theorem postgres_alone_atomic_witness:
  "accounts_inv alice_db \<and>
   run_pg 130 (CreateBlink ''a2'' bob_acct) undisturbed alice_db = run_op Postgres 130 (CreateBlink ''a2'' bob_acct) alice_db"
  using postgres_alone_atomic [OF alice_inv] alice_inv by blast

section \<open>Transactions among others\<close>

text \<open>
  Rely conditions. \<open>rg R P t Q\<close>: while the others take steps of \<open>R\<close>, a transaction that starts in
  \<open>P\<close> and commits with \<open>x\<close> leaves a database in \<open>Q x\<close>.
\<close>

definition rg :: "(db \<Rightarrow> db \<Rightarrow> bool) \<Rightarrow> (db \<Rightarrow> bool) \<Rightarrow> 'a tx \<Rightarrow> ('a \<Rightarrow> db \<Rightarrow> bool) \<Rightarrow> bool" where
  "rg R P t Q \<longleftrightarrow> (\<forall>others s x s'. (\<forall>k d. R d (others k d)) \<longrightarrow> P (tx_view s) \<longrightarrow>
     t others s = (Inr x, s') \<longrightarrow> Q x (tx_view s'))"

lemma rg_ret: "(\<And>d. P d \<Longrightarrow> Q x d) \<Longrightarrow> rg R P (ret_tx x) Q"
  by (auto simp: rg_def ret_tx_def)

lemma rg_lift: "(\<And>d x. P d \<Longrightarrow> r = Inr x \<Longrightarrow> Q x d) \<Longrightarrow> rg R P (lift_tx r) Q"
  by (auto simp: rg_def lift_tx_def)

lemma rg_fail: "rg R P (fail_tx e) Q"
  by (simp add: rg_def fail_tx_def)

lemma rg_check: "(\<And>d. P d \<Longrightarrow> c \<Longrightarrow> Q () d) \<Longrightarrow> rg R P (check_tx c e) Q"
  by (simp add: check_tx_def rg_ret rg_fail)

lemma rg_stmt:
  assumes "\<And>d d1 x d'. P d \<Longrightarrow> R d d1 \<Longrightarrow> f d1 = Inr (x, d') \<Longrightarrow> Q x d'"
  shows "rg R P (run_stmt f) Q"
  unfolding rg_def
proof (intro allI impI)
  fix others s x s'
  assume "\<forall>k d. R d (others k d)" "P (tx_view s)" "run_stmt f others s = (Inr x, s')"
  then show "Q x (tx_view s')"
    using assms [of "tx_view s" "others (tx_stmt s) (tx_view s)" x "tx_view s'"]
    by (auto simp: run_stmt_def Let_def split: sum.splits prod.splits)
qed

lemma rg_query: "(\<And>d d1. P d \<Longrightarrow> R d d1 \<Longrightarrow> Q (f d1) d1) \<Longrightarrow> rg R P (query_tx f) Q"
  unfolding query_tx_def by (rule rg_stmt) auto

lemma rg_exec: "(\<And>d d1. P d \<Longrightarrow> R d d1 \<Longrightarrow> Q () (f d1)) \<Longrightarrow> rg R P (exec_tx f) Q"
  unfolding exec_tx_def by (rule rg_stmt) auto

lemma rg_bind:
  assumes "rg R P m Q" "\<And>x. rg R (Q x) (g x) S"
  shows "rg R P (bind_tx m g) S"
  unfolding rg_def
proof (intro allI impI)
  fix others s x s'
  assume R: "\<forall>k d. R d (others k d)" and P: "P (tx_view s)" and t: "bind_tx m g others s = (Inr x, s')"
  obtain y s1 where m: "m others s = (Inr y, s1)" and g: "g y others s1 = (Inr x, s')"
    using t by (auto simp: bind_tx_def split: prod.splits sum.splits)
  have "Q y (tx_view s1)" using assms(1) R P m unfolding rg_def by blast
  then show "S x (tx_view s')" using assms(2) R g unfolding rg_def by blast
qed

lemma rg_option:
  "(v = None \<Longrightarrow> rg R P t Q) \<Longrightarrow> (\<And>x. v = Some x \<Longrightarrow> rg R P (u x) Q) \<Longrightarrow>
    rg R P (case v of None \<Rightarrow> t | Some x \<Rightarrow> u x) Q"
  by (cases v) simp_all

lemma rg_transact:
  assumes "rg R P t Q" "\<And>k d. R d (others k d)" "P d" "fst (transact t others d) = Inr x"
  shows "Q x (snd (transact t others d))"
  using assms unfolding rg_def transact_def
  by (auto split: prod.splits sum.splits) (metis select_convs(3) tx_state.select_convs(3))

section \<open>Who owns a name\<close>

definition key_owns :: "string \<Rightarrow> string \<Rightarrow> string \<Rightarrow> db \<Rightarrow> bool" where
  "key_owns pubkey domain name d \<longleftrightarrow> (\<exists>ai s. identifier_row domain name d = Some ai \<and>
     spark_by_pubkey pubkey d = Some s \<and> sp_account_id s = ai_account_id ai \<and>
     ai_account_id ai \<in> account_ids Spark (accounts d))"

definition spark_keys :: "db \<Rightarrow> (string \<times> string) set" where
  "spark_keys d = (\<lambda>s. (sp_account_id s, sp_pubkey s)) ` set (spark_accounts d)"

text \<open>The others respect the unique indexes and neither remove a Spark account nor change its key.\<close>

definition accounts_stay :: "db \<Rightarrow> db \<Rightarrow> bool" where
  "accounts_stay d d' \<longleftrightarrow> (keys_inv d \<longrightarrow> keys_inv d') \<and>
     account_ids Spark (accounts d) \<subseteq> account_ids Spark (accounts d') \<and> spark_keys d \<subseteq> spark_keys d'"

lemma key_ownsI:
  assumes keys: "keys_inv d" and ai: "ai \<in> set (account_identifiers d)" "ident_key ai = (m, n)"
    and i: "(ai_account_id ai, k) \<in> spark_keys d" "ai_account_id ai \<in> account_ids Spark (accounts d)"
  shows "key_owns k m n d"
proof -
  have "identifier_row m n d = Some ai"
    unfolding identifier_row_def
    by (rule fetch_optional_unique_pred [OF ai(1)])
      (use ai(2) unique_byD [of ident_key _ _ ai] keys ai(1) in \<open>auto simp: ident_key_def keys_inv_def\<close>)
  moreover obtain s where s: "s \<in> set (spark_accounts d)" "sp_account_id s = ai_account_id ai" "sp_pubkey s = k"
    using i(1) by (auto simp: spark_keys_def)
  then have "spark_by_pubkey k d = Some s"
    using fetch_optional_unique [of sp_pubkey "spark_accounts d" s] keys by (simp add: spark_by_pubkey_def keys_inv_def)
  ultimately show ?thesis using s(2) i(2) by (auto simp: key_owns_def)
qed

lemma rg_mono: "rg R P t Q \<Longrightarrow> (\<And>d d'. R' d d' \<Longrightarrow> R d d') \<Longrightarrow> rg R' P t Q"
  unfolding rg_def by blast

text \<open>Transactions that respect the unique indexes.\<close>

abbreviation keeps_keys :: "'a tx \<Rightarrow> bool" where
  "keeps_keys t \<equiv> rg accounts_stay keys_inv t (\<lambda>_. keys_inv)"

named_theorems keeps_keys_rules

lemma stay_keys: "keys_inv d \<Longrightarrow> accounts_stay d d' \<Longrightarrow> keys_inv d'"
  by (simp add: accounts_stay_def)

lemma keeps_keys_stmt: "(\<And>d x d'. keys_inv d \<Longrightarrow> f d = Inr (x, d') \<Longrightarrow> keys_inv d') \<Longrightarrow> keeps_keys (run_stmt f)"
  by (rule rg_stmt) (blast intro: stay_keys)

lemma keeps_keys_query [keeps_keys_rules]: "keeps_keys (query_tx f)"
  by (rule rg_query) (rule stay_keys)

lemma keeps_keys_check [keeps_keys_rules]: "keeps_keys (check_tx c e)"
  by (rule rg_check)

lemma keeps_keys_ret [keeps_keys_rules]: "keeps_keys (ret_tx x)"
  by (rule rg_ret)

lemma keeps_keys_fail [keeps_keys_rules]: "keeps_keys (fail_tx e)"
  by (rule rg_fail)

lemma keeps_keys_lift [keeps_keys_rules]: "keeps_keys (lift_tx r)"
  by (rule rg_lift)

lemma keeps_keys_bind [keeps_keys_rules]: "keeps_keys m \<Longrightarrow> (\<And>x. keeps_keys (g x)) \<Longrightarrow> keeps_keys (bind_tx m g)"
  by (rule rg_bind)

lemma keeps_keys_option [keeps_keys_rules]:
  "keeps_keys t \<Longrightarrow> (\<And>x. keeps_keys (u x)) \<Longrightarrow> keeps_keys (case v of None \<Rightarrow> t | Some x \<Rightarrow> u x)"
  by (cases v) simp_all

lemma keeps_keys_pair [keeps_keys_rules]:
  "(\<And>x y. keeps_keys (u x y)) \<Longrightarrow> keeps_keys (case v of (x, y) \<Rightarrow> u x y)"
  by (cases v) simp

lemma keeps_keys_claim [keeps_keys_rules]: "keeps_keys (claim_tx now c)"
proof -
  have "keeps_keys (insert_statement_claim_pg now x)" for x
    unfolding insert_statement_claim_pg_def
    by (rule keeps_keys_stmt) (auto simp: insert_statement_claim_def keys_inv_def split: if_splits)
  then show ?thesis unfolding claim_tx_def by (intro keeps_keys_rules)
qed

lemma keeps_keys_registration_account [keeps_keys_rules]: "keeps_keys (registration_account_tx fresh reg)"
  unfolding registration_account_tx_def by (intro keeps_keys_rules)

lemma keeps_keys_registration_guards [keeps_keys_rules]: "keeps_keys (registration_guards_tx i reg)"
  unfolding registration_guards_tx_def by (intro keeps_keys_rules)

lemma keeps_keys_drop [keeps_keys_rules]: "keeps_keys (exec_tx (drop_other_usernames i m n))"
  unfolding exec_tx_def by (rule keeps_keys_stmt) (auto simp: drop_other_usernames_def keys_inv_def)

section \<open>A registration among others\<close>

lemma upsert_account_ids:
  "account_ids Spark t \<union> {i} \<subseteq> account_ids Spark (upsert_on acc_id merge_account (new_account_row i Spark now) t)"
    (is "_ \<subseteq> account_ids Spark ?u")
proof
  fix j
  assume j: "j \<in> account_ids Spark t \<union> {i}"
  show "j \<in> account_ids Spark ?u"
  proof (cases "j = i")
    case True
    obtain a where a: "fetch_optional (\<lambda>r. acc_id r = i) ?u = Some a" "acc_provider a = Spark"
      using account_table.lookup_upsert_same [of "new_account_row i Spark now" t]
      by (auto simp: merge_account_def split: option.splits)
    show ?thesis
      using fetch_optional_SomeD [OF a(1)] a(2) True by (auto simp: account_ids_def)
  next
    case False
    with j obtain a where "a \<in> set t" "acc_id a = j" "acc_provider a = Spark"
      by (auto simp: account_ids_def)
    then show ?thesis
      using account_table.kept_upsert [of a t "new_account_row i Spark now"] False
      by (auto simp: account_ids_def)
  qed
qed

definition spark_account_in :: "string \<Rightarrow> db \<Rightarrow> bool" where
  "spark_account_in i d \<longleftrightarrow> keys_inv d \<and> i \<in> account_ids Spark (accounts d)"

definition keyed_account_in :: "string \<Rightarrow> string \<Rightarrow> db \<Rightarrow> bool" where
  "keyed_account_in i k d \<longleftrightarrow> spark_account_in i d \<and> (i, k) \<in> spark_keys d"

lemma stays:
  "accounts_stay d d' \<Longrightarrow> spark_account_in i d \<Longrightarrow> spark_account_in i d'"
  "accounts_stay d d' \<Longrightarrow> keyed_account_in i k d \<Longrightarrow> keyed_account_in i k d'"
  by (auto simp: accounts_stay_def spark_account_in_def keyed_account_in_def)

lemma rg_upsert_account: "rg accounts_stay keys_inv (upsert_account_row i now) (\<lambda>_. spark_account_in i)"
  unfolding upsert_account_row_def
proof (rule rg_exec)
  fix d d1
  assume "keys_inv d" "accounts_stay d d1"
  then have "keys_inv d1" by (rule stay_keys)
  then show "spark_account_in i (d1\<lparr>accounts := upsert_on acc_id merge_account (new_account_row i Spark now) (accounts d1)\<rparr>)"
    using upsert_account_ids [of "accounts d1" i now]
    by (simp add: spark_account_in_def keys_inv_def account_table.unique_upsert)
qed

lemma rg_upsert_spark: "rg accounts_stay (spark_account_in i) (upsert_spark_row i k now) (\<lambda>_. keyed_account_in i k)"
  unfolding upsert_spark_row_def
proof (rule rg_stmt)
  fix d d1 d' :: db and x :: unit
  let ?t = "upsert_on sp_account_id merge_spark (new_spark_row i k now) (spark_accounts d1)"
  assume d: "spark_account_in i d" "accounts_stay d d1"
    and f: "(if exists_where (\<lambda>s. sp_pubkey s = k \<and> sp_account_id s \<noteq> i) (spark_accounts d1)
      then Inl (from_sqlx_error (UniqueViolation (Some ''spark_accounts_pubkey_key'')))
      else Inr ((), d1\<lparr>spark_accounts := ?t\<rparr>)) = Inr (x, d')"
  have i: "spark_account_in i d1" using d stays(1) by blast
  have other: "sp_account_id s = i" if "s \<in> set (spark_accounts d1)" "sp_pubkey s = k" for s
    using f that by (auto split: if_splits)
  have d': "d' = d1\<lparr>spark_accounts := ?t\<rparr>" using f by (auto split: if_splits)
  have "unique_by sp_pubkey ?t"
    using i other by (intro unique_pubkey_upsert) (auto simp: spark_account_in_def keys_inv_def)
  moreover have "unique_by sp_account_id ?t"
    using i by (intro spark_table.unique_upsert) (auto simp: spark_account_in_def keys_inv_def)
  moreover obtain s where "s \<in> set ?t" "sp_account_id s = i" "sp_pubkey s = k"
    using fetch_optional_SomeD [OF spark_table.lookup_upsert_same [of "new_spark_row i k now" "spark_accounts d1"]]
    by (auto simp: merge_spark_def split: option.splits)
  ultimately show "keyed_account_in i k d'"
    using i by (auto simp: d' keyed_account_in_def spark_account_in_def keys_inv_def spark_keys_def)
qed

lemma rg_upsert_identifier:
  "rg accounts_stay (keyed_account_in i k) (upsert_identifier_row i n now)
     (\<lambda>_. key_owns k (ni_domain n) (ni_identifier n))"
  unfolding upsert_identifier_row_def
proof (rule rg_stmt)
  fix d d1 d' :: db and x :: unit
  let ?t = "upsert_on ident_pk merge_identifier (new_identifier_row i n now) (account_identifiers d1)"
  assume d: "keyed_account_in i k d" "accounts_stay d d1"
    and f: "(if exists_where (\<lambda>ai. ai_domain ai = ni_domain n \<and> ai_identifier ai = ni_identifier n \<and>
        ai_account_id ai \<noteq> i) (account_identifiers d1)
      then Inl (from_sqlx_error (UniqueViolation (Some ''account_identifiers_domain_identifier_key'')))
      else Inr ((), d1\<lparr>account_identifiers := ?t\<rparr>)) = Inr (x, d')"
  have i: "keyed_account_in i k d1" using d stays(2) by blast
  have d': "d' = d1\<lparr>account_identifiers := ?t\<rparr>" using f by (auto split: if_splits)
  have "unique_by ident_key ?t"
    using i f by (intro unique_ident_key_upsert)
      (auto simp: keyed_account_in_def spark_account_in_def keys_inv_def ident_key_def split: if_splits)
  then have keys: "keys_inv d'"
    using i by (simp add: d' keyed_account_in_def spark_account_in_def keys_inv_def)
  obtain ai where "ai \<in> set ?t" "ident_pk ai = ident_pk (new_identifier_row i n now)"
    using fetch_optional_SomeD [OF identifier_table.lookup_upsert_same
        [of "new_identifier_row i n now" "account_identifiers d1"]] by blast
  then show "key_owns k (ni_domain n) (ni_identifier n) d'"
    using i by (intro key_ownsI [OF keys, of ai])
      (auto simp: d' ident_pk_def ident_key_def spark_keys_def keyed_account_in_def spark_account_in_def)
qed

lemma rg_registration:
  "rg accounts_stay keys_inv (upsert_spark_registration_tx now fresh reg)
     (\<lambda>_. key_owns (nr_pubkey reg) (ni_domain (nr_identifier reg)) (ni_identifier (nr_identifier reg)))"
  unfolding upsert_spark_registration_tx_def write_registration_tx_def
  by ((rule rg_bind, rule keeps_keys_rules)+, (rule rg_bind, rule rg_upsert_account rg_upsert_spark)+,
    rule rg_upsert_identifier)

section \<open>A transfer among others\<close>

text \<open>The row the transaction moves is locked: the others do not take the name from its new owner.\<close>

definition name_stays :: "string \<Rightarrow> string \<Rightarrow> string \<Rightarrow> db \<Rightarrow> db \<Rightarrow> bool" where
  "name_stays k m n d d' \<longleftrightarrow> accounts_stay d d' \<and> (key_owns k m n d \<longrightarrow> key_owns k m n d')"

definition key_in :: "string \<Rightarrow> string \<Rightarrow> db \<Rightarrow> bool" where
  "key_in i k d \<longleftrightarrow> keys_inv d \<and> (i, k) \<in> spark_keys d"

lemma key_in_stays: "key_in i k d \<Longrightarrow> accounts_stay d d' \<Longrightarrow> key_in i k d'"
  by (auto simp: key_in_def accounts_stay_def)

lemma keeps_keys_insert_account [keeps_keys_rules]: "keeps_keys (insert_account_row a)"
  unfolding insert_account_row_def
  by (rule keeps_keys_stmt) (auto simp: bind_res_Inr_iff insert_account_ok keys_inv_def not_in_column simp del: image_iff)

lemma rg_insert_spark:
  "rg accounts_stay keys_inv (insert_spark_row (new_spark_row i k now)) (\<lambda>_. key_in i k)"
  unfolding insert_spark_row_def
proof (rule rg_stmt)
  fix d d1 d' :: db and x :: unit
  assume d: "keys_inv d" "accounts_stay d d1"
    and f: "bind_res (insert_spark_account (new_spark_row i k now) d1) (\<lambda>d'. Inr ((), d')) = Inr (x, d')"
  have keys: "keys_inv d1" using d by (rule stay_keys)
  show "key_in i k d'"
    using f keys by (auto simp: bind_res_Inr_iff insert_spark_account_ok key_in_def keys_inv_def spark_keys_def)
qed

lemma destination_row_key: "destination_row k d = Some (i, p) \<Longrightarrow> (i, k) \<in> spark_keys d"
  by (auto simp: destination_row_def spark_keys_def split: option.splits dest!: spark_by_pubkey_Some)

lemma rg_destination: "rg accounts_stay keys_inv (destination_account_tx now fresh k) (\<lambda>i. key_in i k)"
  unfolding destination_account_tx_def
proof (rule rg_bind [where Q = "\<lambda>r d. keys_inv d \<and> (\<forall>i p. r = Some (i, p) \<longrightarrow> key_in i k d)"])
  show "rg accounts_stay keys_inv (query_tx (destination_row k))
      (\<lambda>r d. keys_inv d \<and> (\<forall>i p. r = Some (i, p) \<longrightarrow> key_in i k d))"
    by (rule rg_query) (auto dest: stay_keys destination_row_key simp: key_in_def)
  fix r :: "(string \<times> account_provider) option"
  show "rg accounts_stay (\<lambda>d. keys_inv d \<and> (\<forall>i p. r = Some (i, p) \<longrightarrow> key_in i k d))
      (case r of Some (account_id, provider) \<Rightarrow>
         bind_tx (check_tx (provider = Spark) InvalidProvider) (\<lambda>_. ret_tx account_id)
       | None \<Rightarrow> bind_tx (insert_account_row (new_account_row fresh Spark now)) (\<lambda>_.
           bind_tx (insert_spark_row (new_spark_row fresh k now)) (\<lambda>_. ret_tx fresh)))
      (\<lambda>i. key_in i k)"
  proof (cases r)
    case None
    have "rg accounts_stay keys_inv (bind_tx (insert_account_row (new_account_row fresh Spark now)) (\<lambda>_.
        bind_tx (insert_spark_row (new_spark_row fresh k now)) (\<lambda>_. ret_tx fresh))) (\<lambda>i. key_in i k)"
      by (rule rg_bind, rule keeps_keys_insert_account, rule rg_bind, rule rg_insert_spark, rule rg_ret)
    then show ?thesis by (simp add: None)
  next
    case (Some q)
    obtain i p where q: "q = (i, p)" by (cases q)
    have "rg accounts_stay (\<lambda>d. keys_inv d \<and> key_in i k d)
        (bind_tx (check_tx (p = Spark) InvalidProvider) (\<lambda>_. ret_tx i)) (\<lambda>i. key_in i k)"
      by (rule rg_bind [where Q = "\<lambda>_. key_in i k"], rule rg_check, simp, rule rg_ret)
    then show ?thesis by (simp add: Some q)
  qed
qed

lemma identifier_row_drop [simp]: "identifier_row m n (drop_other_usernames i m n d) = identifier_row m n d"
  unfolding identifier_row_def drop_other_usernames_def
  by (simp add: fetch_optional_delete) (rule fetch_optional_cong, auto)

lemma key_owns_drop [simp]: "key_owns k m n (drop_other_usernames i m n d) = key_owns k m n d"
  unfolding key_owns_def identifier_row_drop by (simp add: drop_other_usernames_def spark_by_pubkey_def)

lemma keyed_of_child: "key_in i k d \<Longrightarrow> spark_child i d \<Longrightarrow> keyed_account_in i k d"
  by (auto simp: keyed_account_in_def spark_account_in_def key_in_def spark_child_def account_ids_def)

lemma moved_key_owns:
  assumes d: "keyed_account_in i k d" and r: "r \<in> set (account_identifiers d)"
    "ai_domain r = m" "ai_identifier r = n" "ai_account_id r = source"
  shows "key_owns k m n (d\<lparr>account_identifiers := update_where
    (\<lambda>ai. ai_domain ai = m \<and> ai_identifier ai = n \<and> ai_account_id ai = source)
    (\<lambda>ai. ai\<lparr>ai_account_id := i, ai_description := description, ai_updated_at := now\<rparr>) (account_identifiers d)\<rparr>)"
    (is "key_owns k m n (d\<lparr>account_identifiers := ?t\<rparr>)")
proof (rule key_ownsI)
  show "keys_inv (d\<lparr>account_identifiers := ?t\<rparr>)"
    using d by (simp add: keyed_account_in_def spark_account_in_def keys_inv_def unique_by_update ident_key_def)
  show "r\<lparr>ai_account_id := i, ai_description := description, ai_updated_at := now\<rparr>
      \<in> set (account_identifiers (d\<lparr>account_identifiers := ?t\<rparr>))"
    using r by (auto simp: set_update_where intro!: imageI)
qed (use d r in \<open>auto simp: ident_key_def keyed_account_in_def spark_account_in_def spark_keys_def\<close>)

lemma rg_move:
  "rg (name_stays k m n) (key_in i k) (move_identifier_tx now m n source i description) (\<lambda>_. key_owns k m n)"
  unfolding move_identifier_tx_def Let_def
proof (intro rg_bind)
  let ?P = "\<lambda>ai. ai_domain ai = m \<and> ai_identifier ai = n \<and> ai_account_id ai = source"
  let ?f = "\<lambda>ai. ai\<lparr>ai_account_id := i, ai_description := description, ai_updated_at := now\<rparr>"
  show "rg (name_stays k m n) (key_in i k) (query_tx (spark_child i))
      (\<lambda>child d. key_in i k d \<and> (child \<longrightarrow> keyed_account_in i k d))"
    by (rule rg_query) (auto simp: name_stays_def intro: key_in_stays keyed_of_child)
  show "rg (name_stays k m n) (\<lambda>d. key_in i k d \<and> (child \<longrightarrow> keyed_account_in i k d))
      (check_tx child InvalidProvider) (\<lambda>_. keyed_account_in i k)" for child
    by (rule rg_check) simp
  show "rg (name_stays k m n) (keyed_account_in i k) (run_stmt (\<lambda>d. Inr (rows_affected ?P (account_identifiers d),
      d\<lparr>account_identifiers := update_where ?P ?f (account_identifiers d)\<rparr>)))
      (\<lambda>c d. c = 1 \<longrightarrow> key_owns k m n d)"
  proof (rule rg_stmt, clarify)
    fix d d1 :: db
    assume d: "keyed_account_in i k d" "name_stays k m n d d1" and c: "rows_affected ?P (account_identifiers d1) = 1"
    have i: "keyed_account_in i k d1" using d stays(2) by (auto simp: name_stays_def)
    obtain r where "r \<in> set (account_identifiers d1)" "?P r"
      using c rows_affected_0 [of ?P "account_identifiers d1"] by auto
    then show "key_owns k m n (d1\<lparr>account_identifiers := update_where ?P ?f (account_identifiers d1)\<rparr>)"
      using moved_key_owns [OF i] by blast
  qed
  show "rg (name_stays k m n) (\<lambda>d. c = 1 \<longrightarrow> key_owns k m n d) (check_tx (c = 1) SourceNotOwner) (\<lambda>_. key_owns k m n)" for c :: nat
    by (rule rg_check) simp
  show "rg (name_stays k m n) (key_owns k m n) (exec_tx (drop_other_usernames i m n)) (\<lambda>_. key_owns k m n)"
    by (rule rg_exec) (auto simp: name_stays_def)
qed

lemma rg_transfer:
  "rg (name_stays (tr_destination_spark_pubkey t) (tr_domain t) (tr_identifier t)) keys_inv
     (transfer_identifier_tx now fresh t)
     (\<lambda>_. key_owns (tr_destination_spark_pubkey t) (tr_domain t) (tr_identifier t))"
proof -
  let ?R = "name_stays (tr_destination_spark_pubkey t) (tr_domain t) (tr_identifier t)"
  have stay: "?R d d' \<Longrightarrow> accounts_stay d d'" for d d' by (simp add: name_stays_def)
  show ?thesis
    unfolding transfer_identifier_tx_def
    by ((rule rg_bind, rule rg_mono [OF _ stay], rule keeps_keys_rules, assumption)+,
      rule rg_bind, rule rg_mono [OF rg_destination stay], assumption, rule rg_move)
qed

lemma rg_transfer_blink:
  "rg (name_stays (bt_destination_spark_pubkey t) (bt_domain t) (bt_identifier t)) keys_inv
     (transfer_blink_identifier_to_spark_tx now fresh t)
     (\<lambda>_. key_owns (bt_destination_spark_pubkey t) (bt_domain t) (bt_identifier t))"
proof -
  let ?R = "name_stays (bt_destination_spark_pubkey t) (bt_domain t) (bt_identifier t)"
  have stay: "?R d d' \<Longrightarrow> accounts_stay d d'" for d d' by (simp add: name_stays_def)
  show ?thesis
    unfolding transfer_blink_identifier_to_spark_tx_def
    by ((rule rg_bind, rule rg_mono [OF _ stay], rule keeps_keys_rules, assumption)+,
      rule rg_bind, rule rg_mono [OF rg_destination stay], assumption, rule rg_move)
qed

text \<open>The key and the name an operation gives it, and what it relies on between its statements.\<close>

fun op_gives :: "account_op \<Rightarrow> (string \<times> string \<times> string) option" where
  "op_gives (Register _ reg) =
     Some (nr_pubkey reg, ni_domain (nr_identifier reg), ni_identifier (nr_identifier reg))"
| "op_gives (Transfer _ t) = Some (tr_destination_spark_pubkey t, tr_domain t, tr_identifier t)"
| "op_gives (TransferBlink _ t) = Some (bt_destination_spark_pubkey t, bt_domain t, bt_identifier t)"
| "op_gives _ = None"

fun op_relies :: "account_op \<Rightarrow> db \<Rightarrow> db \<Rightarrow> bool" where
  "op_relies (Transfer _ t) = name_stays (tr_destination_spark_pubkey t) (tr_domain t) (tr_identifier t)"
| "op_relies (TransferBlink _ t) = name_stays (bt_destination_spark_pubkey t) (bt_domain t) (bt_identifier t)"
| "op_relies _ = accounts_stay"

text \<open>C10: at READ COMMITTED, with any steps of other transactions before every statement that respect the
  unique indexes and leave the Spark accounts their keys (and, for a transfer, do not take the moved name from
  its new owner, whose row is locked), a registration or transfer that commits has given the name to the
  account of the key the caller named: a guard that has become stale is caught by a unique index or a row count.\<close>

theorem committed_name_owned:
  assumes "op_gives x = Some (k, m, n)" "keys_inv d" "\<And>s d'. op_relies x d' (others s d')"
    and ok: "fst (run_pg now x others d) = Inr ()"
  shows "key_owns k m n (snd (run_pg now x others d))"
proof (cases x)
  case (Register fresh reg)
  then show ?thesis
    using assms rg_transact [OF rg_registration, of others d now fresh reg "()"] by simp
next
  case (Transfer fresh t)
  then show ?thesis
    using assms rg_transact [OF rg_transfer, of t others d now fresh "()"] by simp
next
  case (TransferBlink fresh t)
  then show ?thesis
    using assms rg_transact [OF rg_transfer_blink, of t others d now fresh "()"] by simp
qed (use assms(1) in simp_all)

definition others_unregister :: "nat \<Rightarrow> db \<Rightarrow> db" where
  "others_unregister k d = snd (run_op Postgres 150 (Unregister ''x.org'' ''02ee'' ''eve'' None) d)"

lemma others_unregister_stay: "accounts_stay d (others_unregister k d)"
proof (cases "delete_spark_registration 150 ''x.org'' ''02ee'' ''eve'' None d")
  case (Inl e)
  then show ?thesis by (simp add: others_unregister_def commit_def accounts_stay_def)
next
  case (Inr d')
  then show ?thesis
    by (rule delete_spark_registration_ok)
      (auto simp: Inr others_unregister_def commit_def accounts_stay_def keys_inv_def spark_keys_def)
qed

theorem committed_name_owned_witness:
  "fst (run_pg 100 (Register ''a1'' alice_reg) others_unregister empty_db) = Inr () \<and>
   key_owns ''02aa'' ''x.org'' ''alice'' (snd (run_pg 100 (Register ''a1'' alice_reg) others_unregister empty_db))"
proof -
  have ok: "fst (run_pg 100 (Register ''a1'' alice_reg) others_unregister empty_db) = Inr ()"
    by code_simp
  have gives: "op_gives (Register ''a1'' alice_reg) = Some (''02aa'', ''x.org'', ''alice'')"
    by (simp add: alice_reg_def)
  have keys: "keys_inv empty_db" using accounts_inv_empty by (simp add: accounts_inv_def)
  have rely: "op_relies (Register ''a1'' alice_reg) d' (others_unregister s d')" for s d'
    by (simp add: others_unregister_stay)
  show ?thesis using committed_name_owned [OF gives keys rely ok] ok by blast
qed

section \<open>Two registrations of one account\<close>

definition ally_reg :: new_spark_registration where
  "ally_reg = alice_reg\<lparr>nr_identifier := (nr_identifier alice_reg)\<lparr>ni_identifier := ''ally''\<rparr>, nr_claim := Some (stmt 4)\<rparr>"

definition alice_again :: new_spark_registration where
  "alice_again = alice_reg\<lparr>nr_claim := Some (stmt 3)\<rparr>"

text \<open>Alice's account without a username.\<close>

definition quiet_db :: db where
  "quiet_db = snd (run_op Postgres 110 (Unregister ''x.org'' ''02aa'' ''alice'' None) alice_db)"

text \<open>Statement 6 follows the delete of the account's other usernames.\<close>

definition race :: "nat \<Rightarrow> db \<Rightarrow> db" where
  "race k d = (if k = 6 then snd (run_pg 120 (Register ''a8'' ally_reg) undisturbed d) else d)"

definition raced_db :: db where
  "raced_db = snd (run_pg 121 (Register ''a9'' alice_again) race quiet_db)"

lemma raced_registration:
  "run_pg 121 (Register ''a9'' alice_again) race quiet_db = (Inr (), empty_db\<lparr>
     accounts := [\<lparr>acc_id = ''a1'', acc_provider = Spark, acc_created_at = 100, acc_updated_at = 121\<rparr>],
     account_identifiers :=
       [\<lparr>ai_account_id = ''a1'', ai_domain = ''x.org'', ai_identifier = ''ally'', ai_kind = Username,
          ai_description = ''pay alice'', ai_created_at = 120, ai_updated_at = 120\<rparr>,
        \<lparr>ai_account_id = ''a1'', ai_domain = ''x.org'', ai_identifier = ''alice'', ai_kind = Username,
          ai_description = ''pay alice'', ai_created_at = 121, ai_updated_at = 121\<rparr>],
     spark_accounts := [(new_spark_row ''a1'' ''02aa'' 100)\<lparr>sp_updated_at := 121\<rparr>],
     used_signed_messages := claim_rows 100 (Some (stmt 1)) @ claim_rows 121 (Some (stmt 3)) @
       claim_rows 120 (Some (stmt 4))\<rparr>)"
  by code_simp

text \<open>C11: two registrations of one account, with different names and their own statements, both succeed when
  the second commits between the first one's delete of the other usernames and its inserts: the account then
  holds two usernames of one domain, both of which resolve to its key.\<close>

theorem concurrent_registrations_two_usernames:
  "accounts_inv quiet_db \<and>
   fst (run_pg 120 (Register ''a8'' ally_reg) undisturbed quiet_db) = Inr () \<and>
   fst (run_pg 121 (Register ''a9'' alice_again) race quiet_db) = Inr () \<and>
   map_option su_pubkey (get_spark_username_by_name ''x.org'' ''alice'' raced_db) = Some ''02aa'' \<and>
   map_option su_pubkey (get_spark_username_by_name ''x.org'' ''ally'' raced_db) = Some ''02aa'' \<and>
   keys_inv raced_db \<and> \<not> accounts_inv raced_db"
proof (intro conjI)
  show "accounts_inv quiet_db"
    unfolding quiet_db_def using run_op_inv alice_inv by blast
  show "fst (run_pg 120 (Register ''a8'' ally_reg) undisturbed quiet_db) = Inr ()" by code_simp
  show "fst (run_pg 121 (Register ''a9'' alice_again) race quiet_db) = Inr ()"
    unfolding raced_registration by (rule fst_conv)
  show "map_option su_pubkey (get_spark_username_by_name ''x.org'' ''alice'' raced_db) = Some ''02aa''"
    unfolding raced_db_def raced_registration snd_conv by code_simp
  show "map_option su_pubkey (get_spark_username_by_name ''x.org'' ''ally'' raced_db) = Some ''02aa''"
    unfolding raced_db_def raced_registration snd_conv by code_simp
  show "keys_inv raced_db" unfolding raced_db_def raced_registration snd_conv keys_inv_def unique_by_def by code_simp
  have "\<not> single_username (accounts raced_db) (account_identifiers raced_db)"
    unfolding raced_db_def raced_registration snd_conv by code_simp
  then show "\<not> accounts_inv raced_db" by (simp add: accounts_inv_def)
qed

end
