(* ===== verification/Lnurl_Skip_Locked.thy ===== *)
theory Lnurl_Skip_Locked
  imports Lnurl_Queues
begin

text \<open>
  How several replicas take items from one queue on PostgreSQL. \<open>take_pending_zap_receipts\<close> and
  \<open>take_pending_webhook_deliveries\<close> of \<open>postgresql/repository.rs\<close> are one \<open>UPDATE\<close> over the rows of a
  \<open>SELECT ... FOR UPDATE SKIP LOCKED\<close>. The candidates and their order come from the snapshot the
  statement starts with. They are then locked one at a time: a candidate that another transaction
  holds is skipped, and one that has changed since the snapshot is tested again and skipped when it no
  longer qualifies; neither counts towards the \<open>LIMIT\<close>. The claims become visible at the commit.
\<close>

section \<open>Takers and row locks\<close>

text \<open>A subselect is its candidates in order, with what is left of its limit.\<close>

type_synonym 'k subselect = "'k list \<times> nat"

record 'k taker =
  tk_now :: int
  tk_plan :: "'k subselect list"
  tk_locked :: "'k list"

text \<open>The committed rows, who holds the lock of a row, and the statements that run.\<close>

record ('r, 'k) shared_queue =
  sq_rows :: "'r list"
  sq_locks :: "'k \<Rightarrow> nat option"
  sq_takers :: "nat \<Rightarrow> 'k taker option"

datatype ('r, 'k) queue_event = Silent | Took nat int "'r list" | Wrote "'k set"

definition qualifies :: "('r \<Rightarrow> 'k) \<Rightarrow> (int \<Rightarrow> 'r \<Rightarrow> bool) \<Rightarrow> int \<Rightarrow> 'k \<Rightarrow> 'r list \<Rightarrow> bool" where
  "qualifies key can now k rows = exists_where (\<lambda>r. key r = k \<and> can now r) rows"

definition lockable :: "('r \<Rightarrow> 'k) \<Rightarrow> (int \<Rightarrow> 'r \<Rightarrow> bool) \<Rightarrow> nat \<Rightarrow> int \<Rightarrow> 'k \<Rightarrow> ('r, 'k) shared_queue \<Rightarrow> bool" where
  "lockable key can w now k s \<longleftrightarrow>
     (case sq_locks s k of None \<Rightarrow> True | Some w' \<Rightarrow> w' = w) \<and> qualifies key can now k (sq_rows s)"

definition set_taker :: "nat \<Rightarrow> 'k taker \<Rightarrow> ('r, 'k) shared_queue \<Rightarrow> ('r, 'k) shared_queue" where
  "set_taker w t s = s\<lparr>sq_takers := (sq_takers s)(w \<mapsto> t)\<rparr>"

text \<open>The next candidate of a statement.\<close>

fun advance ::
  "('r \<Rightarrow> 'k) \<Rightarrow> (int \<Rightarrow> 'r \<Rightarrow> bool) \<Rightarrow> nat \<Rightarrow> int \<Rightarrow> 'k subselect list \<Rightarrow> 'k list \<Rightarrow>
   ('r, 'k) shared_queue \<Rightarrow> ('r, 'k) shared_queue" where
  "advance key can w now [] ks s = s"
| "advance key can w now (([], n) # ps) ks s = set_taker w \<lparr>tk_now = now, tk_plan = ps, tk_locked = ks\<rparr> s"
| "advance key can w now ((c # cs, 0) # ps) ks s = set_taker w \<lparr>tk_now = now, tk_plan = ps, tk_locked = ks\<rparr> s"
| "advance key can w now ((c # cs, Suc n) # ps) ks s =
     (if lockable key can w now c s
      then set_taker w \<lparr>tk_now = now, tk_plan = (cs, n) # ps, tk_locked = c # ks\<rparr>
        (s\<lparr>sq_locks := (sq_locks s)(c \<mapsto> w)\<rparr>)
      else set_taker w \<lparr>tk_now = now, tk_plan = (cs, Suc n) # ps, tk_locked = ks\<rparr> s)"

definition release :: "nat \<Rightarrow> ('r, 'k) shared_queue \<Rightarrow> ('r, 'k) shared_queue" where
  "release w s = s\<lparr>sq_locks := (\<lambda>k. if sq_locks s k = Some w then None else sq_locks s k),
     sq_takers := (sq_takers s)(w := None)\<rparr>"

definition claimed_rows :: "('r \<Rightarrow> 'k) \<Rightarrow> (int \<Rightarrow> 'r \<Rightarrow> 'r) \<Rightarrow> int \<Rightarrow> 'k list \<Rightarrow> 'r list \<Rightarrow> 'r list" where
  "claimed_rows key claim now ks rows = update_where (\<lambda>r. key r \<in> set ks) (claim now) rows"

text \<open>
  The other statements on the queue change rows of the keys \<open>K\<close>. They wait for the locks of the rows
  they change, so none of \<open>K\<close> is locked when they take effect.
\<close>

definition other_write :: "('r \<Rightarrow> 'k) \<Rightarrow> ('k \<Rightarrow> nat option) \<Rightarrow> 'k set \<Rightarrow> 'r list \<Rightarrow> 'r list \<Rightarrow> bool" where
  "other_write key locks K rows rows' \<longleftrightarrow> unique_by key rows' \<and> (\<forall>k \<in> K. locks k = None) \<and>
     filter (\<lambda>r. key r \<notin> K) rows' = filter (\<lambda>r. key r \<notin> K) rows"

inductive queue_step ::
  "('r \<Rightarrow> 'k) \<Rightarrow> (int \<Rightarrow> 'r \<Rightarrow> bool) \<Rightarrow> (int \<Rightarrow> 'r \<Rightarrow> 'r) \<Rightarrow> (int \<Rightarrow> 'r list \<Rightarrow> 'k subselect list) \<Rightarrow>
   ('r, 'k) shared_queue \<Rightarrow> ('r, 'k) queue_event \<Rightarrow> ('r, 'k) shared_queue \<Rightarrow> bool"
  for key can claim plan where
  begin_take: "sq_takers s w = None \<Longrightarrow>
    queue_step key can claim plan s Silent
      (set_taker w \<lparr>tk_now = now, tk_plan = plan now (sq_rows s), tk_locked = []\<rparr> s)"
| lock_next: "sq_takers s w = Some t \<Longrightarrow>
    queue_step key can claim plan s Silent (advance key can w (tk_now t) (tk_plan t) (tk_locked t) s)"
| commit_take: "sq_takers s w = Some t \<Longrightarrow> tk_plan t = [] \<Longrightarrow>
    rows = claimed_rows key claim (tk_now t) (tk_locked t) (sq_rows s) \<Longrightarrow>
    queue_step key can claim plan s (Took w (tk_now t) (filter (\<lambda>r. key r \<in> set (tk_locked t)) rows))
      (release w (s\<lparr>sq_rows := rows\<rparr>))"
| abort_take: "sq_takers s w = Some t \<Longrightarrow> queue_step key can claim plan s Silent (release w s)"
| write_rows: "other_write key (sq_locks s) K (sq_rows s) rows \<Longrightarrow>
    queue_step key can claim plan s (Wrote K) (s\<lparr>sq_rows := rows\<rparr>)"

inductive queue_run ::
  "('r \<Rightarrow> 'k) \<Rightarrow> (int \<Rightarrow> 'r \<Rightarrow> bool) \<Rightarrow> (int \<Rightarrow> 'r \<Rightarrow> 'r) \<Rightarrow> (int \<Rightarrow> 'r list \<Rightarrow> 'k subselect list) \<Rightarrow>
   ('r, 'k) shared_queue \<Rightarrow> ('r, 'k) queue_event list \<Rightarrow> ('r, 'k) shared_queue \<Rightarrow> bool"
  for key can claim plan where
  run_done: "queue_run key can claim plan s [] s"
| run_more: "queue_step key can claim plan s e s1 \<Longrightarrow> queue_run key can claim plan s1 es s2 \<Longrightarrow>
    queue_run key can claim plan s (e # es) s2"

inductive_cases queue_stepE: "queue_step key can claim plan s e s'"
inductive_cases queue_run_nilE: "queue_run key can claim plan s [] s'"
inductive_cases queue_run_consE: "queue_run key can claim plan s (e # es) s'"

definition idle_queue :: "'r list \<Rightarrow> ('r, 'k) shared_queue" where
  "idle_queue rows = \<lparr>sq_rows = rows, sq_locks = (\<lambda>_. None), sq_takers = (\<lambda>_. None)\<rparr>"

section \<open>The two queues\<close>

definition zap_plan :: "u32 \<Rightarrow> int \<Rightarrow> pending_zap_receipt list \<Rightarrow> string subselect list" where
  "zap_plan limit now rows =
     [(map pz_payment_hash (sort_key pz_next_retry_at (filter (zap_ready now) rows)), unat limit)]"

text \<open>One subselect with \<open>LIMIT 1\<close> for each domain that has a ready row.\<close>

definition delivery_plan :: "int \<Rightarrow> webhook_delivery list \<Rightarrow> int subselect list" where
  "delivery_plan now rows =
     map (\<lambda>dn. (map wd_id (sort_key wd_next_retry_at
         (filter (\<lambda>r. wd_domain r = dn \<and> delivery_ready now r) rows)), 1))
       (remdups (map wd_domain (filter (delivery_ready now) rows)))"

abbreviation zap_step where
  "zap_step limit \<equiv> queue_step pz_payment_hash zap_ready claim_zap (zap_plan limit)"

abbreviation zap_run where
  "zap_run limit \<equiv> queue_run pz_payment_hash zap_ready claim_zap (zap_plan limit)"

abbreviation delivery_run where
  "delivery_run \<equiv> queue_run wd_id delivery_ready claim_delivery delivery_plan"

end
