(* ===== verification/Lnurl_Skip_Locked_Thms.thy ===== *)
theory Lnurl_Skip_Locked_Thms
  imports Lnurl_Skip_Locked
begin

text \<open>
  Replicas that take from one queue at the same time: each take has the effect of one atomic step at
  its commit, no item is handed out twice within five minutes, and a take without competitors is the
  atomic take of \<open>Lnurl_Queues\<close>.
\<close>

section \<open>Invariant\<close>

text \<open>Whoever runs holds the locks of the rows it has chosen, which still qualify, and of no others.\<close>

definition queue_inv :: "('r \<Rightarrow> 'k) \<Rightarrow> (int \<Rightarrow> 'r \<Rightarrow> bool) \<Rightarrow> ('r, 'k) shared_queue \<Rightarrow> bool" where
  "queue_inv key can s \<longleftrightarrow> unique_by key (sq_rows s) \<and>
     (\<forall>w t. sq_takers s w = Some t \<longrightarrow>
        (\<forall>k \<in> set (tk_locked t). sq_locks s k = Some w \<and> qualifies key can (tk_now t) k (sq_rows s))) \<and>
     (\<forall>k w. sq_locks s k = Some w \<longrightarrow> (\<exists>t. sq_takers s w = Some t \<and> k \<in> set (tk_locked t)))"

definition held_until :: "('r \<Rightarrow> 'k) \<Rightarrow> (int \<Rightarrow> 'r \<Rightarrow> bool) \<Rightarrow> 'k \<Rightarrow> int \<Rightarrow> 'r list \<Rightarrow> bool" where
  "held_until key can k T rows \<longleftrightarrow> (\<forall>n. 0 \<le> n \<and> n \<le> T \<longrightarrow> \<not> qualifies key can n k rows)"

text \<open>Events that neither write the item nor read a negative clock.\<close>

fun leaves :: "'k \<Rightarrow> ('r, 'k) queue_event \<Rightarrow> bool" where
  "leaves k Silent = True"
| "leaves k (Took w now rs) = (0 \<le> now)"
| "leaves k (Wrote K) = (k \<notin> K)"

definition within_limit :: "nat \<Rightarrow> 'k taker \<Rightarrow> bool" where
  "within_limit n t \<longleftrightarrow> length (tk_locked t) + sum_list (map snd (tk_plan t)) \<le> n"

lemma advance_rows_eq: "sq_rows (advance key can w n ps ks s) = sq_rows s"
proof (cases ps)
  case (Cons p ps')
  obtain cs m where p: "p = (cs, m)" by (cases p)
  show ?thesis by (cases cs; cases m) (simp_all add: Cons p set_taker_def)
qed simp

section \<open>The interface of a queue\<close>

locale skip_locked_queue =
  fixes key :: "'r \<Rightarrow> 'k"
    and can :: "int \<Rightarrow> 'r \<Rightarrow> bool"
    and claim :: "int \<Rightarrow> 'r \<Rightarrow> 'r"
    and plan :: "int \<Rightarrow> 'r list \<Rightarrow> 'k subselect list"
  assumes key_claim: "key (claim now r) = key r"
    and claim_blocks: "0 \<le> now' \<Longrightarrow> now' \<le> now + 300000 \<Longrightarrow> \<not> can now' (claim now r)"
begin

lemma queue_invD:
  assumes "queue_inv key can s"
  shows "unique_by key (sq_rows s)"
    and "sq_takers s w = Some t \<Longrightarrow> k \<in> set (tk_locked t) \<Longrightarrow> sq_locks s k = Some w"
    and "sq_takers s w = Some t \<Longrightarrow> k \<in> set (tk_locked t) \<Longrightarrow> qualifies key can (tk_now t) k (sq_rows s)"
    and "sq_locks s k = Some w \<Longrightarrow> \<exists>t. sq_takers s w = Some t \<and> k \<in> set (tk_locked t)"
  using assms unfolding queue_inv_def by blast+

lemma queue_inv_idle: "unique_by key rows \<Longrightarrow> queue_inv key can (idle_queue rows)"
  by (simp add: queue_inv_def idle_queue_def)

lemma queue_invI:
  assumes "unique_by key (sq_rows s)"
    and "\<And>w t k. sq_takers s w = Some t \<Longrightarrow> k \<in> set (tk_locked t) \<Longrightarrow>
      sq_locks s k = Some w \<and> qualifies key can (tk_now t) k (sq_rows s)"
    and "\<And>k w. sq_locks s k = Some w \<Longrightarrow> \<exists>t. sq_takers s w = Some t \<and> k \<in> set (tk_locked t)"
  shows "queue_inv key can s"
  using assms unfolding queue_inv_def by blast

lemma plan_step_inv:
  assumes inv: "queue_inv key can s" and t: "sq_takers s w = Some t"
  shows "queue_inv key can (set_taker w \<lparr>tk_now = tk_now t, tk_plan = ps, tk_locked = tk_locked t\<rparr> s)"
proof (rule queue_invI)
  fix k w'
  assume "sq_locks (set_taker w \<lparr>tk_now = tk_now t, tk_plan = ps, tk_locked = tk_locked t\<rparr> s) k = Some w'"
  then show "\<exists>t'. sq_takers (set_taker w \<lparr>tk_now = tk_now t, tk_plan = ps, tk_locked = tk_locked t\<rparr> s) w' = Some t' \<and>
      k \<in> set (tk_locked t')"
    using queue_invD(4) [OF inv, of k w'] t by (auto simp: set_taker_def)
qed (use queue_invD [OF inv] t in \<open>auto simp: set_taker_def split: if_splits\<close>)

lemma lock_step_inv:
  assumes inv: "queue_inv key can s" and t: "sq_takers s w = Some t" and c: "lockable key can w (tk_now t) c s"
  shows "queue_inv key can (set_taker w \<lparr>tk_now = tk_now t, tk_plan = ps, tk_locked = c # tk_locked t\<rparr>
    (s\<lparr>sq_locks := (sq_locks s)(c \<mapsto> w)\<rparr>))"
    (is "queue_inv key can ?s")
proof (rule queue_invI)
  show "unique_by key (sq_rows ?s)" using queue_invD(1) [OF inv] by (simp add: set_taker_def)
next
  fix w' t' k
  assume t': "sq_takers ?s w' = Some t'" and k: "k \<in> set (tk_locked t')"
  show "sq_locks ?s k = Some w' \<and> qualifies key can (tk_now t') k (sq_rows ?s)"
  proof (cases "w' = w")
    case True
    then show ?thesis
      using t' k c queue_invD(2,3) [OF inv t, of k] by (auto simp: set_taker_def lockable_def)
  next
    case False
    then have t0: "sq_takers s w' = Some t'" using t' by (simp add: set_taker_def)
    have "k \<noteq> c" using c queue_invD(2) [OF inv t0 k] False by (auto simp: lockable_def)
    then show ?thesis
      using queue_invD(2,3) [OF inv t0 k] by (simp add: set_taker_def)
  qed
next
  fix k w'
  assume "sq_locks ?s k = Some w'"
  then show "\<exists>t'. sq_takers ?s w' = Some t' \<and> k \<in> set (tk_locked t')"
    using queue_invD(4) [OF inv, of k w'] t by (auto simp: set_taker_def split: if_splits)
qed

lemma advance_inv:
  assumes inv: "queue_inv key can s" and t: "sq_takers s w = Some t"
  shows "queue_inv key can (advance key can w (tk_now t) (tk_plan t) (tk_locked t) s)"
proof (cases "tk_plan t")
  case (Cons p ps)
  obtain cs n where p: "p = (cs, n)" by (cases p)
  show ?thesis
    by (cases cs; cases n) (simp_all add: Cons p plan_step_inv [OF inv t] lock_step_inv [OF inv t])
qed (use inv in simp)

lemma claimed_rows_unique: "unique_by key rows \<Longrightarrow> unique_by key (claimed_rows key claim now ks rows)"
  by (simp add: claimed_rows_def unique_by_update key_claim)

lemma claimed_rows_other: "k \<notin> set ks \<Longrightarrow> qualifies key can n k (claimed_rows key claim now ks rows) = qualifies key can n k rows"
  by (auto simp: qualifies_def claimed_rows_def table_simps key_claim)

lemma other_write_qualifies:
  "other_write key locks K rows rows' \<Longrightarrow> k \<notin> K \<Longrightarrow> qualifies key can n k rows' = qualifies key can n k rows"
  unfolding other_write_def qualifies_def exists_where_iff
  by (metis (mono_tags, lifting) mem_Collect_eq set_filter)

lemma release_inv:
  assumes inv: "queue_inv key can s" and rows: "unique_by key rows"
    and kept: "\<And>w' t k. w' \<noteq> w \<Longrightarrow> sq_takers s w' = Some t \<Longrightarrow> k \<in> set (tk_locked t) \<Longrightarrow>
      qualifies key can (tk_now t) k rows"
  shows "queue_inv key can (release w (s\<lparr>sq_rows := rows\<rparr>))"
  using assms unfolding queue_inv_def release_def by auto

lemma step_inv:
  assumes step: "queue_step key can claim plan s e s'" and inv: "queue_inv key can s"
  shows "queue_inv key can s'"
  using step
proof cases
  case (begin_take w now)
  moreover have "sq_locks s k \<noteq> Some w" for k
    using queue_invD(4) [OF inv, of k w] begin_take(3) by auto
  ultimately show ?thesis using inv by (auto simp: queue_inv_def set_taker_def)
next
  case (lock_next w t)
  with advance_inv [OF inv] show ?thesis by simp
next
  case (commit_take w t rows)
  show ?thesis
    unfolding commit_take(2)
  proof (rule release_inv [OF inv])
    show "unique_by key rows"
      using commit_take claimed_rows_unique queue_invD(1) [OF inv] by simp
    show "qualifies key can (tk_now t') k rows"
      if "w' \<noteq> w" "sq_takers s w' = Some t'" "k \<in> set (tk_locked t')" for w' t' k
    proof -
      have "sq_locks s k = Some w'" using queue_invD(2) [OF inv that(2,3)] .
      then have "k \<notin> set (tk_locked t)" using queue_invD(2) [OF inv commit_take(3)] that(1) by auto
      then show ?thesis
        using queue_invD(3) [OF inv that(2,3)] commit_take claimed_rows_other by simp
    qed
  qed
next
  case (abort_take w t)
  then show ?thesis
    using release_inv [OF inv queue_invD(1) [OF inv], of w] queue_invD(3) [OF inv] by simp
next
  case (write_rows K rows)
  have "qualifies key can (tk_now t) k rows" if "sq_takers s w = Some t" "k \<in> set (tk_locked t)" for w t k
  proof -
    have "k \<notin> K" using queue_invD(2) [OF inv that] write_rows(3) by (auto simp: other_write_def)
    then show ?thesis using queue_invD(3) [OF inv that] other_write_qualifies [OF write_rows(3)] by blast
  qed
  then show ?thesis
    using inv write_rows by (simp add: queue_inv_def other_write_def)
qed

lemma run_inv: "queue_run key can claim plan s es s' \<Longrightarrow> queue_inv key can s \<Longrightarrow> queue_inv key can s'"
  by (induction rule: queue_run.induct) (auto dest: step_inv)

section \<open>A take is one step at its commit\<close>

lemma take_refines:
  assumes step: "queue_step key can claim plan s (Took w now rs) s'" and inv: "queue_inv key can s"
  shows "(\<forall>r \<in> set rs. \<exists>r0 \<in> set (sq_rows s). can now r0 \<and> r = claim now r0) \<and>
    sq_rows s' = update_where (\<lambda>r. key r \<in> key ` set rs) (claim now) (sq_rows s)"
  using step
proof cases
  case (commit_take t rows)
  let ?K = "set (tk_locked t)"
  have q: "\<exists>r \<in> set (sq_rows s). key r = k \<and> can now r" if "k \<in> ?K" for k
    using queue_invD(3) [OF inv commit_take(4) that] commit_take(1) by (auto simp: qualifies_def)
  have rs: "rs = filter (\<lambda>r. key r \<in> ?K) (update_where (\<lambda>r. key r \<in> ?K) (claim now) (sq_rows s))"
    using commit_take by (simp add: claimed_rows_def)
  have "\<exists>r0 \<in> set (sq_rows s). can now r0 \<and> r = claim now r0" if "r \<in> set rs" for r
    using claim_keys_grab [OF queue_invD(1) [OF inv] key_claim q that [unfolded rs]] by blast
  moreover have "sq_rows s' = update_where (\<lambda>r. key r \<in> ?K) (claim now) (sq_rows s)"
    using commit_take by (simp add: release_def claimed_rows_def)
  ultimately show ?thesis
    using claim_keys_writes [of key "claim now" ?K "sq_rows s", OF key_claim] unfolding rs by simp
qed

lemma silent_rows: "queue_step key can claim plan s Silent s' \<Longrightarrow> queue_inv key can s \<Longrightarrow> sq_rows s' = sq_rows s"
  by (erule queue_stepE) (auto simp: set_taker_def release_def advance_rows_eq)

section \<open>No item is handed out twice\<close>

lemma taken_qualifies:
  assumes "queue_step key can claim plan s (Took w now rs) s'" "queue_inv key can s" "k \<in> key ` set rs"
  shows "qualifies key can now k (sq_rows s)"
  using take_refines [OF assms(1,2)] assms(3) key_claim unfolding qualifies_def by fastforce

lemma taken_held:
  assumes "queue_step key can claim plan s (Took w now rs) s'" "queue_inv key can s" "k \<in> key ` set rs"
  shows "held_until key can k (now + 300000) (sq_rows s')"
proof -
  have "sq_rows s' = update_where (\<lambda>r. key r \<in> key ` set rs) (claim now) (sq_rows s)"
    using take_refines [OF assms(1,2)] by blast
  then show ?thesis
    using assms(3) claim_blocks by (auto simp: held_until_def qualifies_def table_simps)
qed

lemma held_step:
  assumes step: "queue_step key can claim plan s e s'" and inv: "queue_inv key can s"
    and held: "held_until key can k T (sq_rows s)" and "leaves k e"
  shows "held_until key can k T (sq_rows s')"
proof (cases e)
  case Silent
  with silent_rows step inv held show ?thesis by simp
next
  case (Took w now rs)
  show ?thesis
  proof (cases "k \<in> key ` set rs")
    case True
    have "T < now"
      using taken_qualifies [OF step [unfolded Took] inv True] held assms(4) Took
      by (auto simp: held_until_def not_le [symmetric])
    then show ?thesis
      using taken_held [OF step [unfolded Took] inv True] by (simp add: held_until_def)
  next
    case False
    have "qualifies key can n k (sq_rows s') = qualifies key can n k (sq_rows s)" for n
      using take_refines [OF step [unfolded Took] inv] False
      by (auto simp: qualifies_def table_simps key_claim)
    with held show ?thesis by (simp add: held_until_def)
  qed
next
  case (Wrote K)
  from step [unfolded Wrote] obtain locks where "other_write key locks K (sq_rows s) (sq_rows s')"
    by cases simp
  then show ?thesis
    using other_write_qualifies held assms(4) Wrote by (simp add: held_until_def)
qed

lemma held_run:
  "queue_run key can claim plan s es s' \<Longrightarrow> queue_inv key can s \<Longrightarrow> held_until key can k T (sq_rows s) \<Longrightarrow>
    \<forall>e \<in> set es. leaves k e \<Longrightarrow> held_until key can k T (sq_rows s')"
  by (induction rule: queue_run.induct) (auto dest: step_inv held_step)

lemma not_taken_twice:
  assumes inv: "queue_inv key can s" and first: "queue_step key can claim plan s (Took w now rs) s1"
    and between: "queue_run key can claim plan s1 es s2" "\<forall>e \<in> set es. leaves k e"
    and second: "queue_step key can claim plan s2 (Took w' now' rs') s3" "0 \<le> now'"
    and k: "k \<in> key ` set rs" "k \<in> key ` set rs'"
  shows "now + 300000 < now'"
proof -
  have inv1: "queue_inv key can s1" using step_inv [OF first inv] .
  have "held_until key can k (now + 300000) (sq_rows s2)"
    using held_run [OF between(1) inv1 taken_held [OF first inv k(1)] between(2)] .
  then show ?thesis
    using taken_qualifies [OF second(1) run_inv [OF between(1) inv1] k(2)] second(2)
    by (auto simp: held_until_def not_le [symmetric])
qed

end

locale limited_queue = skip_locked_queue key can claim plan
  for key :: "'r \<Rightarrow> 'k" and can claim plan +
  fixes limit :: nat
  assumes plan_limit: "sum_list (map snd (plan now rows)) \<le> limit"
begin

lemma advance_limit:
  assumes "\<And>w t. sq_takers s w = Some t \<Longrightarrow> within_limit limit t" "sq_takers s w = Some t"
    and "sq_takers (advance key can w (tk_now t) (tk_plan t) (tk_locked t) s) w' = Some t'"
  shows "within_limit limit t'"
proof -
  obtain ps ks where t: "tk_plan t = ps" "tk_locked t = ks" by simp
  have l: "within_limit limit t" using assms(1,2) .
  show ?thesis
    using assms(3)
  proof (cases ps)
    case (Cons p qs)
    obtain cs n where p: "p = (cs, n)" by (cases p)
    show ?thesis
      using assms(3) assms(1) [of w' t'] l
      by (cases cs; cases n) (auto simp: t Cons p set_taker_def within_limit_def split: if_splits)
  qed (use assms t in auto)
qed

lemma run_limit:
  "queue_run key can claim plan s es s' \<Longrightarrow> (\<And>w t. sq_takers s w = Some t \<Longrightarrow> within_limit limit t) \<Longrightarrow>
    sq_takers s' w = Some t \<Longrightarrow> within_limit limit t"
proof (induction arbitrary: w t rule: queue_run.induct)
  case (run_more s e s1 es s2)
  show ?case
  proof (rule run_more.IH [OF _ run_more.prems(2)])
    fix w t
    assume t: "sq_takers s1 w = Some t"
    from run_more.hyps(1) show "within_limit limit t"
    proof cases
      case (begin_take w' now)
      with t run_more.prems(1) plan_limit show ?thesis
        by (auto simp: set_taker_def within_limit_def split: if_splits)
    next
      case (lock_next w' t')
      with t advance_limit run_more.prems(1) show ?thesis by blast
    qed (use t run_more.prems(1) in \<open>auto simp: release_def split: if_splits\<close>)
  qed
qed simp

lemma take_limit:
  assumes run: "queue_run key can claim plan (idle_queue rows) es s" and unique: "unique_by key rows"
    and step: "queue_step key can claim plan s (Took w now rs) s'"
  shows "length rs \<le> limit"
  using step
proof cases
  case (commit_take t rows')
  have "length (tk_locked t) \<le> limit"
    using run_limit [OF run _ commit_take(4)] by (simp add: within_limit_def idle_queue_def commit_take)
  moreover have "unique_by key rows'"
    using queue_invD(1) [OF run_inv [OF run queue_inv_idle [OF unique]]] commit_take claimed_rows_unique by simp
  then have "distinct (map key rs)"
    using commit_take(1,2) by (simp add: unique_by_def distinct_map_filter)
  then have "length rs = card (key ` set rs)"
    by (metis distinct_card length_map list.set_map)
  moreover have "card (key ` set rs) \<le> card (set (tk_locked t))"
    by (rule card_mono) (auto simp: commit_take)
  ultimately show ?thesis using card_length [of "tk_locked t"] by linarith
qed

end

interpretation zap_takes: limited_queue pz_payment_hash zap_ready claim_zap "zap_plan limit" "unat limit" for limit
  by unfold_locales (simp_all add: zap_ready_def claim_zap_def ready_claimed zap_plan_def)

interpretation delivery_takes: skip_locked_queue wd_id delivery_ready claim_delivery delivery_plan
  by unfold_locales (simp_all add: delivery_ready_def claim_delivery_def ready_claimed)

section \<open>Takes among replicas\<close>

lemma run_append: "queue_run key can claim plan s (xs @ ys) s' \<longleftrightarrow>
    (\<exists>m. queue_run key can claim plan s xs m \<and> queue_run key can claim plan m ys s')"
proof (induction xs arbitrary: s)
  case Nil
  then show ?case by (auto intro: queue_run.intros elim: queue_run_nilE)
next
  case (Cons e xs)
  then show ?case by (fastforce intro: queue_run.intros elim: queue_run_consE)
qed

lemma run_Nil: "queue_run key can claim plan s [] s' \<longleftrightarrow> s' = s"
  by (auto intro: queue_run.intros elim: queue_run_nilE)

lemma run_Cons: "queue_run key can claim plan s (e # es) s' \<longleftrightarrow>
    (\<exists>m. queue_step key can claim plan s e m \<and> queue_run key can claim plan m es s')"
  by (auto intro: queue_run.intros elim: queue_run_consE)

text \<open>C37: however the statements of the replicas interleave on PostgreSQL, a take of zap receipts has at its
  commit the effect of one atomic step on the table as it is then: at most the limit of rows, each of which
  is ready, are returned, and exactly they are claimed.\<close>

theorem takes_refine_atomic:
  assumes "zap_run limit (idle_queue rows) es s" "unique_by pz_payment_hash rows"
    and "zap_step limit s (Took w now rs) s'"
  shows "length rs \<le> unat limit \<and> (\<forall>r \<in> set rs. \<exists>r0 \<in> set (sq_rows s). zap_ready now r0 \<and> r = claim_zap now r0) \<and>
    sq_rows s' = update_where (\<lambda>r. pz_payment_hash r \<in> pz_payment_hash ` set rs) (claim_zap now) (sq_rows s)"
  using zap_takes.take_limit [OF assms(1,2,3)]
    zap_takes.take_refines [OF assms(3) zap_takes.run_inv [OF assms(1) zap_takes.queue_inv_idle [OF assms(2)]]] by simp

text \<open>C38: a webhook delivery that one replica has taken is not handed out again within five minutes by the
  clock of the replica that takes it, whichever statements were running at the same time, unless a statement
  writes its row in between.\<close>

theorem deliveries_handed_out_once:
  assumes run: "delivery_run (idle_queue rows) (es @ Took w now rs # es' @ [Took w' now' rs']) s"
    and unique: "unique_by wd_id rows"
    and between: "\<forall>e \<in> set es'. leaves i e" "0 \<le> now'"
    and i: "i \<in> wd_id ` set rs" "i \<in> wd_id ` set rs'"
  shows "now + 300000 < now'"
proof -
  obtain s0 s1 s2 where s0: "delivery_run (idle_queue rows) es s0"
    and s1: "queue_step wd_id delivery_ready claim_delivery delivery_plan s0 (Took w now rs) s1"
    and s2: "delivery_run s1 es' s2"
    and s: "queue_step wd_id delivery_ready claim_delivery delivery_plan s2 (Took w' now' rs') s"
    using run by (auto simp: run_append run_Cons run_Nil)
  show ?thesis
    using delivery_takes.not_taken_twice [OF delivery_takes.run_inv [OF s0 delivery_takes.queue_inv_idle [OF unique]]
        s1 s2 between(1) s between(2) i] .
qed

section \<open>A take without competitors\<close>

fun chosen :: "'k subselect list \<Rightarrow> 'k list \<Rightarrow> 'k list" where
  "chosen [] ks = ks"
| "chosen (([], n) # ps) ks = chosen ps ks"
| "chosen ((c # cs, 0) # ps) ks = chosen ps ks"
| "chosen ((c # cs, Suc n) # ps) ks = chosen ((cs, n) # ps) (c # ks)"

lemma set_chosen: "set (chosen ps ks) = set ks \<union> (\<Union>(cs, n) \<in> set ps. set (take n cs))"
  by (induction ps ks rule: chosen.induct) auto

text \<open>Only the statement \<open>w\<close> runs, with this plan and these locks.\<close>

definition only :: "nat \<Rightarrow> 'k taker \<Rightarrow> ('r, 'k) shared_queue \<Rightarrow> bool" where
  "only w t s \<longleftrightarrow> sq_takers s = [w \<mapsto> t] \<and> (\<forall>k. sq_locks s k \<in> {None, Some w})"

lemma drain_step:
  assumes "only w \<lparr>tk_now = now, tk_plan = ps, tk_locked = ks\<rparr> s"
    and "\<exists>m s'. queue_run key can claim plan (advance key can w now ps ks s) (replicate m Silent) s' \<and>
      sq_rows s' = sq_rows (advance key can w now ps ks s) \<and> Q s'"
  shows "\<exists>m s'. queue_run key can claim plan s (replicate m Silent) s' \<and> sq_rows s' = sq_rows s \<and> Q s'"
proof -
  have "sq_takers s w = Some \<lparr>tk_now = now, tk_plan = ps, tk_locked = ks\<rparr>" using assms(1) by (simp add: only_def)
  from lock_next [of s w, OF this, of key can claim plan]
  have step: "queue_step key can claim plan s Silent (advance key can w now ps ks s)" by simp
  obtain m s' where m: "queue_run key can claim plan (advance key can w now ps ks s) (replicate m Silent) s'"
    "sq_rows s' = sq_rows s" "Q s'"
    using assms(2) by (auto simp: advance_rows_eq)
  have "queue_run key can claim plan s (replicate (Suc m) Silent) s'"
    using run_more [OF step m(1)] by simp
  with m(2,3) show ?thesis by blast
qed

lemma drain_run:
  assumes "only w \<lparr>tk_now = now, tk_plan = ps, tk_locked = ks\<rparr> s"
    and "\<And>cs n c. (cs, n) \<in> set ps \<Longrightarrow> c \<in> set cs \<Longrightarrow> qualifies key can now c (sq_rows s)"
  shows "\<exists>m s'. queue_run key can claim plan s (replicate m Silent) s' \<and> sq_rows s' = sq_rows s \<and>
    only w \<lparr>tk_now = now, tk_plan = [], tk_locked = chosen ps ks\<rparr> s'"
  using assms
proof (induction ps ks arbitrary: s rule: chosen.induct)
  case (1 ks)
  then show ?case by (intro exI [of _ 0] exI [of _ s]) (simp add: run_Nil)
next
  case (2 n ps ks)
  show ?case
    unfolding chosen.simps
    by (rule drain_step [OF 2(2)], rule 2(1)) (use 2(2,3) in \<open>auto simp: only_def set_taker_def\<close>)
next
  case (3 c cs ps ks)
  show ?case
    unfolding chosen.simps
    by (rule drain_step [OF 3(2)], rule 3(1)) (use 3(2,3) in \<open>auto simp: only_def set_taker_def\<close>)
next
  case (4 c cs n ps ks)
  have "lockable key can w now c s"
  proof -
    have "sq_locks s c = None \<or> sq_locks s c = Some w" using 4(2) by (simp add: only_def)
    then show ?thesis using 4(3) [of "c # cs" "Suc n" c] by (auto simp: lockable_def)
  qed
  moreover have "qualifies key can now c' (sq_rows s)" if "(cs', n') \<in> set ((cs, n) # ps)" "c' \<in> set cs'" for cs' n' c'
    using that 4(3) [of "c # cs" "Suc n" c'] 4(3) [of cs' n' c'] by auto
  ultimately show ?case
    unfolding chosen.simps
    by (intro drain_step [OF 4(2)] 4(1)) (use 4(2) in \<open>auto simp: only_def set_taker_def\<close>)
qed

lemma take_alone:
  assumes "\<And>cs n c. (cs, n) \<in> set (plan now rows) \<Longrightarrow> c \<in> set cs \<Longrightarrow> qualifies key can now c rows"
    and "(\<Union>(cs, n) \<in> set (plan now rows). set (take n cs)) = K"
  shows "\<exists>m. queue_run key can claim plan (idle_queue rows) (replicate m Silent @
      [Took w now (filter (\<lambda>r. key r \<in> K) (update_where (\<lambda>r. key r \<in> K) (claim now) rows))])
    (idle_queue (update_where (\<lambda>r. key r \<in> K) (claim now) rows))"
proof -
  let ?t = "\<lparr>tk_now = now, tk_plan = plan now rows, tk_locked = []\<rparr>"
  let ?s = "set_taker w ?t (idle_queue rows)"
  have start: "queue_step key can claim plan (idle_queue rows) Silent ?s"
    using begin_take [of "idle_queue rows" w key can claim plan now] by (simp add: idle_queue_def)
  have rows: "sq_rows ?s = rows" by (simp add: set_taker_def idle_queue_def)
  have "only w ?t ?s" by (simp add: only_def set_taker_def idle_queue_def)
  from drain_run [OF this, of key can claim plan] obtain m s' where
    m: "queue_run key can claim plan ?s (replicate m Silent) s'" "sq_rows s' = rows"
    and o: "only w \<lparr>tk_now = now, tk_plan = [], tk_locked = chosen (plan now rows) []\<rparr> s'"
    unfolding rows using assms(1) by blast
  have K: "set (chosen (plan now rows) []) = K" using assms(2) by (simp add: set_chosen)
  have final: "release w (s'\<lparr>sq_rows := update_where (\<lambda>r. key r \<in> K) (claim now) rows\<rparr>) =
      idle_queue (update_where (\<lambda>r. key r \<in> K) (claim now) rows)"
    (is "?l = ?r")
  proof -
    have "sq_locks ?l = sq_locks ?r"
      using o by (auto simp: release_def idle_queue_def only_def fun_eq_iff)
    moreover have "sq_takers ?l = sq_takers ?r"
      using o by (simp add: release_def idle_queue_def only_def)
    moreover have "sq_rows ?l = sq_rows ?r" by (simp add: release_def idle_queue_def)
    ultimately show ?thesis by (intro shared_queue.equality) simp_all
  qed
  have "queue_step key can claim plan s'
      (Took w now (filter (\<lambda>r. key r \<in> K) (update_where (\<lambda>r. key r \<in> K) (claim now) rows)))
      (idle_queue (update_where (\<lambda>r. key r \<in> K) (claim now) rows))"
    using commit_take [of s' w "\<lparr>tk_now = now, tk_plan = [], tk_locked = chosen (plan now rows) []\<rparr>"
        "update_where (\<lambda>r. key r \<in> K) (claim now) rows" key claim can plan] o K final
    by (simp add: only_def claimed_rows_def m(2))
  then have "queue_run key can claim plan (idle_queue rows) (replicate (Suc m) Silent @
      [Took w now (filter (\<lambda>r. key r \<in> K) (update_where (\<lambda>r. key r \<in> K) (claim now) rows))])
    (idle_queue (update_where (\<lambda>r. key r \<in> K) (claim now) rows))"
    using start m(1) by (auto simp: run_append run_Cons run_Nil)
  then show ?thesis by blast
qed

lemma zap_chosen: "(\<Union>(cs, n) \<in> set (zap_plan limit now (pending_zap_receipts d)). set (take n cs)) = zap_keys limit now d"
  by (simp add: zap_plan_def zap_keys_def take_map)

lemma delivery_chosen:
  "(\<Union>(cs, n) \<in> set (delivery_plan now t). set (take n cs)) =
    set (List.map_filter (\<lambda>dn. first_of_domain now dn t) (remdups (map wd_domain (filter (delivery_ready now) t))))"
proof -
  have one: "set (take 1 (map wd_id (sort_key wd_next_retry_at (filter (\<lambda>r. wd_domain r = dn \<and> delivery_ready now r) t)))) =
      set_option (first_of_domain now dn t)" for dn
    by (simp add: first_of_domain_def split: list.splits)
  have filtered: "set (List.map_filter f xs) = (\<Union>x \<in> set xs. set_option (f x))" for f :: "string \<Rightarrow> int option" and xs
    by (induction xs) (auto simp: List.map_filter_def split: option.splits)
  have "(\<Union>(cs, n) \<in> set (delivery_plan now t). set (take n cs)) =
      (\<Union>dn \<in> set (remdups (map wd_domain (filter (delivery_ready now) t))). set_option (first_of_domain now dn t))"
    unfolding delivery_plan_def one [symmetric] by simp
  then show ?thesis unfolding filtered .
qed

lemma zap_take_alone:
  "\<exists>m. zap_run limit (idle_queue (pending_zap_receipts d))
     (replicate m Silent @ [Took w now (fst (take_pending_zap_receipts limit now d))])
     (idle_queue (pending_zap_receipts (snd (take_pending_zap_receipts limit now d))))"
proof -
  let ?t = "pending_zap_receipts d"
  have "qualifies pz_payment_hash zap_ready now c ?t" if "(cs, n) \<in> set (zap_plan limit now ?t)" "c \<in> set cs" for cs n c
    using that by (auto simp: zap_plan_def qualifies_def)
  from take_alone [where rows = ?t and plan = "zap_plan limit" and claim = claim_zap and w = w, OF this zap_chosen]
  show ?thesis by (simp add: take_pending_zap_receipts_eq)
qed

lemma delivery_take_alone:
  "\<exists>m. delivery_run (idle_queue (webhook_deliveries d))
     (replicate m Silent @ [Took w now (fst (take_pending_webhook_deliveries_pg now d))])
     (idle_queue (webhook_deliveries (snd (take_pending_webhook_deliveries_pg now d))))"
proof -
  let ?u = "webhook_deliveries d"
  have "qualifies wd_id delivery_ready now c ?u" if "(cs, n) \<in> set (delivery_plan now ?u)" "c \<in> set cs" for cs n c
    using that by (auto simp: delivery_plan_def qualifies_def)
  from take_alone [where rows = ?u and plan = delivery_plan and claim = claim_delivery and w = w, OF this delivery_chosen]
  show ?thesis by (simp add: take_pending_webhook_deliveries_pg_def take_ids_def Let_def)
qed

text \<open>When no other replica takes from the queue and nothing writes it, the locking of row after row by the
  take of zap receipts and by that of webhook deliveries on PostgreSQL ends, and returns the rows and leaves the
  table that the atomic take of the queue does.\<close>

theorem lone_take_atomic:
  "(\<exists>m. zap_run limit (idle_queue (pending_zap_receipts d))
     (replicate m Silent @ [Took w now (fst (take_pending_zap_receipts limit now d))])
     (idle_queue (pending_zap_receipts (snd (take_pending_zap_receipts limit now d))))) \<and>
   (\<exists>m. delivery_run (idle_queue (webhook_deliveries d))
     (replicate m Silent @ [Took w now (fst (take_pending_webhook_deliveries_pg now d))])
     (idle_queue (webhook_deliveries (snd (take_pending_webhook_deliveries_pg now d)))))"
  using zap_take_alone delivery_take_alone by blast

section \<open>Instances\<close>

text \<open>Replica 1 holds the first receipt when replica 2 asks for one: it skips that and gets the second.\<close>

definition two_receipts :: "pending_zap_receipt list" where
  "two_receipts = map (\<lambda>h. \<lparr>pz_payment_hash = h, pz_created_at = 0, pz_retry_count = 0, pz_next_retry_at = 10,
     pz_claimed_at = None\<rparr>) [''h1'', ''h2'']"

definition next_candidate ::
  "nat \<Rightarrow> (pending_zap_receipt, string) shared_queue \<Rightarrow> (pending_zap_receipt, string) shared_queue" where
  "next_candidate w s = (case sq_takers s w of None \<Rightarrow> s
     | Some t \<Rightarrow> advance pz_payment_hash zap_ready w (tk_now t) (tk_plan t) (tk_locked t) s)"

definition asked :: "nat \<Rightarrow> (pending_zap_receipt, string) shared_queue \<Rightarrow> (pending_zap_receipt, string) shared_queue" where
  "asked w s = set_taker w \<lparr>tk_now = 600000, tk_plan = zap_plan 1 600000 (sq_rows s), tk_locked = []\<rparr> s"

definition contended :: "(pending_zap_receipt, string) shared_queue" where
  "contended = next_candidate 2 (next_candidate 2 (next_candidate 2 (asked 2
     (next_candidate 1 (asked 1 (idle_queue two_receipts))))))"

lemma contended_takers:
  "sq_takers contended 2 = Some \<lparr>tk_now = 600000, tk_plan = [], tk_locked = [''h2'']\<rparr>"
  "sq_rows contended = two_receipts"
  by code_simp+

lemma next_candidate_step: "sq_takers s w \<noteq> None \<Longrightarrow> zap_step limit s Silent (next_candidate w s)"
  unfolding next_candidate_def by (auto intro: lock_next)

lemma asked_step: "sq_takers s w = None \<Longrightarrow> zap_step 1 s Silent (asked w s)"
  unfolding asked_def by (rule begin_take)

lemma contended_run: "zap_run 1 (idle_queue two_receipts) (replicate 6 Silent) contended"
proof -
  let ?a = "asked 1 (idle_queue two_receipts)" let ?b = "next_candidate 1 ?a" let ?c = "asked 2 ?b"
  let ?d = "next_candidate 2 ?c" let ?e = "next_candidate 2 ?d"
  have "zap_step 1 (idle_queue two_receipts) Silent ?a" by (rule asked_step) (simp add: idle_queue_def)
  moreover have "zap_step 1 ?a Silent ?b" by (rule next_candidate_step) code_simp
  moreover have "zap_step 1 ?b Silent ?c" by (rule asked_step) code_simp
  moreover have "zap_step 1 ?c Silent ?d" by (rule next_candidate_step) code_simp
  moreover have "zap_step 1 ?d Silent ?e" by (rule next_candidate_step) code_simp
  moreover have "zap_step 1 ?e Silent contended" unfolding contended_def by (rule next_candidate_step) code_simp
  ultimately show ?thesis by (auto simp: numeral_eq_Suc intro!: run_more run_done)
qed

theorem takes_refine_atomic_witness:
  "\<exists>s'. zap_step 1 contended (Took 2 600000 [claim_zap 600000 (two_receipts ! 1)]) s' \<and>
     sq_rows s' = [two_receipts ! 0, claim_zap 600000 (two_receipts ! 1)]"
proof -
  let ?rows = "claimed_rows pz_payment_hash claim_zap 600000 [''h2''] two_receipts"
  have rows: "filter (\<lambda>r. pz_payment_hash r \<in> set [''h2'']) ?rows = [claim_zap 600000 (two_receipts ! 1)]"
    by (simp add: claimed_rows_def two_receipts_def claim_zap_def)
  have step: "zap_step 1 contended (Took 2 600000 [claim_zap 600000 (two_receipts ! 1)]) (release 2 (contended\<lparr>sq_rows := ?rows\<rparr>))"
    using commit_take [of contended 2 _ ?rows pz_payment_hash claim_zap zap_ready "zap_plan 1", OF contended_takers(1)]
    by (simp add: contended_takers(2) rows [simplified])
  have "unique_by pz_payment_hash two_receipts" by (simp add: two_receipts_def unique_by_def)
  from takes_refine_atomic [OF contended_run this step] step show ?thesis
    by (intro exI conjI) (auto simp: contended_takers(2) two_receipts_def claim_zap_def)
qed

definition one_delivery :: db where
  "one_delivery = insert_webhook_deliveries_pg 10 [\<lparr>nd_identifier = ''h1'', nd_domain = ''x.org'', nd_payload = ''p''\<rparr>] empty_db"

theorem deliveries_handed_out_once_witness:
  "let rs = fst (take_pending_webhook_deliveries_pg 600000 one_delivery);
       rs' = fst (take_pending_webhook_deliveries_pg 1000000 (snd (take_pending_webhook_deliveries_pg 600000 one_delivery)))
   in map wd_id rs = [1] \<and> map wd_id rs' = [1] \<and>
      (\<exists>es es' s. delivery_run (idle_queue (webhook_deliveries one_delivery)) (es @ Took 1 600000 rs # es' @ [Took 2 1000000 rs']) s) \<and>
      (600000 :: int) + 300000 < 1000000"
proof -
  let ?d = "snd (take_pending_webhook_deliveries_pg 600000 one_delivery)"
  let ?rs = "fst (take_pending_webhook_deliveries_pg 600000 one_delivery)"
  let ?rs' = "fst (take_pending_webhook_deliveries_pg 1000000 ?d)"
  have ids: "map wd_id ?rs = [1]" "map wd_id ?rs' = [1]" by code_simp+
  obtain m where m: "delivery_run (idle_queue (webhook_deliveries one_delivery))
      (replicate m Silent @ [Took 1 600000 ?rs]) (idle_queue (webhook_deliveries ?d))"
    using delivery_take_alone by blast
  obtain n s where n: "delivery_run (idle_queue (webhook_deliveries ?d)) (replicate n Silent @ [Took 2 1000000 ?rs']) s"
    using delivery_take_alone by blast
  have run: "delivery_run (idle_queue (webhook_deliveries one_delivery))
      (replicate m Silent @ Took 1 600000 ?rs # replicate n Silent @ [Took 2 1000000 ?rs']) s"
    using m n by (auto simp: run_append run_Cons run_Nil)
  have unique: "unique_by wd_id (webhook_deliveries one_delivery)" by code_simp
  have in_rs: "1 \<in> wd_id ` set ?rs" "1 \<in> wd_id ` set ?rs'"
    using ids by (metis list.set_intros(1) list.set_map)+
  have "(600000 :: int) + 300000 < 1000000"
    using deliveries_handed_out_once [OF run unique _ _ in_rs] by simp
  with ids run show ?thesis by (auto simp: Let_def)
qed

end
