(* ===== verification/Lnurl_Spark_Client.thy ===== *)
theory Lnurl_Spark_Client
  imports Lnurl_Pay
begin

text \<open>
  The Spark client, \<open>crates/spark-client\<close>: the construction of the wallet, its invoices, the
  verification of messages, the registration of the webhook, and the signed payloads it builds for
  fixed test identities, with \<open>bin/e2e_auth.rs\<close>, which prints them. The Spark SDK is the parameter
  \<open>spark_sdk\<close>: a signer is a value of \<^typ>\<open>'g\<close>, a wallet one of \<^typ>\<open>'w\<close>, a service provider
  one of \<^typ>\<open>'p\<close>, and \<^typ>\<open>'n\<close> and \<^typ>\<open>'c\<close> are networks and wallet settings. An error of
  the SDK is its text.
\<close>

section \<open>The SDK\<close>

datatype invoice_description = DescriptionHash bytes

datatype wallet_webhook_event = SparkLightningReceiveFinished

text \<open>
  Functions whose first argument is a number are what the Spark service answers at that call. The
  stores and the connection manager that \<open>SparkWallet::new\<close> is given are fresh and hold nothing.
\<close>

record ('k, 's, 'g, 'w, 'p, 'n, 'c) spark_sdk =
  sk_regtest :: 'n
  sk_default_config :: "'n \<Rightarrow> 'c"
  sk_set_schema_endpoint :: "string option \<Rightarrow> 'c \<Rightarrow> 'c"
  sk_signer_new :: "bytes \<Rightarrow> 'n \<Rightarrow> string + 'g"
  sk_service_provider_new :: "'c \<Rightarrow> 'g \<Rightarrow> 'p"
  sk_wallet_new :: "nat \<Rightarrow> 'c \<Rightarrow> 'g \<Rightarrow> string + 'w"
  sk_get_identity_public_key :: "'g \<Rightarrow> string + 'k"
  sk_sign_message_ecdsa :: "'g \<Rightarrow> bytes \<Rightarrow> string + 's"
  sk_serialize_der :: "'s \<Rightarrow> bytes"
  sk_create_lightning_invoice ::
    "nat \<Rightarrow> 'w \<Rightarrow> u64 \<Rightarrow> invoice_description option \<Rightarrow> 'k option \<Rightarrow> u32 option \<Rightarrow> bool \<Rightarrow> string + string"
  sk_verify_message :: "'w \<Rightarrow> string \<Rightarrow> 's \<Rightarrow> 'k \<Rightarrow> string + unit"
  sk_register_wallet_webhook :: "nat \<Rightarrow> 'p \<Rightarrow> string \<Rightarrow> string \<Rightarrow> wallet_webhook_event list \<Rightarrow> string + string"

section \<open>Types\<close>

datatype spark_client_error =
    WalletConstruction string
  | SignatureVerification string
  | Signing string
  | InvoiceCreation string
  | WebhookRegistration string

record 'n client_config =
  cc_network :: 'n
  cc_auth_seed :: bytes

record ('w, 'p) spark_client =
  sc_wallet :: 'w
  sc_service_provider :: 'p

record ('k, 's) verify_message_request =
  vm_message :: string
  vm_signature :: 's
  vm_public_key :: 'k

record signed_auth_payload =
  sa_pubkey :: string
  sa_timestamp :: u64
  sa_register_signature :: string
  sa_recover_signature :: string
  sa_unregister_signature :: string
  sa_to_pubkey :: string
  sa_to_register_signature :: string
  sa_to_recover_signature :: string
  sa_transfer_from_signature :: string
  sa_transfer_to_signature :: string

record signed_v2_auth_payload =
  s2_domain :: string
  s2_description :: string
  s2_available_signature :: string
  s2_register_signature :: string
  s2_unregister_signature :: string
  s2_recover_signature :: string
  s2_metadata_signature :: string
  s2_to_recover_signature :: string
  s2_transfer_from_signature :: string
  s2_transfer_to_signature :: string

record webhook_registration_request =
  wr_webhook_url :: string
  wr_secret :: string

section \<open>The client\<close>

definition client_new ::
  "('k, 's, 'g, 'w, 'p, 'n, 'c) spark_sdk \<Rightarrow> nat \<Rightarrow> 'n client_config \<Rightarrow>
   spark_client_error + ('w, 'p) spark_client" where
  "client_new sdk k config =
     (let spark_config = sk_set_schema_endpoint sdk (Some ''graphql/spark/rc'') (sk_default_config sdk (cc_network config)) in
      bind_res (map_err WalletConstruction (sk_signer_new sdk (cc_auth_seed config) (cc_network config))) (\<lambda>signer.
      let service_provider = sk_service_provider_new sdk spark_config signer in
      bind_res (map_err WalletConstruction (sk_wallet_new sdk k spark_config signer)) (\<lambda>wallet.
      Inr \<lparr>sc_wallet = wallet, sc_service_provider = service_provider\<rparr>)))"

definition client_create_lightning_invoice ::
  "('k, 's, 'g, 'w, 'p, 'n, 'c) spark_sdk \<Rightarrow> ('w, 'p) spark_client \<Rightarrow> nat \<Rightarrow> 'k spark_invoice_request \<Rightarrow>
   spark_client_error + string" where
  "client_create_lightning_invoice sdk client k request =
     map_err InvoiceCreation (sk_create_lightning_invoice sdk k (sc_wallet client) (sr_amount_sat request)
       (Some (DescriptionHash (sr_description_hash request))) (Some (sr_receiver_pubkey request))
       (sr_expiry_secs request) (sr_include_spark_address request))"

definition client_verify_message ::
  "('k, 's, 'g, 'w, 'p, 'n, 'c) spark_sdk \<Rightarrow> ('w, 'p) spark_client \<Rightarrow> ('k, 's) verify_message_request \<Rightarrow>
   spark_client_error + unit" where
  "client_verify_message sdk client request =
     map_err SignatureVerification
       (sk_verify_message sdk (sc_wallet client) (vm_message request) (vm_signature request) (vm_public_key request))"

definition register_wallet_webhook ::
  "('k, 's, 'g, 'w, 'p, 'n, 'c) spark_sdk \<Rightarrow> nat \<Rightarrow> 'p \<Rightarrow> webhook_registration_request \<Rightarrow>
   spark_client_error + string" where
  "register_wallet_webhook sdk k service_provider request =
     map_err WebhookRegistration (sk_register_wallet_webhook sdk k service_provider (wr_webhook_url request)
       (wr_secret request) [SparkLightningReceiveFinished])"

definition client_register_wallet_webhook ::
  "('k, 's, 'g, 'w, 'p, 'n, 'c) spark_sdk \<Rightarrow> ('w, 'p) spark_client \<Rightarrow> nat \<Rightarrow> webhook_registration_request \<Rightarrow>
   spark_client_error + string" where
  "client_register_wallet_webhook sdk client k request =
     register_wallet_webhook sdk k (sc_service_provider client) request"

text \<open>The environment of a server whose state holds the client.\<close>

definition verify_with_spark_client ::
  "('k, 's, 'g, 'w, 'p, 'n, 'c) spark_sdk \<Rightarrow> ('w, 'p) spark_client \<Rightarrow> string \<Rightarrow> 's \<Rightarrow> 'k \<Rightarrow> bool" where
  "verify_with_spark_client sdk client message signature public_key =
     is_ok (client_verify_message sdk client
       \<lparr>vm_message = message, vm_signature = signature, vm_public_key = public_key\<rparr>)"

definition client_env ::
  "('k, 's, 'g, 'w, 'p, 'n, 'c) spark_sdk \<Rightarrow> ('w, 'p) spark_client \<Rightarrow> ('k, 's) env \<Rightarrow> ('k, 's) env" where
  "client_env sdk client env =
     env\<lparr>ev_crypto := (ev_crypto env)\<lparr>verify_message := verify_with_spark_client sdk client\<rparr>,
         ev_lib := (ev_lib env)\<lparr>pl_spark_invoice := (\<lambda>k request.
           case client_create_lightning_invoice sdk client k request of Inl _ \<Rightarrow> None | Inr bolt11 \<Rightarrow> Some bolt11)\<rparr>\<rparr>"

section \<open>Signed payloads\<close>

definition test_identity ::
  "('k, 's, 'g, 'w, 'p, 'n, 'c) spark_sdk \<Rightarrow> ('k, 's) crypto_lib \<Rightarrow> 8 word \<Rightarrow> spark_client_error + 'g \<times> string" where
  "test_identity sdk lib seed =
     bind_res (map_err Signing (sk_signer_new sdk (replicate 32 seed) (sk_regtest sdk))) (\<lambda>signer.
     bind_res (map_err Signing (sk_get_identity_public_key sdk signer)) (\<lambda>pubkey.
     Inr (signer, public_key_to_string lib pubkey)))"

definition sign_hex ::
  "('k, 's, 'g, 'w, 'p, 'n, 'c) spark_sdk \<Rightarrow> ('k, 's) crypto_lib \<Rightarrow> 'g \<Rightarrow> string \<Rightarrow> spark_client_error + string" where
  "sign_hex sdk lib signer message =
     bind_res (map_err Signing (sk_sign_message_ecdsa sdk signer (as_bytes message))) (\<lambda>signature.
     Inr (hex_encode lib (sk_serialize_der sdk signature)))"

definition build_auth_payload ::
  "('k, 's, 'g, 'w, 'p, 'n, 'c) spark_sdk \<Rightarrow> ('k, 's) crypto_lib \<Rightarrow> string \<Rightarrow> u64 \<Rightarrow>
   spark_client_error + signed_auth_payload" where
  "build_auth_payload sdk lib username timestamp =
     bind_res (test_identity sdk lib 42) (\<lambda>(signer, pubkey).
     bind_res (test_identity sdk lib 43) (\<lambda>(to_signer, to_pubkey).
     bind_res (sign_hex sdk lib signer (username @ ''-'' @ show_u64 timestamp)) (\<lambda>register_signature.
     bind_res (sign_hex sdk lib signer (pubkey @ ''-'' @ show_u64 timestamp)) (\<lambda>recover_signature.
     bind_res (sign_hex sdk lib to_signer (username @ ''-'' @ show_u64 timestamp)) (\<lambda>to_register_signature.
     bind_res (sign_hex sdk lib to_signer (to_pubkey @ ''-'' @ show_u64 timestamp)) (\<lambda>to_recover_signature.
     let transfer_message = ''transfer:'' @ username @ ''-'' @ to_pubkey in
     bind_res (sign_hex sdk lib signer transfer_message) (\<lambda>transfer_from_signature.
     bind_res (sign_hex sdk lib to_signer transfer_message) (\<lambda>transfer_to_signature.
     Inr \<lparr>sa_pubkey = pubkey, sa_timestamp = timestamp, sa_register_signature = register_signature,
       sa_recover_signature = recover_signature, sa_unregister_signature = register_signature,
       sa_to_pubkey = to_pubkey, sa_to_register_signature = to_register_signature,
       sa_to_recover_signature = to_recover_signature, sa_transfer_from_signature = transfer_from_signature,
       sa_transfer_to_signature = transfer_to_signature\<rparr>))))))))"

definition build_v2_auth_payload ::
  "('k, 's, 'g, 'w, 'p, 'n, 'c) spark_sdk \<Rightarrow> ('k, 's) crypto_lib \<Rightarrow> breez_lib \<Rightarrow> string \<Rightarrow> u64 \<Rightarrow> string \<Rightarrow> string \<Rightarrow>
   spark_client_error + signed_v2_auth_payload" where
  "build_v2_auth_payload sdk lib breez username timestamp domain description =
     bind_res (test_identity sdk lib 42) (\<lambda>(signer, pubkey).
     bind_res (test_identity sdk lib 43) (\<lambda>(to_signer, to_pubkey).
     bind_res (sign_hex sdk lib signer (bz_available breez domain pubkey username timestamp)) (\<lambda>available_signature.
     bind_res (sign_hex sdk lib signer (bz_register breez domain username description timestamp)) (\<lambda>register_signature.
     bind_res (sign_hex sdk lib signer (bz_unregister breez domain username timestamp)) (\<lambda>unregister_signature.
     bind_res (sign_hex sdk lib signer (bz_recover breez domain pubkey timestamp)) (\<lambda>recover_signature.
     bind_res (sign_hex sdk lib signer (bz_metadata breez domain pubkey timestamp)) (\<lambda>metadata_signature.
     bind_res (sign_hex sdk lib to_signer (bz_recover breez domain to_pubkey timestamp)) (\<lambda>to_recover_signature.
     bind_res (sign_hex sdk lib signer (bz_transfer_from breez domain username pubkey to_pubkey timestamp)) (\<lambda>transfer_from_signature.
     bind_res (sign_hex sdk lib to_signer (bz_transfer_to breez domain username pubkey to_pubkey description timestamp)) (\<lambda>transfer_to_signature.
     Inr \<lparr>s2_domain = domain, s2_description = description, s2_available_signature = available_signature,
       s2_register_signature = register_signature, s2_unregister_signature = unregister_signature,
       s2_recover_signature = recover_signature, s2_metadata_signature = metadata_signature,
       s2_to_recover_signature = to_recover_signature, s2_transfer_from_signature = transfer_from_signature,
       s2_transfer_to_signature = transfer_to_signature\<rparr>))))))))))"

text \<open>\<open>bin/e2e_auth.rs\<close>\<close>

definition build_payload_json ::
  "('k, 's, 'g, 'w, 'p, 'n, 'c) spark_sdk \<Rightarrow> ('k, 's) crypto_lib \<Rightarrow> breez_lib \<Rightarrow> string \<Rightarrow> u64 \<Rightarrow> string \<Rightarrow> string \<Rightarrow>
   spark_client_error + json" where
  "build_payload_json sdk lib breez username timestamp domain description =
     bind_res (build_auth_payload sdk lib username timestamp) (\<lambda>payload.
     bind_res (build_v2_auth_payload sdk lib breez username timestamp domain description) (\<lambda>v2.
     Inr (JObject [
       (''pubkey'', JString (sa_pubkey payload)),
       (''timestamp'', JNumber (uint (sa_timestamp payload))),
       (''register_signature'', JString (sa_register_signature payload)),
       (''recover_signature'', JString (sa_recover_signature payload)),
       (''unregister_signature'', JString (sa_unregister_signature payload)),
       (''to_pubkey'', JString (sa_to_pubkey payload)),
       (''to_register_signature'', JString (sa_to_register_signature payload)),
       (''to_recover_signature'', JString (sa_to_recover_signature payload)),
       (''transfer_from_signature'', JString (sa_transfer_from_signature payload)),
       (''transfer_to_signature'', JString (sa_transfer_to_signature payload)),
       (''v2'', JObject [
         (''domain'', JString (s2_domain v2)),
         (''description'', JString (s2_description v2)),
         (''available_signature'', JString (s2_available_signature v2)),
         (''register_signature'', JString (s2_register_signature v2)),
         (''unregister_signature'', JString (s2_unregister_signature v2)),
         (''recover_signature'', JString (s2_recover_signature v2)),
         (''metadata_signature'', JString (s2_metadata_signature v2)),
         (''to_recover_signature'', JString (s2_to_recover_signature v2)),
         (''transfer_from_signature'', JString (s2_transfer_from_signature v2)),
         (''transfer_to_signature'', JString (s2_transfer_to_signature v2))])])))"

end
