(* ===== verification/Lnurl_Spark_Client_Thms.thy ===== *)
theory Lnurl_Spark_Client_Thms
  imports Lnurl_Spark_Client Lnurl_Account_Routes_Thms
begin

text \<open>
  The Spark client and the server agree: the payload the client signs takes a name through its life,
  from registration through recovery to its release, on a server that nothing disturbs.
\<close>

section \<open>What the repository makes possible\<close>

definition holds_name :: "string \<Rightarrow> string \<Rightarrow> string \<Rightarrow> string \<Rightarrow> db \<Rightarrow> bool" where
  "holds_name key dn u de d \<longleftrightarrow>
     (\<exists>ai s. ai \<in> set (account_identifiers d) \<and> ai_domain ai = dn \<and> ai_identifier ai = u \<and>
        ai_kind ai = Username \<and> ai_description ai = de \<and> s \<in> set (spark_accounts d) \<and>
        sp_account_id s = ai_account_id ai \<and> sp_pubkey s = key)"

lemma lookup_recipient_SparkD:
  assumes "lookup_recipient dn u d = Some r" "rr_provider r = Spark"
  shows "\<exists>ai s. identifier_row dn u d = Some ai \<and> spark_row (ai_account_id ai) d = Some s \<and> r = spark_recipient ai s"
  using assms by (auto simp: lookup_recipient_def blink_recipient_def split: option.splits)

lemma holds_nameI:
  assumes "lookup_recipient dn u d = Some r" "rr_provider r = Spark" "rr_spark_pubkey r = Some key"
    "rr_kind r = Username" "rr_description r = de"
  shows "holds_name key dn u de d"
proof -
  obtain ai s where r: "identifier_row dn u d = Some ai" "spark_row (ai_account_id ai) d = Some s" "r = spark_recipient ai s"
    using lookup_recipient_SparkD [OF assms(1,2)] by blast
  have "s \<in> set (spark_accounts d)" "sp_account_id s = ai_account_id ai"
    using r(2) by (auto simp: spark_row_def dest: fetch_optional_SomeD)
  with identifier_row_Some [OF r(1)] assms(3-5) r(3) show ?thesis
    unfolding holds_name_def spark_recipient_def by auto
qed

lemma spark_owner_account:
  assumes "accounts_inv d" "s \<in> set (spark_accounts d)"
  shows "\<exists>a. get_account_by_id (sp_account_id s) d = Some a \<and> acc_provider a = Spark"
proof -
  have "sp_account_id s \<in> account_ids Spark (accounts d)"
    using assms by (auto simp: accounts_inv_def spark_children_def)
  then obtain a where "a \<in> set (accounts d)" "acc_id a = sp_account_id s" "acc_provider a = Spark"
    by (auto simp: account_ids_def)
  with get_account_by_idI [OF assms(1), of a] show ?thesis by auto
qed

lemma registration_possible:
  assumes inv: "accounts_inv d" and free: "identifier_row dn u d = None"
    and c: "nr_claim reg = Some c" "\<not> claimed c d"
    and fresh: "fresh \<notin> acc_id ` set (accounts d)"
    and reg: "nr_account_id reg = None" "ni_kind (nr_identifier reg) = Username"
      "ni_domain (nr_identifier reg) = dn" "ni_identifier (nr_identifier reg) = u"
  shows "\<exists>d'. upsert_spark_registration now fresh reg d = Inr d' \<and> accounts_inv d' \<and>
    holds_name (nr_pubkey reg) dn u (ni_description (nr_identifier reg)) d' \<and>
    (\<forall>c'. claimed c' d' \<longleftrightarrow> claimed c' d \<or> cl_statement_hash c' = cl_statement_hash c)"
proof -
  let ?d1 = "d\<lparr>used_signed_messages := used_signed_messages d @ claim_rows now (Some c)\<rparr>"
  let ?i = "registration_account_id fresh reg ?d1"
  have claim: "claim_or_refuse now (nr_claim reg) d = Inr ?d1" using c by (simp add: claim_or_refuse_iff)
  note same = claim_or_refuse_lookup [OF claim]
  have kind: "validate_registration reg = Inr ()" using reg(2) by (simp add: validate_registration_def)
  have key: "\<forall>s. spark_by_pubkey (nr_pubkey reg) ?d1 = Some s \<longrightarrow> ?i = sp_account_id s"
    by (simp add: registration_account_id_def reg(1))
  have acct: "\<forall>a. get_account_by_id ?i ?d1 = Some a \<longrightarrow> acc_provider a = Spark"
  proof (cases "spark_by_pubkey (nr_pubkey reg) d")
    case None
    then have "?i = fresh" by (simp add: registration_account_id_def reg(1) same)
    then show ?thesis using fresh by (simp add: same get_account_by_id_None [symmetric])
  next
    case (Some s)
    then have "?i = sp_account_id s" by (simp add: registration_account_id_def reg(1) same)
    then show ?thesis using spark_owner_account [OF inv, of s] spark_by_pubkey_Some [OF Some] by (auto simp: same)
  qed
  let ?d' = "write_registration now ?i reg ?d1"
  have ok: "upsert_spark_registration now fresh reg d = Inr ?d'"
    using acct key free reg by (auto simp: upsert_spark_registration_def kind claim Let_def same split: option.splits)
  note inv' = upsert_spark_registration_inv [OF inv ok]
  have "holds_name (nr_pubkey reg) dn u (ni_description (nr_identifier reg)) ?d'"
    using registration_resolves [OF inv ok] reg by (auto simp: resolve_inv [OF inv'] intro: holds_nameI)
  moreover have "claimed c' ?d' \<longleftrightarrow> claimed c' d \<or> cl_statement_hash c' = cl_statement_hash c" for c'
    by (auto simp: claimed_def write_registration_eq claim_rows_def)
  ultimately show ?thesis using ok inv' by blast
qed

lemma sort_key_singletons:
  assumes "set xs = {y}"
  shows "\<exists>ys. sort_key f xs = y # ys"
proof (cases "sort_key f xs")
  case Nil
  then have "set xs = {}" by (metis set_sort empty_set)
  with assms show ?thesis by simp
next
  case (Cons z ys)
  then have "z \<in> set xs" by (metis set_sort list.set_intros(1))
  with assms Cons show ?thesis by simp
qed

definition username_rows :: "string \<Rightarrow> string \<Rightarrow> db \<Rightarrow> (spark_account \<times> account_identifier) list" where
  "username_rows dn key d = [(s, ai). s \<leftarrow> spark_accounts d, a \<leftarrow> accounts d, ai \<leftarrow> account_identifiers d,
     acc_id a = sp_account_id s \<and> ai_account_id ai = acc_id a \<and> ai_domain ai = dn \<and> sp_pubkey s = key \<and>
     ai_kind ai = Username \<and> acc_provider a = Spark]"

lemma username_rows_iff:
  "(s, ai) \<in> set (username_rows dn key d) \<longleftrightarrow> s \<in> set (spark_accounts d) \<and> ai \<in> set (account_identifiers d) \<and>
     ai_account_id ai = sp_account_id s \<and> ai_domain ai = dn \<and> sp_pubkey s = key \<and> ai_kind ai = Username \<and>
     sp_account_id s \<in> account_ids Spark (accounts d)"
  unfolding username_rows_def account_ids_def by (auto simp: image_iff)

lemma get_spark_username_eq:
  "get_spark_username_by_pubkey dn key d =
     (case sort_key (\<lambda>(s, ai). (- ai_updated_at ai, ai_identifier ai)) (username_rows dn key d) of
        [] \<Rightarrow> None
      | (s, ai) # _ \<Rightarrow> Some \<lparr>su_domain = dn, su_pubkey = sp_pubkey s, su_username = ai_identifier ai,
          su_description = ai_description ai\<rparr>)"
  by (simp only: get_spark_username_by_pubkey_def username_rows_def)

lemma name_recovered:
  assumes inv: "accounts_inv d" and n: "holds_name key dn u de d"
  shows "get_spark_username_by_pubkey dn key d =
      Some \<lparr>su_domain = dn, su_pubkey = key, su_username = u, su_description = de\<rparr>"
    and "\<exists>a. get_account_by_spark_pubkey key d = Some a"
proof -
  obtain ai s where ai: "ai \<in> set (account_identifiers d)" "ai_domain ai = dn" "ai_identifier ai = u"
      "ai_kind ai = Username" "ai_description ai = de"
    and s: "s \<in> set (spark_accounts d)" "sp_account_id s = ai_account_id ai" "sp_pubkey s = key"
    using n unfolding holds_name_def by blast
  obtain a where a: "get_account_by_id (sp_account_id s) d = Some a" "acc_provider a = Spark"
    using spark_owner_account [OF inv s(1)] by blast
  show "\<exists>a. get_account_by_spark_pubkey key d = Some a"
    using spark_by_pubkeyI [OF inv s(1)] a(1) s(3) by (simp add: get_account_by_spark_pubkey_def)
  have u: "unique_by sp_pubkey (spark_accounts d)" "unique_by ident_key (account_identifiers d)"
    "single_username (accounts d) (account_identifiers d)" "sp_account_id ` set (spark_accounts d) = account_ids Spark (accounts d)"
    using inv by (simp_all add: accounts_inv_defs spark_children_def)
  have owner: "sp_account_id s \<in> account_ids Spark (accounts d)" using u(4) s(1) by blast
  have same: "x = (s, ai)" if x: "x \<in> set (username_rows dn key d)" for x
  proof -
    obtain s' ai' where x': "x = (s', ai')" by (cases x)
    note el = x [unfolded x' username_rows_iff]
    have s': "s' = s" by (rule unique_byD [OF u(1)]) (use el s in simp_all)
    have "ai_identifier ai = ai_identifier ai'"
      by (rule single_usernameD [OF u(3) ai(1)]) (use el s s' ai owner in simp_all)
    then have "ai' = ai" by (intro unique_byD [OF u(2)]) (use el ai in \<open>simp_all add: ident_key_def\<close>)
    then show ?thesis using x' s' by simp
  qed
  have "(s, ai) \<in> set (username_rows dn key d)" using ai s owner by (simp add: username_rows_iff)
  then have "set (username_rows dn key d) = {(s, ai)}" using same by blast
  from sort_key_singletons [OF this] obtain ys where
    "sort_key (\<lambda>(s, ai). (- ai_updated_at ai, ai_identifier ai)) (username_rows dn key d) = (s, ai) # ys" by blast
  then show "get_spark_username_by_pubkey dn key d =
      Some \<lparr>su_domain = dn, su_pubkey = key, su_username = u, su_description = de\<rparr>"
    using ai s by (simp add: get_spark_username_eq)
qed

lemma deletion_possible:
  assumes inv: "accounts_inv d" and n: "holds_name key dn u de d" and c: "\<not> claimed c d"
  shows "\<exists>d'. delete_spark_registration now dn key u (Some c) d = Inr d' \<and> accounts_inv d' \<and>
    resolve_recipient_by_identifier dn u d' = Inr None"
proof -
  let ?d1 = "d\<lparr>used_signed_messages := used_signed_messages d @ claim_rows now (Some c)\<rparr>"
  have claim: "claim_or_refuse now (Some c) d = Inr ?d1" using c by (simp add: claim_or_refuse_iff)
  note inv1 = claim_or_refuse_inv [OF claim inv]
  obtain ai s where ai: "ai \<in> set (account_identifiers d)" "ai_domain ai = dn" "ai_identifier ai = u"
    and s: "s \<in> set (spark_accounts d)" "sp_account_id s = ai_account_id ai" "sp_pubkey s = key"
    using n unfolding holds_name_def by blast
  have key: "spark_by_pubkey key ?d1 = Some s"
    using spark_by_pubkeyI [OF inv s(1)] s(3) claim_or_refuse_lookup(3) [OF claim] by simp
  have "rows_affected (\<lambda>ai. ai_account_id ai = sp_account_id s \<and> ai_domain ai = dn \<and> ai_identifier ai = u)
      (account_identifiers ?d1) \<noteq> 0"
    using ai s(2) by (auto simp: table_simps)
  then obtain d' where ok: "delete_spark_registration now dn key u (Some c) d = Inr d'"
    and d': "d' = ?d1\<lparr>account_identifiers := delete_where (\<lambda>r. ai_account_id r = ai_account_id ai \<and>
      ai_domain r = ai_domain ai \<and> ai_identifier r = ai_identifier ai) (account_identifiers ?d1)\<rparr>"
    using ai s(2) by (simp add: delete_spark_registration_def claim key Let_def)
  note inv' = delete_spark_registration_inv [OF inv ok]
  have "identifier_row dn u d' = None"
    unfolding d' using identifier_row_deleted [OF inv1, of ai dn u] ai by (simp add: ident_key_def)
  then show ?thesis using ok inv' by (simp add: resolve_inv lookup_recipient_def)
qed

lemma unique_rows_affected:
  assumes "unique_by f t" "r \<in> set t" "P r" "\<And>x. x \<in> set t \<Longrightarrow> P x \<Longrightarrow> f x = f r"
  shows "rows_affected P t = 1"
proof -
  have "set (filter P t) = {r}" using assms unique_byD [OF assms(1)] by auto
  moreover have "distinct (filter P t)" using assms(1) by (simp add: unique_by_def distinct_map)
  ultimately show ?thesis using distinct_card [of "filter P t"] by (simp add: rows_affected_def)
qed

lemma destination_possible:
  assumes inv: "accounts_inv d" and fresh: "fresh \<notin> acc_id ` set (accounts d)"
  shows "\<exists>j d2. destination_account now fresh k d = Inr (j, d2)"
proof (cases "spark_by_pubkey k d")
  case None
  let ?d1 = "d\<lparr>accounts := accounts d @ [new_account_row fresh Spark now]\<rparr>"
  let ?d2 = "?d1\<lparr>spark_accounts := spark_accounts d @ [new_spark_row fresh k now]\<rparr>"
  have "fresh \<notin> sp_account_id ` set (spark_accounts d)"
    using inv not_child_of_missing(1) [OF fresh] by (simp add: accounts_inv_def)
  then have "insert_account (new_account_row fresh Spark now) d = Inr ?d1"
    "insert_spark_account (new_spark_row fresh k now) ?d1 = Inr ?d2"
    using fresh None by (simp_all add: insert_account_ok insert_spark_account_ok spark_by_pubkey_None)
  with None show ?thesis by (simp add: destination_account_def bind_res_def)
next
  case (Some s)
  with spark_owner_account [OF inv, of s] spark_by_pubkey_Some [OF Some] show ?thesis
    by (auto simp: destination_account_def)
qed

lemma transfer_possible:
  assumes inv: "accounts_inv d" and n: "holds_name key dn u de d"
    and r: "resolve_recipient_by_identifier dn u d = Inr (Some r)"
    and c: "\<not> claimed c d" and fresh: "fresh \<notin> acc_id ` set (accounts d)"
    and t: "tr_domain t = dn" "tr_identifier t = u" "tr_source_account_id t = rr_account_id r" "tr_claim t = Some c"
  shows "\<exists>d'. transfer_identifier now fresh t d = Inr d' \<and> accounts_inv d' \<and>
    holds_name (tr_destination_spark_pubkey t) dn u (tr_description t) d'"
proof -
  let ?d1 = "d\<lparr>used_signed_messages := used_signed_messages d @ claim_rows now (Some c)\<rparr>"
  have claim: "claim_or_refuse now (tr_claim t) d = Inr ?d1" using c t(4) by (simp add: claim_or_refuse_iff)
  note same = claim_or_refuse_lookup [OF claim] and inv1 = claim_or_refuse_inv [OF claim inv]
  obtain ai s where ai: "ai \<in> set (account_identifiers d)" "ai_domain ai = dn" "ai_identifier ai = u" "ai_kind ai = Username"
    and s: "s \<in> set (spark_accounts d)" "sp_account_id s = ai_account_id ai"
    using n unfolding holds_name_def by blast
  have row: "identifier_row dn u d = Some ai" using identifier_rowI [OF inv ai(1)] ai by simp
  have look: "lookup_recipient dn u d = Some (spark_recipient ai s)"
    using lookup_recipient_spark [OF inv ai(1) s] ai by simp
  have source: "rr_account_id r = ai_account_id ai" using r look by (auto simp: resolve_inv [OF inv] spark_recipient_def)
  have owned: "owned_by dn u (rr_account_id r) ?d1" by (simp add: owned_by_def same row source)
  have child: "spark_child (rr_account_id r) ?d1"
  proof -
    have "sp_account_id s \<in> account_ids Spark (accounts d)"
      using inv s(1) by (auto simp: accounts_inv_def spark_children_def)
    then show ?thesis by (simp add: spark_child_iff [OF inv1] source s(2))
  qed
  obtain j d2 where dest: "destination_account now fresh (tr_destination_spark_pubkey t) ?d1 = Inr (j, d2)"
    using destination_possible [OF inv1, of fresh now "tr_destination_spark_pubkey t"] fresh by auto
  note dest_ok = destination_account_ok [OF inv1 dest]
  have "rows_affected (\<lambda>ai. ai_domain ai = dn \<and> ai_identifier ai = u \<and> ai_account_id ai = rr_account_id r)
      (account_identifiers d2) = 1"
  proof (rule unique_rows_affected)
    show "unique_by ident_key (account_identifiers d2)" "ai \<in> set (account_identifiers d2)"
      using dest_ok inv ai(1) by (simp_all add: accounts_inv_defs)
  qed (use ai source in \<open>auto simp: ident_key_def\<close>)
  then obtain d' where mv: "move_identifier now dn u (rr_account_id r) j (tr_description t) d2 = Inr d'"
    by (simp add: move_identifier_def Let_def)
  have tail: "transfer_tail now fresh dn u (rr_account_id r) (tr_destination_spark_pubkey t) (tr_description t) ?d1 = Inr d'"
    by (simp add: transfer_tail_def dest bind_res_def mv)
  have ok: "transfer_identifier now fresh t d = Inr d'"
    using owned child tail by (simp add: transfer_identifier_eq claim [unfolded t(4)] t bind_res_def)
  note inv' = transfer_identifier_inv [OF inv ok]
  have "identifier_row dn u ?d1 = Some ai" by (simp add: same row)
  from transfer_tail_lookup [OF inv1 tail this source [symmetric]]
  have "holds_name (tr_destination_spark_pubkey t) dn u (tr_description t) d'" using ai(4) by (auto intro: holds_nameI)
  with ok inv' show ?thesis by blast
qed

lemma migrated_holds:
  assumes "holds_name key dn u de d"
  shows "holds_name key dn u de (set_spark_mode_enhanced_if_unset now k d)"
proof -
  let ?d = "set_spark_mode_enhanced_if_unset now k d"
  obtain ai s where ai: "ai \<in> set (account_identifiers d)" "ai_domain ai = dn" "ai_identifier ai = u"
      "ai_kind ai = Username" "ai_description ai = de"
    and s: "s \<in> set (spark_accounts d)" "sp_account_id s = ai_account_id ai" "sp_pubkey s = key"
    using assms unfolding holds_name_def by blast
  have "\<exists>s' \<in> set (spark_accounts ?d). sp_account_id s' = sp_account_id s \<and> sp_pubkey s' = sp_pubkey s"
    by (rule bexI [of _ "if sp_pubkey s = k \<and> sp_mode s = None then s\<lparr>sp_mode := Some Enhanced, sp_mode_source := Some Migration,
        sp_mode_updated_at := Some now, sp_updated_at := now\<rparr> else s"])
      (use s(1) in \<open>simp_all add: set_spark_mode_enhanced_if_unset_def update_where_def\<close>)
  then show ?thesis
    using ai s(2,3) unfolding holds_name_def by (auto simp: set_spark_mode_enhanced_if_unset_def)
qed

section \<open>Routes of a server that nothing disturbs\<close>

definition served_alone :: "('k, 's) env \<Rightarrow> bool" where
  "served_alone env \<longleftrightarrow> (\<forall>k d. ev_others env k d = d) \<and> (\<forall>k. ev_fault env k = Healthy)"

lemma bind_act_Inr: "m w = (Inr x, w1) \<Longrightarrow> bind_act m f w = f x w1"
  by (simp add: bind_act_def)

lemma lift_Inr: "lift (Inr x) w = (Inr x, w)"
  by (simp add: lift_def)

lemma ret_Inr: "ret x w = (Inr x, w)"
  by (simp add: ret_def)

lemma map_err_act_Inr: "m w = (Inr x, w1) \<Longrightarrow> map_err_act g m w = (Inr x, w1)"
  by (simp add: map_err_act_def map_err_def)

lemma read_alone:
  assumes "served_alone env" "f (sv_db w) = Inr x"
  shows "db_read env f w = (Inr x, tick w)"
  using assms by (simp add: served_alone_def db_read_def db_call_def)

lemma write_alone:
  assumes "served_alone env"
    and "run_op (ev_backend env) (uint (ev_now env (sv_step w))) (op (ev_fresh_id env (sv_step w))) (sv_db w) = (Inr (), d)"
  shows "db_write env op w = (Inr (), tick (w\<lparr>sv_db := d\<rparr>))"
  using assms by (simp add: served_alone_def db_write_def db_call_def)

lemma mode_alone:
  assumes "served_alone env"
  shows "stored_account_mode env key w = (Inr (Option.bind (get_spark_account_mode key (sv_db w)) sam_mode), tick w)"
  unfolding stored_account_mode_def
  by (subst bind_act_Inr [OF map_err_act_Inr [OF read_alone [OF assms refl]]]) (simp add: ret_Inr)

lemma check_timestamp_Inr:
  "timestamp_ok (ev_breez env) (ev_now env (sv_step w)) ts \<Longrightarrow> check_timestamp env ts w = (Inr (), tick w)"
  by (simp add: act_iff)

lemma verify_candidates_Inr:
  "verify_loop (ev_crypto env) pk sg cs = Some c \<Longrightarrow> verify_candidates env pk sg cs dn w = (Inr c, after_verify c w)"
  by (simp add: act_iff)

lemma spawn_Inr:
  "\<exists>w'. spawn_country_evidence_refresh env key mode headers w = (Inr (), w') \<and> sv_db w' = sv_db w \<and> sv_step w' = sv_step w"
  by (simp add: spawn_country_evidence_refresh_def)

lemma register_alone:
  assumes "served_alone env" "ev_spark_enabled env" "canonical_spark_username (rq_username p) = Inr u"
    "length (rq_description p) \<le> 255" "sanitize_domain env host = Inr dn"
    "parse_signed_request (ev_crypto env) pubkey (rq_signature p) = Inr (pk, sg)"
    "\<forall>k. timestamp_ok (ev_breez env) (ev_now env k) (rq_timestamp p)"
    "verify_loop (ev_crypto env) pk sg (register_candidates env dn u (rq_description p) (rq_timestamp p)) = Some c"
    "Option.bind (get_spark_account_mode (public_key_to_string (ev_crypto env) pk) (sv_db w)) sam_mode \<noteq> Some Anon"
    and ok: "\<And>now k. \<exists>d'. upsert_spark_registration now (ev_fresh_id env k) (registration_of env pk dn u c p) (sv_db w) = Inr d' \<and> Q d'"
  shows "\<exists>w'. register env host pubkey headers p w = (Inr (address_of dn u), w') \<and> Q (sv_db w')"
proof -
  let ?w1 = "tick (after_verify c (tick w))"
  obtain d' where d': "upsert_spark_registration (uint (ev_now env (sv_step ?w1))) (ev_fresh_id env (sv_step ?w1))
      (registration_of env pk dn u c p) (sv_db w) = Inr d'" "Q d'"
    using ok by blast
  let ?m = "Option.bind (get_spark_account_mode (public_key_to_string (ev_crypto env) pk) (sv_db w)) sam_mode"
  have wr: "map_err_act spark_registration_error (db_write env (\<lambda>fresh. Register fresh (registration_of env pk dn u c p))) ?w1 =
      (Inr (), tick (?w1\<lparr>sv_db := d'\<rparr>))"
    by (rule map_err_act_Inr, rule write_alone [OF assms(1)]) (use d'(1) in \<open>simp add: commit_def\<close>)
  obtain w' where sp: "spawn_country_evidence_refresh env (public_key_to_string (ev_crypto env) pk) ?m headers
      (tick (?w1\<lparr>sv_db := d'\<rparr>)) = ((Inr () :: api_error + unit), w')" "sv_db w' = d'"
    using spawn_Inr [of env "public_key_to_string (ev_crypto env) pk" ?m headers "tick (?w1\<lparr>sv_db := d'\<rparr>)"] by auto
  have "register env host pubkey headers p w = (Inr (address_of dn u), w')"
    unfolding register_def require_spark_provider_enabled_def canonical_spark_username_for_route_def validate_description_def
    using assms(2-9) sp(1)
    by (simp add: bind_act_Inr lift_Inr ret_Inr map_err_def check_timestamp_Inr verify_candidates_Inr
        mode_alone [OF assms(1)] wr)
  then show ?thesis using d'(2) sp(2) by blast
qed

lemma recover_alone:
  assumes "served_alone env" "sanitize_domain env host = Inr dn"
    "parse_signed_request (ev_crypto env) pubkey (vq_signature p) = Inr (pk, sg)"
    "\<forall>k. timestamp_ok (ev_breez env) (ev_now env k) (vq_timestamp p)"
    "verify_loop (ev_crypto env) pk sg (recover_candidates env dn pk pubkey (vq_timestamp p)) = Some c"
    and inv: "accounts_inv (sv_db w)" and n: "holds_name (public_key_to_string (ev_crypto env) pk) dn u de (sv_db w)"
  shows "\<exists>m w'. recover env host pubkey headers p w = (Inr \<lparr>rc_lnurl = Some (''lnurlp://'' @ dn @ ''/lnurlp/'' @ u),
      rc_lightning_address = Some (u @ ''@'' @ dn), rc_username = Some u, rc_description = Some de, rc_mode = m\<rparr>, w') \<and>
    sv_db w' = sv_db w"
proof -
  let ?key = "public_key_to_string (ev_crypto env) pk" and ?w1 = "tick (tick (after_verify c (tick w)))"
  let ?m = "Option.bind (get_spark_account_mode ?key (sv_db w)) sam_mode"
  obtain a where a: "get_account_by_spark_pubkey ?key (sv_db w) = Some a" using name_recovered(2) [OF inv n] by blast
  obtain w2 where sp: "spawn_country_evidence_refresh env ?key ?m headers ?w1 = ((Inr () :: api_error + unit), w2)" "sv_db w2 = sv_db w"
    using spawn_Inr [of env ?key ?m headers ?w1] by auto
  have user: "map_err_act storage_error (db_read env (\<lambda>d. Inr (get_spark_username_by_pubkey dn ?key d))) w2 =
      (Inr (Some \<lparr>su_domain = dn, su_pubkey = ?key, su_username = u, su_description = de\<rparr>), tick w2)"
    by (rule map_err_act_Inr, rule read_alone [OF assms(1)]) (simp add: sp(2) name_recovered(1) [OF inv n])
  have acct: "map_err_act storage_error (db_read env (\<lambda>d. Inr (get_account_by_spark_pubkey ?key d))) (after_verify c (tick w)) =
      (Inr (Some a), tick (after_verify c (tick w)))"
    by (rule map_err_act_Inr, rule read_alone [OF assms(1)]) (simp add: a)
  have "recover env host pubkey headers p w = (Inr \<lparr>rc_lnurl = Some (''lnurlp://'' @ dn @ ''/lnurlp/'' @ u),
      rc_lightning_address = Some (u @ ''@'' @ dn), rc_username = Some u, rc_description = Some de,
      rc_mode = map_option account_mode_as_str ?m\<rparr>, tick w2)"
    unfolding recover_def Let_def
    using assms(2-5) sp(1)
    by (simp add: bind_act_Inr lift_Inr check_timestamp_Inr verify_candidates_Inr acct
        mode_alone [OF assms(1)] user recover_answer_def)
  then show ?thesis using sp(2) by auto
qed

lemma unregister_alone:
  assumes "served_alone env" "ev_spark_enabled env" "canonical_spark_username (uq_username p) = Inr u"
    "sanitize_domain env host = Inr dn"
    "parse_signed_request (ev_crypto env) pubkey (uq_signature p) = Inr (pk, sg)"
    "\<forall>k. timestamp_ok (ev_breez env) (ev_now env k) (uq_timestamp p)"
    "verify_loop (ev_crypto env) pk sg
       [breez_v2 (bz_unregister (ev_breez env) dn u (uq_timestamp p)) Unregister_Route] = Some c"
    and ok: "\<And>now. \<exists>d'. delete_spark_registration now dn (public_key_to_string (ev_crypto env) pk) u
       (Some (statement_claim_of env pk dn c (uq_timestamp p))) (sv_db w) = Inr d' \<and> Q d'"
  shows "\<exists>w'. unregister env host pubkey p w = (Inr (), w') \<and> Q (sv_db w')"
proof -
  let ?key = "public_key_to_string (ev_crypto env) pk" and ?w1 = "tick (after_verify c (tick w))"
  obtain d' where d': "delete_spark_registration (uint (ev_now env (sv_step ?w1))) dn ?key u
      (Some (statement_claim_of env pk dn c (uq_timestamp p))) (sv_db w) = Inr d'" "Q d'"
    using ok by blast
  have wr: "map_err_act spark_unregister_error (db_write env (\<lambda>_. Unregister dn ?key u
      (Some (statement_claim_of env pk dn c (uq_timestamp p))))) ?w1 = (Inr (), tick (?w1\<lparr>sv_db := d'\<rparr>))"
    by (rule map_err_act_Inr, rule write_alone [OF assms(1)]) (use d'(1) in \<open>simp add: commit_def\<close>)
  have acct: "map_err_act storage_error (db_read env (\<lambda>d. Inr (get_account_by_spark_pubkey ?key d))) (after_verify c (tick w)) =
      (Inr (get_account_by_spark_pubkey ?key (sv_db w)), ?w1)"
    by (rule map_err_act_Inr, rule read_alone [OF assms(1)]) simp
  have "unregister env host pubkey p w = (Inr (), tick (?w1\<lparr>sv_db := d'\<rparr>))"
    unfolding unregister_def require_spark_provider_enabled_def canonical_spark_username_for_route_def
    using assms(2-7)
    by (simp add: bind_act_Inr lift_Inr ret_Inr map_err_def check_timestamp_Inr verify_candidates_Inr
        acct wr)
  then show ?thesis using d'(2) by auto
qed

lemma transfer_alone:
  assumes "served_alone env" "ev_spark_enabled env" "canonical_spark_username (tq_username p) = Inr u"
    "length (tq_description p) \<le> 255" "sanitize_domain env host = Inr dn"
    "parse_signed_request (ev_crypto env) (tq_from_pubkey p) (tq_from_signature p) = Inr (from_pk, from_sig)"
    "parse_signed_request (ev_crypto env) to_pubkey (tq_to_signature p) = Inr (to_pk, to_sig)"
    "tq_timestamp p = Some ts" "\<forall>k. timestamp_ok (ev_breez env) (ev_now env k) ts"
    "verify_loop (ev_crypto env) from_pk from_sig
       (fst (transfer_candidates env dn u from_pk to_pk (tq_description p) ts)) = Some c"
    "verify_loop (ev_crypto env) to_pk to_sig
       (snd (transfer_candidates env dn u from_pk to_pk (tq_description p) ts)) = Some c'"
    "from_pk \<noteq> to_pk"
    "Option.bind (get_spark_account_mode (public_key_to_string (ev_crypto env) to_pk) (sv_db w)) sam_mode \<noteq> Some Anon"
    "resolve_recipient_by_identifier dn u (sv_db w) = Inr (Some r)"
    "rr_spark_pubkey r = Some (public_key_to_string (ev_crypto env) from_pk)"
    and ok: "\<And>now k b. \<exists>d'. run_op b now (Transfer (ev_fresh_id env k)
         \<lparr>tr_domain = dn, tr_identifier = u, tr_source_account_id = rr_account_id r,
          tr_destination_spark_pubkey = public_key_to_string (ev_crypto env) to_pk, tr_description = tq_description p,
          tr_claim = Some (statement_claim_of env from_pk dn c ts)\<rparr>) (sv_db w) = (Inr (), d') \<and>
       (\<forall>now. Q (set_spark_mode_enhanced_if_unset now (public_key_to_string (ev_crypto env) to_pk) d'))"
  shows "\<exists>w'. transfer env host to_pubkey p w = (Inr (address_of dn u), w') \<and> Q (sv_db w')"
proof -
  let ?to = "public_key_to_string (ev_crypto env) to_pk" and ?w1 = "tick (after_verify c' (after_verify c (tick w)))"
  let ?t = "\<lparr>tr_domain = dn, tr_identifier = u, tr_source_account_id = rr_account_id r, tr_destination_spark_pubkey = ?to,
      tr_description = tq_description p, tr_claim = Some (statement_claim_of env from_pk dn c ts)\<rparr>"
  let ?w2 = "tick ?w1"
  obtain d' where d': "run_op (ev_backend env) (uint (ev_now env (sv_step ?w2))) (Transfer (ev_fresh_id env (sv_step ?w2)) ?t) (sv_db w) =
      (Inr (), d')" "\<And>now. Q (set_spark_mode_enhanced_if_unset now ?to d')"
    using ok by blast
  let ?w3 = "tick (?w2\<lparr>sv_db := d'\<rparr>)"
  have rd: "map_err_act spark_transfer_error (db_read env (resolve_recipient_by_identifier dn u)) ?w1 = (Inr (Some r), ?w2)"
    by (rule map_err_act_Inr, rule read_alone [OF assms(1)]) (simp add: assms(14))
  have wr: "map_err_act spark_transfer_error (db_write env (\<lambda>fresh. Transfer fresh ?t)) ?w2 = (Inr (), ?w3)"
    by (rule map_err_act_Inr, rule write_alone [OF assms(1)]) (use d'(1) in simp)
  have mig: "db_write env (\<lambda>_. MigrateMode ?to) ?w3 =
      (Inr (), tick (?w3\<lparr>sv_db := set_spark_mode_enhanced_if_unset (uint (ev_now env (sv_step ?w3))) ?to d'\<rparr>))"
    by (rule write_alone [OF assms(1)]) simp
  have ig: "ignore_err (db_write env (\<lambda>_. MigrateMode ?to)) ?w3 = (Inr () :: api_error + unit,
      tick (?w3\<lparr>sv_db := set_spark_mode_enhanced_if_unset (uint (ev_now env (sv_step ?w3))) ?to d'\<rparr>))"
    by (simp add: ignore_err_def mig)
  have "transfer env host to_pubkey p w = (Inr (address_of dn u),
      tick (?w3\<lparr>sv_db := set_spark_mode_enhanced_if_unset (uint (ev_now env (sv_step ?w3))) ?to d'\<rparr>))"
    unfolding transfer_def Let_def require_spark_provider_enabled_def canonical_spark_username_for_route_def validate_description_def
    using assms(2-13,15)
    by (simp add: bind_act_Inr lift_Inr ret_Inr map_err_def ok_or_def check_timestamp_Inr verify_candidates_Inr
        mode_alone [OF assms(1)] map_err_act_Inr rd wr ig)
  then show ?thesis using d'(2) by auto
qed

lemma available_alone:
  assumes "served_alone env" "canonical_spark_username (aq_username p) = Inr u" "sanitize_domain env host = Inr dn"
    "parse_signed_request (ev_crypto env) pubkey (aq_signature p) = Inr (pk, sg)"
    "\<forall>k. timestamp_ok (ev_breez env) (ev_now env k) (aq_timestamp p)"
    "verify_loop (ev_crypto env) pk sg [breez_v2 (bz_available (ev_breez env) dn
       (public_key_to_string (ev_crypto env) pk) u (aq_timestamp p)) Available_Route] = Some c"
    "resolve_recipient_by_identifier dn u (sv_db w) = Inr r"
  shows "fst (available_for_pubkey env host pubkey p w) = Inr (r = None)"
proof -
  have read: "map_err_act (\<lambda>_. internal_server_error) (db_read env (resolve_recipient_by_identifier dn u)) (after_verify c (tick w)) =
      (Inr r, tick (after_verify c (tick w)))"
    by (rule map_err_act_Inr, rule read_alone [OF assms(1)]) (simp add: assms(7))
  show ?thesis
    unfolding available_for_pubkey_def canonical_spark_username_for_route_def username_available_def
    using assms(2-6)
    by (simp add: bind_act_Inr lift_Inr ret_Inr map_err_def check_timestamp_Inr verify_candidates_Inr read)
qed

section \<open>What the client signs, the server accepts\<close>

text \<open>
  What is relied on of the libraries: encodings are read back, and the wallet verifies what a signer
  signed with its identity key.
\<close>

definition honest_sdk ::
  "('k, 's, 'g, 'w, 'p, 'n, 'c) spark_sdk \<Rightarrow> ('k, 's) crypto_lib \<Rightarrow> ('w, 'p) spark_client \<Rightarrow> bool" where
  "honest_sdk sdk lib client \<longleftrightarrow>
     (\<forall>b. hex_decode lib (hex_encode lib b) = Some b) \<and>
     (\<forall>sg. signature_from_der lib (sk_serialize_der sdk sg) = Some sg) \<and>
     (\<forall>k. parse_pubkey lib (public_key_to_string lib k) = Inr k) \<and>
     (\<forall>g k m sg. sk_get_identity_public_key sdk g = Inr k \<and> sk_sign_message_ecdsa sdk g (as_bytes m) = Inr sg \<longrightarrow>
        sk_verify_message sdk (sc_wallet client) m sg k = Inr ())"

lemma client_env_simps [simp]:
  "ev_breez (client_env sdk client env) = ev_breez env" "ev_now (client_env sdk client env) = ev_now env"
  "ev_spark_enabled (client_env sdk client env) = ev_spark_enabled env"
  "ev_fresh_id (client_env sdk client env) = ev_fresh_id env"
  "verify_message (ev_crypto (client_env sdk client env)) = verify_with_spark_client sdk client"
  "public_key_to_string (ev_crypto (client_env sdk client env)) = public_key_to_string (ev_crypto env)"
  "sha256_hash (ev_crypto (client_env sdk client env)) = sha256_hash (ev_crypto env)"
  "parse_signed_request (ev_crypto (client_env sdk client env)) = parse_signed_request (ev_crypto env)"
  "sanitize_domain (client_env sdk client env) = sanitize_domain env"
  "served_alone (client_env sdk client env) = served_alone env"
  by (simp_all add: client_env_def fun_eq_iff parse_signed_request_def parse_pubkey_def sanitize_domain_def
      served_alone_def)

definition signs_for ::
  "('k, 's, 'g, 'w, 'p, 'n, 'c) spark_sdk \<Rightarrow> ('w, 'p) spark_client \<Rightarrow> ('k, 's) env \<Rightarrow> 'k \<Rightarrow> string \<Rightarrow> string \<Rightarrow> bool" where
  "signs_for sdk client env k h m \<longleftrightarrow>
     (\<exists>sg. parse_signed_request (ev_crypto env) (public_key_to_string (ev_crypto env) k) h = Inr (k, sg) \<and>
        verify_with_spark_client sdk client m sg k)"

lemma test_identity_key:
  "test_identity sdk lib seed = Inr (g, pubkey) \<Longrightarrow>
     \<exists>k. sk_get_identity_public_key sdk g = Inr k \<and> pubkey = public_key_to_string lib k"
  by (auto simp: test_identity_def bind_res_Inr_iff map_err_def split: sum.splits)

lemma sign_hex_signs:
  assumes "honest_sdk sdk (ev_crypto env) client" "sk_get_identity_public_key sdk g = Inr k"
    "sign_hex sdk (ev_crypto env) g m = Inr h"
  shows "signs_for sdk client env k h m"
proof -
  obtain sg where sg: "sk_sign_message_ecdsa sdk g (as_bytes m) = Inr sg"
    "h = hex_encode (ev_crypto env) (sk_serialize_der sdk sg)"
    using assms(3) by (auto simp: sign_hex_def bind_res_Inr_iff map_err_def split: sum.splits)
  then have "parse_signed_request (ev_crypto env) (public_key_to_string (ev_crypto env) k) h = Inr (k, sg)"
    using assms(1) by (simp add: honest_sdk_def parse_signed_request_iff)
  moreover have "verify_with_spark_client sdk client m sg k"
    using assms(1,2) sg(1) by (simp add: honest_sdk_def verify_with_spark_client_def client_verify_message_def is_ok_def map_err_def)
  ultimately show ?thesis unfolding signs_for_def by blast
qed

text \<open>What the payloads hold.\<close>

lemma v2_payload_signs:
  assumes laws: "honest_sdk sdk (ev_crypto env) client"
    and p: "build_auth_payload sdk (ev_crypto env) u ts = Inr p"
    and q: "build_v2_auth_payload sdk (ev_crypto env) (ev_breez env) u ts dn de = Inr q"
  obtains k k' where "sa_pubkey p = public_key_to_string (ev_crypto env) k"
    "sa_to_pubkey p = public_key_to_string (ev_crypto env) k'"
    "signs_for sdk client env k (s2_available_signature q) (bz_available (ev_breez env) dn (sa_pubkey p) u ts)"
    "signs_for sdk client env k (s2_register_signature q) (bz_register (ev_breez env) dn u de ts)"
    "signs_for sdk client env k (s2_unregister_signature q) (bz_unregister (ev_breez env) dn u ts)"
    "signs_for sdk client env k (s2_recover_signature q) (bz_recover (ev_breez env) dn (sa_pubkey p) ts)"
    "signs_for sdk client env k (s2_metadata_signature q) (bz_metadata (ev_breez env) dn (sa_pubkey p) ts)"
    "signs_for sdk client env k' (s2_to_recover_signature q) (bz_recover (ev_breez env) dn (sa_to_pubkey p) ts)"
    "signs_for sdk client env k (s2_transfer_from_signature q)
       (bz_transfer_from (ev_breez env) dn u (sa_pubkey p) (sa_to_pubkey p) ts)"
    "signs_for sdk client env k' (s2_transfer_to_signature q)
       (bz_transfer_to (ev_breez env) dn u (sa_pubkey p) (sa_to_pubkey p) de ts)"
proof -
  obtain g pubkey g' pubkey' where g: "test_identity sdk (ev_crypto env) 42 = Inr (g, pubkey)"
    "test_identity sdk (ev_crypto env) 43 = Inr (g', pubkey')"
    and keys: "sa_pubkey p = pubkey" "sa_to_pubkey p = pubkey'"
    using p by (auto simp: build_auth_payload_def bind_res_Inr_iff Let_def)
  obtain k k' where k: "sk_get_identity_public_key sdk g = Inr k" "sk_get_identity_public_key sdk g' = Inr k'"
    "pubkey = public_key_to_string (ev_crypto env) k" "pubkey' = public_key_to_string (ev_crypto env) k'"
    using test_identity_key [OF g(1)] test_identity_key [OF g(2)] by blast
  note s = sign_hex_signs [OF laws k(1)] sign_hex_signs [OF laws k(2)]
  show thesis
    using q keys k(3,4) by (intro that [of k k']) (auto simp: build_v2_auth_payload_def bind_res_Inr_iff g intro!: s)
qed

lemma first_candidate:
  assumes "verify_with_spark_client sdk client m sg k"
  shows "verify_loop (ev_crypto (client_env sdk client env)) k sg (breez_v2 m r # cs) = Some (breez_v2 m r)"
  using assms by simp

section \<open>Properties\<close>

text \<open>C39: the client and the server agree. On a server that nothing disturbs, with its clock inside the window
  of the payload, the \<open>v2\<close> signatures of the client take a free name through its life: the registration
  succeeds, the recovery then gives back the name and the description, the name can be given up, and it is
  then available again. This holds whatever other names, keys and statements the database has, as long as no
  statement of the key for the domain has been used and the hash keeps the two claimed statements apart.\<close>

theorem client_lifecycle:
  assumes laws: "honest_sdk sdk (ev_crypto env) client"
    and built: "build_auth_payload sdk (ev_crypto env) u ts = Inr p"
      "build_v2_auth_payload sdk (ev_crypto env) (ev_breez env) u ts dn de = Inr q"
    and alone: "served_alone env" "ev_spark_enabled env" "\<forall>k. timestamp_ok (ev_breez env) (ev_now env k) ts"
    and names: "canonical_spark_username u = Inr u" "sanitize_domain env host = Inr dn" "length de \<le> 255"
    and db: "accounts_inv (sv_db w)" "resolve_recipient_by_identifier dn u (sv_db w) = Inr None"
      "\<forall>k. ev_fresh_id env k \<notin> acc_id ` set (accounts (sv_db w))"
      "Option.bind (get_spark_account_mode (sa_pubkey p) (sv_db w)) sam_mode \<noteq> Some Anon"
    and statements: "\<forall>m. sha256_hash (ev_crypto env) (statement_preimage (sa_pubkey p) dn m)
        \<notin> um_statement_hash ` set (used_signed_messages (sv_db w))"
      "sha256_hash (ev_crypto env) (statement_preimage (sa_pubkey p) dn (bz_register (ev_breez env) dn u de ts)) \<noteq>
       sha256_hash (ev_crypto env) (statement_preimage (sa_pubkey p) dn (bz_unregister (ev_breez env) dn u ts))"
  shows "let e = client_env sdk client env; key = sa_pubkey p;
      r = register e host key headers \<lparr>rq_username = u, rq_signature = s2_register_signature q,
        rq_timestamp = ts, rq_description = de\<rparr> w;
      v = recover e host key headers \<lparr>vq_signature = s2_recover_signature q, vq_timestamp = ts\<rparr> (snd r);
      x = unregister e host key \<lparr>uq_username = u, uq_signature = s2_unregister_signature q, uq_timestamp = ts\<rparr> (snd v);
      a = available_for_pubkey e host key \<lparr>aq_username = u, aq_signature = s2_available_signature q, aq_timestamp = ts\<rparr> (snd x)
    in fst r = Inr (address_of dn u) \<and>
       (\<exists>m. fst v = Inr \<lparr>rc_lnurl = Some (''lnurlp://'' @ dn @ ''/lnurlp/'' @ u),
          rc_lightning_address = Some (u @ ''@'' @ dn), rc_username = Some u, rc_description = Some de, rc_mode = m\<rparr>) \<and>
       fst x = Inr () \<and> fst a = Inr True"
proof (rule v2_payload_signs [OF laws built], goal_cases)
  case (1 k k')
  let ?e = "client_env sdk client env" and ?key = "public_key_to_string (ev_crypto env) k"
  obtain sg1 sg2 sg3 sg4 where sigs:
    "parse_signed_request (ev_crypto env) ?key (s2_register_signature q) = Inr (k, sg1)"
    "parse_signed_request (ev_crypto env) ?key (s2_recover_signature q) = Inr (k, sg2)"
    "parse_signed_request (ev_crypto env) ?key (s2_unregister_signature q) = Inr (k, sg3)"
    "parse_signed_request (ev_crypto env) ?key (s2_available_signature q) = Inr (k, sg4)"
    and ok: "verify_with_spark_client sdk client (bz_register (ev_breez env) dn u de ts) sg1 k"
    "verify_with_spark_client sdk client (bz_recover (ev_breez env) dn ?key ts) sg2 k"
    "verify_with_spark_client sdk client (bz_unregister (ev_breez env) dn u ts) sg3 k"
    "verify_with_spark_client sdk client (bz_available (ev_breez env) dn ?key u ts) sg4 k"
    using 1 unfolding signs_for_def by metis
  let ?p = "\<lparr>rq_username = u, rq_signature = s2_register_signature q, rq_timestamp = ts, rq_description = de\<rparr>"
  let ?c = "breez_v2 (bz_register (ev_breez env) dn u de ts) Register_Route"
  let ?c' = "breez_v2 (bz_unregister (ev_breez env) dn u ts) Unregister_Route"
  let ?reg = "registration_of ?e k dn u ?c ?p"
  let ?claim = "statement_claim_of ?e k dn ?c ts" and ?claim' = "statement_claim_of ?e k dn ?c' ts"
  let ?Q = "\<lambda>d. accounts_inv d \<and> holds_name ?key dn u de d \<and> \<not> claimed ?claim' d"
  have free: "identifier_row dn u (sv_db w) = None"
    using db(1,2) resolve_eq_lookup [OF db(1), of dn u] by simp
  have unused: "\<not> claimed (statement_claim_of ?e k dn c ts) (sv_db w)" for c
    using statements(1) 1(1) by (simp add: claimed_def statement_claim_of_def image_iff) metis
  have apart: "cl_statement_hash ?claim' \<noteq> cl_statement_hash ?claim"
    using statements(2) 1(1) by (simp add: statement_claim_of_def)
  have "\<exists>d'. upsert_spark_registration now (ev_fresh_id ?e j) ?reg (sv_db w) = Inr d' \<and> ?Q d'" for now j
    using registration_possible [OF db(1) free, of ?reg ?claim "ev_fresh_id env j" now] unused [of ?c] unused [of ?c'] apart db(3)
    by (fastforce simp: registration_of_def)
  from register_alone [of ?e ?p u host dn ?key k sg1 ?c w ?Q headers, OF _ _ _ _ _ _ _ _ _ this]
  obtain w1 where w1: "register ?e host ?key headers ?p w = (Inr (address_of dn u), w1)" "?Q (sv_db w1)"
    using alone names sigs(1) ok(1) db(4) 1(1) by (auto simp: register_candidates_def)
  let ?v = "\<lparr>vq_signature = s2_recover_signature q, vq_timestamp = ts\<rparr>"
  obtain m w2 where w2: "recover ?e host ?key headers ?v w1 = (Inr \<lparr>rc_lnurl = Some (''lnurlp://'' @ dn @ ''/lnurlp/'' @ u),
      rc_lightning_address = Some (u @ ''@'' @ dn), rc_username = Some u, rc_description = Some de, rc_mode = m\<rparr>, w2)"
    "sv_db w2 = sv_db w1"
    using recover_alone [of ?e host dn ?key ?v k sg2 "breez_v2 (bz_recover (ev_breez env) dn ?key ts) Recover_Route" w1 u de headers]
      alone names sigs(2) ok(2) w1(2) by (auto simp: recover_candidates_def)
  let ?x = "\<lparr>uq_username = u, uq_signature = s2_unregister_signature q, uq_timestamp = ts\<rparr>"
  have "\<exists>d'. delete_spark_registration now dn ?key u (Some ?claim') (sv_db w2) = Inr d' \<and>
      resolve_recipient_by_identifier dn u d' = Inr None" for now
    using deletion_possible [of "sv_db w2" ?key dn u de ?claim' now] w1(2) w2(2) by auto
  then obtain w3 where w3: "unregister ?e host ?key ?x w2 = (Inr (), w3)" "resolve_recipient_by_identifier dn u (sv_db w3) = Inr None"
    using unregister_alone [of ?e ?x u host dn ?key k sg3 ?c' w2 "\<lambda>d. resolve_recipient_by_identifier dn u d = Inr None"]
      alone names sigs(3) ok(3) by auto
  let ?a = "\<lparr>aq_username = u, aq_signature = s2_available_signature q, aq_timestamp = ts\<rparr>"
  have "fst (available_for_pubkey ?e host ?key ?a w3) = Inr True"
    using available_alone [of ?e ?a u host dn ?key k sg4 "breez_v2 (bz_available (ev_breez env) dn ?key u ts) Available_Route" w3 None]
      alone names sigs(4) ok(4) w3(2) by simp
  then show ?case using w1(1) w2(1) w3(1) 1(1) by (simp add: Let_def)
qed

text \<open>C40: the client and the server agree on transfers. When the first key of the client holds a name, the two
  \<open>v2\<close> signatures of its payload hand the name to the second key, on either backend, and the second key then
  recovers it with the description it signed. It is required that the statement has not been used and that
  the second key is not in anonymous mode; the second key may be new to the server.\<close>

theorem client_transfer:
  assumes laws: "honest_sdk sdk (ev_crypto env) client"
    and built: "build_auth_payload sdk (ev_crypto env) u ts = Inr p"
      "build_v2_auth_payload sdk (ev_crypto env) (ev_breez env) u ts dn de = Inr q"
    and alone: "served_alone env" "ev_spark_enabled env" "\<forall>k. timestamp_ok (ev_breez env) (ev_now env k) ts"
    and names: "canonical_spark_username u = Inr u" "sanitize_domain env host = Inr dn" "length de \<le> 255"
    and db: "accounts_inv (sv_db w)" "resolve_recipient_by_identifier dn u (sv_db w) = Inr (Some r)"
      "rr_spark_pubkey r = Some (sa_pubkey p)" "rr_kind r = Username" "sa_pubkey p \<noteq> sa_to_pubkey p"
      "\<forall>k. ev_fresh_id env k \<notin> acc_id ` set (accounts (sv_db w))"
      "Option.bind (get_spark_account_mode (sa_to_pubkey p) (sv_db w)) sam_mode \<noteq> Some Anon"
    and unused: "\<forall>m. sha256_hash (ev_crypto env) (statement_preimage (sa_pubkey p) dn m)
        \<notin> um_statement_hash ` set (used_signed_messages (sv_db w))"
  shows "let e = client_env sdk client env; to = sa_to_pubkey p;
      x = transfer e host to \<lparr>tq_username = u, tq_description = de, tq_from_pubkey = sa_pubkey p,
        tq_from_signature = s2_transfer_from_signature q, tq_to_signature = s2_transfer_to_signature q,
        tq_timestamp = Some ts\<rparr> w;
      v = recover e host to headers \<lparr>vq_signature = s2_to_recover_signature q, vq_timestamp = ts\<rparr> (snd x)
    in fst x = Inr (address_of dn u) \<and>
       (\<exists>m. fst v = Inr \<lparr>rc_lnurl = Some (''lnurlp://'' @ dn @ ''/lnurlp/'' @ u),
          rc_lightning_address = Some (u @ ''@'' @ dn), rc_username = Some u, rc_description = Some de, rc_mode = m\<rparr>)"
proof (rule v2_payload_signs [OF laws built], goal_cases)
  case (1 k k')
  let ?e = "client_env sdk client env"
  let ?from = "public_key_to_string (ev_crypto env) k" and ?to = "public_key_to_string (ev_crypto env) k'"
  obtain sg1 sg2 sg3 where sigs:
    "parse_signed_request (ev_crypto env) ?from (s2_transfer_from_signature q) = Inr (k, sg1)"
    "parse_signed_request (ev_crypto env) ?to (s2_transfer_to_signature q) = Inr (k', sg2)"
    "parse_signed_request (ev_crypto env) ?to (s2_to_recover_signature q) = Inr (k', sg3)"
    and ok: "verify_with_spark_client sdk client (bz_transfer_from (ev_breez env) dn u ?from ?to ts) sg1 k"
    "verify_with_spark_client sdk client (bz_transfer_to (ev_breez env) dn u ?from ?to de ts) sg2 k'"
    "verify_with_spark_client sdk client (bz_recover (ev_breez env) dn ?to ts) sg3 k'"
    using 1 unfolding signs_for_def by metis
  let ?p = "\<lparr>tq_username = u, tq_description = de, tq_from_pubkey = ?from, tq_from_signature = s2_transfer_from_signature q,
      tq_to_signature = s2_transfer_to_signature q, tq_timestamp = Some ts\<rparr>"
  let ?c = "breez_v2 (bz_transfer_from (ev_breez env) dn u ?from ?to ts) Transfer_Route"
  let ?c' = "breez_v2 (bz_transfer_to (ev_breez env) dn u ?from ?to de ts) Transfer_Route"
  let ?t = "\<lparr>tr_domain = dn, tr_identifier = u, tr_source_account_id = rr_account_id r,
      tr_destination_spark_pubkey = public_key_to_string (ev_crypto ?e) k', tr_description = tq_description ?p, tr_claim = Some (statement_claim_of ?e k dn ?c ts)\<rparr>"
  let ?Q = "\<lambda>d. accounts_inv d \<and> holds_name ?to dn u de d"
  have look: "lookup_recipient dn u (sv_db w) = Some r" using db(1,2) by (simp add: resolve_inv)
  have "rr_provider r = Spark"
    using look db(3) by (auto simp: lookup_recipient_def blink_recipient_def spark_recipient_def split: option.splits)
  then have n: "holds_name ?from dn u (rr_description r) (sv_db w)"
    using holds_nameI [OF look] db(3,4) 1(1) by simp
  have free: "\<not> claimed (statement_claim_of ?e k dn ?c ts) (sv_db w)"
    using unused 1(1) by (simp add: claimed_def statement_claim_of_def image_iff) metis
  have "\<exists>d'. run_op b now (Transfer (ev_fresh_id ?e j) ?t) (sv_db w) = (Inr (), d') \<and>
      (\<forall>now. ?Q (set_spark_mode_enhanced_if_unset now (public_key_to_string (ev_crypto ?e) k') d'))" for b now j
  proof -
    have fresh: "ev_fresh_id env j \<notin> acc_id ` set (accounts (sv_db w))" using db(6) by simp
    obtain d' where d': "transfer_identifier now (ev_fresh_id env j) ?t (sv_db w) = Inr d'" "accounts_inv d'"
      "holds_name ?to dn u de d'"
      using transfer_possible [OF db(1) n db(2) free fresh, of ?t now] by auto
    have "run_op b now (Transfer (ev_fresh_id ?e j) ?t) (sv_db w) = (Inr (), d')"
      using d'(1) transfer_identifier_backends [OF db(1), of now "ev_fresh_id env j" ?t] by (cases b) (simp_all add: commit_def)
    with d'(2,3) show ?thesis by (auto simp: set_spark_mode_enhanced_if_unset_inv migrated_holds simp del: run_op.simps)
  qed
  from transfer_alone [of ?e ?p u host dn k sg1 ?to k' sg2 ts ?c ?c' w r ?Q, OF _ _ _ _ _ _ _ _ _ _ _ _ _ _ _ this]
  obtain w1 where w1: "transfer ?e host ?to ?p w = (Inr (address_of dn u), w1)" "?Q (sv_db w1)"
    using alone names sigs(1,2) ok(1,2) db(2-5,7) 1(1,2) by (auto simp: transfer_candidates_def Let_def)
  let ?v = "\<lparr>vq_signature = s2_to_recover_signature q, vq_timestamp = ts\<rparr>"
  obtain m w2 where "recover ?e host ?to headers ?v w1 = (Inr \<lparr>rc_lnurl = Some (''lnurlp://'' @ dn @ ''/lnurlp/'' @ u),
      rc_lightning_address = Some (u @ ''@'' @ dn), rc_username = Some u, rc_description = Some de, rc_mode = m\<rparr>, w2)"
    using recover_alone [of ?e host dn ?to ?v k' sg3 "breez_v2 (bz_recover (ev_breez env) dn ?to ts) Recover_Route" w1 u de headers]
      alone names sigs(3) ok(3) w1(2) by (auto simp: recover_candidates_def)
  then show ?case using w1(1) 1(1,2) by (simp add: Let_def)
qed

section \<open>Instances\<close>

text \<open>An instance: a key is the first byte of its seed, and a signature is the key followed by the message.\<close>

definition plain_crypto :: "(bytes, bytes) crypto_lib" where
  "plain_crypto = demo_crypto\<lparr>hex_decode := \<lambda>s. Some (map (\<lambda>c. of_nat (code c)) s),
     public_key_to_string := \<lambda>k. map (\<lambda>x. char_of (unat x)) k\<rparr>"

definition plain_sdk :: "(bytes, bytes, bytes, unit, unit, unit, unit) spark_sdk" where
  "plain_sdk = \<lparr>sk_regtest = (), sk_default_config = (\<lambda>_. ()), sk_set_schema_endpoint = (\<lambda>_ _. ()),
     sk_signer_new = (\<lambda>seed _. Inr seed), sk_service_provider_new = (\<lambda>_ _. ()), sk_wallet_new = (\<lambda>_ _ _. Inr ()),
     sk_get_identity_public_key = (\<lambda>g. Inr (take 1 g)), sk_sign_message_ecdsa = (\<lambda>g m. Inr (take 1 g @ m)),
     sk_serialize_der = (\<lambda>sg. sg), sk_create_lightning_invoice = (\<lambda>_ _ _ _ _ _ _. Inr ''lnbc1''),
     sk_verify_message = (\<lambda>_ m sg k. if sg = k @ as_bytes m then Inr () else Inl ''invalid''),
     sk_register_wallet_webhook = (\<lambda>_ _ _ _ _. Inr ''id'')\<rparr>"

definition plain_client :: "(unit, unit) spark_client" where
  "plain_client = projr (client_new plain_sdk 0 \<lparr>cc_network = (), cc_auth_seed = replicate 32 7\<rparr>)"

definition plain_env :: "(bytes, bytes) env" where
  "plain_env = demo_env\<lparr>ev_crypto := plain_crypto\<rparr>"

definition alice_payload :: signed_v2_auth_payload where
  "alice_payload = projr (build_v2_auth_payload plain_sdk plain_crypto demo_breez ''alice'' 1000 ''x.org'' ''hi'')"

lemma plain_honest: "honest_sdk plain_sdk plain_crypto client"
proof -
  have "of_nat (code (char_of (unat x))) = x" for x :: "8 word"
  proof -
    have "unat x < 2 ^ LENGTH(8)" by (rule unsigned_less)
    then show ?thesis by simp
  qed
  then show ?thesis
    by (simp add: honest_sdk_def plain_sdk_def plain_crypto_def demo_crypto_def parse_pubkey_def ok_or_def
        bind_res_def comp_def)
qed

lemma plain_signs:
  "test_identity plain_sdk plain_crypto seed = Inr (replicate 32 seed, map (\<lambda>x. char_of (unat x)) [seed])"
  "sign_hex plain_sdk plain_crypto g m = Inr (hex_encode plain_crypto (take 1 g @ as_bytes m))"
  "bind_res (Inr x) f = f x"
  by (simp_all add: test_identity_def sign_hex_def plain_sdk_def bind_res_def map_err_def plain_crypto_def)

lemma alice_payload_built:
  "build_v2_auth_payload plain_sdk plain_crypto demo_breez ''alice'' 1000 ''x.org'' ''hi'' = Inr alice_payload"
proof -
  have "\<not> isl (build_v2_auth_payload plain_sdk plain_crypto demo_breez ''alice'' 1000 ''x.org'' ''hi'')"
    by (simp add: build_v2_auth_payload_def plain_signs)
  then show ?thesis unfolding alice_payload_def by (rule sum.collapse(2) [symmetric])
qed

lemma plain_env_simps:
  "ev_crypto plain_env = plain_crypto" "ev_breez plain_env = demo_breez" "served_alone plain_env"
  "ev_spark_enabled plain_env" "ev_now plain_env k = 1000" "sha256_hash plain_crypto b = b"
  "timestamp_ok demo_breez 1000 1000"
  by (simp_all add: plain_env_def demo_env_def served_alone_def plain_crypto_def demo_crypto_def timestamp_ok_def
      demo_breez_def u64_abs_diff_def)

text \<open>The name of an instance that the first key holds already.\<close>

definition held_registration :: new_spark_registration where
  "held_registration = \<lparr>nr_account_id = None, nr_pubkey = ''*'',
     nr_identifier = \<lparr>ni_domain = ''x.org'', ni_identifier = ''alice'', ni_kind = Username, ni_description = ''old''\<rparr>,
     nr_claim = None\<rparr>"

definition held_db :: db where
  "held_db = projr (upsert_spark_registration 1 ''a1'' held_registration empty_db)"

lemma held_registered: "upsert_spark_registration 1 ''a1'' held_registration empty_db = Inr held_db"
proof -
  have "\<not> isl (upsert_spark_registration 1 ''a1'' held_registration empty_db)" by code_simp
  then show ?thesis unfolding held_db_def by (rule sum.collapse(2) [symmetric])
qed

lemma alice_keys:
  "\<exists>p. build_auth_payload plain_sdk plain_crypto ''alice'' 1000 = Inr p \<and> sa_pubkey p = ''*'' \<and> sa_to_pubkey p = ''+''"
proof -
  have "map (\<lambda>x. char_of (unat x)) [42 :: 8 word] = ''*''" "map (\<lambda>x. char_of (unat x)) [43 :: 8 word] = ''+''" by code_simp+
  then show ?thesis by (simp add: build_auth_payload_def plain_signs Let_def)
qed

lemma plain_names:
  "canonical_spark_username ''alice'' = Inr ''alice''" "sanitize_domain plain_env ''X.org'' = Inr ''x.org''"
  by code_simp+

theorem client_lifecycle_witness:
  "let e = client_env plain_sdk plain_client plain_env;
     r = register e ''X.org'' ''*'' (\<lambda>_. None) \<lparr>rq_username = ''alice'',
       rq_signature = s2_register_signature alice_payload, rq_timestamp = 1000, rq_description = ''hi''\<rparr> demo_server;
     v = recover e ''X.org'' ''*'' (\<lambda>_. None) \<lparr>vq_signature = s2_recover_signature alice_payload, vq_timestamp = 1000\<rparr> (snd r)
   in fst r = Inr (address_of ''x.org'' ''alice'') \<and> (\<exists>y. fst v = Inr y \<and> rc_username y = Some ''alice'')"
proof -
  obtain p where p: "build_auth_payload plain_sdk plain_crypto ''alice'' 1000 = Inr p" "sa_pubkey p = ''*''"
    using alice_keys by blast
  have apart: "statement_preimage ''*'' ''x.org'' (bz_register demo_breez ''x.org'' ''alice'' ''hi'' 1000) \<noteq>
      statement_preimage ''*'' ''x.org'' (bz_unregister demo_breez ''x.org'' ''alice'' 1000)"
    by code_simp
  have db: "sv_db demo_server = empty_db" by (simp add: demo_server_def)
  have empty: "resolve_recipient_by_identifier ''x.org'' ''alice'' empty_db = Inr None"
    "accounts empty_db = []" "used_signed_messages empty_db = []" "get_spark_account_mode ''*'' empty_db = None"
    by code_simp+
  note facts = client_lifecycle [of plain_sdk plain_env plain_client "''alice''" 1000 p "''x.org''" "''hi''" alice_payload
      "''X.org''" demo_server "\<lambda>_. None", unfolded plain_env_simps p(2) db empty, OF plain_honest p(1) alice_payload_built]
  show ?thesis
    using facts plain_names apart accounts_inv_empty
    by (auto simp: plain_env_simps Let_def)
qed

theorem client_transfer_witness:
  "let e = client_env plain_sdk plain_client plain_env;
     x = transfer e ''X.org'' ''+'' \<lparr>tq_username = ''alice'', tq_description = ''hi'', tq_from_pubkey = ''*'',
       tq_from_signature = s2_transfer_from_signature alice_payload, tq_to_signature = s2_transfer_to_signature alice_payload,
       tq_timestamp = Some 1000\<rparr> (demo_server\<lparr>sv_db := held_db\<rparr>);
     v = recover e ''X.org'' ''+'' (\<lambda>_. None) \<lparr>vq_signature = s2_to_recover_signature alice_payload, vq_timestamp = 1000\<rparr> (snd x)
   in fst x = Inr (address_of ''x.org'' ''alice'') \<and> (\<exists>y. fst v = Inr y \<and> rc_description y = Some ''hi'')"
proof -
  obtain p where p: "build_auth_payload plain_sdk plain_crypto ''alice'' 1000 = Inr p" "sa_pubkey p = ''*''" "sa_to_pubkey p = ''+''"
    using alice_keys by blast
  have inv: "accounts_inv held_db" by (rule upsert_spark_registration_inv [OF accounts_inv_empty held_registered])
  let ?r = "resolve_recipient_by_identifier ''x.org'' ''alice'' held_db"
  have "\<not> isl ?r" "projr ?r \<noteq> None" "rr_spark_pubkey (the (projr ?r)) = Some ''*''" "rr_kind (the (projr ?r)) = Username"
    by code_simp+
  then obtain r where r: "?r = Inr (Some r)" "rr_spark_pubkey r = Some ''*''" "rr_kind r = Username"
    by (cases ?r) auto
  have held: "used_signed_messages held_db = []" "get_spark_account_mode ''+'' held_db = None"
    "acc_id ` set (accounts held_db) = {''a1''}"
    by code_simp+
  have fresh: "\<forall>k. ev_fresh_id plain_env k \<notin> {''a1''}" by (simp add: plain_env_def demo_env_def)
  have db: "sv_db (demo_server\<lparr>sv_db := held_db\<rparr>) = held_db" by simp
  note facts = client_transfer [of plain_sdk plain_env plain_client "''alice''" 1000 p "''x.org''" "''hi''" alice_payload
      "''X.org''" "demo_server\<lparr>sv_db := held_db\<rparr>" r "\<lambda>_. None",
      unfolded plain_env_simps p(2,3) db held, OF plain_honest p(1) alice_payload_built]
  show ?thesis
    using facts plain_names inv r fresh by (auto simp: plain_env_simps Let_def)
qed

end
