(* ===== verification/Lnurl_System.thy ===== *)
theory Lnurl_System
  imports Lnurl_Startup Lnurl_Account_Routes_Thms Lnurl_Pay_Thms Lnurl_Internal_Thms
begin

text \<open>
  The running server: the routes as \<open>main.rs\<close> mounts them, with the certificate check in front of those
  it is in front of, and everything the program runs beside them, the refresh of country evidence, the
  pruner, the drain of zap receipts, the webhook processor and the refresh of the domains, as one step
  relation on one state.
\<close>

section \<open>Routes\<close>

text \<open>A request as the router dispatches it. A task the server spawned itself is no route.\<close>

datatype route =
    ManageRoute account_request
  | AvailableRoute string string
  | AvailableForPubkeyRoute string string available_request
  | DiscoverRoute string string
  | PayRoute pay_request
  | InternalRoute internal_request
  | HealthRoute

fun mounted :: "route \<Rightarrow> bool" where
  "mounted (ManageRoute (SpawnedTask t)) = False"
| "mounted _ = True"

text \<open>
  The routes added before \<open>route_layer\<close>. The internal routes are among them too, and check their token
  after the certificate.
\<close>

fun certified_payment :: "pay_request \<Rightarrow> bool" where
  "certified_payment (InvoicePaidReq k q) = True"
| "certified_payment (InvoicesPaidReq k q) = True"
| "certified_payment (ZapReceiptReq k h q) = True"
| "certified_payment _ = False"

fun certified :: "route \<Rightarrow> bool" where
  "certified (DiscoverRoute host identifier) = False"
| "certified (PayRoute q) = certified_payment q"
| "certified HealthRoute = False"
| "certified _ = True"

text \<open>The third-party code a running server uses besides that of its environment.\<close>

record ('c, 'd, 'p) libraries =
  li_tokens :: "('c, 'd) token_lib"
  li_phones :: "'p phone_lib"
  li_ssp_payload :: "bytes \<Rightarrow> ssp_webhook_payload option"

fun handle_route ::
  "('c, 'd, 'p) libraries \<Rightarrow> 'd app \<Rightarrow> ('k, 's) env \<Rightarrow> header_map \<Rightarrow> route \<Rightarrow> server \<Rightarrow> server" where
  "handle_route lib app env headers (ManageRoute q) w = snd (serve env q w)"
| "handle_route lib app env headers (AvailableRoute host identifier) w = snd (available env host identifier w)"
| "handle_route lib app env headers (AvailableForPubkeyRoute host pubkey q) w = snd (available_for_pubkey env host pubkey q w)"
| "handle_route lib app env headers (DiscoverRoute host identifier) w =
     snd (handle_lnurl_pay env (li_phones lib) host identifier w)"
| "handle_route lib app env headers (PayRoute q) w = serve_pay env (li_phones lib) (li_ssp_payload lib) q w"
| "handle_route lib app env headers (InternalRoute q) w =
     snd (serve_internal (li_tokens lib) env (li_phones lib) (ap_ca_cert app) (ap_crl app) (ap_internal_auth app) headers q w)"
| "handle_route lib app env headers HealthRoute w = w"

definition serve_route ::
  "('c, 'd, 'p) libraries \<Rightarrow> 'd app \<Rightarrow> ('k, 's) env \<Rightarrow> header_map \<Rightarrow> route \<Rightarrow> server \<Rightarrow> server" where
  "serve_route lib app env headers r w =
     (if certified r \<and> auth (li_tokens lib) (ap_ca_cert app) (ap_crl app) False headers \<noteq> Inr () then w
      else handle_route lib app env headers r w)"

section \<open>The server and its background loops\<close>

record system =
  sy_server :: server
  sy_processor :: webhook_processor
  sy_domains :: "string list"

text \<open>What the routes run in: the environment that startup prepared, with the domains last refreshed.\<close>

definition live_env :: "('k, 's) env \<Rightarrow> 'd app \<Rightarrow> system \<Rightarrow> ('k, 's) env" where
  "live_env env app s = (started_env env app)\<lparr>ev_domains := sy_domains s\<rparr>"

definition started_system :: "'d app \<Rightarrow> server \<Rightarrow> system" where
  "started_system app w = \<lparr>sy_server = w, sy_processor = ap_processor app, sy_domains = ap_domains app\<rparr>"

text \<open>A task of the account routes, taken from those that wait.\<close>

definition run_waiting :: "('k, 's) env \<Rightarrow> nat \<Rightarrow> server \<Rightarrow> server" where
  "run_waiting env i w = snd (run_spawned env (sv_spawned w ! i)
     (w\<lparr>sv_spawned := take i (sv_spawned w) @ drop (Suc i) (sv_spawned w)\<rparr>))"

text \<open>
  A step handles one request, which it records, or is a turn of one of the loops, which come in any
  order. Others, requests handled at the same time included, may change the database at every call
  of a step (\<^const>\<open>ev_others\<close>).
\<close>

inductive system_step ::
  "('c, 'd, 'p) libraries \<Rightarrow> 'd app \<Rightarrow> ('k, 's) env \<Rightarrow> system \<Rightarrow> (header_map \<times> route) list \<Rightarrow> system \<Rightarrow> bool"
  for lib app env where
  request: "mounted r \<Longrightarrow> system_step lib app env s [(headers, r)]
     (s\<lparr>sy_server := serve_route lib app (live_env env app s) headers r (sy_server s)\<rparr>)"
| spawned: "i < length (sv_spawned (sy_server s)) \<Longrightarrow> system_step lib app env s []
     (s\<lparr>sy_server := run_waiting (live_env env app s) i (sy_server s)\<rparr>)"
| prune: "system_step lib app env s [] (s\<lparr>sy_server := prune_round (live_env env app s) (sy_server s)\<rparr>)"
| receipts: "system_step lib app env s [] (s\<lparr>sy_server :=
     snd (receipt_round (live_env env app s) (pc_nostr_keys (ap_config app)) (sy_server s))\<rparr>)"
| processor: "processor_step (live_env env app s) (ap_delivery_ttl_ms app) (sy_processor s, sy_server s) (p, w) \<Longrightarrow>
     system_step lib app env s [] (s\<lparr>sy_server := w, sy_processor := p\<rparr>)"
| domains: "refresh_domains (live_env env app s) (set (sy_domains s)) (sy_server s) = (set ds, w) \<Longrightarrow>
     system_step lib app env s [] (s\<lparr>sy_server := w, sy_domains := ds\<rparr>)"

inductive system_run ::
  "('c, 'd, 'p) libraries \<Rightarrow> 'd app \<Rightarrow> ('k, 's) env \<Rightarrow> system \<Rightarrow> (header_map \<times> route) list \<Rightarrow> system \<Rightarrow> bool"
  for lib app env where
  idle: "system_run lib app env s [] s"
| more: "system_run lib app env s rs s1 \<Longrightarrow> system_step lib app env s1 qs s2 \<Longrightarrow> system_run lib app env s (rs @ qs) s2"

end
