(* ===== verification/Lnurl_Ownership.thy ===== *)
theory Lnurl_Ownership
  imports Lnurl_Accounts_Props
begin

text \<open>
  Who a name belongs to, across operations: a name that pays a Spark key goes on paying it until an
  operation of a few named forms is run. The whole server's guarantee rests on this.
\<close>

section \<open>A name that pays a key\<close>

definition spark_key :: "spark_account \<Rightarrow> string \<times> string" where
  "spark_key s = (sp_account_id s, sp_pubkey s)"

definition pays :: "string \<Rightarrow> string \<Rightarrow> string \<Rightarrow> string \<Rightarrow> db \<Rightarrow> bool" where
  "pays dn u i key d \<longleftrightarrow> accounts_inv d \<and>
     (i, dn, u) \<in> ident_pk ` set (account_identifiers d) \<and> (i, key) \<in> spark_key ` set (spark_accounts d)"

text \<open>
  The operations by which it may stop: a registration of another name by the same key, the deletion or
  the transfer of the name, and a transfer of another name to the key, which may hold one only. A
  registration is also suspect when it names its account, or draws the id of this one.
\<close>

fun releases :: "string \<Rightarrow> string \<Rightarrow> string \<Rightarrow> string \<Rightarrow> account_op \<Rightarrow> bool" where
  "releases dn u i key (Register fresh reg) =
     (nr_account_id reg \<noteq> None \<or> fresh = i \<or>
      nr_pubkey reg = key \<and> ni_domain (nr_identifier reg) = dn \<and> ni_identifier (nr_identifier reg) \<noteq> u)"
| "releases dn u i key (Unregister dm k v cl) = (dm = dn \<and> v = u \<and> k = key)"
| "releases dn u i key (Transfer fresh t) =
     (tr_domain t = dn \<and> (if tr_identifier t = u then tr_source_account_id t = i
        else tr_destination_spark_pubkey t = key))"
| "releases dn u i key (TransferBlink fresh t) =
     (bt_domain t = dn \<and> bt_identifier t \<noteq> u \<and> bt_destination_spark_pubkey t = key)"
| "releases dn u i key _ = False"

lemma paysI:
  "accounts_inv d' \<Longrightarrow> pays dn u i key d \<Longrightarrow> (i, dn, u) \<in> ident_pk ` set (account_identifiers d') \<Longrightarrow>
     (i, key) \<in> spark_key ` set (spark_accounts d') \<Longrightarrow> pays dn u i key d'"
  by (simp add: pays_def)

lemma pays_inv: "pays dn u i key d \<Longrightarrow> accounts_inv d"
  by (simp add: pays_def)

lemma pays_key:
  assumes "pays dn u i key d" "s \<in> set (spark_accounts d)"
  shows "sp_account_id s = i \<longleftrightarrow> sp_pubkey s = key"
proof -
  obtain r where r: "r \<in> set (spark_accounts d)" "sp_account_id r = i" "sp_pubkey r = key"
    using assms(1) by (auto simp: pays_def spark_key_def)
  have "unique_by sp_account_id (spark_accounts d)" "unique_by sp_pubkey (spark_accounts d)"
    using assms(1) by (simp_all add: pays_def accounts_inv_defs)
  with r assms(2) show ?thesis by (metis unique_byD)
qed

lemma pays_found: "pays dn u i key d \<Longrightarrow> spark_by_pubkey k d = Some s \<Longrightarrow> sp_account_id s = i \<longleftrightarrow> k = key"
  using pays_key spark_by_pubkey_Some by metis

lemma pays_resolves:
  assumes "pays dn u i key d"
  shows "\<exists>r. resolve_recipient_by_identifier dn u d = Inr (Some r) \<and> rr_account_id r = i \<and>
    rr_provider r = Spark \<and> rr_spark_pubkey r = Some key"
proof -
  obtain ai s where ai: "ai \<in> set (account_identifiers d)" "ai_account_id ai = i" "ai_domain ai = dn" "ai_identifier ai = u"
    and s: "s \<in> set (spark_accounts d)" "sp_account_id s = i" "sp_pubkey s = key"
    using assms by (auto simp: pays_def spark_key_def ident_pk_def)
  note inv = pays_inv [OF assms]
  have "lookup_recipient dn u d = Some (spark_recipient ai s)"
    using lookup_recipient_spark [OF inv ai(1) s(1)] ai s by simp
  with ai(2) s(3) show ?thesis by (simp add: resolve_inv [OF inv] spark_recipient_def)
qed

lemma resolves_pays:
  assumes inv: "accounts_inv d" and r: "resolve_recipient_by_identifier dn u d = Inr (Some r)" "rr_spark_pubkey r = Some key"
  shows "pays dn u (rr_account_id r) key d"
proof -
  have "lookup_recipient dn u d = Some r" using r(1) by (simp add: resolve_inv [OF inv])
  then obtain ai where ai: "identifier_row dn u d = Some ai" and l: "(case (spark_row (ai_account_id ai) d,
      blink_child_row (ai_account_id ai) d) of (Some s, _) \<Rightarrow> Some (spark_recipient ai s)
           | (None, Some b) \<Rightarrow> Some (blink_recipient ai b) | (None, None) \<Rightarrow> None) = Some r"
    by (auto simp: lookup_recipient_def split: option.splits)
  obtain s where s: "spark_row (ai_account_id ai) d = Some s" "r = spark_recipient ai s"
    using l r(2) by (auto simp: blink_recipient_def split: option.splits)
  have "s \<in> set (spark_accounts d)" "sp_account_id s = ai_account_id ai"
    using s(1) fetch_optional_SomeD unfolding spark_row_def by fastforce+
  with inv r(2) s(2) identifier_row_Some [OF ai] show ?thesis
    by (auto simp: pays_def spark_recipient_def ident_pk_def spark_key_def intro!: rev_image_eqI)
qed

section \<open>Each operation\<close>

lemma pays_claims: "claim_or_refuse now cl d = Inr d1 \<Longrightarrow> pays dn u i key d \<Longrightarrow> pays dn u i key d1"
  using claim_or_refuse_inv by (auto simp: pays_def dest: claim_or_refuse_ok(1))

text \<open>A row that no deletion hits keeps its key in the table.\<close>

lemma kept_pk:
  assumes "(i, dn, u) \<in> ident_pk ` set t" "\<And>ai. ident_pk ai = (i, dn, u) \<Longrightarrow> \<not> P ai"
  shows "(i, dn, u) \<in> ident_pk ` set (delete_where P t)"
  using assms by auto

lemma pays_register:
  assumes p: "pays dn u i key d" and ok: "upsert_spark_registration now fresh reg d = Inr d'"
    and r: "\<not> releases dn u i key (Register fresh reg)"
  shows "pays dn u i key d'"
  using ok
proof (rule upsert_spark_registration_ok)
  fix d1 j
  let ?n = "nr_identifier reg"
  assume d1: "claim_or_refuse now (nr_claim reg) d = Inr d1" and j: "j = registration_account_id fresh reg d1"
    and d': "d' = write_registration now j reg d1"
  have p1: "pays dn u i key d1" by (rule pays_claims [OF d1 p])
  have key: "nr_pubkey reg = key" if "j = i"
  proof (cases "spark_by_pubkey (nr_pubkey reg) d1")
    case None
    have "nr_account_id reg = None" "fresh \<noteq> i" using r by simp_all
    then have "j \<noteq> i" by (simp add: j registration_account_id_def None)
    with that show ?thesis by simp
  next
    case (Some s)
    have "nr_account_id reg = None" using r by simp
    then have "sp_account_id s = i" using that by (simp add: j registration_account_id_def Some)
    with pays_found [OF p1 Some] show ?thesis by simp
  qed
  have "(i, dn, u) \<in> ident_pk ` set (registered_identifiers now j ?n (account_identifiers d1))"
    unfolding registered_identifiers_def identifier_table.keys_upsert
    using p1 key r by (intro insertI2 kept_pk) (auto simp: pays_def ident_pk_def)
  moreover have "(i, key) \<in> spark_key ` set (upsert_on sp_account_id merge_spark (new_spark_row j (nr_pubkey reg) now) (spark_accounts d1))"
  proof (cases "j = i")
    case True
    then have "j \<in> sp_account_id ` set (upsert_on sp_account_id merge_spark (new_spark_row j (nr_pubkey reg) now) (spark_accounts d1))"
      by (simp add: spark_table.keys_upsert)
    then obtain s where s: "s \<in> set (upsert_on sp_account_id merge_spark (new_spark_row j (nr_pubkey reg) now) (spark_accounts d1))"
      "sp_account_id s = j" by auto
    have "s = new_spark_row j (nr_pubkey reg) now \<or> (\<exists>x. s = merge_spark x (new_spark_row j (nr_pubkey reg) now))"
      using spark_table.row_upsert [OF s(1)] s(2) new_rows_simps by metis
    then have "sp_pubkey s = nr_pubkey reg" by (elim disjE exE) (simp_all add: merge_spark_def)
    with s True key show ?thesis by (auto simp: spark_key_def intro!: rev_image_eqI)
  next
    case False
    obtain s where "s \<in> set (spark_accounts d1)" "spark_key s = (i, key)" using p1 by (auto simp: pays_def)
    with False spark_table.kept_upsert [of s "spark_accounts d1" "new_spark_row j (nr_pubkey reg) now"]
    show ?thesis by (auto simp: spark_key_def intro!: rev_image_eqI)
  qed
  ultimately show ?thesis
    using upsert_spark_registration_inv [OF pays_inv [OF p] ok] by (simp add: pays_def d' write_registration_eq)
qed

lemma pays_unregister:
  assumes p: "pays dn u i key d" and ok: "delete_spark_registration now dm k v cl d = Inr d'"
    and r: "\<not> releases dn u i key (Unregister dm k v cl)"
  shows "pays dn u i key d'"
  using ok
proof (rule delete_spark_registration_ok)
  fix d1 and s :: spark_account
  let ?P = "\<lambda>ai. ai_account_id ai = sp_account_id s \<and> ai_domain ai = dm \<and> ai_identifier ai = v"
  assume d1: "claim_or_refuse now cl d = Inr d1" and s: "spark_by_pubkey k d1 = Some s"
    and d': "d' = d1\<lparr>account_identifiers := delete_where ?P (account_identifiers d1)\<rparr>"
  have p1: "pays dn u i key d1" by (rule pays_claims [OF d1 p])
  have "(i, dn, u) \<in> ident_pk ` set (delete_where ?P (account_identifiers d1))"
    using p1 r pays_found [OF p1 s] by (intro kept_pk) (auto simp: pays_def ident_pk_def)
  with p1 show ?thesis
    using delete_spark_registration_inv [OF pays_inv [OF p] ok] by (simp add: pays_def d')
qed

lemma pays_add_account:
  "(i, key) \<in> spark_key ` set (spark_accounts d) \<Longrightarrow> (i, key) \<in> spark_key ` set (spark_accounts d @ ss)"
  by auto

lemma pays_tail:
  assumes p: "pays dn u i key d" and ok: "transfer_tail now fresh dm v source k de d = Inr d'"
    and move: "\<not> (dm = dn \<and> v = u \<and> source = i)" and drop: "\<not> (dm = dn \<and> v \<noteq> u \<and> k = key)"
  shows "pays dn u i key d'"
proof -
  obtain j d2 where d2: "destination_account now fresh k d = Inr (j, d2)"
    and mv: "move_identifier now dm v source j de d2 = Inr d'"
    using ok by (auto simp: transfer_tail_def bind_res_Inr_iff)
  note dest = destination_account_ok [OF pays_inv [OF p] d2]
  have sp: "(i, key) \<in> spark_key ` set (spark_accounts d2)"
    using pays_inv [OF p] d2
    by (cases rule: destination_account_cases) (use p in \<open>auto simp: pays_def\<close>)
  then have p2: "pays dn u i key d2" using p dest by (simp add: pays_def)
  have d': "d' = d2\<lparr>account_identifiers := moved_identifiers now dm v source j de (account_identifiers d2)\<rparr>"
    by (rule move_identifier_ok [OF mv])
  obtain s where s: "spark_by_pubkey k d2 = Some s" "sp_account_id s = j" using dest by auto
  have j: "j = i \<longleftrightarrow> k = key" using pays_found [OF p2 s(1)] s(2) by simp
  obtain ai where ai: "ai \<in> set (account_identifiers d2)" "ident_pk ai = (i, dn, u)"
    using p2 by (auto simp: pays_def)
  then have "ai \<in> set (moved_identifiers now dm v source j de (account_identifiers d2))"
    using move drop j by (auto simp: moved_identifiers_def table_simps ident_pk_def)
  then have "(i, dn, u) \<in> ident_pk ` set (account_identifiers d')" using ai(2) by (auto simp: d' intro!: rev_image_eqI)
  moreover have "(i, key) \<in> spark_key ` set (spark_accounts d')" using sp by (simp add: d')
  ultimately show ?thesis using transfer_tail_inv [OF pays_inv [OF p] ok] by (simp add: pays_def)
qed

lemma pays_transfer:
  assumes p: "pays dn u i key d" and ok: "transfer_identifier now fresh t d = Inr d'"
    and r: "\<not> releases dn u i key (Transfer fresh t)"
  shows "pays dn u i key d'"
  using ok
proof (rule transfer_identifier_ok)
  fix d1
  assume d1: "claim_or_refuse now (tr_claim t) d = Inr d1"
    and tail: "transfer_tail now fresh (tr_domain t) (tr_identifier t) (tr_source_account_id t)
      (tr_destination_spark_pubkey t) (tr_description t) d1 = Inr d'"
  show ?thesis
    by (rule pays_tail [OF pays_claims [OF d1 p] tail]) (use r in auto)
qed

text \<open>A Blink account never owns a name that pays a Spark key.\<close>

lemma pays_not_blink: "pays dn u i key d \<Longrightarrow> \<not> blink_child i d"
proof
  assume p: "pays dn u i key d" and "blink_child i d"
  then have "i \<in> account_ids Blink (accounts d)" using blink_child_iff pays_inv by blast
  moreover have "i \<in> account_ids Spark (accounts d)"
    using p by (auto simp: pays_def spark_key_def accounts_inv_def spark_children_def)
  ultimately show False using account_ids_disjoint p by (auto simp: pays_def accounts_inv_defs)
qed

lemma pays_transfer_blink:
  assumes p: "pays dn u i key d" and ok: "transfer_blink_identifier_to_spark now fresh t d = Inr d'"
    and r: "\<not> releases dn u i key (TransferBlink fresh t)"
  shows "pays dn u i key d'"
proof (rule pays_tail [OF p transfer_blink_ok(3) [OF ok]])
  show "\<not> (bt_domain t = dn \<and> bt_identifier t = u \<and> bt_source_account_id t = i)"
    using transfer_blink_ok(2) [OF ok] pays_not_blink [OF p] by auto
qed (use r in auto)

lemma pays_spark_update:
  assumes "pays dn u i key d" "\<And>s. spark_key (f s) = spark_key s"
  shows "(i, key) \<in> spark_key ` set (update_where P f (spark_accounts d))"
  using assms by (simp add: pays_def image_update_where)

lemma pays_set_mode:
  assumes p: "pays dn u i key d"
  shows "pays dn u i key (snd (upsert_spark_mode now fresh m d))"
proof (cases "ensure_spark_account now fresh (mu_pubkey m) d")
  case (Inl e)
  with p show ?thesis by (simp add: upsert_spark_mode_def)
next
  case (Inr d1)
  from ensure_spark_account_ok [OF Inr] ensure_spark_account_inv [OF pays_inv [OF p] Inr] p
  have p1: "pays dn u i key d1" by (auto simp: pays_def)
  have k: "spark_key (mode_write now m s) = spark_key s" for s by (simp add: spark_key_def)
  have "accounts_inv (snd (upsert_spark_mode now fresh m d))"
    using run_op_inv [OF pays_inv [OF p], of _ now "SetMode fresh m"] by simp
  with p1 pays_spark_update [OF p1 k] Inr show ?thesis by (auto simp: upsert_spark_mode_def pays_def)
qed

lemma pays_create:
  assumes p: "pays dn u i key d" and ok: "create_blink_account now fresh acct d = Inr d'"
  shows "pays dn u i key d'"
  by (rule create_blink_account_ok [OF ok], rule paysI [OF create_blink_account_inv [OF pays_inv [OF p] ok] p])
    (use p in \<open>auto simp: pays_def\<close>)

lemma pays_wallet:
  assumes p: "pays dn u i key d"
  shows "update_blink_default_wallet now j w d = Inr (x, d') \<Longrightarrow> pays dn u i key d'"
  using p update_blink_default_wallet_inv [OF pays_inv [OF p]]
  by (auto simp: pays_def update_blink_default_wallet_def Let_def split: option.splits)

text \<open>The owner keeps the name under every operation that does not release it.\<close>

lemma pays_run_op:
  assumes p: "pays dn u i key d" and r: "\<not> releases dn u i key op"
  shows "pays dn u i key (snd (run_op b now op d))"
proof -
  note inv = pays_inv [OF p]
  have all: "accounts_inv (snd (run_op b now op d))" by (rule run_op_inv [OF inv])
  note kept = commit_cases [where Q = "pays dn u i key", OF p]
  show ?thesis
  proof (cases op)
    case (Register fresh reg)
    from kept pays_register [OF p _ r [unfolded Register]] show ?thesis unfolding Register run_op.simps by blast
  next
    case (Unregister dm k v cl)
    from kept pays_unregister [OF p _ r [unfolded Unregister]] show ?thesis unfolding Unregister run_op.simps by blast
  next
    case (Transfer fresh t)
    have "run_op b now op d = commit d (transfer_identifier now fresh t d)"
      by (cases b) (simp_all add: Transfer transfer_identifier_backends [OF inv])
    with kept pays_transfer [OF p _ r [unfolded Transfer]] show ?thesis by metis
  next
    case (TransferBlink fresh t)
    have "run_op b now op d = commit d (transfer_blink_identifier_to_spark now fresh t d)"
      by (cases b) (simp_all add: TransferBlink transfer_blink_backends [OF inv])
    with kept pays_transfer_blink [OF p _ r [unfolded TransferBlink]] show ?thesis by metis
  next
    case (CreateBlink fresh acct)
    from kept pays_create [OF p] show ?thesis unfolding CreateBlink run_op.simps by blast
  next
    case (SetDefaultWallet j w)
    have "run_op b now op d = commit d (map_sum id snd (update_blink_default_wallet now j w d))"
      by (cases b) (simp_all add: SetDefaultWallet update_wallet_backends [OF inv])
    with kept pays_wallet [OF p] map_sum_snd_Inr show ?thesis by metis
  next
    case (SetMode fresh m)
    with pays_set_mode [OF p] show ?thesis by simp
  next
    case (RefreshCountry k c)
    have "(i, key) \<in> spark_key ` set (spark_accounts (snd (run_op b now op d)))"
      unfolding RefreshCountry run_op.simps refresh_spark_country_evidence_def snd_conv
      by (simp, intro pays_spark_update [OF p]) (simp add: spark_key_def)
    with all p RefreshCountry show ?thesis by (simp add: pays_def refresh_spark_country_evidence_def)
  next
    case (MigrateMode k)
    have "(i, key) \<in> spark_key ` set (spark_accounts (snd (run_op b now op d)))"
      unfolding MigrateMode run_op.simps set_spark_mode_enhanced_if_unset_def snd_conv
      by (simp, intro pays_spark_update [OF p]) (simp add: spark_key_def)
    with all p MigrateMode show ?thesis by (simp add: pays_def set_spark_mode_enhanced_if_unset_def)
  next
    case PruneClaims
    with all p show ?thesis by (simp add: pays_def delete_expired_signed_messages_def)
  qed
qed

end
