(* ===== verification/Lnurl_System_Thms.thy ===== *)
theory Lnurl_System_Thms
  imports Lnurl_System Lnurl_Zap_Thms Lnurl_Background_Thms Lnurl_Ownership
begin

text \<open>
  The guarantees of the running server as a whole: on whose authority the database changes, whatever is
  requested and in whatever order the background loops run, and that a name goes on paying its key
  until the key signs otherwise.
\<close>

section \<open>What the background loops write\<close>

lemma queue_ops_payment [simp]:
  "payment_step lib k d (snd (take_pending_webhook_deliveries now d))"
  "payment_step lib k d (update_webhook_delivery_success j now url d)"
  "payment_step lib k d (update_webhook_delivery_failure j n t status body url d)"
  "payment_step lib k d (unclaim_webhook_deliveries ids d)"
  "payment_step lib k d (delete_webhook_delivery j d)"
  "payment_step lib k d (park_webhook_delivery j d)"
  "payment_step lib k d (snd (delete_webhook_deliveries_older_than before d))"
  "payment_step lib k d (snd (take_pending_zap_receipts limit now d))"
  "payment_step lib k d (update_pending_zap_receipt_retry h m t d)"
  "payment_step lib k d (delete_pending_zap_receipt h d)"
  by (rule payment_step_frame; simp add: take_pending_webhook_deliveries_eq update_webhook_delivery_success_def
      update_webhook_delivery_failure_def unclaim_webhook_deliveries_def delete_webhook_delivery_def
      park_webhook_delivery_def delete_webhook_deliveries_older_than_def take_pending_zap_receipts_eq
      update_pending_zap_receipt_retry_def delete_pending_zap_receipt_def)+

lemma publish_payment: "writes env (payment_step lib) (publish_zap_receipt env keys zap b p)"
  unfolding publish_zap_receipt_def by (intro writes_rules)

lemma drop_payment: "writes env (payment_step lib) (drop_pending env h)"
  unfolding drop_pending_def by (intro writes_rules writes_exec queue_ops_payment)

lemma process_payment: "writes env (payment_step lib) (process_pending_zap_receipt env keys item)"
  unfolding process_pending_zap_receipt_def Let_def
  by (intro writes_rules writes_on_result writes_exec publish_payment drop_payment queue_ops_payment)

lemma items_payment: "writes env (payment_step lib) (process_items env keys items)"
  by (induction items) (auto intro!: writes_rules process_payment)

lemma batch_payment: "writes env (payment_step lib) (take_batch env)"
  unfolding take_batch_def by (rule writes_call) (simp add: split_beta)

lemma receipt_round_payment:
  "served env (payment_step lib) (sv_db w) (sv_db (snd (receipt_round env keys w)))"
proof -
  obtain r w1 where t: "take_batch env w = (r, w1)" by (cases "take_batch env w")
  have 1: "served env (payment_step lib) (sv_db w) (sv_db w1)"
    using writesD [OF batch_payment, of env lib w] t by simp
  show ?thesis
  proof (cases r)
    case (Inl e)
    with t 1 show ?thesis by (simp add: receipt_round_def)
  next
    case (Inr pending)
    with t 1 show ?thesis
      using served_trans [OF writesD [OF items_payment [of env lib keys pending], of w1] 1] by (simp add: receipt_round_def)
  qed
qed

lemma delivery_payment: "writes env (payment_step lib) (process_webhook_delivery env configs x)"
  unfolding process_webhook_delivery_def Let_def
  by (intro writes_rules writes_on_result writes_exec writes_send_webhook queue_ops_payment)

lemma processor_payment:
  assumes "processor_step env ttl_ms (p, w) (p', w')"
  shows "served env (payment_step lib) (sv_db w) (sv_db w')"
  using assms
proof cases
  case poll
  obtain r w1 where t: "take_deliveries env w = (r, w1)" by (cases "take_deliveries env w")
  have "writes env (payment_step lib) (take_deliveries env)"
    unfolding take_deliveries_def by (rule writes_call) (simp add: take_on_backend split_beta)
  from writesD [OF this, of w] t have 1: "served env (payment_step lib) (sv_db w) (sv_db w1)" by simp
  have "writes env (payment_step lib) (db_exec env (\<lambda>_. unclaim_webhook_deliveries ids))" for ids
    by (intro writes_exec queue_ops_payment)
  from served_trans [OF writesD [OF this, of w1] 1] 1 poll t show ?thesis
    by (auto simp: process_pending_webhook_deliveries_def split: sum.splits prod.splits if_splits)
next
  case (finish i)
  then show ?thesis by (auto simp: run_task_def Let_def intro: writesD [OF delivery_payment])
next
  case (refresh c)
  have "writes env (payment_step lib) (load_configs env)" unfolding load_configs_def by (intro writes_rules)
  from writesD [OF this, of w] refresh show ?thesis
    by (auto simp: refresh_configs_def split: prod.splits sum.splits if_splits)
next
  case cleanup
  have "writes env (payment_step lib) (cleanup_old_webhook_deliveries env ttl_ms :: (unit, unit) action)"
    unfolding cleanup_old_webhook_deliveries_def by (intro writes_rules writes_call) (simp add: split_beta)
  from writesD [OF this, of w] cleanup show ?thesis by simp
qed

section \<open>Who may change what\<close>

text \<open>
  The signatures carried by the requests that passed the certificate check, and the scopes of the tokens
  of those that passed both checks.
\<close>

definition passed :: "('c, 'd, 'p) libraries \<Rightarrow> 'd app \<Rightarrow> header_map \<Rightarrow> bool" where
  "passed lib app headers \<longleftrightarrow> auth (li_tokens lib) (ap_ca_cert app) (ap_crl app) False headers = Inr ()"

definition signatures ::
  "('c, 'd, 'p) libraries \<Rightarrow> 'd app \<Rightarrow> (header_map \<times> route) list \<Rightarrow> (string \<times> string) set" where
  "signatures lib app rs = (\<Union> {carried q | headers q. (headers, ManageRoute q) \<in> set rs \<and> passed lib app headers})"

definition granted :: "('c, 'd, 'p) libraries \<Rightarrow> 'd app \<Rightarrow> (header_map \<times> route) list \<Rightarrow> internal_request \<Rightarrow> string set \<Rightarrow> bool" where
  "granted lib app rs q scopes \<longleftrightarrow> (\<exists>headers. (headers, InternalRoute q) \<in> set rs \<and> passed lib app headers \<and>
     token_grants (li_tokens lib) (ap_internal_auth app) headers scopes)"

text \<open>
  The account operations the requests of a run allow: those their signatures authorise, those the scopes
  of their tokens cover, and the deletion of expired claims.
\<close>

definition permitted ::
  "('c, 'd, 'p) libraries \<Rightarrow> 'd app \<Rightarrow> ('k, 's) env \<Rightarrow> (header_map \<times> route) list \<Rightarrow> account_op \<Rightarrow> bool" where
  "permitted lib app env rs op \<longleftrightarrow> authorised env (signatures lib app rs) op \<or>
     (\<exists>q scopes. granted lib app rs q scopes \<and> scope_allows (started_env env app) scopes op) \<or> op = PruneClaims"

definition system_write ::
  "('c, 'd, 'p) libraries \<Rightarrow> 'd app \<Rightarrow> ('k, 's) env \<Rightarrow> (header_map \<times> route) list \<Rightarrow> nat \<Rightarrow> db \<Rightarrow> db \<Rightarrow> bool" where
  "system_write lib app env rs k d d' \<longleftrightarrow>
     payment_step (ev_crypto env) k d d' \<or> op_step env (permitted lib app env rs) k d d'"

lemma permitted_mono: "permitted lib app env rs op \<Longrightarrow> set rs \<subseteq> set qs \<Longrightarrow> permitted lib app env qs op"
proof -
  assume p: "permitted lib app env rs op" and sub: "set rs \<subseteq> set qs"
  have "signatures lib app rs \<subseteq> signatures lib app qs" using sub unfolding signatures_def by blast
  moreover have "granted lib app qs q scopes" if "granted lib app rs q scopes" for q scopes
    using that sub unfolding granted_def by blast
  ultimately show ?thesis using p authorised_mono unfolding permitted_def by blast
qed

lemma system_write_mono:
  "served env (system_write lib app env rs) d d' \<Longrightarrow> set rs \<subseteq> set qs \<Longrightarrow> served env (system_write lib app env qs) d d'"
  by (erule served_mono) (unfold system_write_def, metis op_step_mono permitted_mono)

text \<open>Requests run in an environment that differs from the given one in the settings and the domains only.\<close>

lemma live_env_simps [simp]:
  "ev_crypto (live_env env app s) = ev_crypto env" "ev_breez (live_env env app s) = ev_breez env"
  "ev_lib (live_env env app s) = ev_lib env" "ev_now (live_env env app s) = ev_now env"
  "ev_backend (live_env env app s) = ev_backend env" "ev_fresh_id (live_env env app s) = ev_fresh_id env"
  "ev_others (live_env env app s) = ev_others env" "ev_fault (live_env env app s) = ev_fault env"
  by (simp_all add: live_env_def started_env_def)

lemma live_signed [simp]: "signed_by (live_env env app s) = signed_by env"
  by (simp add: signed_by_def fun_eq_iff)

lemma live_in_window [simp]: "in_window (live_env env app s) = in_window env"
  by (simp add: in_window_def fun_eq_iff)

lemma live_claims [simp]: "claims_message (live_env env app s) = claims_message env"
  by (simp add: claims_message_def statement_claim_of_def fun_eq_iff)

lemma live_authorised [simp]: "authorised (live_env env app s) = authorised env"
proof (intro ext)
  show "authorised (live_env env app s) C op = authorised env C op" for C op
    by (cases op) (simp_all add: authorised.simps generated_def)
qed

lemma live_scope [simp]: "scope_allows (live_env env app s) = scope_allows (started_env env app)"
  by (simp add: scope_allows_def live_env_def fun_eq_iff)

lemma live_op_step [simp]: "op_step (live_env env app s) = op_step env"
  by (simp add: op_step_def fun_eq_iff)

lemma live_served: "served (live_env env app s) G d d' \<Longrightarrow> served env G d d'"
proof (induction rule: served.induct)
  case (served_others d d1 k)
  from served.served_others [OF served_others.IH, of k] show ?case by simp
qed (auto intro: served.intros)

text \<open>The three ways in which a step is covered.\<close>

lemma covered_payment:
  "served (live_env env app s) (payment_step (ev_crypto env)) d d' \<Longrightarrow> served env (system_write lib app env rs) d d'"
  by (rule live_served, erule served_mono) (simp add: system_write_def)

lemma covered_op:
  "served (live_env env app s) (op_step env P) d d' \<Longrightarrow> (\<And>op. P op \<Longrightarrow> permitted lib app env rs op) \<Longrightarrow>
     served env (system_write lib app env rs) d d'"
  by (rule live_served, erule served_mono) (unfold system_write_def live_op_step, metis op_step_mono)

lemma covered_read: "writes (live_env env app s) no_step m \<Longrightarrow> served env (system_write lib app env rs) (sv_db w) (sv_db (snd (m w)))"
  by (rule live_served, rule writesD, erule writes_nothing)

lemma availability_reads: "writes env no_step (available env host i)" "writes env no_step (available_for_pubkey env host k q)"
  unfolding available_def available_for_pubkey_def username_available_def by (intro writes_rules)+

lemma serve_internal_cases:
  assumes "serve_internal tokens env phones ca crl auth_state headers q w = r"
  obtains (refused) "sv_db (snd r) = sv_db w"
  | (run) p w1 where "auth tokens ca crl False headers = Inr ()" "token_grants tokens auth_state headers (pn_scopes p)"
      "sv_db w1 = sv_db w" "r = run_internal tokens env phones p q w1"
proof -
  obtain a w1 where a: "admit_internal tokens ca crl auth_state False headers w = (a, w1)"
    by (cases "admit_internal tokens ca crl auth_state False headers w")
  have db: "sv_db w1 = sv_db w" using admit_internal_db [of tokens ca crl auth_state False headers w] a by simp
  show thesis
  proof (cases "\<exists>p. a = Inr (Some p)")
    case True
    then obtain p where p: "a = Inr (Some p)" by blast
    show ?thesis
      by (rule run [OF admit_internal_run(1,2) [OF a [unfolded p]] db]) (use assms a p in \<open>simp add: serve_internal_def\<close>)
  next
    case False
    with assms a have "r = (False, w1)" by (auto simp: serve_internal_def split: sum.splits option.splits)
    with db show ?thesis by (intro refused) simp
  qed
qed

lemma route_served:
  assumes m: "mounted r"
  shows "served env (system_write lib app env [(headers, r)]) (sv_db w)
    (sv_db (serve_route lib app (live_env env app s) headers r w))"
proof (cases "certified r \<and> auth (li_tokens lib) (ap_ca_cert app) (ap_crl app) False headers \<noteq> Inr ()")
  case True
  then show ?thesis by (simp add: serve_route_def served_refl)
next
  case False
  then have h: "serve_route lib app (live_env env app s) headers r w = handle_route lib app (live_env env app s) headers r w"
    unfolding serve_route_def by (rule if_not_P)
  show ?thesis
  proof (cases r)
    case (ManageRoute q)
    then have "passed lib app headers" using False by (auto simp: passed_def)
    then have c: "carried q \<subseteq> signatures lib app [(headers, r)]" unfolding signatures_def ManageRoute by auto
    show ?thesis
      unfolding h unfolding ManageRoute handle_route.simps
      using serve_served [of "live_env env app s" q w] unfolding live_op_step live_authorised
      by (rule covered_op) (unfold permitted_def, rule disjI1, erule authorised_mono, rule c [unfolded ManageRoute])
  next
    case (InternalRoute q)
    let ?r = "serve_internal (li_tokens lib) (live_env env app s) (li_phones lib) (ap_ca_cert app) (ap_crl app)
      (ap_internal_auth app) headers q w"
    have "served env (system_write lib app env [(headers, InternalRoute q)]) (sv_db w) (sv_db (snd ?r))"
    proof (rule serve_internal_cases [OF refl, of "li_tokens lib" "live_env env app s" "li_phones lib" "ap_ca_cert app"
          "ap_crl app" "ap_internal_auth app" headers q w])
      assume "sv_db (snd ?r) = sv_db w"
      then show ?thesis by (simp add: served_refl)
    next
      fix p w1
      assume a: "auth (li_tokens lib) (ap_ca_cert app) (ap_crl app) False headers = Inr ()"
          "token_grants (li_tokens lib) (ap_internal_auth app) headers (pn_scopes p)" "sv_db w1 = sv_db w"
        and run: "?r = run_internal (li_tokens lib) (live_env env app s) (li_phones lib) p q w1"
      have g: "granted lib app [(headers, InternalRoute q)] q (pn_scopes p)" using a(1,2) by (auto simp: granted_def passed_def)
      have "served (live_env env app s) (op_step env (scope_allows (started_env env app) (pn_scopes p))) (sv_db w) (sv_db (snd ?r))"
        using run_internal_served [of "live_env env app s" p w1 "li_tokens lib" "li_phones lib" q] run a(3) by simp
      then show ?thesis by (rule covered_op) (use g in \<open>auto simp: permitted_def\<close>)
    qed
    then show ?thesis unfolding h unfolding InternalRoute handle_route.simps .
  next
    case (PayRoute q)
    show ?thesis
      unfolding h unfolding PayRoute handle_route.simps
      using serve_pay_served [of "live_env env app s" w "li_phones lib" "li_ssp_payload lib" q] by (intro covered_payment) simp
  next
    case (AvailableRoute host i)
    show ?thesis unfolding h unfolding AvailableRoute handle_route.simps by (rule covered_read [OF availability_reads(1)])
  next
    case (AvailableForPubkeyRoute host k q)
    show ?thesis unfolding h unfolding AvailableForPubkeyRoute handle_route.simps by (rule covered_read [OF availability_reads(2)])
  next
    case (DiscoverRoute host i)
    show ?thesis unfolding h unfolding DiscoverRoute handle_route.simps by (rule covered_read [OF writes_lnurl_pay])
  next
    case HealthRoute
    show ?thesis unfolding h unfolding HealthRoute handle_route.simps by (rule served_refl)
  qed
qed

lemma step_served:
  assumes "system_step lib app env s qs s'"
  shows "served env (system_write lib app env qs) (sv_db (sy_server s)) (sv_db (sy_server s'))"
  using assms
proof cases
  case (request r headers)
  with route_served [OF request(3)] show ?thesis by simp
next
  case (spawned i)
  have "served (live_env env app s) (op_step env (authorised env {})) (sv_db (sy_server s)) (sv_db (run_waiting (live_env env app s) i (sy_server s)))"
    using writesD [OF run_spawned_writes [THEN writes_only, of "live_env env app s" "{}" "sv_spawned (sy_server s) ! i"],
      of "(sy_server s)\<lparr>sv_spawned := take i (sv_spawned (sy_server s)) @ drop (Suc i) (sv_spawned (sy_server s))\<rparr>"]
    by (simp add: run_waiting_def)
  then have "served env (system_write lib app env qs) (sv_db (sy_server s)) (sv_db (run_waiting (live_env env app s) i (sy_server s)))"
    by (rule covered_op) (simp add: permitted_def authorised_mono [OF _ empty_subsetI])
  with spawned show ?thesis by simp
next
  case prune
  have "writes (live_env env app s) (op_step env (\<lambda>op. op = PruneClaims)) (db_write (live_env env app s) (\<lambda>_. PruneClaims))"
    using writes_write [of "\<lambda>op. op = PruneClaims" "\<lambda>_. PruneClaims" "live_env env app s"] by simp
  from covered_op [OF writesD [OF this]] prune show ?thesis by (simp add: prune_round_def permitted_def)
next
  case receipts
  with covered_payment [OF receipt_round_payment] show ?thesis by simp
next
  case (processor p w)
  with covered_payment [OF processor_payment [OF processor(3)]] show ?thesis by simp
next
  case (domains ds w)
  have "writes (live_env env app s) no_step (db_read (live_env env app s) (\<lambda>d. Inr (list_domains d)))" by (intro writes_rules)
  from covered_read [OF this, of lib qs "sy_server s"] domains show ?thesis
    by (auto simp: refresh_domains_def split: prod.splits sum.splits if_splits)
qed

lemma run_served:
  assumes "system_run lib app env s rs s'"
  shows "served env (system_write lib app env rs) (sv_db (sy_server s)) (sv_db (sy_server s'))"
  using assms
proof (induction rule: system_run.induct)
  case (more s rs s1 qs s2)
  show ?case
    by (rule served_trans [OF system_write_mono [OF step_served [OF more(2)]] system_write_mono [OF more.IH]]) auto
qed (rule served_refl)

section \<open>A name stays with its key\<close>

text \<open>Actions that keep a predicate of the database; a continuation may use it of the state it was read in.\<close>

definition keeps :: "(db \<Rightarrow> bool) \<Rightarrow> ('e, 'a) action \<Rightarrow> bool" where
  "keeps H m \<longleftrightarrow> (\<forall>w. H (sv_db w) \<longrightarrow> H (sv_db (snd (m w))))"

lemma keepsD: "keeps H m \<Longrightarrow> H (sv_db w) \<Longrightarrow> H (sv_db (snd (m w)))"
  by (simp add: keeps_def)

lemma keeps_writes:
  assumes "writes env G m" "\<And>k d. H d \<Longrightarrow> H (ev_others env k d)" "\<And>k d d'. H d \<Longrightarrow> G k d d' \<Longrightarrow> H d'"
  shows "keeps H m"
proof (unfold keeps_def, intro allI impI)
  fix w :: server
  assume "H (sv_db w)"
  with writesD [OF assms(1)] show "H (sv_db (snd (m w)))" by (rule served_invariant) (rule assms(2), assumption, rule assms(3))
qed

named_theorems keeps_rules

lemma keeps_bind [keeps_rules]:
  assumes "keeps H m" "\<And>x w w'. H (sv_db w) \<Longrightarrow> m w = (Inr x, w') \<Longrightarrow> keeps H (f x)"
  shows "keeps H (bind_act m f)"
proof (unfold keeps_def, intro allI impI)
  fix w :: server
  assume h: "H (sv_db w)"
  obtain r w1 where m: "m w = (r, w1)" by (cases "m w")
  have 1: "H (sv_db w1)" using keepsD [OF assms(1) h] m by simp
  show "H (sv_db (snd (bind_act m f w)))"
  proof (cases r)
    case (Inl e)
    with m 1 show ?thesis by (simp add: bind_act_def)
  next
    case (Inr x)
    have "keeps H (f x)" using assms(2) h m Inr by blast
    with m 1 Inr show ?thesis by (simp add: bind_act_def keepsD)
  qed
qed

lemma keeps_map_err [keeps_rules]: "keeps H m \<Longrightarrow> keeps H (map_err_act g m)"
  by (simp add: keeps_def map_err_act_def split_beta)

lemma keeps_ignore [keeps_rules]: "keeps H m \<Longrightarrow> keeps H (ignore_err m)"
  by (simp add: keeps_def ignore_err_def)

lemma keeps_if [keeps_rules]: "(c \<Longrightarrow> keeps H m) \<Longrightarrow> (\<not> c \<Longrightarrow> keeps H m') \<Longrightarrow> keeps H (if c then m else m')"
  by simp

lemma keeps_case_prod [keeps_rules]:
  "(\<And>x y. p = (x, y) \<Longrightarrow> keeps H (f x y)) \<Longrightarrow> keeps H (case p of (x, y) \<Rightarrow> f x y)"
  by (cases p) simp

lemma keeps_leaf:
  assumes "\<forall>k d. H d \<longrightarrow> H (ev_others env k d)"
  shows "keeps H (ret x)" "keeps H (fail e)" "keeps H (lift r)" "keeps H (check_timestamp env ts)"
    "keeps H (verify_candidates env pk sg cs dn)" "keeps H (stored_account_mode env key)" "keeps H (db_read env f)"
  by (rule keeps_writes [where G = no_step and env = env], rule writes_rules, simp add: assms, simp add: no_step_def)+

text \<open>What others do is required to keep the name where it is.\<close>

definition undisturbed_name :: "('k, 's) env \<Rightarrow> string \<Rightarrow> string \<Rightarrow> string \<Rightarrow> string \<Rightarrow> bool" where
  "undisturbed_name env dn u i key \<longleftrightarrow> (\<forall>k d. pays dn u i key d \<longrightarrow> pays dn u i key (ev_others env k d))"

lemma undisturbedD: "undisturbed_name env dn u i key \<Longrightarrow> pays dn u i key d \<Longrightarrow> pays dn u i key (ev_others env k d)"
  by (simp add: undisturbed_name_def)

lemma pays_op_step:
  "pays dn u i key d \<Longrightarrow> op_step env P k d d' \<Longrightarrow> (\<And>op. P op \<Longrightarrow> \<not> releases dn u i key op) \<Longrightarrow> pays dn u i key d'"
  unfolding op_step_def using pays_run_op by blast

lemma keeps_op:
  assumes "undisturbed_name env dn u i key" "\<And>k. \<not> releases dn u i key (op (ev_fresh_id env k))"
  shows "keeps (pays dn u i key) (db_write env op)"
proof (rule keeps_writes)
  show "writes env (op_step env (\<lambda>op. \<not> releases dn u i key op)) (db_write env op)"
    by (rule writes_write) (rule assms(2))
qed (use undisturbedD [OF assms(1)] pays_op_step in blast)+

lemma ops_keep:
  assumes "undisturbed_name env dn u i key" "writes env (op_step env P) m" "pays dn u i key (sv_db w)"
    "\<And>op. P op \<Longrightarrow> \<not> releases dn u i key op"
  shows "pays dn u i key (sv_db (snd (m w)))"
proof (rule keepsD [where H = "pays dn u i key", OF _ assms(3)])
  show "keeps (pays dn u i key) m"
    by (rule keeps_writes [OF assms(2)]) (rule undisturbedD [OF assms(1)], assumption, erule pays_op_step, assumption, rule assms(4))
qed

lemma reads_keep:
  assumes "undisturbed_name env dn u i key" "writes env no_step m" "pays dn u i key (sv_db w)"
  shows "pays dn u i key (sv_db (snd (m w)))"
  by (rule ops_keep [OF assms(1) writes_nothing [OF assms(2)] assms(3), where P = "\<lambda>_. False"]) simp

text \<open>
  The messages by which a key may give up a name: the registration of another name, which a legacy message
  does not bind to a domain, the deletion or the transfer of this one, and the acceptance of another
  one on the domain.
\<close>

definition gives_up :: "('k, 's) env \<Rightarrow> (string \<times> string) set \<Rightarrow> string \<Rightarrow> string \<Rightarrow> string \<Rightarrow> bool" where
  "gives_up env C dn u key \<longleftrightarrow> (\<exists>ts m. in_window env ts \<and> signed_by env C key m \<and>
     ((\<exists>v de. v \<noteq> u \<and> (m = bz_register (ev_breez env) dn v de ts \<or> m = legacy_timestamped v ts)) \<or>
      m = bz_unregister (ev_breez env) dn u ts \<or>
      (\<exists>to. m = bz_transfer_from (ev_breez env) dn u key to ts) \<or>
      (\<exists>v from de. v \<noteq> u \<and> m = bz_transfer_to (ev_breez env) dn v from key de ts)))"

lemma gives_up_mono: "gives_up env C dn u key \<Longrightarrow> C \<subseteq> D \<Longrightarrow> gives_up env D dn u key"
  unfolding gives_up_def using signed_by_mono by blast

lemma authorised_release:
  assumes a: "authorised env C op" "no_transfer op" and r: "releases dn u i key op" and ids: "\<forall>k. ev_fresh_id env k \<noteq> i"
  shows "gives_up env C dn u key"
proof (cases op)
  case (Register fresh reg)
  from a(1) obtain ts m where m: "generated env fresh" "nr_account_id reg = None" "in_window env ts"
    "signed_by env C (nr_pubkey reg) m"
    "m = bz_register (ev_breez env) (ni_domain (nr_identifier reg)) (ni_identifier (nr_identifier reg)) (ni_description (nr_identifier reg)) ts \<or>
      m = legacy_timestamped (ni_identifier (nr_identifier reg)) ts"
    by (auto simp: Register authorised.simps Let_def)
  have "nr_pubkey reg = key" "ni_domain (nr_identifier reg) = dn" "ni_identifier (nr_identifier reg) \<noteq> u"
    using r m(1,2) ids by (auto simp: Register generated_def)
  with m(3-5) show ?thesis unfolding gives_up_def by blast
next
  case (Unregister dm k v cl)
  with a(1) r show ?thesis unfolding gives_up_def by (auto simp: authorised.simps Let_def)
next
  case (Transfer fresh t)
  with a(2) show ?thesis by (simp add: no_transfer_def)
next
  case (TransferBlink fresh t)
  with a(1) show ?thesis by (simp add: authorised.simps)
qed (use r in simp_all)

text \<open>A transfer is signed by the key the name paid when the route looked, which is still the key.\<close>

lemma transfer_release:
  assumes found: "resolve_recipient_by_identifier dm v (ev_others env l d) = Inr (Some source)"
    and h: "undisturbed_name env dn u i key" "pays dn u i key d"
    and ts: "timestamp_ok (ev_breez env) (ev_now env k) ts"
    and cr: "parse_signed_request (ev_crypto env) (tq_from_pubkey p) (tq_from_signature p) = Inr (from_pk, from_sig)"
      "parse_signed_request (ev_crypto env) to_pubkey (tq_to_signature p) = Inr (to_pk, to_sig)"
    and v: "verify_loop (ev_crypto env) from_pk from_sig (fst (transfer_candidates env dm v from_pk to_pk de ts)) = Some c"
      "verify_loop (ev_crypto env) to_pk to_sig (snd (transfer_candidates env dm v from_pk to_pk de ts)) = Some c'"
    and src: "rr_spark_pubkey source = Some (public_key_to_string (ev_crypto env) from_pk)"
    and r: "releases dn u i key (Transfer fresh \<lparr>tr_domain = dm, tr_identifier = v, tr_source_account_id = j,
      tr_destination_spark_pubkey = public_key_to_string (ev_crypto env) to_pk, tr_description = de, tr_claim = cl\<rparr>)"
  shows "gives_up env (transfer_credentials to_pubkey p) dn u key"
proof -
  let ?C = "transfer_credentials to_pubkey p"
  let ?from = "public_key_to_string (ev_crypto env) from_pk" and ?to = "public_key_to_string (ev_crypto env) to_pk"
  have "cd_message c = bz_transfer_from (ev_breez env) dm v ?from ?to ts"
    "cd_message c' = bz_transfer_to (ev_breez env) dm v ?from ?to de ts"
    using v by (auto simp: transfer_candidates_def Let_def split: if_splits)
  moreover have "signed_by env ?C ?from (cd_message c)" "signed_by env ?C ?to (cd_message c')"
    using signed_byI [OF cr(1) _ v(1), of ?C] signed_byI [OF cr(2) _ v(2), of ?C] by simp_all
  ultimately have s: "signed_by env ?C ?from (bz_transfer_from (ev_breez env) dm v ?from ?to ts)"
    "signed_by env ?C ?to (bz_transfer_to (ev_breez env) dm v ?from ?to de ts)" by simp_all
  have own: "?from = key" if "dm = dn" "v = u"
    using pays_resolves [OF undisturbedD [OF h], of l] found src that by auto
  show ?thesis
  proof (cases "v = u")
    case True
    with r own have "dm = dn" "?from = key" by simp_all
    with s(1) in_windowI [OF ts] True show ?thesis unfolding gives_up_def by blast
  next
    case False
    with r have "dm = dn" "?to = key" by simp_all
    with s(2) in_windowI [OF ts] False show ?thesis unfolding gives_up_def by blast
  qed
qed

text \<open>The same, with what the route had passed when it wrote.\<close>

lemma transfer_unreleased:
  assumes h: "undisturbed_name env dn u i key" and no: "\<not> gives_up env (transfer_credentials to_pubkey p) dn u key"
    and cr: "lift (parse_signed_request (ev_crypto env) (tq_from_pubkey p) (tq_from_signature p)) wa = (Inr x :: api_error + 'k \<times> 's, wa')"
      "x = (from_pk, from_sig)"
      "lift (parse_signed_request (ev_crypto env) to_pubkey (tq_to_signature p)) wb = (Inr y :: api_error + 'k \<times> 's, wb')"
      "y = (to_pk, to_sig)"
    and ts: "map_err_act (\<lambda>_. transfer_expired) (check_timestamp env ts) wc = (Inr z :: api_error + unit, wc')"
    and v: "verify_candidates env from_pk from_sig (fst (transfer_candidates env dm v from_pk to_pk de ts)) (Some dm) wd = (Inr c, wd')"
      "verify_candidates env to_pk to_sig (snd (transfer_candidates env dm v from_pk to_pk de ts)) (Some dm) we = (Inr c', we')"
    and found: "map_err_act spark_transfer_error (db_read env (resolve_recipient_by_identifier dm v)) wr = (Inr f, wr')"
      "pays dn u i key (sv_db wr)"
      "lift (ok_or (spark_transfer_error SourceNotOwner) f) wg = (Inr source :: api_error + resolved_recipient, wg')"
    and src: "\<not> rr_spark_pubkey source \<noteq> Some (public_key_to_string (ev_crypto env) from_pk)"
  shows "\<not> releases dn u i key (Transfer fresh \<lparr>tr_domain = dm, tr_identifier = v, tr_source_account_id = j,
      tr_destination_spark_pubkey = public_key_to_string (ev_crypto env) to_pk, tr_description = de,
      tr_claim = Some (statement_claim_of env from_pk dm c ts)\<rparr>)"
proof
  have f: "resolve_recipient_by_identifier dm v (ev_others env (sv_step wr) (sv_db wr)) = Inr (Some source)"
    using found(1,3) by (auto simp: run_iff db_read_iff)
  have t: "timestamp_ok (ev_breez env) (ev_now env (sv_step wc)) ts" using ts by (simp add: run_iff)
  have p: "parse_signed_request (ev_crypto env) (tq_from_pubkey p) (tq_from_signature p) = Inr (from_pk, from_sig)"
    "parse_signed_request (ev_crypto env) to_pubkey (tq_to_signature p) = Inr (to_pk, to_sig)"
    using cr by (simp_all add: lift_iff)
  have l: "verify_loop (ev_crypto env) from_pk from_sig (fst (transfer_candidates env dm v from_pk to_pk de ts)) = Some c"
    "verify_loop (ev_crypto env) to_pk to_sig (snd (transfer_candidates env dm v from_pk to_pk de ts)) = Some c'"
    using v by (simp_all add: verify_candidates_iff)
  have "rr_spark_pubkey source = Some (public_key_to_string (ev_crypto env) from_pk)" using src by simp
  note release = transfer_release [OF f h found(2) t p l this]
  assume "releases dn u i key (Transfer fresh \<lparr>tr_domain = dm, tr_identifier = v, tr_source_account_id = j,
      tr_destination_spark_pubkey = public_key_to_string (ev_crypto env) to_pk, tr_description = de,
      tr_claim = Some (statement_claim_of env from_pk dm c ts)\<rparr>)"
  from release [OF this] no show False by blast
qed

lemma transfer_keeps:
  assumes h: "undisturbed_name env dn u i key"
    and no: "\<not> gives_up env (transfer_credentials to_pubkey p) dn u key"
  shows "keeps (pays dn u i key) (transfer env host to_pubkey p)"
proof -
  note leaf = keeps_leaf [of "pays dn u i key" env, OF h [unfolded undisturbed_name_def]]
  show ?thesis
    unfolding transfer_def Let_def
    by (intro keeps_rules leaf keeps_op [OF h]) ((rule transfer_unreleased [OF h no], assumption+), simp)
qed

lemma authorised_keeps:
  assumes h: "undisturbed_name env dn u i key" and ids: "\<forall>k. ev_fresh_id env k \<noteq> i"
    and no: "\<not> gives_up env C dn u key"
    and m: "writes env (op_step env (\<lambda>op. authorised env C op \<and> no_transfer op)) m"
  shows "keeps (pays dn u i key) m"
  by (rule keeps_writes [OF m], erule undisturbedD [OF h], erule pays_op_step, assumption)
    (use authorised_release ids no in blast)

lemma serve_keeps:
  assumes h: "undisturbed_name env dn u i key" and ids: "\<forall>k. ev_fresh_id env k \<noteq> i"
    and no: "\<not> gives_up env (carried q) dn u key" and p: "pays dn u i key (sv_db w)"
  shows "pays dn u i key (sv_db (snd (serve env q w)))"
proof -
  note by_signature = authorised_keeps [OF h ids]
  show ?thesis
  proof (cases q)
    case (RegisterReq host k hs r)
    from keepsD [OF by_signature [OF _ register_writes] p] no show ?thesis by (simp add: RegisterReq outcome_def)
  next
    case (TransferReq host k r)
    from keepsD [OF transfer_keeps [OF h] p] no show ?thesis by (simp add: TransferReq outcome_def)
  next
    case (UnregisterReq host k r)
    from keepsD [OF by_signature [OF _ unregister_writes] p] no show ?thesis by (simp add: UnregisterReq outcome_def)
  next
    case (RecoverReq host k hs r)
    from reads_keep [OF h reading_routes_write_nothing(1) p] show ?thesis by (simp add: RecoverReq outcome_def)
  next
    case (ModeReq host k hs r)
    from keepsD [OF by_signature [OF _ set_mode_writes] p] no show ?thesis by (simp add: ModeReq outcome_def)
  next
    case (MetadataReq host k hs r)
    from reads_keep [OF h reading_routes_write_nothing(2) p] show ?thesis by (simp add: MetadataReq outcome_def)
  next
    case (SpawnedTask t)
    from keepsD [OF by_signature [OF _ run_spawned_writes] p] no show ?thesis by (simp add: SpawnedTask outcome_def)
  qed
qed

text \<open>An internal transfer hands a name of the domain over to a key.\<close>

definition hands_over :: "('c, 'd) token_lib \<Rightarrow> ('k, 's) crypto_lib \<Rightarrow> bytes \<Rightarrow> string \<Rightarrow> string \<Rightarrow> bool" where
  "hands_over tokens crypto body dn key \<longleftrightarrow> (\<exists>payload to pk. tl_transfer_from_slice tokens body = Some payload \<and>
     validate_internal_domain (it_domain payload) = Inr dn \<and>
     validate_internal_required_string (it_destination_spark_pubkey payload) = Inr to \<and>
     parse_pubkey crypto to = Inr pk \<and> public_key_to_string crypto pk = key)"

lemma internal_ops:
  "writes env (op_step env (\<lambda>op. op_scope op \<noteq> None \<and> (\<forall>f t. op \<noteq> TransferBlink f t))) (create_internal_blink_account env phones p q)"
  "writes env (op_step env (\<lambda>op. op_scope op \<noteq> None \<and> (\<forall>f t. op \<noteq> TransferBlink f t))) (update_internal_blink_account tokens env p i body)"
  "writes env (op_step env (\<lambda>op. op_scope op \<noteq> None \<and> (\<forall>f t. op \<noteq> TransferBlink f t))) (get_internal_identifier env phones p dn i)"
  unfolding create_internal_blink_account_def update_internal_blink_account_def get_internal_identifier_def
  by (intro writes_rules writes_default_wallet; simp)+

lemma internal_transfer_ops:
  "writes env (op_step env (\<lambda>op. op_scope op \<noteq> None \<and>
      (\<forall>f t. op = TransferBlink f t \<longrightarrow> SCOPE_BLINK_TRANSFERS_WRITE \<in> pn_scopes p \<and>
        hands_over tokens (ev_crypto env) body (bt_domain t) (bt_destination_spark_pubkey t))))
     (transfer_identifier_to_spark tokens env phones p body)"
  unfolding transfer_identifier_to_spark_def Let_def
  by (intro writes_rules; drule require_scope_ok; auto simp: lift_iff ok_or_Inr_iff hands_over_def)

lemma scoped_release: "releases dn u i key op \<Longrightarrow> op_scope op \<noteq> None \<Longrightarrow>
    \<exists>f t. op = TransferBlink f t \<and> bt_domain t = dn \<and> bt_destination_spark_pubkey t = key"
  by (cases op) auto

lemma run_internal_keeps:
  assumes h: "undisturbed_name env dn u i key" and p: "pays dn u i key (sv_db w)"
    and no: "\<And>body. q = internal_request.TransferReq body \<Longrightarrow> SCOPE_BLINK_TRANSFERS_WRITE \<in> pn_scopes caller \<Longrightarrow>
      \<not> hands_over tokens (ev_crypto env) body dn key"
  shows "pays dn u i key (sv_db (snd (run_internal tokens env phones caller q w)))"
proof -
  note kept = ops_keep [OF h _ p]
  show ?thesis
  proof (cases q)
    case (CreateAccountReq r)
    have "pays dn u i key (sv_db (snd (create_internal_blink_account env phones caller r w)))"
      by (rule kept [OF internal_ops(1)]) (use scoped_release in blast)
    then show ?thesis by (simp add: CreateAccountReq split_beta)
  next
    case (UpdateAccountReq j body)
    have "pays dn u i key (sv_db (snd (update_internal_blink_account tokens env caller j body w)))"
      by (rule kept [OF internal_ops(2)]) (use scoped_release in blast)
    then show ?thesis by (simp add: UpdateAccountReq split_beta)
  next
    case (LookupReq dm j)
    have "pays dn u i key (sv_db (snd (get_internal_identifier env phones caller dm j w)))"
      by (rule kept [OF internal_ops(3)]) (use scoped_release in blast)
    then show ?thesis by (simp add: LookupReq split_beta)
  next
    case (TransferReq body)
    have "pays dn u i key (sv_db (snd (transfer_identifier_to_spark tokens env phones caller body w)))"
      by (rule kept [OF internal_transfer_ops]) (use scoped_release no [OF TransferReq] in blast)
    then show ?thesis by (simp add: TransferReq split_beta)
  qed
qed

lemma pays_payment: "pays dn u i key d \<Longrightarrow> payment_step lib k d d' \<Longrightarrow> pays dn u i key d'"
  using accounts_inv_cong [of d' d] by (auto simp: pays_def payment_step_def account_tables_def)

lemma pays_served_payment:
  "served env (payment_step lib) d d' \<Longrightarrow> undisturbed_name env dn u i key \<Longrightarrow> pays dn u i key d \<Longrightarrow> pays dn u i key d'"
  by (erule served_invariant) (auto dest: undisturbedD intro: pays_payment)

lemma live_undisturbed [simp]: "undisturbed_name (live_env env app s) = undisturbed_name env"
  by (simp add: undisturbed_name_def fun_eq_iff)

lemma live_gives_up [simp]: "gives_up (live_env env app s) = gives_up env"
  by (simp add: gives_up_def fun_eq_iff)

text \<open>The ways in which the requests of a run may give a name up.\<close>

definition given_up ::
  "('c, 'd, 'p) libraries \<Rightarrow> 'd app \<Rightarrow> ('k, 's) env \<Rightarrow> (header_map \<times> route) list \<Rightarrow> string \<Rightarrow> string \<Rightarrow> string \<Rightarrow> bool" where
  "given_up lib app env rs dn u key \<longleftrightarrow> gives_up env (signatures lib app rs) dn u key \<or>
     (\<exists>body scopes. granted lib app rs (internal_request.TransferReq body) scopes \<and> SCOPE_BLINK_TRANSFERS_WRITE \<in> scopes \<and>
        hands_over (li_tokens lib) (ev_crypto env) body dn key)"

lemma given_up_mono: "given_up lib app env rs dn u key \<Longrightarrow> set rs \<subseteq> set qs \<Longrightarrow> given_up lib app env qs dn u key"
proof -
  assume g: "given_up lib app env rs dn u key" and sub: "set rs \<subseteq> set qs"
  have "signatures lib app rs \<subseteq> signatures lib app qs" using sub unfolding signatures_def by blast
  moreover have "granted lib app qs q scopes" if "granted lib app rs q scopes" for q scopes
    using that sub unfolding granted_def by blast
  ultimately show ?thesis using g gives_up_mono unfolding given_up_def by blast
qed


lemma route_keeps:
  assumes h: "undisturbed_name env dn u i key" and ids: "\<forall>k. ev_fresh_id env k \<noteq> i" and m: "mounted r"
    and no: "\<not> given_up lib app env [(headers, r)] dn u key" and p: "pays dn u i key (sv_db w)"
  shows "pays dn u i key (sv_db (serve_route lib app (live_env env app s) headers r w))"
proof (cases "certified r \<and> auth (li_tokens lib) (ap_ca_cert app) (ap_crl app) False headers \<noteq> Inr ()")
  case True
  with p show ?thesis by (simp add: serve_route_def)
next
  case False
  then have e: "serve_route lib app (live_env env app s) headers r w = handle_route lib app (live_env env app s) headers r w"
    unfolding serve_route_def by (rule if_not_P)
  have h': "undisturbed_name (live_env env app s) dn u i key" and ids': "\<forall>k. ev_fresh_id (live_env env app s) k \<noteq> i"
    using h ids by simp_all
  note reads = reads_keep [OF h' _ p]
  show ?thesis
  proof (cases r)
    case (ManageRoute q)
    then have "passed lib app headers" using False by (auto simp: passed_def)
    then have "carried q \<subseteq> signatures lib app [(headers, r)]" unfolding signatures_def ManageRoute by auto
    with no have "\<not> gives_up (live_env env app s) (carried q) dn u key"
      using gives_up_mono unfolding given_up_def live_gives_up by blast
    from serve_keeps [OF h' ids' this p] show ?thesis unfolding e unfolding ManageRoute handle_route.simps .
  next
    case (InternalRoute q)
    let ?r = "serve_internal (li_tokens lib) (live_env env app s) (li_phones lib) (ap_ca_cert app) (ap_crl app)
      (ap_internal_auth app) headers q w"
    have "pays dn u i key (sv_db (snd ?r))"
    proof (rule serve_internal_cases [OF refl, of "li_tokens lib" "live_env env app s" "li_phones lib" "ap_ca_cert app"
          "ap_crl app" "ap_internal_auth app" headers q w])
      assume "sv_db (snd ?r) = sv_db w"
      with p show ?thesis by simp
    next
      fix c w1
      assume a: "auth (li_tokens lib) (ap_ca_cert app) (ap_crl app) False headers = Inr ()"
          "token_grants (li_tokens lib) (ap_internal_auth app) headers (pn_scopes c)" "sv_db w1 = sv_db w"
        and run: "?r = run_internal (li_tokens lib) (live_env env app s) (li_phones lib) c q w1"
      have g: "granted lib app [(headers, r)] q (pn_scopes c)" using a(1,2) by (auto simp: granted_def passed_def InternalRoute)
      have "pays dn u i key (sv_db (snd (run_internal (li_tokens lib) (live_env env app s) (li_phones lib) c q w1)))"
      proof (rule run_internal_keeps [OF h'])
        show "pays dn u i key (sv_db w1)" using p a(3) by simp
      next
        fix body
        assume "q = internal_request.TransferReq body" "SCOPE_BLINK_TRANSFERS_WRITE \<in> pn_scopes c"
        with g no show "\<not> hands_over (li_tokens lib) (ev_crypto (live_env env app s)) body dn key"
          by (auto simp: given_up_def)
      qed
      then show ?thesis by (simp add: run)
    qed
    then show ?thesis unfolding e unfolding InternalRoute handle_route.simps .
  next
    case (PayRoute q)
    show ?thesis
      unfolding e unfolding PayRoute handle_route.simps by (rule pays_served_payment [OF serve_pay_served h' p])
  next
    case (AvailableRoute host i)
    show ?thesis unfolding e unfolding AvailableRoute handle_route.simps by (rule reads [OF availability_reads(1)])
  next
    case (AvailableForPubkeyRoute host k q)
    show ?thesis unfolding e unfolding AvailableForPubkeyRoute handle_route.simps by (rule reads [OF availability_reads(2)])
  next
    case (DiscoverRoute host i)
    show ?thesis unfolding e unfolding DiscoverRoute handle_route.simps by (rule reads [OF writes_lnurl_pay])
  next
    case HealthRoute
    show ?thesis unfolding e unfolding HealthRoute handle_route.simps by (rule p)
  qed
qed

lemma no_signature: "\<not> gives_up env {} dn u key"
  by (auto simp: gives_up_def signed_by_def)

lemma step_keeps:
  assumes st: "system_step lib app env s qs s'" and h: "undisturbed_name env dn u i key"
    and ids: "\<forall>k. ev_fresh_id env k \<noteq> i" and no: "\<not> given_up lib app env qs dn u key"
    and p: "pays dn u i key (sv_db (sy_server s))"
  shows "pays dn u i key (sv_db (sy_server s'))"
proof -
  let ?e = "live_env env app s"
  have h': "undisturbed_name ?e dn u i key" and ids': "\<forall>k. ev_fresh_id ?e k \<noteq> i" using h ids by simp_all
  show ?thesis
    using st
  proof cases
    case (request r headers)
    with route_keeps [OF h ids request(3) _ p] no show ?thesis by simp
  next
    case (spawned j)
    have "pays dn u i key (sv_db (run_waiting ?e j (sy_server s)))"
      unfolding run_waiting_def
      by (rule keepsD [OF authorised_keeps [OF h' ids' no_signature run_spawned_writes]]) (simp add: p)
    with spawned show ?thesis by simp
  next
    case prune
    have "keeps (pays dn u i key) (db_write ?e (\<lambda>_. PruneClaims))" by (rule keeps_op [OF h']) simp
    from keepsD [OF this p] prune show ?thesis by (simp add: prune_round_def)
  next
    case receipts
    with pays_served_payment [OF receipt_round_payment h' p] show ?thesis by simp
  next
    case (processor x w)
    with pays_served_payment [OF processor_payment [OF processor(3)] h' p] show ?thesis by simp
  next
    case (domains ds w)
    have "writes ?e no_step (db_read ?e (\<lambda>d. Inr (list_domains d)))" by (intro writes_rules)
    from reads_keep [OF h' this p] domains show ?thesis
      by (auto simp: refresh_domains_def split: prod.splits sum.splits if_splits)
  qed
qed

lemma run_keeps:
  assumes "system_run lib app env s rs s'" "undisturbed_name env dn u i key" "\<forall>k. ev_fresh_id env k \<noteq> i"
    "\<not> given_up lib app env rs dn u key" "pays dn u i key (sv_db (sy_server s))"
  shows "pays dn u i key (sv_db (sy_server s'))"
  using assms
proof (induction rule: system_run.induct)
  case (more s rs s1 qs s2)
  have "\<not> given_up lib app env rs dn u key" "\<not> given_up lib app env qs dn u key"
    using more.prems(3) given_up_mono [of lib app env rs dn u key "rs @ qs"] given_up_mono [of lib app env qs dn u key "rs @ qs"]
    by auto
  with step_keeps [OF more.hyps(2)] more.IH more.prems show ?case by blast
qed

text \<open>
  C1: a name stays with its key. Once a name pays a Spark key, then, whatever requests of any kind
  arrive, whatever the background loops do and whatever calls fail, it goes on paying that key from the same account
  until the key itself has signed a message that gives it up, or an internal transfer hands
  the key another name on the domain. What is asked of the other writers is that they leave
  the name with its key, and of the generator of ids that it does not repeat that of the account.
\<close>

theorem name_kept:
  assumes "system_run lib app env s rs s'" and "accounts_inv (sv_db (sy_server s))"
    and "resolve_recipient_by_identifier dn u (sv_db (sy_server s)) = Inr (Some r)" "rr_spark_pubkey r = Some key"
    and "\<forall>k. ev_fresh_id env k \<noteq> rr_account_id r" "undisturbed_name env dn u (rr_account_id r) key"
    and "\<not> given_up lib app env rs dn u key"
  shows "\<exists>r'. resolve_recipient_by_identifier dn u (sv_db (sy_server s')) = Inr (Some r') \<and>
    rr_account_id r' = rr_account_id r \<and> rr_provider r' = Spark \<and> rr_spark_pubkey r' = Some key"
  using pays_resolves [OF run_keeps [OF assms(1,6,5,7) resolves_pays [OF assms(2-4)]]] .

definition demo_app :: "string app" where
  "demo_app = \<lparr>ap_config = demo_config, ap_domains = [''x.org''], ap_spark_enabled = True, ap_blink_enabled = True,
     ap_blink_graphql_endpoint = None, ap_internal_auth = Some demo_authority, ap_ca_cert = None, ap_crl = {},
     ap_resolver = resolver_new ''https://proxycheck.io/v2'' None, ap_processor = initial_processor [],
     ap_delivery_ttl_ms = 1, ap_registration = None\<rparr>"

definition demo_libraries :: "(bytes, string, string) libraries" where
  "demo_libraries = \<lparr>li_tokens = demo_tokens, li_phones = demo_phone_lib, li_ssp_payload = \<lambda>_. None\<rparr>"

definition other_ids :: "(bytes, bytes) env" where
  "other_ids = demo_env\<lparr>ev_fresh_id := \<lambda>_. ''other''\<rparr>"

definition demo_named :: system where
  "demo_named = started_system demo_app (snd (serve demo_env demo_register_req demo_server))"

definition demo_rival :: register_request where
  "demo_rival = \<lparr>rq_username = ''Alice'', rq_signature = ''02bbregister x.org alice hi 900'',
     rq_timestamp = 900, rq_description = ''hi''\<rparr>"

abbreviation demo_rival_req :: "header_map \<times> route" where
  "demo_rival_req \<equiv> (Map.empty, ManageRoute (RegisterReq ''X.org'' ''02bb'' (\<lambda>_. None) demo_rival))"

lemma demo_named_resolves:
  "case resolve_recipient_by_identifier ''x.org'' ''alice'' (sv_db (sy_server demo_named)) of
     Inr (Some r) \<Rightarrow> rr_spark_pubkey r = Some ''02aa'' \<and> rr_account_id r \<noteq> ''other'' | _ \<Rightarrow> False"
  by code_simp

lemma demo_named_inv: "accounts_inv (sv_db (sy_server demo_named))"
proof -
  have "served demo_env (account_writes demo_env) (sv_db demo_server) (sv_db (snd (serve demo_env demo_register_req demo_server)))"
    by (rule served_authorised_mono [OF serve_served subset_UNIV])
  then have "accounts_inv (sv_db (snd (serve demo_env demo_register_req demo_server)))"
    by (rule served_invariant) (use op_step_inv accounts_inv_empty in \<open>auto simp: demo_env_def demo_server_def\<close>)
  then show ?thesis by (simp add: demo_named_def started_system_def)
qed

lemma demo_rival_not_signed: "\<not> signed_by other_ids {(''02bb'', x)} ''02aa'' m"
proof
  assume "signed_by other_ids {(''02bb'', x)} ''02aa'' m"
  then obtain pk sg where "parse_signed_request demo_crypto ''02bb'' x = Inr (pk, sg)" "public_key_to_string demo_crypto pk = ''02aa''"
    by (auto simp: signed_by_def other_ids_def demo_env_def)
  then have "public_key_to_string demo_crypto (as_bytes ''02bb'') = ''02aa''"
    by (auto simp: parse_signed_request_def parse_pubkey_def bind_res_Inr_iff demo_crypto_def)
  moreover have "public_key_to_string demo_crypto (as_bytes ''02bb'') = ''02bb''" by code_simp
  ultimately show False by simp
qed

theorem name_kept_witness:
  "\<exists>r'. resolve_recipient_by_identifier ''x.org'' ''alice''
      (sv_db (serve_route demo_libraries demo_app (live_env other_ids demo_app demo_named) Map.empty (snd demo_rival_req) (sy_server demo_named))) =
      Inr (Some r') \<and> rr_spark_pubkey r' = Some ''02aa''"
proof -
  obtain r where r: "resolve_recipient_by_identifier ''x.org'' ''alice'' (sv_db (sy_server demo_named)) = Inr (Some r)"
    "rr_account_id r \<noteq> ''other''" "rr_spark_pubkey r = Some ''02aa''"
    using demo_named_resolves by (auto split: sum.splits option.splits)
  have run: "system_run demo_libraries demo_app other_ids demo_named ([] @ [demo_rival_req])
    (demo_named\<lparr>sy_server := serve_route demo_libraries demo_app (live_env other_ids demo_app demo_named) Map.empty (snd demo_rival_req) (sy_server demo_named)\<rparr>)"
    unfolding snd_conv by (rule more, rule idle, rule request, simp)
  have "signatures demo_libraries demo_app ([] @ [demo_rival_req]) \<subseteq> {(''02bb'', ''02bbregister x.org alice hi 900'')}"
    by (auto simp: signatures_def demo_rival_def)
  moreover have "\<not> gives_up other_ids {(''02bb'', ''02bbregister x.org alice hi 900'')} ''x.org'' ''alice'' ''02aa''"
    by (simp add: gives_up_def demo_rival_not_signed)
  ultimately have "\<not> gives_up other_ids (signatures demo_libraries demo_app ([] @ [demo_rival_req])) ''x.org'' ''alice'' ''02aa''"
    using gives_up_mono by blast
  then have kept: "\<not> given_up demo_libraries demo_app other_ids ([] @ [demo_rival_req]) ''x.org'' ''alice'' ''02aa''"
    by (simp add: given_up_def granted_def)
  have "\<forall>k. ev_fresh_id other_ids k \<noteq> rr_account_id r"
    "undisturbed_name other_ids ''x.org'' ''alice'' (rr_account_id r) ''02aa''"
    using r(2) by (simp_all add: undisturbed_name_def other_ids_def demo_env_def)
  from name_kept [OF run demo_named_inv r(1,3) this kept] show ?thesis by auto
qed

section \<open>The whole database\<close>

text \<open>An account operation leaves the invoices alone.\<close>

lemma move_invoices: "move_identifier now dm v source j de d = Inr d' \<Longrightarrow> invoices d' = invoices d"
  by (drule move_identifier_ok) simp

lemma destination_invoices: "destination_account now fresh k d = Inr (j, d') \<Longrightarrow> invoices d' = invoices d"
  by (auto simp: destination_account_def bind_res_Inr_iff insert_account_def insert_spark_account_def
      split: option.splits if_splits)

lemma tail_invoices: "transfer_tail now fresh dm v source k de d = Inr d' \<Longrightarrow> invoices d' = invoices d"
  by (auto simp: transfer_tail_def bind_res_Inr_iff dest!: move_invoices destination_invoices)

lemma operation_invoices:
  "upsert_spark_registration now fresh reg d = Inr d' \<Longrightarrow> invoices d' = invoices d"
  "delete_spark_registration now dm k v cl d = Inr d' \<Longrightarrow> invoices d' = invoices d"
  "transfer_identifier now fresh t d = Inr d' \<Longrightarrow> invoices d' = invoices d"
  "transfer_blink_identifier_to_spark now fresh bt d = Inr d' \<Longrightarrow> invoices d' = invoices d"
  "create_blink_account now fresh acct d = Inr d' \<Longrightarrow> invoices d' = invoices d"
  "update_blink_default_wallet now i x d = Inr (u, d') \<Longrightarrow> invoices d' = invoices d"
  "invoices (snd (upsert_spark_mode now fresh m d)) = invoices d"
proof -
  show "upsert_spark_registration now fresh reg d = Inr d' \<Longrightarrow> invoices d' = invoices d"
    by (erule upsert_spark_registration_ok) (simp add: write_registration_eq claim_or_refuse_frame)
  show "delete_spark_registration now dm k v cl d = Inr d' \<Longrightarrow> invoices d' = invoices d"
    by (erule delete_spark_registration_ok) (simp add: claim_or_refuse_frame)
  show "transfer_identifier now fresh t d = Inr d' \<Longrightarrow> invoices d' = invoices d"
    by (erule transfer_identifier_ok) (simp add: tail_invoices claim_or_refuse_frame)
  show "transfer_blink_identifier_to_spark now fresh bt d = Inr d' \<Longrightarrow> invoices d' = invoices d"
    by (drule transfer_blink_ok(3)) (rule tail_invoices)
  show "create_blink_account now fresh acct d = Inr d' \<Longrightarrow> invoices d' = invoices d"
    by (erule create_blink_account_ok) simp
  show "update_blink_default_wallet now i x d = Inr (u, d') \<Longrightarrow> invoices d' = invoices d"
    unfolding update_blink_default_wallet_def Let_def by (auto split: option.splits list.splits)
  show "invoices (snd (upsert_spark_mode now fresh m d)) = invoices d"
  proof (cases "ensure_spark_account now fresh (mu_pubkey m) d")
    case (Inr d1)
    from ensure_spark_account_ok [OF Inr] have "invoices d1 = invoices d" by auto
    with Inr show ?thesis by (simp add: upsert_spark_mode_def)
  qed (simp add: upsert_spark_mode_def)
qed

lemma run_op_invoices:
  assumes inv: "accounts_inv d"
  shows "invoices (snd (run_op b now op d)) = invoices d"
proof -
  note tx = commit_cases [where Q = "\<lambda>x. invoices x = invoices d", OF refl]
  show ?thesis
  proof (cases op)
    case (Transfer fresh t)
    then show ?thesis
      by (cases b) (simp_all add: transfer_identifier_backends [OF inv] tx operation_invoices)
  next
    case (TransferBlink fresh t)
    then show ?thesis
      by (cases b) (simp_all add: transfer_blink_backends [OF inv] tx operation_invoices)
  next
    case (SetDefaultWallet j x)
    have "invoices d' = invoices d" if "map_sum id snd (update_blink_default_wallet now j x d) = Inr d'" for d'
      using map_sum_snd_Inr [OF that] operation_invoices(6) by blast
    with SetDefaultWallet show ?thesis by (cases b) (simp_all add: update_wallet_backends [OF inv] tx)
  qed (simp_all add: tx operation_invoices refresh_spark_country_evidence_def
      set_spark_mode_enhanced_if_unset_def delete_expired_signed_messages_def)
qed

lemma system_write_keeps:
  assumes "system_write lib app env rs k d d'" "accounts_inv d" "preimages_ok (ev_crypto env) d"
  shows "accounts_inv d'" "preimages_ok (ev_crypto env) d'"
proof -
  have "accounts_inv d' \<and> preimages_ok (ev_crypto env) d'"
    using assms(1) unfolding system_write_def
  proof
    assume "payment_step (ev_crypto env) k d d'"
    with assms(2,3) accounts_inv_cong [of d' d] show ?thesis by (simp add: payment_step_def account_tables_def)
  next
    assume op: "op_step env (permitted lib app env rs) k d d'"
    then have "invoices d' = invoices d" using run_op_invoices [OF assms(2)] by (auto simp: op_step_def)
    with op_step_inv [OF assms(2) op] assms(3) preimages_ok_frame show ?thesis by blast
  qed
  then show "accounts_inv d'" "preimages_ok (ev_crypto env) d'" by simp_all
qed


definition demo_paying :: system where
  "demo_paying = started_system demo_app preimage_server"


end
