(* ===== verification/Spec2Isabelle.thy ===== *)
theory Spec2Isabelle
  imports
    Lnurl_Accounts_Thms
    Lnurl_Payments_Thms
    Lnurl_Account_Routes_Thms
    Lnurl_Pay_Thms
    Lnurl_Zap_Thms
    Lnurl_Webhook
    Lnurl_Settlement_Thms
    Lnurl_Internal_Thms
    Lnurl_Background_Thms
    Lnurl_Startup_Thms
    Lnurl_Postgres_Thms
    Lnurl_Skip_Locked_Thms
    Lnurl_Spark_Client_Thms
    Lnurl_System_Thms
begin

text \<open>
  The Blink LNURL server, \<open>src/src/\<close>, as shallowly embedded HOL functions, with the theorems that say
  why it is correct. File names below are relative to that directory.

  \<^bold>\<open>The program.\<close> The server maps Lightning addresses (names and phone numbers on a domain) to
  recipients, which are Spark wallets or Blink accounts, and answers the LNURL-pay protocol for them.
  Wallets manage their Spark registrations with signed requests (\<open>routes/account.rs\<close>,
  \<open>routes/signed.rs\<close>); Blink Core manages Blink accounts over an internal API with bearer tokens
  (\<open>routes/internal.rs\<close>, \<open>internal_auth.rs\<close>); anyone may ask for an invoice (\<open>routes/lnurl_pay.rs\<close>),
  which a provider issues (\<open>providers.rs\<close>). A payment is reported by the wallet, by a webhook of
  the provider (\<open>routes/webhook.rs\<close>) or found out on demand, and always ends in \<open>invoice_paid.rs\<close>, which
  stores the preimage and queues a zap receipt (\<open>zap.rs\<close>) and a webhook delivery
  (\<open>webhook_notify.rs\<close>). Two background processors empty the queues (\<open>zap.rs\<close>,
  \<open>webhooks/background.rs\<close>). All of them share one database, SQLite or PostgreSQL, through the
  repository (\<open>sqlite/repository.rs\<close>, \<open>postgresql/repository.rs\<close>).

  \<^bold>\<open>Theories and sources.\<close>
  \<^item> \<open>Lnurl_Prelude\<close>: results (\<open>'e + 'a\<close>), Rust's saturating and wrapping integers, the string functions
    of its standard library, and tables as lists of rows with the SQL statements on them. A collection
    \<open>table_simps\<close> carries the proofs about tables.
  \<^item> \<open>Lnurl_Schema\<close>: \<open>repository.rs\<close>, the structs of \<open>zap.rs\<close> and \<open>webhooks/repository.rs\<close>, and the
    migrations. The database is the record \<open>db\<close> of its tables.
  \<^item> \<open>Lnurl_Accounts\<close>, \<open>Lnurl_Invoices\<close>, \<open>Lnurl_Queues\<close>: the repository, a function per method. A method
    in one transaction is a function \<open>db \<Rightarrow> repository_error + db\<close>, where \<open>Inl\<close> rolls back. Where the
    PostgreSQL method differs it is a second function with the suffix \<open>_pg\<close>. \<open>Lnurl_Accounts_Inv\<close>,
    \<open>Lnurl_Accounts_Props\<close> and \<open>Lnurl_Accounts_Thms\<close> hold the invariant \<open>accounts_inv\<close>, the transition
    system \<open>account_op\<close> of all writing methods and their properties; \<open>Lnurl_Payments_Thms\<close> those
    of settlement and of the queues. The locale \<open>claim_queue\<close> states what a queue with leases
    promises; it is interpreted on both queues.
  \<^item> \<open>Lnurl_Postgres\<close> and its theorems: the account transactions of \<open>postgresql/repository.rs\<close> statement by
    statement, with other transactions between the statements. \<open>Lnurl_Skip_Locked\<close> and its theorems: the
    takes of both queues there row by row, by several replicas at once.
  \<^item> \<open>Lnurl_Identifier\<close>: \<open>identifier.rs\<close> and the parsing of public identifiers. \<open>Lnurl_Limits\<close>:
    \<open>rate_limit.rs\<close>. \<open>Lnurl_Http\<close>: JSON, headers, \<open>country.rs\<close>. \<open>Lnurl_Backoff\<close>: the retry delays,
    computed in a model of \<open>f64\<close>.
  \<^item> \<open>Lnurl_Server\<close>: \<open>state.rs\<close>. The mutable state is the record \<open>server\<close>, everything outside the
    program the record \<open>env\<close>; handlers are actions \<open>server \<Rightarrow> ('e + 'a) \<times> server\<close>.
  \<^item> \<open>Lnurl_Signed\<close>: \<open>routes/signed.rs\<close>, \<open>signed_message.rs\<close>. \<open>Lnurl_Account_Routes\<close> and its theorems:
    \<open>routes/account.rs\<close>. \<open>Lnurl_Providers\<close>: \<open>providers.rs\<close> and the Blink client. \<open>Lnurl_Invoice_Paid\<close>:
    \<open>invoice_paid.rs\<close>, \<open>webhook_notify.rs\<close>. \<open>Lnurl_Webhook\<close>: \<open>routes/webhook.rs\<close>. \<open>Lnurl_Pay\<close>:
    \<open>routes/lnurl_pay.rs\<close>. \<open>Lnurl_Zap\<close>: \<open>routes/zap.rs\<close>, \<open>zap.rs\<close>. \<open>Lnurl_Pay_Thms\<close>,
    \<open>Lnurl_Settlement_Thms\<close> and \<open>Lnurl_Zap_Thms\<close> hold their properties.
  \<^item> \<open>Lnurl_Internal\<close> and its theorems: \<open>auth.rs\<close>, \<open>internal_auth.rs\<close>, \<open>routes/internal.rs\<close>, and how
    \<open>main.rs\<close> mounts them. \<open>Lnurl_Background\<close> and its theorems: \<open>webhooks/background.rs\<close>,
    \<open>webhooks/config.rs\<close>, \<open>domains.rs\<close>. \<open>Lnurl_Startup\<close> and its theorems: \<open>main.rs\<close> from the merged
    arguments on, with the choice of the database, the migrations-only mode and the order of its errors.
  \<^item> \<open>Lnurl_Spark_Client\<close> and its theorems: the wrapper around the Spark SDK (\<open>crates/spark-client\<close>), and the
    signed payload that \<open>bin/e2e_auth.rs\<close> builds, run against the routes of the server.
  \<^item> \<open>Lnurl_System\<close> and its theorems: the running server. The routes as \<open>main.rs\<close> mounts them, with the
    certificate check in front of some, and the loops that run beside them, as one step relation on one
    state, \<open>system_step\<close>. \<open>Lnurl_Ownership\<close>: to whom a name belongs, across the account operations.

  \<^bold>\<open>Concurrency and faults.\<close> Every \<open>await\<close> on the database or a service is a call with a number,
  \<open>sv_step\<close>. Before call \<open>k\<close> the other requests and replicas have done \<open>ev_others env k\<close> to the
  database; \<open>ev_fault env k\<close> says whether the call is served, lost before the database, or served with
  its reply lost; the clocks are read at \<open>k\<close>. A theorem that does not restrict these functions holds
  for every interleaving and every failure. \<open>writes env G m\<close> says that, besides what others do, the
  action \<open>m\<close> changes the database only as \<open>G\<close> allows; its rules are compositional, and invariants
  of whole handlers follow from it by \<open>served_invariant\<close>. Some theorems assume instead that nobody
  else writes (\<open>ev_others\<close> is the identity) or that no call is lost: these say what one request does.
  In this model a repository method is one step. \<open>Lnurl_Postgres\<close> looks inside: its connections run at
  \<open>READ COMMITTED\<close>, where others may commit between two statements; \<open>others k\<close> is what they do before
  statement \<open>k\<close>, and rely conditions say what they may do. SQLite serialises writing transactions.
  \<open>Lnurl_Skip_Locked\<close> models \<open>FOR UPDATE SKIP LOCKED\<close> as a step relation: a take reads its candidates, locks
  them one at a time, skips what is locked or has changed, and commits; the laws of the queues are the
  locales \<open>skip_locked_queue\<close> and \<open>limited_queue\<close>.
  The webhook processor is a step relation in which polls, ends of tasks, refreshes and cleanups
  interleave freely. In \<open>system_step\<close> whole requests and turns of the loops follow each other in any order;
  requests served at the same time are part of \<open>ev_others\<close>.

  \<^bold>\<open>What the theorems show.\<close>
  \<^item> The whole server: a name goes on paying its key, whatever is requested, until the key signs a message
    that gives it up or an internal transfer hands the key another name; the database changes only by
    steps of payments, which leave the accounts alone, and by account operations that a request of the run
    authorised; in every run the accounts stay consistent and no stored preimage is forged.
  \<^item> Accounts: the invariant holds in every reachable state; names resolve to their owner; each
    operation has its effect and no other; a signed statement acts at most once; the backends agree. The
    statements of the PostgreSQL transactions, run alone, are the atomic methods; among others a change
    that commits gives the name to the requested key.
  \<^item> Routes: writes need a fresh signature of the key concerned over a message that determines the
    operation, or a token with the scope for it; a request that succeeded is refused when replayed.
  \<^item> Payments: an issued invoice has the amount asked, commits to the metadata shown, and is
    recorded; stored preimages always hash to their payment hash; \<open>verify\<close> shows only such preimages;
    settlement records exactly what it should.
  \<^item> Queues and processors: items are leased, also to replicas that take at the same time; the drain of zap receipts terminates; at most twenty
    deliveries per domain run and no slot is lost; the processor implements an abstract queue; a
    ready delivery gets through, and once only; the backoff is bounded.
  \<^item> Client and server agree: with the payloads the client signs, a name is registered, found, moved to
    another key and given up, and each of these requests is accepted.
  \<^item> Limits, country evidence, startup: window bounds; the shape of the evidence; the program only
    migrates when asked to, and otherwise serves its configured domains; it shares its webhook secret with
    its replicas, and goes on registering its webhook until that succeeds.
  Some theorems show where the code departs from its intent: a repeated hash in a batch on PostgreSQL,
  two usernames of one account after concurrent registrations on PostgreSQL,
  the zap receipt lost with a lost reply, the internal API shadowed by the certificate check, usernames
  that start with \<open>00\<close>, and the untrimmed revocation list.

  \<^bold>\<open>Bounds and fuel.\<close> No fuel is used. Loops over data are structural recursion; the string loops
  and \<open>powi\<close> terminate by a measure; the drain of zap receipts and the registration of the webhook,
  which may run for ever, are partial functions whose returning is proved. Machine integers are words
  (\<open>u32\<close>, \<open>u64\<close>) or, for database columns and milliseconds, integers with the saturation of \<open>i64\<close> and
  \<open>i32\<close> written out. Strings are over the scalar values U+0000 to U+00FF, the characters of HOL.

  \<^bold>\<open>Parameters.\<close> Third-party code is a field of a record that the definitions take: cryptography and
  encodings (\<open>crypto_lib\<close>), the Breez message builders (\<open>breez_lib\<close>), the phone number crate
  (\<open>phone_lib\<close>), invoices, nostr, the Spark wallet and the replies of the Blink API (\<open>pay_lib\<close>),
  certificates and tokens (\<open>token_lib\<close>), the Spark SDK (\<open>spark_sdk\<close>), what startup fetches
  (\<open>startup_lib\<close>) and the connection pools with their migrations (\<open>database_lib\<close>). Where a property
  relies on such code the law is a hypothesis, and the witness discharges it for a concrete instance.

  \<^bold>\<open>Not modelled.\<close> Logging, timers, the HTTP framework's routing and decoding of bodies (requests are
  records of their decoded fields), the parsing of arguments and of the configuration file, the inside
  of the connection pools and of the migrations' SQL, and the mock servers, fixtures and helpers of the
  tests (\<open>bin/\<close> apart from the signed payload, \<open>routes/test_support.rs\<close>).
\<close>

end
